(* ===== verification/Prelude.thy ===== *)
theory Prelude
  imports
    Main
    "HOL-Library.Word"
    "HOL-Library.Multiset"
    "HOL-Library.Sublist"
    "HOL-Library.Char_ord"
    "HOL-Library.List_Lexorder"
    "HOL-Library.Product_Lexorder"
begin

text \<open>
  Shared vocabulary of the development: machine integers at the width the Rust code gives them,
  the checked and saturating operations of the standard library, the slice and deque operations
  the components use (binary search, first position, removal by index, adjacent windows), runs of
  a deterministic machine over a list of inputs, and the contracts (locales) that several
  machines meet. Every component theory imports this one.
\<close>

section \<open>Types and proof collections\<close>

type_synonym u8 = "8 word"
type_synonym u16 = "16 word"
type_synonym u32 = "32 word"
type_synonym u64 = "64 word"

text \<open>
  An \<open>i32\<close> of the source is an \<open>int\<close> here: the code only compares such values and steps one
  counter that is guarded at \<open>i32::MAX\<close>. A \<open>usize\<close> that counts elements is a \<open>nat\<close>. A
  \<open>String\<close> is the list of its UTF-8 bytes, so \<open>length\<close> is Rust's \<open>len\<close> and the order of
  lists of characters is Rust's byte order on strings.
\<close>

type_synonym i32 = int
type_synonym usize = nat

named_theorems machine_defs \<open>definitions a machine step unfolds to\<close>
named_theorems checked_ops \<open>rules for checked and saturating arithmetic\<close>

section \<open>Checked arithmetic\<close>

definition checked_add :: "'a::len word \<Rightarrow> 'a word \<Rightarrow> 'a word option" where
  "checked_add a b = (if unat a + unat b < 2 ^ LENGTH('a) then Some (a + b) else None)"

definition checked_sub :: "'a::len word \<Rightarrow> 'a word \<Rightarrow> 'a word option" where
  "checked_sub a b = (if b \<le> a then Some (a - b) else None)"

definition saturating_sub :: "'a::len word \<Rightarrow> 'a word \<Rightarrow> 'a word" where
  "saturating_sub a b = (if b \<le> a then a - b else 0)"

definition checked_shl :: "'a::len word \<Rightarrow> u32 \<Rightarrow> 'a word option" where
  "checked_shl a n = (if unat n < LENGTH('a) then Some (push_bit (unat n) a) else None)"

definition saturating_mul :: "'a::len word \<Rightarrow> 'a word \<Rightarrow> 'a word" where
  "saturating_mul a b = (if unat a * unat b < 2 ^ LENGTH('a) then a * b else - 1)"

definition div_ceil :: "'a::len word \<Rightarrow> 'a word \<Rightarrow> 'a word" where
  "div_ceil a b = (if a mod b \<noteq> 0 then a div b + 1 else a div b)"

text \<open>\<open>usize::checked_add\<close> on a 64-bit target.\<close>

definition usize_checked_add :: "usize \<Rightarrow> usize \<Rightarrow> usize option" where
  "usize_checked_add a b = (if a + b < 2 ^ 64 then Some (a + b) else None)"

lemma usize_checked_add_code [code]:
  "usize_checked_add a b = (if int a + int b < 18446744073709551616 then Some (a + b) else None)"
  by (simp add: usize_checked_add_def)

text \<open>Plain subtraction on \<open>usize\<close>: an underflow panics in a debug build and wraps around in a release build.\<close>

definition usize_sub :: "bool \<Rightarrow> usize \<Rightarrow> usize \<Rightarrow> usize option" where
  "usize_sub dbg a b =
     (if b \<le> a then Some (a - b) else if dbg then None else Some (2 ^ 64 + a - b))"

lemma usize_sub_Some [simp]: "b \<le> a \<Longrightarrow> usize_sub dbg a b = Some (a - b)"
  by (simp add: usize_sub_def)

lemma checked_add_code [code]:
  "checked_add a b = (let c = a + b in if c < a then None else Some c)"
  for a b :: "'a::len word"
proof -
  have "unat a + unat b < 2 ^ LENGTH('a) \<longleftrightarrow> \<not> a + b < a"
    by (simp add: no_olen_add_nat [symmetric] not_less)
  then show ?thesis by (simp add: checked_add_def Let_def)
qed

lemma checked_add_Some [checked_ops]:
  "checked_add a b = Some c \<longleftrightarrow> unat a + unat b < 2 ^ LENGTH('a) \<and> c = a + b"
  for a b c :: "'a::len word"
  by (auto simp: checked_add_def)

lemma checked_add_unat:
  "checked_add a b = Some c \<Longrightarrow> unat c = unat a + unat b"
  for a b c :: "'a::len word"
  by (auto simp: checked_add_def unat_word_ariths split: if_splits)

lemma checked_add_None [checked_ops]:
  "checked_add a b = None \<longleftrightarrow> 2 ^ LENGTH('a) \<le> unat a + unat b"
  for a b :: "'a::len word"
  by (auto simp: checked_add_def)

lemma checked_sub_unat:
  "checked_sub a b = Some c \<Longrightarrow> unat c = unat a - unat b \<and> unat b \<le> unat a"
  for a b c :: "'a::len word"
  by (auto simp: checked_sub_def unat_sub word_le_nat_alt split: if_splits)

lemma checked_add_one_less:
  assumes "checked_add a 1 = Some c"
  shows "a < c"
proof -
  have "unat c = unat a + unat (1 :: 'a::len word)"
    using assms by (rule checked_add_unat)
  then show ?thesis by (simp add: word_less_nat_alt)
qed

lemma unat_saturating_sub: "unat (saturating_sub a b) = unat a - unat b"
  for a b :: "'a::len word"
  by (auto simp: saturating_sub_def unat_sub word_le_nat_alt)

text \<open>Multiplication that saturates never exceeds the exact product and never wraps.\<close>

lemma unat_saturating_mul:
  "unat (saturating_mul a b) = min (unat a * unat b) (2 ^ LENGTH('a) - 1)"
  for a b :: "'a::len word"
proof (cases "unat a * unat b < 2 ^ LENGTH('a)")
  case True
  then show ?thesis by (auto simp: saturating_mul_def unat_word_ariths min_def)
next
  case False
  then have "(2::nat) ^ LENGTH('a) - 1 \<le> unat a * unat b" by simp
  with False show ?thesis
    by (simp add: saturating_mul_def unsigned_minus_1_eq_mask mask_eq_exp_minus_1 min_def)
qed

lemma unat_div_ceil_two:
  fixes a :: u64
  shows "unat (div_ceil a 2) = (unat a + 1) div 2"
proof -
  have m: "unat (a mod 2) = unat a mod 2" and d: "unat (a div 2) = unat a div 2"
    by (simp_all add: unat_mod unat_div)
  have "unat a < 2 ^ 64"
    using unsigned_less [of a, where ?'a = nat] by simp
  then have "unat (a div 2 + 1) = unat a div 2 + 1"
    by (simp add: unat_word_ariths d)
  moreover have "a mod 2 \<noteq> 0 \<longleftrightarrow> unat a mod 2 = 1"
    by (metis m unat_eq_zero not_mod_2_eq_1_eq_0)
  ultimately show ?thesis
    by (simp add: div_ceil_def d) presburger
qed

section \<open>Slices and deques\<close>

datatype ordering = Less | Equal | Greater

definition compare :: "'a::linorder \<Rightarrow> 'a \<Rightarrow> ordering" where
  "compare a b = (if a < b then Less else if a = b then Equal else Greater)"

text \<open>
  The loop of \<open>slice::binary_search_by\<close>: \<open>size\<close> halves until one candidate is left. The source
  only uses the found index, so the insertion point of a failed search is not kept.
\<close>

function binary_search_loop :: "('a \<Rightarrow> ordering) \<Rightarrow> 'a list \<Rightarrow> nat \<Rightarrow> nat \<Rightarrow> nat" where
  "binary_search_loop f xs base sz =
     (if 1 < sz
      then let half = sz div 2; mid = base + half
           in binary_search_loop f xs (if f (xs ! mid) = Greater then base else mid) (sz - half)
      else base)"
  by pat_completeness auto
termination
  by (relation "measure (\<lambda>(f, xs, base, sz). sz)") auto

declare binary_search_loop.simps [simp del]

definition binary_search_by :: "('a \<Rightarrow> ordering) \<Rightarrow> 'a list \<Rightarrow> nat option" where
  "binary_search_by f xs =
     (if xs = [] then None
      else let base = binary_search_loop f xs 0 (length xs)
           in if f (xs ! base) = Equal then Some base else None)"

definition remove_at :: "nat \<Rightarrow> 'a list \<Rightarrow> 'a list" where
  "remove_at i xs = take i xs @ drop (Suc i) xs"

fun position :: "('a \<Rightarrow> bool) \<Rightarrow> 'a list \<Rightarrow> nat option" where
  "position P [] = None"
| "position P (x # xs) = (if P x then Some 0 else map_option Suc (position P xs))"

text \<open>\<open>iter_mut().find(..)\<close> followed by a mutation of the element found.\<close>

fun update_first :: "('a \<Rightarrow> bool) \<Rightarrow> ('a \<Rightarrow> 'a) \<Rightarrow> 'a list \<Rightarrow> 'a list" where
  "update_first P f [] = []"
| "update_first P f (x # xs) = (if P x then f x # xs else x # update_first P f xs)"

text \<open>\<open>windows(2).find(..)\<close>: the first element of the first adjacent pair that is related.\<close>

fun find_adjacent :: "('a \<Rightarrow> 'a \<Rightarrow> bool) \<Rightarrow> 'a list \<Rightarrow> 'a option" where
  "find_adjacent R (x # y # zs) = (if R x y then Some x else find_adjacent R (y # zs))"
| "find_adjacent R _ = None"

text \<open>Collecting an iterator up to a limit; \<open>None\<close> where the source returns its capacity error.\<close>

fun collect_bounded :: "nat \<Rightarrow> 'a list \<Rightarrow> 'a list \<Rightarrow> 'a list option" where
  "collect_bounded limit acc [] = Some acc"
| "collect_bounded limit acc (x # xs) =
     (if length acc = limit then None else collect_bounded limit (acc @ [x]) xs)"

fun collect_unique :: "nat \<Rightarrow> nat \<Rightarrow> 'a list \<Rightarrow> 'a list \<Rightarrow> 'a list option" where
  "collect_unique limit inspected unique [] = Some unique"
| "collect_unique limit inspected unique (x # xs) =
     (if inspected = limit then None
      else collect_unique limit (Suc inspected)
             (if x \<in> set unique then unique else unique @ [x]) xs)"

text \<open>\<open>collect::<Result<Vec<_>, _>>()\<close>: the first error, or all values.\<close>

fun collect_results :: "('e + 'a) list \<Rightarrow> 'e + 'a list" where
  "collect_results [] = Inr []"
| "collect_results (Inl e # rs) = Inl e"
| "collect_results (Inr x # rs) = map_sum id (Cons x) (collect_results rs)"

subsection \<open>Facts about slices\<close>

lemma binary_search_loop_range:
  assumes "0 < sz" "base + sz \<le> length xs"
  shows "binary_search_loop f xs base sz < base + sz"
  using assms
proof (induction f xs base sz rule: binary_search_loop.induct)
  case (1 f xs base sz)
  show ?case
  proof (cases "1 < sz")
    case True
    define half where "half = sz div 2"
    have h: "0 < half" "half < sz" using True by (auto simp: half_def)
    define b where "b = (if f (xs ! (base + half)) = Greater then base else base + half)"
    have "binary_search_loop f xs b (sz - half) < b + (sz - half)"
      using "1.IH" [OF True half_def refl] "1.prems" h
      by (cases "f (xs ! (base + half)) = Greater") (auto simp: b_def)
    moreover have "b + (sz - half) \<le> base + sz" using h by (simp add: b_def)
    moreover have "binary_search_loop f xs base sz = binary_search_loop f xs b (sz - half)"
      unfolding b_def half_def using True by (simp add: binary_search_loop.simps [of f xs base sz] Let_def)
    ultimately show ?thesis by simp
  next
    case False
    then show ?thesis using "1.prems" by (simp add: binary_search_loop.simps [of f xs base sz])
  qed
qed

text \<open>On a strictly sorted table the loop ends at the index of the key, if the key is present.\<close>

lemma binary_search_loop_finds:
  assumes "sorted_wrt (<) (map key xs)" "base + sz \<le> length xs"
    and "base \<le> i" "i < base + sz" "key (xs ! i) = k"
  shows "binary_search_loop (\<lambda>e. compare (key e) k) xs base sz = i"
  using assms
proof (induction "\<lambda>e. compare (key e) k" xs base sz rule: binary_search_loop.induct)
  case (1 xs base sz)
  show ?case
  proof (cases "1 < sz")
    case True
    define half where "half = sz div 2"
    have h: "0 < half" "half < sz" using True by (auto simp: half_def)
    have len: "base + half < length xs" "i < length xs" using "1.prems" h by auto
    have lt: "a < b \<Longrightarrow> b < length xs \<Longrightarrow> key (xs ! a) < key (xs ! b)" for a b
      using "1.prems"(1) by (simp add: sorted_wrt_iff_nth_less)
    define b where
      "b = (if compare (key (xs ! (base + half))) k = Greater then base else base + half)"
    have "b \<le> i \<and> i < b + (sz - half)"
    proof (cases "i < base + half")
      case True
      then have "k < key (xs ! (base + half))" using lt [OF True len(1)] "1.prems"(5) by simp
      then show ?thesis using True "1.prems" h by (auto simp: b_def compare_def half_def)
    next
      case False
      then have "key (xs ! (base + half)) \<le> k"
        using lt [of "base + half" i] len "1.prems"(5) by (cases "i = base + half") auto
      then show ?thesis using False "1.prems" h by (auto simp: b_def compare_def)
    qed
    then have "binary_search_loop (\<lambda>e. compare (key e) k) xs b (sz - half) = i"
      using "1.hyps" [OF True half_def refl] "1.prems" h by (auto simp: b_def)
    moreover have "binary_search_loop (\<lambda>e. compare (key e) k) xs base sz =
        binary_search_loop (\<lambda>e. compare (key e) k) xs b (sz - half)"
      unfolding b_def half_def using True by (simp add: binary_search_loop.simps [of _ xs base sz] Let_def)
    ultimately show ?thesis by simp
  next
    case False
    then show ?thesis using "1.prems" by (simp add: binary_search_loop.simps [of _ xs base sz])
  qed
qed

lemma position_Some_iff:
  "position P xs = Some i \<longleftrightarrow> i < length xs \<and> P (xs ! i) \<and> (\<forall>j<i. \<not> P (xs ! j))"
proof (induction xs arbitrary: i)
  case (Cons x xs)
  show ?case
  proof (cases i)
    case (Suc n)
    have "(\<forall>j<Suc n. \<not> P ((x # xs) ! j)) \<longleftrightarrow> \<not> P x \<and> (\<forall>j<n. \<not> P (xs ! j))"
      by (auto simp: less_Suc_eq_0_disj)
    then show ?thesis using Suc Cons.IH [of n] by auto
  qed auto
qed simp

lemma position_None_iff: "position P xs = None \<longleftrightarrow> (\<forall>x\<in>set xs. \<not> P x)"
  by (induction xs) auto

lemma find_position: "List.find P xs = map_option (\<lambda>i. xs ! i) (position P xs)"
  by (induction xs) (auto simp: option.map_comp o_def)

lemma binary_search_position:
  assumes "sorted_wrt (<) (map key xs)"
  shows "binary_search_by (\<lambda>e. compare (key e) k) xs = position (\<lambda>e. key e = k) xs"
proof (cases "position (\<lambda>e. key e = k) xs")
  case None
  then have "xs = [] \<or> key (xs ! binary_search_loop (\<lambda>e. compare (key e) k) xs 0 (length xs)) \<noteq> k"
    using binary_search_loop_range [of "length xs" 0 xs] by (auto simp: position_None_iff)
  then show ?thesis
    using None by (auto simp: binary_search_by_def compare_def Let_def)
next
  case (Some i)
  then have i: "i < length xs" "key (xs ! i) = k" by (auto simp: position_Some_iff)
  then have "binary_search_loop (\<lambda>e. compare (key e) k) xs 0 (length xs) = i"
    using binary_search_loop_finds [OF assms, of 0 "length xs" i k] by simp
  then show ?thesis
    using Some i by (auto simp: binary_search_by_def compare_def Let_def)
qed

definition table_find :: "('a \<Rightarrow> 'k::linorder) \<Rightarrow> 'a list \<Rightarrow> 'k \<Rightarrow> 'a option" where
  "table_find key xs k = map_option (\<lambda>i. xs ! i) (binary_search_by (\<lambda>e. compare (key e) k) xs)"

lemma table_find_eq:
  "sorted_wrt (<) (map key xs) \<Longrightarrow> table_find key xs k = List.find (\<lambda>e. key e = k) xs"
  by (simp add: table_find_def binary_search_position find_position)

lemma find_key_Some:
  "inj_on key (set xs) \<Longrightarrow>
     List.find (\<lambda>e. key e = k) xs = Some e \<longleftrightarrow> e \<in> set xs \<and> key e = k"
  by (induction xs) (auto dest: inj_onD)

lemma find_filter_key:
  "List.find (\<lambda>e. key e = k) (filter (\<lambda>e. key e \<noteq> k') xs) =
     (if k = k' then None else List.find (\<lambda>e. key e = k) xs)"
  by (induction xs) auto

lemma map_sum_Inr_iff: "map_sum f g r = Inr y \<longleftrightarrow> (\<exists>x. r = Inr x \<and> y = g x)"
  by (cases r) auto

lemma collect_results_Inr: "collect_results rs = Inr xs \<longleftrightarrow> rs = map Inr xs"
proof -
  have "collect_results rs = Inr xs \<Longrightarrow> rs = map Inr xs"
    by (induction rs arbitrary: xs rule: collect_results.induct) (auto simp: map_sum_def split: sum.splits)
  moreover have "collect_results (map Inr xs) = Inr xs" by (induction xs) auto
  ultimately show ?thesis by blast
qed

lemma option_eqI: "(\<And>x. a = Some x \<longleftrightarrow> b = Some x) \<Longrightarrow> a = b"
  by (cases a; cases b) auto

lemma remove_at_Cons [simp]:
  "remove_at 0 (x # xs) = xs" "remove_at (Suc i) (x # xs) = x # remove_at i xs"
  by (simp_all add: remove_at_def)

lemma remove_at_split:
  "i < length xs \<Longrightarrow> xs = take i xs @ xs ! i # drop (Suc i) xs"
  by (rule id_take_nth_drop)

lemma mset_remove_at:
  "i < length xs \<Longrightarrow> mset xs = add_mset (xs ! i) (mset (remove_at i xs))"
  by (subst remove_at_split, assumption) (simp add: remove_at_def)

lemma remove_at_subseq: "subseq (remove_at i xs) xs"
proof (induction xs arbitrary: i)
  case (Cons x xs)
  then show ?case by (cases i) auto
qed (simp add: remove_at_def)

lemma set_remove_at: "set (remove_at i xs) \<subseteq> set xs"
  by (auto simp: remove_at_def dest: in_set_takeD in_set_dropD)

lemma length_remove_at: "i < length xs \<Longrightarrow> length (remove_at i xs) = length xs - 1"
  by (simp add: remove_at_def)

lemma remove_at_position:
  assumes "sorted_wrt (<) (map key xs)" "position (\<lambda>e. key e = k) xs = Some i"
  shows "remove_at i xs = filter (\<lambda>e. key e \<noteq> (k :: 'k::linorder)) xs"
  using assms
proof (induction xs arbitrary: i)
  case (Cons x xs)
  show ?case
  proof (cases "key x = k")
    case True
    then have "\<forall>e\<in>set xs. key e \<noteq> k" using Cons.prems by auto
    with True Cons.prems show ?thesis by (auto intro: filter_True [symmetric])
  next
    case False
    with Cons.prems Cons.IH show ?thesis by auto
  qed
qed simp

lemma update_first_map:
  "(\<And>x. g (f x) = g x) \<Longrightarrow> map g (update_first P f xs) = map g xs"
  by (induction xs) auto

lemma length_update_first [simp]: "length (update_first P f xs) = length xs"
  by (induction xs) auto

lemma set_update_first: "set (update_first P f xs) \<subseteq> set xs \<union> f ` {x \<in> set xs. P x}"
  by (induction xs) auto

lemma find_adjacent_sorted:
  assumes "sorted (map key xs)"
  shows "find_adjacent (\<lambda>x y. key x = key y) xs = None \<longleftrightarrow> sorted_wrt (<) (map key xs)"
  using assms
  by (induction "\<lambda>x y. key x = key y" xs rule: find_adjacent.induct)
     (auto simp: sorted_wrt2 transp_on_def)

lemma sorted_strict_distinct: "sorted xs \<Longrightarrow> distinct xs \<longleftrightarrow> sorted_wrt (<) xs"
  by (simp add: strict_sorted_iff)

lemma sort_key_no_duplicate:
  "find_adjacent (\<lambda>x y. key x = key y) (sort_key key xs) = None \<longleftrightarrow> distinct (map key xs)"
proof -
  have "sorted (map key (sort_key key xs))" by simp
  then have "find_adjacent (\<lambda>x y. key x = key y) (sort_key key xs) = None \<longleftrightarrow>
      distinct (map key (sort_key key xs))"
    using find_adjacent_sorted sorted_strict_distinct by metis
  also have "\<dots> \<longleftrightarrow> distinct (map key xs)"
    by (metis mset_sort mset_map mset_eq_imp_distinct_iff)
  finally show ?thesis .
qed

lemma find_adjacent_Some:
  "find_adjacent R xs = Some x \<Longrightarrow> x \<in> set xs"
  by (induction R xs rule: find_adjacent.induct) (auto split: if_splits)

lemma collect_bounded_eq:
  "length acc \<le> limit \<Longrightarrow>
     collect_bounded limit acc xs = (if length acc + length xs \<le> limit then Some (acc @ xs) else None)"
  by (induction xs arbitrary: acc) auto

lemma collect_unique_None:
  "inspected \<le> limit \<Longrightarrow>
     collect_unique limit inspected unique xs = None \<longleftrightarrow> limit < inspected + length xs"
  by (induction xs arbitrary: inspected unique) auto

lemma collect_unique_Some:
  assumes "collect_unique limit inspected unique xs = Some ys" "distinct unique"
  shows "distinct ys \<and> set ys = set unique \<union> set xs \<and> (\<exists>zs. ys = unique @ zs \<and> subseq zs xs)"
  using assms
proof (induction xs arbitrary: inspected unique)
  case (Cons x xs)
  define u where "u = (if x \<in> set unique then unique else unique @ [x])"
  have u: "distinct u" "set u = insert x (set unique)" using Cons.prems by (auto simp: u_def)
  have c: "collect_unique limit (Suc inspected) u xs = Some ys"
    using Cons.prems by (auto simp: u_def split: if_splits)
  obtain zs where zs: "ys = u @ zs" "subseq zs xs" "distinct ys" "set ys = set u \<union> set xs"
    using Cons.IH [OF c u(1)] by blast
  show ?case
  proof (cases "x \<in> set unique")
    case True
    then show ?thesis using zs u by (auto simp: u_def)
  next
    case False
    then have "ys = unique @ x # zs" using zs by (simp add: u_def)
    moreover have "subseq (x # zs) (x # xs)" using zs by simp
    ultimately show ?thesis using zs u by auto
  qed
qed auto

section \<open>Ordered sublists\<close>

lemma subseq_snoc:
  "subseq xs is \<Longrightarrow> subseq (xs @ [i]) (is @ [i])"
  "subseq xs is \<Longrightarrow> subseq xs (is @ [i])"
  "subseq [i] (is @ [i])"
  by (auto intro: list_emb_append2 list_emb_append_mono)

lemma strictly_sorted_length_le:
  assumes "sorted_wrt (<) xs" and "\<forall>x\<in>set xs. 1 \<le> x \<and> x \<le> (n :: nat)"
  shows "length xs \<le> n"
proof -
  have "distinct xs" using assms(1) strict_sorted_iff by blast
  then have "length xs = card (set xs)" by (simp add: distinct_card)
  also have "\<dots> \<le> card {1..n}" using assms(2) by (intro card_mono) auto
  finally show ?thesis by simp
qed

lemma sum_list_no_intake [simp]:
  "sum_list (map2 (\<lambda>i t. {#}) is ts) = ({#} :: 'a multiset)"
  by (induction "is" ts rule: list_induct2') auto

lemma map2_snd: "length xs = length ys \<Longrightarrow> map2 (\<lambda>x. f) xs ys = map f ys"
  by (induction xs ys rule: list_induct2) auto

lemma map_fst_zip_comp: "length xs = length ys \<Longrightarrow> map (\<lambda>x. f (fst x)) (zip xs ys) = map f xs"
  by (induction xs ys rule: list_induct2) auto

lemma map_snd_zip_comp: "length xs = length ys \<Longrightarrow> map (\<lambda>x. f (snd x)) (zip xs ys) = map f ys"
  by (induction xs ys rule: list_induct2) auto

lemma sum_list_mset: "sum_list (map (\<lambda>x. mset (f x)) xs) = mset (concat (map f xs))"
  by (induction xs) auto

lemma sum_list_mset2: "sum_list (map2 (\<lambda>x y. mset (f x y)) xs ys) = mset (concat (map2 f xs ys))"
  by (induction xs ys rule: list_induct2') auto

section \<open>The newest items of a history\<close>

definition newest :: "nat \<Rightarrow> 'a list \<Rightarrow> 'a list" where
  "newest n xs = drop (length xs - n) xs"

lemma length_newest [simp]: "length (newest n xs) = min n (length xs)"
  by (simp add: newest_def min_def)

lemma newest_Nil [simp]: "newest n [] = []"
  by (simp add: newest_def)

lemma newest_snoc:
  assumes "0 < n"
  shows "newest n (xs @ [x]) = (if n \<le> length xs then tl (newest n xs) else newest n xs) @ [x]"
proof (cases "n \<le> length xs")
  case True
  then have "length (xs @ [x]) - n = Suc (length xs - n)" by simp
  then show ?thesis
    using True assms by (simp add: newest_def tl_drop drop_Suc)
qed (use assms in \<open>simp add: newest_def\<close>)

lemma newest_0 [simp]: "newest 0 xs = []"
  by (simp add: newest_def)

lemma newest_newest:
  "k \<le> n + length ys \<Longrightarrow> newest k (newest n xs @ ys) = newest k (xs @ ys)"
  by (cases "length xs \<le> n") (auto simp: newest_def add.commute)

lemma newest_append: "newest (length ys) (xs @ ys) = ys"
  by (simp add: newest_def)

section \<open>Round-robin selection\<close>

text \<open>The \<open>k\<close> items of \<open>xs\<close> that a cursor now at \<open>next\<close> has passed, oldest first.\<close>

definition rotation_window :: "'a list \<Rightarrow> nat \<Rightarrow> nat \<Rightarrow> 'a list" where
  "rotation_window xs next k = take k (rotate (next + length xs - k) xs)"

lemma length_rotation_window: "k \<le> length xs \<Longrightarrow> length (rotation_window xs next k) = k"
  by (simp add: rotation_window_def)

lemma rotation_window_0 [simp]: "rotation_window xs next 0 = []"
  by (simp add: rotation_window_def)

lemma rotation_window_full: "rotation_window xs next (length xs) = rotate next xs"
  by (simp add: rotation_window_def)

lemma rotation_window_step:
  assumes "next < length xs" "k < length xs"
  shows "rotation_window xs ((next + 1) mod length xs) (Suc k) = rotation_window xs next k @ [xs ! next]"
proof -
  let ?n = "length xs" and ?r = "rotate (next + length xs - k) xs"
  have "((next + 1) mod ?n + ?n - Suc k) mod ?n = (next + ?n - k) mod ?n"
  proof (cases "next + 1 < ?n")
    case False
    then have "next + 1 = ?n" using assms by simp
    then have "next + ?n - k = (?n - Suc k) + ?n" "(next + 1) mod ?n = 0" using assms by simp_all
    then show ?thesis by (simp only: mod_add_self2 add_0)
  qed (use assms in simp)
  then have r: "rotate ((next + 1) mod ?n + ?n - Suc k) xs = ?r"
    by (metis rotate_conv_mod)
  have "?r ! k = xs ! next"
    using assms by (simp add: nth_rotate)
  then show ?thesis
    using assms unfolding rotation_window_def r by (simp add: take_Suc_conv_app_nth)
qed

section \<open>Runs of a deterministic machine\<close>

text \<open>
  A policy machine of the driver is a function from a state and an input to the next state and
  the transition it returns. \<open>run\<close> feeds it a list of inputs in order and collects what it
  returned for each.
\<close>

fun run :: "('s \<Rightarrow> 'i \<Rightarrow> 's \<times> 'o) \<Rightarrow> 's \<Rightarrow> 'i list \<Rightarrow> 's \<times> 'o list" where
  "run step s [] = (s, [])"
| "run step s (i # is) =
     (let (s', out) = step s i; (s'', outs) = run step s' is in (s'', out # outs))"

abbreviation final :: "('s \<Rightarrow> 'i \<Rightarrow> 's \<times> 'o) \<Rightarrow> 's \<Rightarrow> 'i list \<Rightarrow> 's" where
  "final step s is \<equiv> fst (run step s is)"

abbreviation outputs :: "('s \<Rightarrow> 'i \<Rightarrow> 's \<times> 'o) \<Rightarrow> 's \<Rightarrow> 'i list \<Rightarrow> 'o list" where
  "outputs step s is \<equiv> snd (run step s is)"

abbreviation observed :: "('o \<Rightarrow> 'a list) \<Rightarrow> ('s \<Rightarrow> 'i \<Rightarrow> 's \<times> 'o) \<Rightarrow> 's \<Rightarrow> 'i list \<Rightarrow> 'a list" where
  "observed obs step s is \<equiv> concat (map obs (outputs step s is))"

lemma run_Cons_parts [simp]:
  "final step s (i # is) = final step (fst (step s i)) is"
  "outputs step s (i # is) = snd (step s i) # outputs step (fst (step s i)) is"
  by (simp_all add: case_prod_beta Let_def)

lemma run_append:
  "final step s (is @ js) = final step (final step s is) js"
  "outputs step s (is @ js) = outputs step s is @ outputs step (final step s is) js"
  by (induction "is" arbitrary: s) (simp_all del: run.simps(2))

lemma length_outputs [simp]: "length (outputs step s is) = length is"
  by (induction "is" arbitrary: s) (simp_all del: run.simps(2))

declare run.simps(2) [simp del]

text \<open>
  What an observer notes along a run who sees the state before each step, the input and the
  transition, and the events that no later event answers.
\<close>

fun events :: "('s \<Rightarrow> 'i \<Rightarrow> 'o \<Rightarrow> 'e list) \<Rightarrow> ('s \<Rightarrow> 'i \<Rightarrow> 's \<times> 'o) \<Rightarrow> 's \<Rightarrow> 'i list \<Rightarrow> 'e list" where
  "events obs step s [] = []"
| "events obs step s (i # is) = obs s i (snd (step s i)) @ events obs step (fst (step s i)) is"

fun open_events :: "('e \<Rightarrow> 'e \<Rightarrow> bool) \<Rightarrow> 'e list \<Rightarrow> 'e list" where
  "open_events answers [] = []"
| "open_events answers (x # xs) = (if list_ex (answers x) xs then [] else [x]) @ open_events answers xs"

lemma open_events_append:
  "open_events answers (xs @ ys) =
     filter (\<lambda>x. \<not> list_ex (answers x) ys) (open_events answers xs) @ open_events answers ys"
  by (induction xs) auto

lemma open_events_set: "set (open_events answers xs) \<subseteq> set xs"
  by (induction xs) auto

text \<open>A path of an abstract specification along the inputs and results of a run.\<close>

fun spec_path :: "('i \<Rightarrow> 'o \<Rightarrow> 'a \<Rightarrow> 'a \<Rightarrow> bool) \<Rightarrow> 'a \<Rightarrow> ('i \<times> 'o) list \<Rightarrow> 'a \<Rightarrow> bool" where
  "spec_path spec a [] a' \<longleftrightarrow> a = a'"
| "spec_path spec a ((i, out) # trace) a' \<longleftrightarrow> (\<exists>b. spec i out a b \<and> spec_path spec b trace a')"

end
