(* ===== verification/Contracts.thy ===== *)
theory Contracts
  imports Prelude
begin

text \<open>
  The contracts that the driver's components promise and rely on, stated as locales. The policy
  machines of \<open>kafka-driver-core\<close> share most of them: an invariant every input keeps, a rank that
  never falls, a stock of owned items that is conserved, identities that are issued in strictly
  increasing order behind a fence, resources that are released, a pool that is rotated through, a
  specification that is refined, and a record of past events that the state accounts for. Queues
  that settle their items in arrival order, the sorted tables behind every lookup, checked
  successors of generations and epochs, and the bounded delay of a retry policy are the others.
  Each component theory interprets the contracts it meets on its own definitions.
\<close>

section \<open>Machines that keep an invariant\<close>

locale machine_invariant =
  fixes step :: "'s \<Rightarrow> 'i \<Rightarrow> 's \<times> 'o"
    and inv :: "'s \<Rightarrow> bool"
  assumes step_keeps: "inv s \<Longrightarrow> inv (fst (step s i))"
begin

lemma run_keeps: "inv s \<Longrightarrow> inv (final step s is)"
  by (induction "is" arbitrary: s) (auto intro: step_keeps)

end

section \<open>Machines whose rank never falls\<close>

locale ranked_machine = machine_invariant +
  fixes rank :: "'s \<Rightarrow> nat"
  assumes step_rank: "inv s \<Longrightarrow> rank s \<le> rank (fst (step s i))"
begin

lemma run_rank: "inv s \<Longrightarrow> rank s \<le> rank (final step s is)"
proof (induction "is" arbitrary: s)
  case (Cons i js)
  have "rank s \<le> rank (fst (step s i))" using Cons.prems by (rule step_rank)
  also have "\<dots> \<le> rank (final step (fst (step s i)) js)"
    using Cons.IH [OF step_keeps [OF Cons.prems]] .
  finally show ?case by simp
qed simp

end

section \<open>Machines that conserve what they own\<close>

locale conserving_machine = machine_invariant step inv
  for step :: "'s \<Rightarrow> 'i \<Rightarrow> 's \<times> 'o" and inv :: "'s \<Rightarrow> bool" +
  fixes stock :: "'s \<Rightarrow> 'a multiset"
    and intake :: "'i \<Rightarrow> 'o \<Rightarrow> 'a multiset"
    and outflow :: "'o \<Rightarrow> 'a multiset"
  assumes step_conserves:
    "inv s \<Longrightarrow> stock s + intake i (snd (step s i)) = stock (fst (step s i)) + outflow (snd (step s i))"
begin

lemma run_conserves:
  "inv s \<Longrightarrow>
     stock s + sum_list (map2 intake is (outputs step s is)) =
     stock (final step s is) + sum_list (map outflow (outputs step s is))"
proof (induction "is" arbitrary: s)
  case (Cons i js)
  let ?s' = "fst (step s i)" and ?o = "snd (step s i)"
  let ?X = "sum_list (map2 intake js (outputs step ?s' js))"
    and ?Y = "sum_list (map outflow (outputs step ?s' js))"
  have tail: "stock ?s' + ?X = stock (final step ?s' js) + ?Y"
    using Cons.IH [OF step_keeps [OF Cons.prems]] .
  have "stock s + (intake i ?o + ?X) = (stock s + intake i ?o) + ?X" by (simp only: add.assoc)
  also have "\<dots> = outflow ?o + (stock ?s' + ?X)"
    by (simp only: step_conserves [OF Cons.prems] ac_simps)
  also have "\<dots> = stock (final step ?s' js) + (outflow ?o + ?Y)" by (simp only: tail ac_simps)
  finally show ?case by simp
qed simp

end

section \<open>Machines that issue identities behind a fence\<close>

locale fenced_machine = machine_invariant step inv
  for step :: "'s \<Rightarrow> 'i \<Rightarrow> 's \<times> 'o" and inv :: "'s \<Rightarrow> bool" +
  fixes fence :: "'s \<Rightarrow> nat"
    and issued :: "'o \<Rightarrow> nat list"
  assumes step_fence: "inv s \<Longrightarrow> fence s \<le> fence (fst (step s i))"
    and step_issues: "inv s \<Longrightarrow> e \<in> set (issued (snd (step s i))) \<Longrightarrow>
      fence s \<le> e \<and> e < fence (fst (step s i))"
    and step_ordered: "inv s \<Longrightarrow> sorted_wrt (<) (issued (snd (step s i)))"
begin

lemma run_issues:
  "inv s \<Longrightarrow>
     sorted_wrt (<) (concat (map issued (outputs step s is))) \<and>
     (\<forall>e\<in>set (concat (map issued (outputs step s is))). fence s \<le> e)"
proof (induction "is" arbitrary: s)
  case (Cons i js)
  let ?s' = "fst (step s i)"
  have IH: "sorted_wrt (<) (concat (map issued (outputs step ?s' js)))"
    "\<forall>e\<in>set (concat (map issued (outputs step ?s' js))). fence ?s' \<le> e"
    using Cons.IH [OF step_keeps [OF Cons.prems]] by auto
  moreover have "\<forall>e\<in>set (issued (snd (step s i))). fence s \<le> e \<and> e < fence ?s'"
    using step_issues [OF Cons.prems] by blast
  ultimately show ?case
    using step_fence [OF Cons.prems, of i] step_ordered [OF Cons.prems, of i]
    by (fastforce simp: sorted_wrt_append)
qed simp

end

section \<open>Queues that settle in arrival order\<close>

locale fifo_machine = machine_invariant step inv
  for step :: "'s \<Rightarrow> 'i \<Rightarrow> 's \<times> 'o" and inv :: "'s \<Rightarrow> bool" +
  fixes queue :: "'s \<Rightarrow> 'a list"
    and entering :: "'i \<Rightarrow> 'o \<Rightarrow> 'a list"
    and settling :: "'o \<Rightarrow> 'a list"
  assumes step_fifo:
    "inv s \<Longrightarrow>
       subseq (settling (snd (step s i)) @ queue (fst (step s i))) (queue s @ entering i (snd (step s i)))"
begin

lemma run_fifo:
  "inv s \<Longrightarrow>
     subseq (concat (map settling (outputs step s is)))
       (queue s @ concat (map2 entering is (outputs step s is)))"
proof (induction "is" arbitrary: s)
  case (Cons i js)
  let ?s' = "fst (step s i)" and ?o = "snd (step s i)"
  have "subseq (concat (map settling (outputs step ?s' js)))
      (queue ?s' @ concat (map2 entering js (outputs step ?s' js)))"
    using Cons.IH [OF step_keeps [OF Cons.prems]] .
  then have "subseq (settling ?o @ concat (map settling (outputs step ?s' js)))
      ((settling ?o @ queue ?s') @ concat (map2 entering js (outputs step ?s' js)))"
    unfolding append_assoc by (rule list_emb_append_mono [OF subseq_order.refl])
  moreover have "subseq ((settling ?o @ queue ?s') @ concat (map2 entering js (outputs step ?s' js)))
      ((queue s @ entering i ?o) @ concat (map2 entering js (outputs step ?s' js)))"
    using step_fifo [OF Cons.prems] by (rule list_emb_append_mono [OF _ subseq_order.refl])
  ultimately show ?case
    by (auto intro: subseq_order.trans)
qed simp

end

section \<open>Machines that release what they acquire\<close>

locale releasing_machine = machine_invariant step inv
  for step :: "'s \<Rightarrow> 'i \<Rightarrow> 's \<times> 'o" and inv :: "'s \<Rightarrow> bool" +
  fixes held :: "'s \<Rightarrow> 'a list"
    and acquired :: "'o \<Rightarrow> 'a list"
    and released :: "'i \<Rightarrow> 'o \<Rightarrow> 'a list"
  assumes step_releases:
    "inv s \<Longrightarrow>
       set (held s) \<union> set (acquired (snd (step s i))) \<subseteq>
       set (held (fst (step s i))) \<union> set (released i (snd (step s i)))"
begin

lemma run_releases:
  "inv s \<Longrightarrow>
     set (held s) \<union> set (observed acquired step s is) \<subseteq>
     set (held (final step s is)) \<union> set (concat (map2 released is (outputs step s is)))"
proof (induction "is" arbitrary: s)
  case (Cons i js)
  have "set (held (fst (step s i))) \<union> set (observed acquired step (fst (step s i)) js) \<subseteq>
      set (held (final step (fst (step s i)) js)) \<union>
      set (concat (map2 released js (outputs step (fst (step s i)) js)))"
    using Cons.IH [OF step_keeps [OF Cons.prems]] .
  then show ?case using step_releases [OF Cons.prems, of i] by auto
qed simp

end

section \<open>Machines that refine a specification\<close>

locale simulating_machine = machine_invariant step inv
  for step :: "'s \<Rightarrow> 'i \<Rightarrow> 's \<times> 'o" and inv :: "'s \<Rightarrow> bool" +
  fixes abstract :: "'s \<Rightarrow> 'a"
    and spec :: "'i \<Rightarrow> 'o \<Rightarrow> 'a \<Rightarrow> 'a \<Rightarrow> bool"
  assumes step_simulates: "inv s \<Longrightarrow> spec i (snd (step s i)) (abstract s) (abstract (fst (step s i)))"
begin

lemma run_simulates:
  "inv s \<Longrightarrow> spec_path spec (abstract s) (zip is (outputs step s is)) (abstract (final step s is))"
proof (induction "is" arbitrary: s)
  case (Cons i js)
  with step_simulates [OF Cons.prems] Cons.IH [OF step_keeps [OF Cons.prems]] show ?case by auto
qed simp

end

section \<open>Machines whose state accounts for past events\<close>

text \<open>
  \<open>ok\<close> is what the caller guarantees of an input, \<open>recorded past s\<close> relates the state to the events
  that led to it.
\<close>

locale recording_machine =
  fixes step :: "'s \<Rightarrow> 'i \<Rightarrow> 's \<times> 'o"
    and ok :: "'i \<Rightarrow> bool"
    and event :: "'s \<Rightarrow> 'i \<Rightarrow> 'o \<Rightarrow> 'e list"
    and recorded :: "'e list \<Rightarrow> 's \<Rightarrow> bool"
  assumes step_records:
    "recorded past s \<Longrightarrow> ok i \<Longrightarrow> recorded (past @ event s i (snd (step s i))) (fst (step s i))"
begin

lemma run_records:
  "recorded past s \<Longrightarrow> list_all ok is \<Longrightarrow> recorded (past @ events event step s is) (final step s is)"
proof (induction "is" arbitrary: past s)
  case (Cons i js)
  from Cons.IH [OF step_records [OF Cons.prems(1)]] Cons.prems(2) show ?case by simp
qed simp

end

section \<open>Machines that rotate through a pool\<close>

text \<open>
  \<open>streak\<close> counts the picks since the machine last started over; they are the items the cursor has
  passed in the pool.
\<close>

locale rotating_machine = machine_invariant step inv
  for step :: "'s \<Rightarrow> 'i \<Rightarrow> 's \<times> 'o" and inv :: "'s \<Rightarrow> bool" +
  fixes pool :: "'s \<Rightarrow> 'a list"
    and cursor :: "'s \<Rightarrow> nat"
    and streak :: "'s \<Rightarrow> nat"
    and picked :: "'o \<Rightarrow> 'a list"
  assumes step_streak: "inv s \<Longrightarrow> streak (fst (step s i)) \<le> streak s + length (picked (snd (step s i)))"
    and step_picks: "inv s \<Longrightarrow>
      rotation_window (pool (fst (step s i))) (cursor (fst (step s i))) (streak (fst (step s i))) =
      newest (streak (fst (step s i)))
        (rotation_window (pool s) (cursor s) (streak s) @ picked (snd (step s i)))"
begin

lemma run_picks:
  assumes "inv s" "newest (streak s) history = rotation_window (pool s) (cursor s) (streak s)"
  shows "newest (streak (final step s is)) (history @ observed picked step s is) =
    rotation_window (pool (final step s is)) (cursor (final step s is)) (streak (final step s is))"
  using assms
proof (induction "is" arbitrary: s history)
  case (Cons i js)
  have "newest (streak (fst (step s i))) (history @ picked (snd (step s i))) =
      rotation_window (pool (fst (step s i))) (cursor (fst (step s i))) (streak (fst (step s i)))"
    using step_picks [OF Cons.prems(1)] step_streak [OF Cons.prems(1)]
    by (simp add: newest_newest flip: Cons.prems(2))
  from Cons.IH [OF step_keeps [OF Cons.prems(1)] this] show ?case by simp
qed simp

end

section \<open>Sorted tables\<close>

locale keyed_table =
  fixes key :: "'a \<Rightarrow> 'k::linorder"
    and entries :: "'t \<Rightarrow> 'a list"
    and lookup :: "'t \<Rightarrow> 'k \<Rightarrow> 'a option"
    and wf :: "'t \<Rightarrow> bool"
  assumes table_sorted: "wf t \<Longrightarrow> sorted_wrt (<) (map key (entries t))"
    and table_lookup: "wf t \<Longrightarrow> lookup t k = List.find (\<lambda>e. key e = k) (entries t)"
begin

lemma table_distinct: "wf t \<Longrightarrow> distinct (map key (entries t))"
  using table_sorted strict_sorted_iff by blast

lemma lookup_Some: "wf t \<Longrightarrow> lookup t k = Some e \<longleftrightarrow> e \<in> set (entries t) \<and> key e = k"
  using table_distinct [of t] by (simp add: table_lookup distinct_map find_key_Some)

lemma lookup_None: "wf t \<Longrightarrow> lookup t k = None \<longleftrightarrow> k \<notin> key ` set (entries t)"
  by (auto simp: table_lookup find_None_iff)

end

section \<open>Checked successors\<close>

locale checked_successor =
  fixes succ :: "'a \<Rightarrow> 'a option"
    and ordinal :: "'a \<Rightarrow> nat"
  assumes succ_ordinal: "succ a = Some b \<Longrightarrow> ordinal b = Suc (ordinal a)"
begin

lemma succ_increases: "succ a = Some b \<Longrightarrow> ordinal a < ordinal b"
  by (simp add: succ_ordinal)

lemma succ_irreflexive: "succ a \<noteq> Some a"
  using succ_ordinal by fastforce

end

section \<open>Bounded retry delays\<close>

locale delay_policy =
  fixes delay :: "'p \<Rightarrow> 'r \<Rightarrow> 'j \<Rightarrow> nat"
    and cap :: "'p \<Rightarrow> 'r \<Rightarrow> nat"
    and limit :: "'p \<Rightarrow> nat"
    and valid :: "'p \<Rightarrow> bool"
  assumes delay_le_cap: "valid p \<Longrightarrow> delay p r j \<le> cap p r"
    and cap_le_delay: "valid p \<Longrightarrow> cap p r \<le> 2 * delay p r j"
    and cap_positive: "valid p \<Longrightarrow> 0 < cap p r"
    and cap_le_limit: "valid p \<Longrightarrow> cap p r \<le> limit p"
begin

lemma delay_positive: "valid p \<Longrightarrow> 0 < delay p r j"
  using cap_le_delay [of p r j] cap_positive [of p r] by simp

lemma delay_le_limit: "valid p \<Longrightarrow> delay p r j \<le> limit p"
  using delay_le_cap [of p r j] cap_le_limit [of p r] by simp

text \<open>Two samples for the same retry differ by at most a factor of two.\<close>

lemma delay_spread: "valid p \<Longrightarrow> delay p r j \<le> 2 * delay p r j'"
  using delay_le_cap [of p r j] cap_le_delay [of p r j'] by simp

end

end
