(* ===== verification/Identity.thy ===== *)
theory Identity
  imports Contracts
begin

text \<open>
  Identities, time and addresses of \<open>kafka-driver-core\<close>: the modules \<open>time.rs\<close>, \<open>delivery.rs\<close>,
  \<open>identity/\<close> and \<open>endpoint.rs\<close>. A newtype over an integer is that integer; a smart constructor
  returns \<open>Inl\<close> of the source's error.
\<close>

section \<open>Transparent identities\<close>

type_synonym connection_epoch = u64
type_synonym transport_id = u64
type_synonym effect_id = u64
type_synonym timer_id = u64
type_synonym call_id = u64
type_synonym operation_id = u64
type_synonym correlation_id = i32
type_synonym moment = u64
type_synonym metadata_generation = u64
type_synonym metadata_revision = u64
type_synonym coordinator_epoch = u64
type_synonym evidence_stamp = u64
type_synonym outcome_stamp = u64
type_synonym broker_id = i32
type_synonym partition_id = i32
type_synonym leader_epoch = i32
type_synonym topic_name = string
type_synonym host_name = string

section \<open>Driver-relative time\<close>

text \<open>A \<open>Duration\<close> is its number of nanoseconds, which may exceed 64 bits.\<close>

type_synonym duration = nat

definition moment_checked_add :: "moment \<Rightarrow> duration \<Rightarrow> moment option" where
  "moment_checked_add m d = (if d < 2 ^ 64 then checked_add m (of_nat d) else None)"

lemma moment_checked_add_code [code]:
  "moment_checked_add m d = (if int d < 18446744073709551616 then checked_add m (of_nat d) else None)"
  by (simp add: moment_checked_add_def)

definition moment_duration_since :: "moment \<Rightarrow> moment \<Rightarrow> duration option" where
  "moment_duration_since m earlier = map_option unat (checked_sub m earlier)"

section \<open>Delivery certainty\<close>

datatype delivery = NotSent | PossiblySent

fun delivery_combine :: "delivery \<Rightarrow> delivery \<Rightarrow> delivery" where
  "delivery_combine NotSent NotSent = NotSent"
| "delivery_combine PossiblySent _ = PossiblySent"
| "delivery_combine _ PossiblySent = PossiblySent"

section \<open>Generations, epochs and causal stamps\<close>

definition metadata_generation_next :: "metadata_generation \<Rightarrow> metadata_generation option" where
  "metadata_generation_next g = checked_add g 1"

definition coordinator_epoch_next :: "coordinator_epoch \<Rightarrow> coordinator_epoch option" where
  "coordinator_epoch_next e = checked_add e 1"

definition evidence_is_after :: "evidence_stamp \<Rightarrow> outcome_stamp \<Rightarrow> bool" where
  "evidence_is_after evidence outcome \<longleftrightarrow> outcome < evidence"

section \<open>Validated identities\<close>

definition broker_id_new :: "i32 \<Rightarrow> i32 + broker_id" where
  "broker_id_new value = (if value < 0 then Inl value else Inr value)"

definition partition_id_new :: "i32 \<Rightarrow> i32 + partition_id" where
  "partition_id_new value = (if value < 0 then Inl value else Inr value)"

definition leader_epoch_new :: "i32 \<Rightarrow> i32 + leader_epoch" where
  "leader_epoch_new value = (if value < 0 then Inl value else Inr value)"

datatype topic_name_error = TopicNameEmpty | TopicNameTooLong usize usize

definition topic_name_max_bytes :: usize where
  "topic_name_max_bytes = 249"

definition topic_name_new :: "string \<Rightarrow> topic_name_error + topic_name" where
  "topic_name_new value =
     (if value = [] then Inl TopicNameEmpty
      else if topic_name_max_bytes < length value
        then Inl (TopicNameTooLong (length value) topic_name_max_bytes)
      else Inr value)"

datatype coordinator_kind = CoordinatorGroup | CoordinatorTransaction | CoordinatorShare

record coordinator_key =
  ck_kind :: coordinator_kind
  ck_value :: string

datatype coordinator_key_error = CoordinatorKeyEmpty | CoordinatorKeyTooLong usize usize

definition coordinator_key_max_bytes :: usize where
  "coordinator_key_max_bytes = 32767"

definition coordinator_key_new :: "coordinator_kind \<Rightarrow> string \<Rightarrow> coordinator_key_error + coordinator_key" where
  "coordinator_key_new kind value =
     (if value = [] then Inl CoordinatorKeyEmpty
      else if coordinator_key_max_bytes < length value
        then Inl (CoordinatorKeyTooLong (length value) coordinator_key_max_bytes)
      else Inr \<lparr>ck_kind = kind, ck_value = value\<rparr>)"

section \<open>Endpoints\<close>

datatype host_name_error = HostNameEmpty | HostNameTooLong usize usize | HostNameInvalidCharacter

definition host_name_max_bytes :: usize where
  "host_name_max_bytes = 253"

definition is_ascii_graphic :: "char \<Rightarrow> bool" where
  "is_ascii_graphic c \<longleftrightarrow> 33 \<le> (of_char c :: nat) \<and> (of_char c :: nat) \<le> 126"

definition host_name_new :: "string \<Rightarrow> host_name_error + host_name" where
  "host_name_new value =
     (if value = [] then Inl HostNameEmpty
      else if host_name_max_bytes < length value
        then Inl (HostNameTooLong (length value) host_name_max_bytes)
      else if \<not> list_all is_ascii_graphic value then Inl HostNameInvalidCharacter
      else Inr value)"

text \<open>The port is a \<open>NonZeroU16\<close>; no operation of the core looks at its value.\<close>

record broker_endpoint =
  be_host :: host_name
  be_port :: u16

datatype ip_address = IpV4 "u8 list" | IpV6 "u8 list"

datatype resolved_address =
    SocketV4 "u8 list" u16
  | SocketV6 "u8 list" u16 u32 u32

fun resolved_address_new :: "ip_address \<Rightarrow> u16 \<Rightarrow> resolved_address" where
  "resolved_address_new (IpV4 octets) port = SocketV4 octets port"
| "resolved_address_new (IpV6 octets) port = SocketV6 octets port 0 0"

definition resolved_address_ipv6 :: "u8 list \<Rightarrow> u16 \<Rightarrow> u32 \<Rightarrow> u32 \<Rightarrow> resolved_address" where
  "resolved_address_ipv6 octets port flow_info scope_id = SocketV6 octets port flow_info scope_id"

fun resolved_address_ip :: "resolved_address \<Rightarrow> ip_address" where
  "resolved_address_ip (SocketV4 octets port) = IpV4 octets"
| "resolved_address_ip (SocketV6 octets port flow_info scope_id) = IpV6 octets"

fun resolved_address_port :: "resolved_address \<Rightarrow> u16" where
  "resolved_address_port (SocketV4 octets port) = port"
| "resolved_address_port (SocketV6 octets port flow_info scope_id) = port"

fun resolved_address_flow_info :: "resolved_address \<Rightarrow> u32" where
  "resolved_address_flow_info (SocketV4 octets port) = 0"
| "resolved_address_flow_info (SocketV6 octets port flow_info scope_id) = flow_info"

fun resolved_address_scope_id :: "resolved_address \<Rightarrow> u32" where
  "resolved_address_scope_id (SocketV4 octets port) = 0"
| "resolved_address_scope_id (SocketV6 octets port flow_info scope_id) = scope_id"

section \<open>Facts\<close>

lemma moment_checked_add_unat:
  "moment_checked_add m d = Some m' \<Longrightarrow> unat m' = unat m + d"
  by (auto simp: moment_checked_add_def unat_of_nat dest: checked_add_unat split: if_splits)

lemma moment_checked_add_None:
  "moment_checked_add m d = None \<longleftrightarrow> 2 ^ 64 \<le> unat m + d"
proof (cases "d < 2 ^ 64")
  case True
  then show ?thesis by (simp add: moment_checked_add_def checked_ops unat_of_nat)
next
  case False
  then show ?thesis by (simp add: moment_checked_add_def)
qed

lemma moment_checked_add_ge:
  "moment_checked_add m d = Some m' \<Longrightarrow> m \<le> m'"
  by (auto simp: word_le_nat_alt dest: moment_checked_add_unat)

lemma moment_duration_roundtrip:
  "moment_checked_add m d = Some m' \<Longrightarrow> moment_duration_since m' m = Some d"
  using moment_checked_add_unat [of m d m'] moment_checked_add_ge [of m d m']
  by (simp add: moment_duration_since_def checked_sub_def unat_sub)

lemma delivery_combine_PossiblySent [simp]:
  "delivery_combine d PossiblySent = PossiblySent"
  by (cases d) auto

lemma delivery_combine_NotSent_iff:
  "delivery_combine a b = NotSent \<longleftrightarrow> a = NotSent \<and> b = NotSent"
  by (cases a; cases b) auto

lemma resolved_address_roundtrip:
  "resolved_address_ip (resolved_address_new ip port) = ip"
  "resolved_address_port (resolved_address_new ip port) = port"
  by (cases ip; simp)+

interpretation generation_succ: checked_successor metadata_generation_next unat
  by unfold_locales (auto simp: metadata_generation_next_def dest: checked_add_unat)

interpretation coordinator_succ: checked_successor coordinator_epoch_next unat
  by unfold_locales (auto simp: coordinator_epoch_next_def dest: checked_add_unat)

end
