(* ===== verification/Capability.thy ===== *)
theory Capability
  imports Identity
begin

text \<open>
  Negotiated broker capabilities: the module \<open>capability/\<close>. The types \<open>ApiKey\<close>, \<open>ApiVersion\<close>
  and \<open>VersionRange\<close> belong to the \<open>kafka-wire\<close> package, which is not part of this repository:
  they are the type variables \<open>'k\<close> (ordered keys), \<open>'v\<close> and \<open>'r\<close>, and the accessors the code
  calls (\<open>VersionRange::new\<close>, \<open>min\<close>, \<open>max\<close>, \<open>ApiVersion::value\<close>) are arguments of the
  definitions that use them.
\<close>

section \<open>One negotiated API\<close>

record ('k, 'r) negotiated_api =
  na_api_key :: 'k
  na_versions :: 'r

definition negotiated_api_new ::
    "('n \<Rightarrow> 'n \<Rightarrow> 'r) \<Rightarrow> ('v \<Rightarrow> 'n) \<Rightarrow> 'k \<Rightarrow> 'v \<Rightarrow> ('k, 'r) negotiated_api" where
  "negotiated_api_new range_new value k v =
     \<lparr>na_api_key = k, na_versions = range_new (value v) (value v)\<rparr>"

definition negotiated_api_version :: "('r \<Rightarrow> 'v) \<Rightarrow> ('k, 'r) negotiated_api \<Rightarrow> 'v" where
  "negotiated_api_version range_max api = range_max (na_versions api)"

definition highest_at_most ::
    "('v \<Rightarrow> 'n::linorder) \<Rightarrow> ('r \<Rightarrow> 'v) \<Rightarrow> ('r \<Rightarrow> 'v) \<Rightarrow> ('k, 'r) negotiated_api \<Rightarrow> 'v \<Rightarrow> 'v option" where
  "highest_at_most value range_min range_max api maximum =
     (if value maximum < value (range_min (na_versions api)) then None
      else if value maximum < value (range_max (na_versions api)) then Some maximum
      else Some (range_max (na_versions api)))"

section \<open>The sorted capability set\<close>

datatype ('k, 'r) capability_error =
    CapabilityCapacityReached usize "('k, 'r) negotiated_api"
  | CapabilityNonAscending "('k, 'r) negotiated_api" "('k, 'r) negotiated_api"

record ('k, 'r) negotiated_capabilities =
  nc_apis :: "('k, 'r) negotiated_api list"

fun capabilities_collect ::
    "usize \<Rightarrow> ('k::linorder, 'r) negotiated_api list \<Rightarrow> ('k, 'r) negotiated_api list \<Rightarrow>
     ('k, 'r) capability_error + ('k, 'r) negotiated_api list" where
  "capabilities_collect limit retained [] = Inr retained"
| "capabilities_collect limit retained (api # rest) =
     (if retained \<noteq> [] \<and> na_api_key api \<le> na_api_key (last retained)
      then Inl (CapabilityNonAscending (last retained) api)
      else if length retained = limit then Inl (CapabilityCapacityReached limit api)
      else capabilities_collect limit (retained @ [api]) rest)"

definition capabilities_try_from_iter ::
    "('k::linorder, 'r) negotiated_api list \<Rightarrow> usize \<Rightarrow>
     ('k, 'r) capability_error + ('k, 'r) negotiated_capabilities" where
  "capabilities_try_from_iter source capacity =
     map_sum id (\<lambda>retained. \<lparr>nc_apis = retained\<rparr>) (capabilities_collect capacity [] source)"

definition capabilities_api ::
    "('k::linorder, 'r) negotiated_capabilities \<Rightarrow> 'k \<Rightarrow> ('k, 'r) negotiated_api option" where
  "capabilities_api c k = table_find na_api_key (nc_apis c) k"

definition capabilities_version ::
    "('r \<Rightarrow> 'v) \<Rightarrow> ('k::linorder, 'r) negotiated_capabilities \<Rightarrow> 'k \<Rightarrow> 'v option" where
  "capabilities_version range_max c k =
     map_option (negotiated_api_version range_max) (capabilities_api c k)"

definition capabilities_len :: "('k, 'r) negotiated_capabilities \<Rightarrow> usize" where
  "capabilities_len c = length (nc_apis c)"

section \<open>Well-formed sets and their lookups\<close>

definition capabilities_wf :: "('k::linorder, 'r) negotiated_capabilities \<Rightarrow> bool" where
  "capabilities_wf c \<longleftrightarrow> sorted_wrt (<) (map na_api_key (nc_apis c))"

interpretation capability_table:
  keyed_table na_api_key nc_apis capabilities_api capabilities_wf
  by unfold_locales (simp_all add: capabilities_wf_def capabilities_api_def table_find_eq)

lemma capabilities_collect_Inr:
  assumes "capabilities_collect limit retained source = Inr r"
    and "sorted_wrt (<) (map na_api_key retained)" "length retained \<le> limit"
  shows "r = retained @ source \<and> sorted_wrt (<) (map na_api_key r) \<and> length r \<le> limit"
  using assms
proof (induction source arbitrary: retained)
  case (Cons api rest)
  have ok: "\<not> (retained \<noteq> [] \<and> na_api_key api \<le> na_api_key (last retained))"
    "length retained \<noteq> limit"
    and tail: "capabilities_collect limit (retained @ [api]) rest = Inr r"
    using Cons.prems(1) by (auto split: if_splits)
  have "\<forall>e\<in>set retained. na_api_key e < na_api_key api"
  proof (cases retained rule: rev_cases)
    case (snoc front final)
    then show ?thesis using ok(1) Cons.prems(2) by (auto simp: sorted_wrt_append)
  qed simp
  then have "sorted_wrt (<) (map na_api_key (retained @ [api]))"
    using Cons.prems(2) by (simp add: sorted_wrt_append)
  then show ?case
    using Cons.IH [OF tail] Cons.prems(3) ok(2) by auto
qed simp

lemma capabilities_collect_complete:
  assumes "sorted_wrt (<) (map na_api_key (retained @ source))" "length (retained @ source) \<le> limit"
  shows "capabilities_collect limit retained source = Inr (retained @ source)"
  using assms
proof (induction source arbitrary: retained)
  case (Cons api rest)
  have "retained = [] \<or> na_api_key (last retained) < na_api_key api"
    using Cons.prems(1) by (cases retained rule: rev_cases) (auto simp: sorted_wrt_append)
  moreover have "length retained \<noteq> limit" using Cons.prems(2) by simp
  moreover have "capabilities_collect limit (retained @ [api]) rest = Inr ((retained @ [api]) @ rest)"
    using Cons.IH [of "retained @ [api]"] Cons.prems by simp
  ultimately show ?case by auto
qed simp

text \<open>
  The constructor accepts exactly the strictly ascending sources that fit, and retains them
  unchanged.
\<close>

lemma capabilities_try_from_iter_iff:
  "capabilities_try_from_iter source capacity = Inr c \<longleftrightarrow>
     nc_apis c = source \<and> capabilities_wf c \<and> capabilities_len c \<le> capacity"
proof
  assume "capabilities_try_from_iter source capacity = Inr c"
  then have "capabilities_collect capacity [] source = Inr (nc_apis c)"
    by (auto simp: capabilities_try_from_iter_def map_sum_def split: sum.splits)
  then show "nc_apis c = source \<and> capabilities_wf c \<and> capabilities_len c \<le> capacity"
    using capabilities_collect_Inr [of capacity "[]" source]
    by (auto simp: capabilities_wf_def capabilities_len_def)
next
  assume "nc_apis c = source \<and> capabilities_wf c \<and> capabilities_len c \<le> capacity"
  then show "capabilities_try_from_iter source capacity = Inr c"
    using capabilities_collect_complete [of "[]" source capacity]
    by (simp add: capabilities_try_from_iter_def capabilities_wf_def capabilities_len_def)
       (cases c, simp)
qed

end
