(* ===== verification/Authentication.thy ===== *)
theory Authentication
  imports Capability
begin

text \<open>
  The secret-free SASL policy machine: the module \<open>authentication/\<close> of \<open>kafka-driver-core\<close>.
  A state is \<open>AuthenticationState\<close> of \<open>state.rs\<close>; each handler is one definition that takes the
  machine and returns the next machine with the effects and the disposition of its \<open>Decision\<close>.
\<close>

section \<open>Mechanisms, limits and failures\<close>

datatype sasl_mechanism = SaslPlain | SaslScramSha256 | SaslScramSha512

fun sasl_mechanism_name :: "sasl_mechanism \<Rightarrow> string" where
  "sasl_mechanism_name SaslPlain = ''PLAIN''"
| "sasl_mechanism_name SaslScramSha256 = ''SCRAM-SHA-256''"
| "sasl_mechanism_name SaslScramSha512 = ''SCRAM-SHA-512''"

record 'v sasl_protocol =
  sp_mechanism :: sasl_mechanism
  sp_handshake_version :: 'v
  sp_authenticate_version :: 'v

text \<open>\<open>max_exchange_rounds\<close> is a \<open>NonZeroU8\<close>.\<close>

record authentication_limits =
  al_max_exchange_rounds :: u8

definition authentication_limits_default :: authentication_limits where
  "authentication_limits_default = \<lparr>al_max_exchange_rounds = 4\<rparr>"

record 'k authentication_policy =
  ap_mechanism :: sasl_mechanism
  ap_handshake_api_key :: 'k
  ap_authenticate_api_key :: 'k
  ap_limits :: authentication_limits

datatype authentication_failure =
    UnsupportedMechanism | AuthRejected | AuthMalformed | PolicyLimitExceeded | LocalCapacity
  | InvalidServerProof | TooManyRounds | AuthTimeout | AuthProtocol

datatype authentication_failure_disposition = FailurePermanent | FailureRetryable

fun failure_disposition ::
    "authentication_failure \<Rightarrow> authentication_failure_disposition" where
  "failure_disposition AuthTimeout = FailureRetryable"
| "failure_disposition LocalCapacity = FailureRetryable"
| "failure_disposition UnsupportedMechanism = FailurePermanent"
| "failure_disposition AuthRejected = FailurePermanent"
| "failure_disposition AuthMalformed = FailurePermanent"
| "failure_disposition PolicyLimitExceeded = FailurePermanent"
| "failure_disposition InvalidServerProof = FailurePermanent"
| "failure_disposition TooManyRounds = FailurePermanent"
| "failure_disposition AuthProtocol = FailurePermanent"

section \<open>Rounds and states\<close>

type_synonym authentication_round = u8

definition round_first :: authentication_round where
  "round_first = 1"

definition round_next :: "authentication_round \<Rightarrow> authentication_round option" where
  "round_next r = (case checked_add r 1 of None \<Rightarrow> None | Some n \<Rightarrow> if n = 0 then None else Some n)"

datatype authentication_state =
    AuthDormant
  | AuthHandshaking effect_id timer_id moment
  | AuthExchanging effect_id authentication_round timer_id moment
  | AuthSucceeded
  | AuthFailed authentication_failure

datatype authentication_phase =
  PhaseDormant | PhaseHandshaking | PhaseExchanging | PhaseSucceeded | PhaseFailed

fun authentication_state_phase :: "authentication_state \<Rightarrow> authentication_phase" where
  "authentication_state_phase AuthDormant = PhaseDormant"
| "authentication_state_phase (AuthHandshaking e t d) = PhaseHandshaking"
| "authentication_state_phase (AuthExchanging e r t d) = PhaseExchanging"
| "authentication_state_phase AuthSucceeded = PhaseSucceeded"
| "authentication_state_phase (AuthFailed f) = PhaseFailed"

section \<open>Inputs, effects and transitions\<close>

record authentication_attempt =
  aa_effect_id :: effect_id
  aa_deadline_timer :: timer_id
  aa_now :: moment
  aa_deadline :: moment

datatype exchange_outcome = ExchangeContinue | ExchangeSucceeded | ExchangeFailed authentication_failure

datatype authentication_input =
    AuthStart authentication_attempt
  | HandshakeAccepted connection_epoch transport_id effect_id
  | HandshakeFailed connection_epoch transport_id effect_id authentication_failure
  | ExchangeCompleted connection_epoch transport_id effect_id authentication_round exchange_outcome
  | AuthDeadlineElapsed connection_epoch timer_id moment

datatype 'v authentication_effect =
    AuthScheduleDeadline connection_epoch timer_id moment
  | SendHandshake connection_epoch transport_id effect_id correlation_id sasl_mechanism 'v
  | SendExchange connection_epoch transport_id effect_id authentication_round correlation_id 'v
  | AuthCancelDeadline timer_id
  | AuthSucceededEffect
  | AuthFailedEffect authentication_failure

datatype authentication_disposition = AuthApplied | AuthIgnoredStale

type_synonym 'v authentication_transition =
  "'v authentication_effect list \<times> authentication_disposition"

abbreviation auth_applied :: "'v authentication_effect list \<Rightarrow> 'v authentication_transition" where
  "auth_applied effects \<equiv> (effects, AuthApplied)"

abbreviation auth_stale :: "'v authentication_transition" where
  "auth_stale \<equiv> ([], AuthIgnoredStale)"

section \<open>The machine\<close>

record 'v authentication_machine =
  am_epoch :: connection_epoch
  am_transport_id :: transport_id
  am_protocol :: "'v sasl_protocol"
  am_limits :: authentication_limits
  am_state :: authentication_state

definition authentication_machine_new ::
    "connection_epoch \<Rightarrow> transport_id \<Rightarrow> 'v sasl_protocol \<Rightarrow> authentication_limits \<Rightarrow>
     'v authentication_machine" where
  "authentication_machine_new epoch transport_id protocol limits =
     \<lparr>am_epoch = epoch, am_transport_id = transport_id, am_protocol = protocol,
      am_limits = limits, am_state = AuthDormant\<rparr>"

definition auth_deadline_timer :: "'v authentication_machine \<Rightarrow> timer_id option" where
  "auth_deadline_timer m =
     (case am_state m of
        AuthHandshaking e t d \<Rightarrow> Some t
      | AuthExchanging e r t d \<Rightarrow> Some t
      | AuthDormant \<Rightarrow> None | AuthSucceeded \<Rightarrow> None | AuthFailed f \<Rightarrow> None)"

definition auth_matches ::
    "'v authentication_machine \<Rightarrow> connection_epoch \<Rightarrow> transport_id \<Rightarrow> effect_id \<Rightarrow> effect_id \<Rightarrow> bool" where
  "auth_matches m epoch transport_id effect_id expected_effect \<longleftrightarrow>
     epoch = am_epoch m \<and> transport_id = am_transport_id m \<and> effect_id = expected_effect"

definition exchange_effect ::
    "'v authentication_machine \<Rightarrow> effect_id \<Rightarrow> authentication_round \<Rightarrow> 'v authentication_effect" where
  "exchange_effect m effect_id r =
     SendExchange (am_epoch m) (am_transport_id m) effect_id r (int (unat r) + 1)
       (sp_authenticate_version (am_protocol m))"

definition auth_succeed ::
    "'v authentication_machine \<Rightarrow> timer_id \<Rightarrow> 'v authentication_machine \<times> 'v authentication_transition" where
  "auth_succeed m deadline_timer =
     (m\<lparr>am_state := AuthSucceeded\<rparr>,
      auth_applied [AuthCancelDeadline deadline_timer, AuthSucceededEffect])"

definition auth_fail ::
    "'v authentication_machine \<Rightarrow> authentication_failure \<Rightarrow> timer_id option \<Rightarrow>
     'v authentication_machine \<times> 'v authentication_transition" where
  "auth_fail m failure deadline_timer =
     (m\<lparr>am_state := AuthFailed failure\<rparr>,
      auth_applied
        ((case deadline_timer of Some timer_id \<Rightarrow> [AuthCancelDeadline timer_id] | None \<Rightarrow> []) @
         [AuthFailedEffect failure]))"

definition handshake_correlation :: correlation_id where
  "handshake_correlation = 1"

definition auth_start ::
    "'v authentication_machine \<Rightarrow> authentication_attempt \<Rightarrow>
     'v authentication_machine \<times> 'v authentication_transition" where
  "auth_start m attempt =
     (if am_state m \<noteq> AuthDormant then (m, auth_stale)
      else if aa_deadline attempt \<le> aa_now attempt then auth_fail m AuthTimeout None
      else
        (m\<lparr>am_state := AuthHandshaking (aa_effect_id attempt) (aa_deadline_timer attempt)
             (aa_deadline attempt)\<rparr>,
         auth_applied
           [AuthScheduleDeadline (am_epoch m) (aa_deadline_timer attempt) (aa_deadline attempt),
            SendHandshake (am_epoch m) (am_transport_id m) (aa_effect_id attempt)
              handshake_correlation (sp_mechanism (am_protocol m))
              (sp_handshake_version (am_protocol m))]))"

definition auth_handshake_accepted ::
    "'v authentication_machine \<Rightarrow> connection_epoch \<Rightarrow> transport_id \<Rightarrow> effect_id \<Rightarrow>
     'v authentication_machine \<times> 'v authentication_transition" where
  "auth_handshake_accepted m epoch transport_id effect_id =
     (case am_state m of
        AuthHandshaking expected_effect deadline_timer deadline \<Rightarrow>
          if \<not> auth_matches m epoch transport_id effect_id expected_effect then (m, auth_stale)
          else
            (m\<lparr>am_state := AuthExchanging effect_id round_first deadline_timer deadline\<rparr>,
             auth_applied [exchange_effect m effect_id round_first])
      | _ \<Rightarrow> (m, auth_stale))"

definition auth_handshake_failed ::
    "'v authentication_machine \<Rightarrow> connection_epoch \<Rightarrow> transport_id \<Rightarrow> effect_id \<Rightarrow>
     authentication_failure \<Rightarrow> 'v authentication_machine \<times> 'v authentication_transition" where
  "auth_handshake_failed m epoch transport_id effect_id failure =
     (case am_state m of
        AuthHandshaking expected_effect deadline_timer deadline \<Rightarrow>
          if \<not> auth_matches m epoch transport_id effect_id expected_effect then (m, auth_stale)
          else auth_fail m failure (Some deadline_timer)
      | _ \<Rightarrow> (m, auth_stale))"

definition auth_exchange_completed ::
    "'v authentication_machine \<Rightarrow> connection_epoch \<Rightarrow> transport_id \<Rightarrow> effect_id \<Rightarrow>
     authentication_round \<Rightarrow> exchange_outcome \<Rightarrow>
     'v authentication_machine \<times> 'v authentication_transition" where
  "auth_exchange_completed m epoch transport_id effect_id r outcome =
     (case am_state m of
        AuthExchanging expected_effect expected_round deadline_timer deadline \<Rightarrow>
          if \<not> auth_matches m epoch transport_id effect_id expected_effect \<or> r \<noteq> expected_round
          then (m, auth_stale)
          else
            (case outcome of
               ExchangeSucceeded \<Rightarrow> auth_succeed m deadline_timer
             | ExchangeFailed failure \<Rightarrow> auth_fail m failure (Some deadline_timer)
             | ExchangeContinue \<Rightarrow>
                 (case round_next r of
                    None \<Rightarrow> auth_fail m TooManyRounds (Some deadline_timer)
                  | Some nxt \<Rightarrow>
                      if al_max_exchange_rounds (am_limits m) < nxt
                      then auth_fail m TooManyRounds (Some deadline_timer)
                      else
                        (m\<lparr>am_state := AuthExchanging effect_id nxt deadline_timer deadline\<rparr>,
                         auth_applied [exchange_effect m effect_id nxt])))
      | _ \<Rightarrow> (m, auth_stale))"

definition auth_active_deadline :: "'v authentication_machine \<Rightarrow> (timer_id \<times> moment) option" where
  "auth_active_deadline m =
     (case am_state m of
        AuthHandshaking e deadline_timer deadline \<Rightarrow> Some (deadline_timer, deadline)
      | AuthExchanging e r deadline_timer deadline \<Rightarrow> Some (deadline_timer, deadline)
      | AuthDormant \<Rightarrow> None | AuthSucceeded \<Rightarrow> None | AuthFailed f \<Rightarrow> None)"

definition auth_deadline_elapsed ::
    "'v authentication_machine \<Rightarrow> connection_epoch \<Rightarrow> timer_id \<Rightarrow> moment \<Rightarrow>
     'v authentication_machine \<times> 'v authentication_transition" where
  "auth_deadline_elapsed m epoch timer_id now =
     (case auth_active_deadline m of
        None \<Rightarrow> (m, auth_stale)
      | Some (expected_timer, deadline) \<Rightarrow>
          if epoch \<noteq> am_epoch m \<or> timer_id \<noteq> expected_timer then (m, auth_stale)
          else if now < deadline
            then (m, auth_applied [AuthScheduleDeadline epoch timer_id deadline])
          else auth_fail m AuthTimeout (Some timer_id))"

fun authentication_apply ::
    "'v authentication_machine \<Rightarrow> authentication_input \<Rightarrow>
     'v authentication_machine \<times> 'v authentication_transition" where
  "authentication_apply m (AuthStart attempt) = auth_start m attempt"
| "authentication_apply m (HandshakeAccepted epoch transport_id effect_id) =
     auth_handshake_accepted m epoch transport_id effect_id"
| "authentication_apply m (HandshakeFailed epoch transport_id effect_id failure) =
     auth_handshake_failed m epoch transport_id effect_id failure"
| "authentication_apply m (ExchangeCompleted epoch transport_id effect_id r outcome) =
     auth_exchange_completed m epoch transport_id effect_id r outcome"
| "authentication_apply m (AuthDeadlineElapsed epoch timer_id now) =
     auth_deadline_elapsed m epoch timer_id now"

lemmas auth_handler_defs [machine_defs] =
  auth_start_def auth_handshake_accepted_def auth_handshake_failed_def auth_exchange_completed_def
  auth_deadline_elapsed_def auth_active_deadline_def auth_succeed_def auth_fail_def
  auth_matches_def exchange_effect_def

lemmas auth_splits =
  authentication_state.splits exchange_outcome.splits option.splits if_splits

section \<open>Invariant: the round stays within the policy limit\<close>

definition authentication_wf :: "'v authentication_machine \<Rightarrow> bool" where
  "authentication_wf m \<longleftrightarrow>
     0 < al_max_exchange_rounds (am_limits m) \<and>
     (case am_state m of
        AuthExchanging e r t d \<Rightarrow> 0 < r \<and> r \<le> al_max_exchange_rounds (am_limits m)
      | _ \<Rightarrow> True)"

lemma unat_round_next:
  assumes "round_next r = Some n"
  shows "unat n = unat r + 1"
proof -
  have "checked_add r 1 = Some n"
    using assms by (simp add: round_next_def split: option.splits if_splits)
  from checked_add_unat [OF this] show ?thesis by simp
qed

lemma authentication_new_wf [simp, intro]:
  "0 < al_max_exchange_rounds limits \<Longrightarrow>
   authentication_wf (authentication_machine_new epoch transport_id protocol limits)"
  by (simp add: authentication_wf_def authentication_machine_new_def)

lemma authentication_apply_static [simp]:
  "am_limits (fst (authentication_apply m i)) = am_limits m"
  "am_epoch (fst (authentication_apply m i)) = am_epoch m"
  "am_transport_id (fst (authentication_apply m i)) = am_transport_id m"
  "am_protocol (fst (authentication_apply m i)) = am_protocol m"
  by (cases i; auto simp: machine_defs split: auth_splits)+

lemma authentication_apply_wf:
  assumes "authentication_wf m"
  shows "authentication_wf (fst (authentication_apply m i))"
  using assms
  by (cases i)
     (auto simp: authentication_wf_def machine_defs round_first_def word_less_nat_alt
        word_le_nat_alt dest!: unat_round_next split: auth_splits)

interpretation authentication: machine_invariant authentication_apply authentication_wf
  by unfold_locales (rule authentication_apply_wf)

lemma authentication_run_static [simp]:
  "am_limits (final authentication_apply m is) = am_limits m"
  "am_epoch (final authentication_apply m is) = am_epoch m"
  "am_transport_id (final authentication_apply m is) = am_transport_id m"
  by (induction "is" arbitrary: m) auto

section \<open>Exchange rounds are issued in order and within the limit\<close>

definition exchange_rounds :: "'v authentication_transition \<Rightarrow> nat list" where
  "exchange_rounds t =
     concat (map (\<lambda>e. case e of SendExchange ep tr ef r c v \<Rightarrow> [unat r] | _ \<Rightarrow> []) (fst t))"

fun round_fence :: "authentication_state \<Rightarrow> nat" where
  "round_fence AuthDormant = 1"
| "round_fence (AuthHandshaking e t d) = 1"
| "round_fence (AuthExchanging e r t d) = unat r + 1"
| "round_fence AuthSucceeded = 257"
| "round_fence (AuthFailed f) = 257"

lemma round_below_fence_limit [simp]:
  "unat (r :: u8) < 256"
  using unsigned_less [of r, where ?'a = nat] by simp

interpretation exchange_fence: fenced_machine authentication_apply authentication_wf
  "\<lambda>m. round_fence (am_state m)" exchange_rounds
proof
  fix m :: "'v authentication_machine" and i e
  assume "authentication_wf m"
  show "round_fence (am_state m) \<le> round_fence (am_state (fst (authentication_apply m i)))"
    by (cases i)
       (auto simp: machine_defs round_first_def less_imp_le dest!: unat_round_next
          split: auth_splits)
  show "round_fence (am_state m) \<le> e \<and> e < round_fence (am_state (fst (authentication_apply m i)))"
    if "e \<in> set (exchange_rounds (snd (authentication_apply m i)))"
    using that
    by (cases i)
       (auto simp: machine_defs exchange_rounds_def round_first_def dest!: unat_round_next
          split: auth_splits)
  show "sorted_wrt (<) (exchange_rounds (snd (authentication_apply m i)))"
    by (cases i) (auto simp: machine_defs exchange_rounds_def split: auth_splits)
qed

lemma exchange_rounds_bounded:
  assumes "authentication_wf m"
    and "r \<in> set (exchange_rounds (snd (authentication_apply m i)))"
  shows "r \<le> unat (al_max_exchange_rounds (am_limits m))"
  using assms
  by (cases i)
     (auto simp: machine_defs exchange_rounds_def authentication_wf_def round_first_def
        word_less_nat_alt split: auth_splits)

lemma run_exchange_rounds_bounded:
  assumes "authentication_wf m"
    and "r \<in> set (concat (map exchange_rounds (outputs authentication_apply m is)))"
  shows "r \<le> unat (al_max_exchange_rounds (am_limits m))"
  using assms
proof (induction "is" arbitrary: m)
  case (Cons i js)
  then show ?case
    using exchange_rounds_bounded [of m r i] authentication_apply_wf [of m i] by fastforce
qed simp

text \<open>
  C11. Over any sequence of inputs, the exchange rounds the machine asks the transport to send are
  numbered in strictly increasing order, every number lies between one and the configured
  \<open>max_exchange_rounds\<close>, and so at most that many exchanges are ever sent.
\<close>

theorem authentication_rounds_bounded:
  assumes limit: "0 < al_max_exchange_rounds limits"
    and m: "m = authentication_machine_new epoch transport_id protocol limits"
    and rounds: "rounds = observed exchange_rounds authentication_apply m is"
  shows "sorted_wrt (<) rounds
    \<and> (\<forall>r\<in>set rounds. 1 \<le> r \<and> r \<le> unat (al_max_exchange_rounds limits))
    \<and> length rounds \<le> unat (al_max_exchange_rounds limits)"
proof -
  have wf: "authentication_wf m" using limit by (auto simp: m)
  have "am_limits m = limits" "round_fence (am_state m) = 1"
    by (simp_all add: m authentication_machine_new_def)
  then have "sorted_wrt (<) rounds"
    and "\<forall>r\<in>set rounds. 1 \<le> r \<and> r \<le> unat (al_max_exchange_rounds limits)"
    using exchange_fence.run_issues [OF wf, of "is"] run_exchange_rounds_bounded [OF wf, of _ "is"]
    by (auto simp: rounds)
  then show ?thesis using strictly_sorted_length_le by blast
qed

text \<open>A run of two rounds against the default limit of four.\<close>

definition sample_protocol :: "nat sasl_protocol" where
  "sample_protocol =
     \<lparr>sp_mechanism = SaslScramSha256, sp_handshake_version = 1, sp_authenticate_version = 2\<rparr>"

definition sample_attempt :: authentication_attempt where
  "sample_attempt = \<lparr>aa_effect_id = 5, aa_deadline_timer = 6, aa_now = 10, aa_deadline = 20\<rparr>"

definition sample_login :: "authentication_input list" where
  "sample_login =
     [AuthStart sample_attempt, HandshakeAccepted 1 2 5,
      ExchangeCompleted 1 2 5 1 ExchangeContinue, ExchangeCompleted 1 2 5 2 ExchangeSucceeded]"

theorem authentication_rounds_bounded_witness:
  "observed exchange_rounds authentication_apply
      (authentication_machine_new 1 2 sample_protocol authentication_limits_default) sample_login
     = [1, 2]
   \<and> length (observed exchange_rounds authentication_apply
      (authentication_machine_new 1 2 sample_protocol authentication_limits_default) sample_login)
     \<le> unat (al_max_exchange_rounds authentication_limits_default)"
proof -
  have "0 < al_max_exchange_rounds authentication_limits_default"
    by (simp add: authentication_limits_default_def)
  note bounded = authentication_rounds_bounded [OF this refl refl, of 1 2 sample_protocol sample_login]
  have "observed exchange_rounds authentication_apply
      (authentication_machine_new 1 2 sample_protocol authentication_limits_default) sample_login
     = [1, 2]"
    by code_simp
  with bounded show ?thesis by simp
qed

section \<open>Exactly one verdict\<close>

definition authentication_verdicts :: "'v authentication_transition \<Rightarrow> 'v authentication_effect list" where
  "authentication_verdicts t =
     filter (\<lambda>e. case e of AuthSucceededEffect \<Rightarrow> True | AuthFailedEffect f \<Rightarrow> True | _ \<Rightarrow> False) (fst t)"

fun authentication_terminal :: "authentication_state \<Rightarrow> bool" where
  "authentication_terminal AuthSucceeded = True"
| "authentication_terminal (AuthFailed f) = True"
| "authentication_terminal s = False"

definition outstanding_verdict :: "'v authentication_machine \<Rightarrow> unit multiset" where
  "outstanding_verdict m = (if authentication_terminal (am_state m) then {#} else {#()#})"

definition verdict_tokens :: "'v authentication_transition \<Rightarrow> unit multiset" where
  "verdict_tokens t = {#(). e \<in># mset (authentication_verdicts t)#}"

interpretation authentication_verdict: conserving_machine authentication_apply authentication_wf
  outstanding_verdict "\<lambda>i t. {#}" verdict_tokens
proof
  fix m :: "'v authentication_machine" and i
  show "outstanding_verdict m + {#} =
      outstanding_verdict (fst (authentication_apply m i)) + verdict_tokens (snd (authentication_apply m i))"
    by (cases i)
       (auto simp: machine_defs outstanding_verdict_def verdict_tokens_def
          authentication_verdicts_def split: auth_splits)
qed

lemma size_verdict_tokens:
  "size (sum_list (map verdict_tokens ts)) = length (concat (map authentication_verdicts ts))"
  by (induction ts) (auto simp: verdict_tokens_def)

text \<open>
  Over any sequence of inputs the machine reports exactly one verdict, success or failure,
  if it has reached a terminal state and none if it has not: no verdict is lost and none is
  repeated.
\<close>

theorem authentication_single_verdict:
  assumes "0 < al_max_exchange_rounds limits"
    and m: "m = authentication_machine_new epoch transport_id protocol limits"
  shows "length (observed authentication_verdicts authentication_apply m is) =
    (if authentication_terminal (am_state (final authentication_apply m is)) then 1 else 0)"
proof -
  have "authentication_wf m" using assms by auto
  from authentication_verdict.run_conserves [OF this, of "is"]
  have "size (outstanding_verdict m) =
      size (outstanding_verdict (final authentication_apply m is)) +
      length (observed authentication_verdicts authentication_apply m is)"
    by (simp flip: size_verdict_tokens)
  then show ?thesis
    by (simp add: outstanding_verdict_def m authentication_machine_new_def split: if_splits)
qed

theorem authentication_single_verdict_witness:
  "am_state (final authentication_apply
      (authentication_machine_new 1 2 sample_protocol authentication_limits_default) sample_login)
     = AuthSucceeded
   \<and> length (observed authentication_verdicts authentication_apply
      (authentication_machine_new 1 2 sample_protocol authentication_limits_default) sample_login) = 1"
proof -
  have "0 < al_max_exchange_rounds authentication_limits_default"
    by (simp add: authentication_limits_default_def)
  note verdict = authentication_single_verdict [OF this refl, of 1 2 sample_protocol sample_login]
  have "am_state (final authentication_apply
      (authentication_machine_new 1 2 sample_protocol authentication_limits_default) sample_login)
     = AuthSucceeded"
    by code_simp
  with verdict show ?thesis by simp
qed

section \<open>Success rests on matching evidence\<close>

text \<open>
  What the inputs consumed so far must contain, in this order, for the machine to be where it is:
  the start, the acceptance of the handshake that start sent, and a successful exchange under the
  same epoch, transport and effect.
\<close>

definition authentication_evidence ::
    "'v authentication_machine \<Rightarrow> authentication_state \<Rightarrow> authentication_input list \<Rightarrow> bool" where
  "authentication_evidence m s is \<longleftrightarrow>
     (case s of
        AuthHandshaking e t d \<Rightarrow> (\<exists>a. subseq [AuthStart a] is \<and> aa_effect_id a = e)
      | AuthExchanging e r t d \<Rightarrow>
          (\<exists>a. subseq [AuthStart a, HandshakeAccepted (am_epoch m) (am_transport_id m) e] is
             \<and> aa_effect_id a = e)
      | AuthSucceeded \<Rightarrow>
          (\<exists>a r. subseq [AuthStart a,
             HandshakeAccepted (am_epoch m) (am_transport_id m) (aa_effect_id a),
             ExchangeCompleted (am_epoch m) (am_transport_id m) (aa_effect_id a) r ExchangeSucceeded] is)
      | AuthDormant \<Rightarrow> True | AuthFailed f \<Rightarrow> True)"

lemma authentication_evidence_mono:
  "authentication_evidence m s is \<Longrightarrow> authentication_evidence m s (is @ [i])"
  unfolding authentication_evidence_def
  by (cases s) (simp_all, (blast intro: subseq_snoc(2))+)

lemma authentication_evidence_step:
  assumes "authentication_evidence m (am_state m) is"
  shows "authentication_evidence m (am_state (fst (authentication_apply m i))) (is @ [i])"
proof (cases "fst (authentication_apply m i) = m")
  case True
  then show ?thesis using assms authentication_evidence_mono by simp
next
  case moved: False
  show ?thesis
  proof (cases i)
    case (AuthStart a)
    then show ?thesis
      using moved subseq_snoc(3)
      by (auto simp: authentication_evidence_def auth_start_def auth_fail_def split: if_splits)
  next
    case (HandshakeAccepted ep t e)
    then obtain d at where "am_state m = AuthHandshaking e d at" "ep = am_epoch m" "t = am_transport_id m"
      using moved by (auto simp: auth_handler_defs split: auth_splits)
    then show ?thesis
      using assms HandshakeAccepted subseq_snoc(1) [of "[AuthStart _]" "is" i]
      by (fastforce simp: authentication_evidence_def auth_handshake_accepted_def auth_matches_def)
  next
    case (ExchangeCompleted ep t e r outcome)
    then obtain d at where s: "am_state m = AuthExchanging e r d at" "ep = am_epoch m"
      "t = am_transport_id m"
      using moved by (auto simp: auth_handler_defs split: auth_splits)
    then obtain a where a: "subseq [AuthStart a, HandshakeAccepted ep t e] is" "aa_effect_id a = e"
      using assms by (auto simp: authentication_evidence_def)
    have "subseq [AuthStart a, HandshakeAccepted ep t e] (is @ [i])"
      "subseq [AuthStart a, HandshakeAccepted ep t e, i] (is @ [i])"
      using a(1) subseq_snoc(1) [OF a(1), of i] by (auto intro: subseq_snoc(2))
    then show ?thesis
      using ExchangeCompleted s a(2)
      by (auto simp: authentication_evidence_def auth_exchange_completed_def auth_matches_def
          auth_succeed_def auth_fail_def split: exchange_outcome.splits option.splits)
  qed (use moved in \<open>auto simp: authentication_evidence_def auth_handler_defs split: auth_splits\<close>)
qed

lemma authentication_evidence_run:
  assumes "am_state m = AuthDormant"
  shows "authentication_evidence m (am_state (final authentication_apply m is)) is"
proof (induction "is" rule: rev_induct)
  case Nil
  then show ?case using assms by (simp add: authentication_evidence_def)
next
  case (snoc i js)
  let ?m = "final authentication_apply m js"
  have same: "authentication_evidence ?m = authentication_evidence m"
    by (intro ext) (simp add: authentication_evidence_def split: authentication_state.split)
  have "authentication_evidence ?m (am_state ?m) js" using snoc by (simp only: same)
  then have "authentication_evidence ?m (am_state (fst (authentication_apply ?m i))) (js @ [i])"
    by (rule authentication_evidence_step)
  then show ?case by (simp add: same run_append)
qed

text \<open>
  C10. A machine that ends in success consumed, in this order, the start of the attempt, the
  acceptance of that attempt's handshake, and a successful exchange, all three fenced by its own
  epoch and transport and by the effect identity of that start. No other input sequence
  authenticates a connection.
\<close>

theorem authentication_success_evidence:
  assumes m: "m = authentication_machine_new epoch transport_id protocol limits"
    and "am_state (final authentication_apply m is) = AuthSucceeded"
  shows "\<exists>a r. subseq
    [AuthStart a, HandshakeAccepted epoch transport_id (aa_effect_id a),
     ExchangeCompleted epoch transport_id (aa_effect_id a) r ExchangeSucceeded] is"
  using authentication_evidence_run [of m "is"] assms
  by (simp add: authentication_evidence_def authentication_machine_new_def)

theorem authentication_success_evidence_witness:
  "\<exists>a r. subseq
    [AuthStart a, HandshakeAccepted 1 2 (aa_effect_id a),
     ExchangeCompleted 1 2 (aa_effect_id a) r ExchangeSucceeded] sample_login"
proof -
  have "am_state (final authentication_apply
      (authentication_machine_new 1 2 sample_protocol authentication_limits_default) sample_login)
     = AuthSucceeded"
    by code_simp
  from authentication_success_evidence [OF refl this] show ?thesis .
qed

end
