(* ===== verification/Session.thy ===== *)
theory Session
  imports Authentication
begin

text \<open>
  The Kafka session machine, \<open>connection/session/\<close>: negotiation of API versions, optional SASL
  stages, draining and closing, without timers or transports. The connection machine drives one
  of these beside its own state and rejects what the session rejects. The accessor
  \<open>VersionRange::max\<close> of \<open>kafka-wire\<close> is the argument \<open>range_max\<close>.
\<close>

section \<open>States\<close>

datatype negotiation_failure = NegBroker | NegMalformed | NegCapacity | NegTimeout

datatype kafka_session_protocol_failure = SessMalformed | SessUnexpected

datatype kafka_session_close_reason =
    SessReasonDrained
  | SessReasonRequested
  | SessReasonNegotiationFailed negotiation_failure
  | SessReasonAuthenticationFailed authentication_failure
  | SessReasonProtocolFailed kafka_session_protocol_failure
  | SessReasonTransportClosed

datatype authentication_stage =
    StageHandshaking moment
  | StageExchanging authentication_round moment

datatype ('k, 'r, 'v) session_state_data =
    SessAwaitingTransport
  | SessNegotiating moment
  | SessAuthenticating "('k, 'r) negotiated_capabilities" "'v sasl_protocol" authentication_stage
  | SessReady "('k, 'r) negotiated_capabilities"
  | SessDraining "('k, 'r) negotiated_capabilities"
  | SessClosing kafka_session_close_reason
  | SessClosed kafka_session_close_reason

text \<open>
  The public snapshot. \<open>KafkaSessionAuthenticationState\<close> repeats the two cases of
  \<open>AuthenticationStage\<close>, so the stage stands for both.
\<close>

datatype kafka_session_state =
    SnapAwaitingTransport
  | SnapNegotiating moment
  | SnapAuthenticating authentication_stage usize
  | SnapReady usize
  | SnapDraining usize
  | SnapClosing kafka_session_close_reason
  | SnapClosed kafka_session_close_reason

fun session_snapshot :: "('k, 'r, 'v) session_state_data \<Rightarrow> kafka_session_state" where
  "session_snapshot SessAwaitingTransport = SnapAwaitingTransport"
| "session_snapshot (SessNegotiating deadline) = SnapNegotiating deadline"
| "session_snapshot (SessAuthenticating capabilities protocol stage) =
     SnapAuthenticating stage (capabilities_len capabilities)"
| "session_snapshot (SessReady capabilities) = SnapReady (capabilities_len capabilities)"
| "session_snapshot (SessDraining capabilities) = SnapDraining (capabilities_len capabilities)"
| "session_snapshot (SessClosing reason) = SnapClosing reason"
| "session_snapshot (SessClosed reason) = SnapClosed reason"

datatype kafka_session_phase =
    SessPhaseAwaitingTransport | SessPhaseNegotiating | SessPhaseAuthenticating | SessPhaseReady
  | SessPhaseDraining | SessPhaseClosing | SessPhaseClosed

fun session_phase :: "kafka_session_state \<Rightarrow> kafka_session_phase" where
  "session_phase SnapAwaitingTransport = SessPhaseAwaitingTransport"
| "session_phase (SnapNegotiating d) = SessPhaseNegotiating"
| "session_phase (SnapAuthenticating st n) = SessPhaseAuthenticating"
| "session_phase (SnapReady n) = SessPhaseReady"
| "session_phase (SnapDraining n) = SessPhaseDraining"
| "session_phase (SnapClosing reason) = SessPhaseClosing"
| "session_phase (SnapClosed reason) = SessPhaseClosed"

section \<open>Inputs, effects and transitions\<close>

record kafka_session_deadline =
  sd_now :: moment
  sd_deadline :: moment

datatype ('k, 'r) kafka_session_input =
    SessTransportOpened kafka_session_deadline
  | SessApiVersionsSucceeded "('k, 'r) negotiated_capabilities"
  | SessApiVersionsSucceededWithAuthentication "('k, 'r) negotiated_capabilities" kafka_session_deadline
  | SessApiVersionsFailed negotiation_failure
  | SessAuthenticationHandshakeSucceeded
  | SessAuthenticationHandshakeFailed authentication_failure
  | SessAuthenticationExchangeCompleted authentication_round exchange_outcome
  | SessDeadlineElapsed moment
  | SessBeginDrain
  | SessDrained
  | SessProtocolFailed kafka_session_protocol_failure
  | SessClosedInput

datatype 'v kafka_session_effect =
    StartApiVersions moment
  | StartAuthenticationHandshake sasl_mechanism 'v moment
  | StartAuthenticationExchange authentication_round 'v moment
  | SessRescheduleDeadline moment
  | SessCancelDeadline
  | SessSessionReady
  | SessBeginDrainEffect
  | SessCloseSession kafka_session_close_reason

datatype kafka_session_disposition = SessApplied | SessIgnored | SessIgnoredStale | SessFault

type_synonym 'v kafka_session_transition = "'v kafka_session_effect list \<times> kafka_session_disposition"

abbreviation sess_applied :: "'v kafka_session_effect list \<Rightarrow> 'v kafka_session_transition" where
  "sess_applied effects \<equiv> (effects, SessApplied)"

abbreviation sess_ignored :: "'v kafka_session_transition" where
  "sess_ignored \<equiv> ([], SessIgnored)"

abbreviation sess_stale :: "'v kafka_session_transition" where
  "sess_stale \<equiv> ([], SessIgnoredStale)"

abbreviation sess_fault :: "'v kafka_session_effect list \<Rightarrow> 'v kafka_session_transition" where
  "sess_fault effects \<equiv> (effects, SessFault)"

section \<open>The machine\<close>

text \<open>\<open>KafkaSessionLimits\<close> has the one field \<open>capabilities\<close>, a \<open>NonZeroUsize\<close>.\<close>

record kafka_session_limits =
  ksl_capabilities :: usize

definition kafka_session_limits_default :: kafka_session_limits where
  "kafka_session_limits_default = \<lparr>ksl_capabilities = 128\<rparr>"

record ('k, 'r, 'v) kafka_session_machine =
  ks_state :: "('k, 'r, 'v) session_state_data"
  ks_limits :: kafka_session_limits
  ks_authentication :: "'k authentication_policy option"

type_synonym ('k, 'r, 'v) session_step = "('k, 'r, 'v) kafka_session_machine \<times> 'v kafka_session_transition"

definition kafka_session_new :: "kafka_session_limits \<Rightarrow> ('k, 'r, 'v) kafka_session_machine" where
  "kafka_session_new limits =
     \<lparr>ks_state = SessAwaitingTransport, ks_limits = limits, ks_authentication = None\<rparr>"

definition kafka_session_new_authenticated ::
    "kafka_session_limits \<Rightarrow> 'k authentication_policy \<Rightarrow> ('k, 'r, 'v) kafka_session_machine" where
  "kafka_session_new_authenticated limits authentication =
     \<lparr>ks_state = SessAwaitingTransport, ks_limits = limits,
      ks_authentication = Some authentication\<rparr>"

definition session_capabilities ::
    "('k, 'r, 'v) kafka_session_machine \<Rightarrow> ('k, 'r) negotiated_capabilities option" where
  "session_capabilities m =
     (case ks_state m of
        SessAuthenticating capabilities protocol stage \<Rightarrow> Some capabilities
      | SessReady capabilities \<Rightarrow> Some capabilities
      | SessDraining capabilities \<Rightarrow> Some capabilities
      | _ \<Rightarrow> None)"

definition session_negotiated_version ::
    "('r \<Rightarrow> 'v) \<Rightarrow> ('k::linorder, 'r, 'v) kafka_session_machine \<Rightarrow> 'k \<Rightarrow> 'v option" where
  "session_negotiated_version range_max m k =
     Option.bind (session_capabilities m) (\<lambda>c. capabilities_version range_max c k)"

definition session_negotiated_api ::
    "('k::linorder, 'r, 'v) kafka_session_machine \<Rightarrow> 'k \<Rightarrow> ('k, 'r) negotiated_api option" where
  "session_negotiated_api m k = Option.bind (session_capabilities m) (\<lambda>c. capabilities_api c k)"

definition sess_close ::
    "('k, 'r, 'v) kafka_session_machine \<Rightarrow> kafka_session_close_reason \<Rightarrow> bool \<Rightarrow> bool \<Rightarrow>
     ('k, 'r, 'v) session_step" where
  "sess_close m reason cancel_deadline fault =
     (m\<lparr>ks_state := SessClosing reason\<rparr>,
      let effects = [SessCloseSession reason] @ (if cancel_deadline then [SessCancelDeadline] else [])
      in if fault then sess_fault effects else sess_applied effects)"

definition close_negotiation ::
    "('k, 'r, 'v) kafka_session_machine \<Rightarrow> negotiation_failure \<Rightarrow> bool \<Rightarrow> ('k, 'r, 'v) session_step" where
  "close_negotiation m failure cancel_deadline =
     sess_close m (SessReasonNegotiationFailed failure) cancel_deadline False"

definition close_authentication ::
    "('k, 'r, 'v) kafka_session_machine \<Rightarrow> authentication_failure \<Rightarrow> bool \<Rightarrow> ('k, 'r, 'v) session_step" where
  "close_authentication m failure cancel_deadline =
     sess_close m (SessReasonAuthenticationFailed failure) cancel_deadline False"

section \<open>Negotiation\<close>

definition sess_transport_opened ::
    "('k, 'r, 'v) kafka_session_machine \<Rightarrow> kafka_session_deadline \<Rightarrow> ('k, 'r, 'v) session_step" where
  "sess_transport_opened m attempt =
     (case ks_state m of
        SessAwaitingTransport \<Rightarrow>
          if sd_deadline attempt \<le> sd_now attempt then close_negotiation m NegTimeout False
          else (m\<lparr>ks_state := SessNegotiating (sd_deadline attempt)\<rparr>,
                sess_applied [StartApiVersions (sd_deadline attempt)])
      | _ \<Rightarrow> (m, sess_stale))"

definition sess_api_versions_succeeded ::
    "('k, 'r, 'v) kafka_session_machine \<Rightarrow> ('k, 'r) negotiated_capabilities \<Rightarrow> ('k, 'r, 'v) session_step" where
  "sess_api_versions_succeeded m capabilities =
     (case ks_state m of
        SessNegotiating deadline \<Rightarrow>
          if ksl_capabilities (ks_limits m) < capabilities_len capabilities
          then close_negotiation m NegCapacity True
          else if ks_authentication m \<noteq> None then close_authentication m AuthProtocol True
          else (m\<lparr>ks_state := SessReady capabilities\<rparr>,
                sess_applied [SessCancelDeadline, SessSessionReady])
      | _ \<Rightarrow> (m, sess_stale))"

definition sess_api_versions_succeeded_with_authentication ::
    "('r \<Rightarrow> 'v) \<Rightarrow> ('k::linorder, 'r, 'v) kafka_session_machine \<Rightarrow> ('k, 'r) negotiated_capabilities \<Rightarrow>
     kafka_session_deadline \<Rightarrow> ('k, 'r, 'v) session_step" where
  "sess_api_versions_succeeded_with_authentication range_max m capabilities attempt =
     (case ks_state m of
        SessNegotiating deadline \<Rightarrow>
          if ksl_capabilities (ks_limits m) < capabilities_len capabilities
          then close_negotiation m NegCapacity True
          else
            (case ks_authentication m of
               None \<Rightarrow> close_authentication m AuthProtocol True
             | Some policy \<Rightarrow>
                 (case capabilities_version range_max capabilities (ap_handshake_api_key policy) of
                    None \<Rightarrow> close_authentication m AuthProtocol True
                  | Some handshake_version \<Rightarrow>
                      (case capabilities_version range_max capabilities
                              (ap_authenticate_api_key policy) of
                         None \<Rightarrow> close_authentication m AuthProtocol True
                       | Some authenticate_version \<Rightarrow>
                           if sd_deadline attempt \<le> sd_now attempt
                           then close_authentication m AuthTimeout True
                           else
                             (m\<lparr>ks_state := SessAuthenticating capabilities
                                  \<lparr>sp_mechanism = ap_mechanism policy,
                                   sp_handshake_version = handshake_version,
                                   sp_authenticate_version = authenticate_version\<rparr>
                                  (StageHandshaking (sd_deadline attempt))\<rparr>,
                              sess_applied
                                [SessCancelDeadline,
                                 StartAuthenticationHandshake (ap_mechanism policy)
                                   handshake_version (sd_deadline attempt)]))))
      | _ \<Rightarrow> (m, sess_stale))"

definition sess_api_versions_failed ::
    "('k, 'r, 'v) kafka_session_machine \<Rightarrow> negotiation_failure \<Rightarrow> ('k, 'r, 'v) session_step" where
  "sess_api_versions_failed m failure =
     (case ks_state m of
        SessNegotiating deadline \<Rightarrow> close_negotiation m failure True
      | _ \<Rightarrow> (m, sess_stale))"

section \<open>Authentication stages\<close>

text \<open>
  \<open>authentication_stage_mut\<close> panics outside \<open>Authenticating\<close>; both callers have just matched
  that state, so the stage is replaced in place here.
\<close>

definition sess_authentication_failed ::
    "('k, 'r, 'v) kafka_session_machine \<Rightarrow> authentication_failure \<Rightarrow> ('k, 'r, 'v) session_step" where
  "sess_authentication_failed m failure =
     (case ks_state m of
        SessAuthenticating capabilities protocol stage \<Rightarrow> close_authentication m failure True
      | _ \<Rightarrow> (m, sess_stale))"

definition sess_finish_authentication ::
    "('k, 'r, 'v) kafka_session_machine \<Rightarrow> ('k, 'r, 'v) session_step" where
  "sess_finish_authentication m =
     (case ks_state m of
        SessAuthenticating capabilities protocol stage \<Rightarrow>
          (m\<lparr>ks_state := SessReady capabilities\<rparr>,
           sess_applied [SessCancelDeadline, SessSessionReady])
      | _ \<Rightarrow> (m\<lparr>ks_state := SessClosing SessReasonRequested\<rparr>, sess_stale))"

definition sess_handshake_succeeded ::
    "('k, 'r, 'v) kafka_session_machine \<Rightarrow> ('k, 'r, 'v) session_step" where
  "sess_handshake_succeeded m =
     (case ks_state m of
        SessAuthenticating capabilities protocol (StageHandshaking deadline) \<Rightarrow>
          (m\<lparr>ks_state := SessAuthenticating capabilities protocol (StageExchanging round_first deadline)\<rparr>,
           sess_applied
             [StartAuthenticationExchange round_first (sp_authenticate_version protocol) deadline])
      | _ \<Rightarrow> (m, sess_stale))"

definition sess_exchange_completed ::
    "('k, 'r, 'v) kafka_session_machine \<Rightarrow> authentication_round \<Rightarrow> exchange_outcome \<Rightarrow>
     ('k, 'r, 'v) session_step" where
  "sess_exchange_completed m r outcome =
     (case ks_state m of
        SessAuthenticating capabilities protocol (StageExchanging expected deadline) \<Rightarrow>
          if r \<noteq> expected then (m, sess_stale)
          else
            (case outcome of
               ExchangeSucceeded \<Rightarrow> sess_finish_authentication m
             | ExchangeFailed failure \<Rightarrow> sess_authentication_failed m failure
             | ExchangeContinue \<Rightarrow>
                 (case round_next r of
                    None \<Rightarrow> sess_authentication_failed m TooManyRounds
                  | Some nxt \<Rightarrow>
                      (case ks_authentication m of
                         None \<Rightarrow> sess_authentication_failed m AuthProtocol
                       | Some policy \<Rightarrow>
                           if al_max_exchange_rounds (ap_limits policy) < nxt
                           then sess_authentication_failed m TooManyRounds
                           else
                             (m\<lparr>ks_state := SessAuthenticating capabilities protocol
                                  (StageExchanging nxt deadline)\<rparr>,
                              sess_applied
                                [StartAuthenticationExchange nxt
                                   (sp_authenticate_version protocol) deadline]))))
      | _ \<Rightarrow> (m, sess_stale))"

section \<open>Deadlines and lifecycle\<close>

fun stage_deadline :: "authentication_stage \<Rightarrow> moment" where
  "stage_deadline (StageHandshaking deadline) = deadline"
| "stage_deadline (StageExchanging r deadline) = deadline"

definition sess_deadline_elapsed ::
    "('k, 'r, 'v) kafka_session_machine \<Rightarrow> moment \<Rightarrow> ('k, 'r, 'v) session_step" where
  "sess_deadline_elapsed m now =
     (case ks_state m of
        SessNegotiating deadline \<Rightarrow>
          if now < deadline then (m, sess_applied [SessRescheduleDeadline deadline])
          else close_negotiation m NegTimeout False
      | SessAuthenticating capabilities protocol stage \<Rightarrow>
          if now < stage_deadline stage
          then (m, sess_applied [SessRescheduleDeadline (stage_deadline stage)])
          else close_authentication m AuthTimeout True
      | _ \<Rightarrow> (m, sess_stale))"

definition sess_begin_drain :: "('k, 'r, 'v) kafka_session_machine \<Rightarrow> ('k, 'r, 'v) session_step" where
  "sess_begin_drain m =
     (case ks_state m of
        SessAwaitingTransport \<Rightarrow> sess_close m SessReasonRequested False False
      | SessNegotiating deadline \<Rightarrow> sess_close m SessReasonRequested True False
      | SessAuthenticating capabilities protocol stage \<Rightarrow> sess_close m SessReasonRequested True False
      | SessReady capabilities \<Rightarrow>
          (m\<lparr>ks_state := SessDraining capabilities\<rparr>, sess_applied [SessBeginDrainEffect])
      | _ \<Rightarrow> (m, sess_ignored))"

definition sess_drained :: "('k, 'r, 'v) kafka_session_machine \<Rightarrow> ('k, 'r, 'v) session_step" where
  "sess_drained m =
     (case ks_state m of
        SessDraining capabilities \<Rightarrow> sess_close m SessReasonDrained False False
      | _ \<Rightarrow> (m, sess_stale))"

definition sess_protocol_failed ::
    "('k, 'r, 'v) kafka_session_machine \<Rightarrow> kafka_session_protocol_failure \<Rightarrow> ('k, 'r, 'v) session_step" where
  "sess_protocol_failed m failure =
     (case ks_state m of
        SessClosing reason \<Rightarrow> (m, sess_stale)
      | SessClosed reason \<Rightarrow> (m, sess_stale)
      | SessNegotiating deadline \<Rightarrow> sess_close m (SessReasonProtocolFailed failure) True True
      | SessAuthenticating capabilities protocol stage \<Rightarrow>
          sess_close m (SessReasonProtocolFailed failure) True True
      | _ \<Rightarrow> sess_close m (SessReasonProtocolFailed failure) False True)"

definition sess_closed :: "('k, 'r, 'v) kafka_session_machine \<Rightarrow> ('k, 'r, 'v) session_step" where
  "sess_closed m =
     (case ks_state m of
        SessClosed reason \<Rightarrow> (m, sess_ignored)
      | SessClosing reason \<Rightarrow> (m\<lparr>ks_state := SessClosed reason\<rparr>, sess_applied [])
      | _ \<Rightarrow> (m\<lparr>ks_state := SessClosed SessReasonTransportClosed\<rparr>, sess_applied []))"

fun session_apply ::
    "('r \<Rightarrow> 'v) \<Rightarrow> ('k::linorder, 'r, 'v) kafka_session_machine \<Rightarrow> ('k, 'r) kafka_session_input \<Rightarrow>
     ('k, 'r, 'v) session_step" where
  "session_apply range_max m (SessTransportOpened deadline) = sess_transport_opened m deadline"
| "session_apply range_max m (SessApiVersionsSucceeded capabilities) =
     sess_api_versions_succeeded m capabilities"
| "session_apply range_max m (SessApiVersionsSucceededWithAuthentication capabilities deadline) =
     sess_api_versions_succeeded_with_authentication range_max m capabilities deadline"
| "session_apply range_max m (SessApiVersionsFailed failure) = sess_api_versions_failed m failure"
| "session_apply range_max m SessAuthenticationHandshakeSucceeded = sess_handshake_succeeded m"
| "session_apply range_max m (SessAuthenticationHandshakeFailed failure) =
     sess_authentication_failed m failure"
| "session_apply range_max m (SessAuthenticationExchangeCompleted r outcome) =
     sess_exchange_completed m r outcome"
| "session_apply range_max m (SessDeadlineElapsed now) = sess_deadline_elapsed m now"
| "session_apply range_max m SessBeginDrain = sess_begin_drain m"
| "session_apply range_max m SessDrained = sess_drained m"
| "session_apply range_max m (SessProtocolFailed failure) = sess_protocol_failed m failure"
| "session_apply range_max m SessClosedInput = sess_closed m"

lemmas session_handler_defs [machine_defs] =
  sess_transport_opened_def sess_api_versions_succeeded_def
  sess_api_versions_succeeded_with_authentication_def sess_api_versions_failed_def
  sess_authentication_failed_def sess_finish_authentication_def sess_handshake_succeeded_def
  sess_exchange_completed_def sess_deadline_elapsed_def sess_begin_drain_def sess_drained_def
  sess_protocol_failed_def sess_closed_def sess_close_def close_negotiation_def
  close_authentication_def

lemmas session_splits =
  session_state_data.splits authentication_stage.splits exchange_outcome.splits option.splits
  if_splits

section \<open>Invariant and rank\<close>

text \<open>
  The retained capability set fits the session limit in every state that has one, an
  authenticating session has a policy, and its round stays within that policy's limit.
\<close>

definition session_wf :: "('k, 'r, 'v) kafka_session_machine \<Rightarrow> bool" where
  "session_wf m \<longleftrightarrow>
     (case session_capabilities m of
        None \<Rightarrow> True | Some c \<Rightarrow> capabilities_len c \<le> ksl_capabilities (ks_limits m)) \<and>
     (case ks_authentication m of
        None \<Rightarrow> (\<forall>c p st. ks_state m \<noteq> SessAuthenticating c p st)
      | Some policy \<Rightarrow>
          0 < al_max_exchange_rounds (ap_limits policy) \<and>
          (\<forall>c p r d. ks_state m = SessAuthenticating c p (StageExchanging r d) \<longrightarrow>
             0 < r \<and> r \<le> al_max_exchange_rounds (ap_limits policy)))"

fun session_rank :: "('k, 'r, 'v) session_state_data \<Rightarrow> nat" where
  "session_rank SessAwaitingTransport = 0"
| "session_rank (SessNegotiating d) = 1"
| "session_rank (SessAuthenticating c p st) = 2"
| "session_rank (SessReady c) = 3"
| "session_rank (SessDraining c) = 4"
| "session_rank (SessClosing reason) = 5"
| "session_rank (SessClosed reason) = 6"

lemma session_apply_static [simp]:
  "ks_limits (fst (session_apply range_max m i)) = ks_limits m"
  "ks_authentication (fst (session_apply range_max m i)) = ks_authentication m"
  by (cases i; auto simp: machine_defs split: session_splits)+

lemma session_apply_wf:
  assumes "session_wf m"
  shows "session_wf (fst (session_apply range_max m i))"
  using assms
  by (cases i; cases "ks_state m")
     (auto simp: session_wf_def session_capabilities_def session_handler_defs round_first_def Let_def
        word_less_nat_alt word_le_nat_alt dest!: unat_round_next
        split: authentication_stage.splits exchange_outcome.splits option.splits)

lemma session_apply_rank:
  "session_rank (ks_state m) \<le> session_rank (ks_state (fst (session_apply range_max m i)))"
  by (cases i) (auto simp: machine_defs split: session_splits)

interpretation session: ranked_machine "session_apply range_max" session_wf
  "\<lambda>m. session_rank (ks_state m)" for range_max :: "'r \<Rightarrow> 'v"
  by unfold_locales (auto intro: session_apply_wf session_apply_rank)

section \<open>An authenticated session is ready only after its login\<close>

text \<open>
  What the inputs consumed so far must contain, in order, for a session that has an authentication
  policy to be where it is. \<open>c\<close> is the capability set the session holds.
\<close>

definition session_evidence ::
    "('k, 'r, 'v) session_state_data \<Rightarrow> ('k, 'r) kafka_session_input list \<Rightarrow> bool" where
  "session_evidence s is \<longleftrightarrow>
     (case s of
        SessAuthenticating c p (StageHandshaking d) \<Rightarrow>
          (\<exists>a. subseq [SessApiVersionsSucceededWithAuthentication c a] is)
      | SessAuthenticating c p (StageExchanging r d) \<Rightarrow>
          (\<exists>a. subseq [SessApiVersionsSucceededWithAuthentication c a,
             SessAuthenticationHandshakeSucceeded] is)
      | SessReady c \<Rightarrow>
          (\<exists>a r. subseq [SessApiVersionsSucceededWithAuthentication c a,
             SessAuthenticationHandshakeSucceeded,
             SessAuthenticationExchangeCompleted r ExchangeSucceeded] is)
      | SessDraining c \<Rightarrow>
          (\<exists>a r. subseq [SessApiVersionsSucceededWithAuthentication c a,
             SessAuthenticationHandshakeSucceeded,
             SessAuthenticationExchangeCompleted r ExchangeSucceeded] is)
      | _ \<Rightarrow> True)"

lemma session_evidence_mono: "session_evidence s is \<Longrightarrow> session_evidence s (is @ [i])"
  unfolding session_evidence_def
  by (cases s) (simp_all split: authentication_stage.splits, (blast intro: subseq_snoc(2))+)

lemma session_evidence_step:
  assumes policy: "ks_authentication m \<noteq> None" and evidence: "session_evidence (ks_state m) is"
  shows "session_evidence (ks_state (fst (session_apply range_max m i))) (is @ [i])"
proof (cases i)
  case (SessApiVersionsSucceededWithAuthentication c a)
  then show ?thesis
    using session_evidence_mono [OF evidence, of i] subseq_snoc(3) [of i "is"]
    by (cases "ks_state m")
       (auto simp: sess_api_versions_succeeded_with_authentication_def close_negotiation_def
          close_authentication_def sess_close_def session_evidence_def split: option.splits)
next
  case SessAuthenticationHandshakeSucceeded
  then show ?thesis
    using session_evidence_mono [OF evidence, of i] evidence subseq_snoc(1) [of "[_]" "is" i]
    by (cases "ks_state m")
       (fastforce simp: sess_handshake_succeeded_def session_evidence_def
          split: authentication_stage.splits)+
next
  case (SessAuthenticationExchangeCompleted r outcome)
  then show ?thesis
    using session_evidence_mono [OF evidence, of i] evidence subseq_snoc(1) [of "[_, _]" "is" i]
    by (cases "ks_state m")
       (auto simp: sess_exchange_completed_def sess_finish_authentication_def
          sess_authentication_failed_def close_authentication_def sess_close_def
          session_evidence_def split: authentication_stage.splits exchange_outcome.splits option.splits)
qed (use session_evidence_mono [OF evidence, of i] policy in
    \<open>cases "ks_state m"; simp add: session_handler_defs session_evidence_def Let_def\<close>)+

lemma session_run_static [simp]:
  "ks_authentication (final (session_apply range_max) m is) = ks_authentication m"
  "ks_limits (final (session_apply range_max) m is) = ks_limits m"
  by (induction "is" arbitrary: m) auto

lemma session_evidence_run:
  assumes "ks_authentication m \<noteq> None" and "ks_state m = SessAwaitingTransport"
  shows "session_evidence (ks_state (final (session_apply range_max) m is)) is"
proof (induction "is" rule: rev_induct)
  case Nil
  then show ?case using assms by (simp add: session_evidence_def)
next
  case (snoc i js)
  then show ?case
    using assms(1) session_evidence_step [of "final (session_apply range_max) m js" js range_max i]
    by (simp add: run_append)
qed

text \<open>
  A session created with an authentication policy offers capabilities for use, ready or
  draining, only after it consumed in order the negotiation of exactly those capabilities, the
  acceptance of a SASL handshake and a successful exchange: negotiation alone never opens it.
\<close>

theorem session_ready_after_login:
  fixes range_max :: "'r \<Rightarrow> 'v"
  assumes m: "m = kafka_session_new_authenticated limits policy"
    and "ks_state (final (session_apply range_max) m is) \<in> {SessReady c, SessDraining c}"
  shows "\<exists>a r. subseq
    [SessApiVersionsSucceededWithAuthentication c a, SessAuthenticationHandshakeSucceeded,
     SessAuthenticationExchangeCompleted r ExchangeSucceeded] is"
  using session_evidence_run [of m range_max "is"] assms
  by (auto simp: session_evidence_def kafka_session_new_authenticated_def)

definition sample_capabilities :: "(nat, nat) negotiated_capabilities" where
  "sample_capabilities =
     \<lparr>nc_apis = [\<lparr>na_api_key = 17, na_versions = 1\<rparr>, \<lparr>na_api_key = 36, na_versions = 2\<rparr>]\<rparr>"

definition sample_policy :: "nat authentication_policy" where
  "sample_policy =
     \<lparr>ap_mechanism = SaslScramSha256, ap_handshake_api_key = 17, ap_authenticate_api_key = 36,
      ap_limits = authentication_limits_default\<rparr>"

definition sample_session_inputs :: "(nat, nat) kafka_session_input list" where
  "sample_session_inputs =
     [SessTransportOpened \<lparr>sd_now = 0, sd_deadline = 10\<rparr>,
      SessApiVersionsSucceededWithAuthentication sample_capabilities \<lparr>sd_now = 1, sd_deadline = 20\<rparr>,
      SessAuthenticationHandshakeSucceeded,
      SessAuthenticationExchangeCompleted 1 ExchangeSucceeded, SessBeginDrain]"

theorem session_ready_after_login_witness:
  "\<exists>a r. subseq
    [SessApiVersionsSucceededWithAuthentication sample_capabilities a,
     SessAuthenticationHandshakeSucceeded,
     SessAuthenticationExchangeCompleted r ExchangeSucceeded] sample_session_inputs"
proof -
  have "ks_state (final (session_apply id)
      (kafka_session_new_authenticated kafka_session_limits_default sample_policy)
      sample_session_inputs) = SessDraining sample_capabilities"
    by code_simp
  then have "ks_state (final (session_apply id)
      (kafka_session_new_authenticated kafka_session_limits_default sample_policy)
      sample_session_inputs) \<in> {SessReady sample_capabilities, SessDraining sample_capabilities}"
    by simp
  from session_ready_after_login [OF refl this] show ?thesis .
qed

end
