(* ===== verification/Connection_Parts.thy ===== *)
theory Connection_Parts
  imports Session
begin

text \<open>
  The parts a connection machine is assembled from: failure and close reasons (\<open>failure.rs\<close>),
  phases and input kinds (\<open>state.rs\<close>, \<open>input.rs\<close>), the bounded transition trace
  (\<open>trace.rs\<close>), the correlation allocator (\<open>correlation.rs\<close>), the queue of pending calls
  (\<open>pending.rs\<close>) and the limits (\<open>limits.rs\<close>), all of \<open>connection/\<close>.
\<close>

section \<open>Failures\<close>

datatype transport_failure = Refused | Reset | Security | TimedOut | OtherFailure

datatype close_reason =
    ReasonDrained
  | ReasonRequested
  | ReasonOpenFailed transport_failure
  | ReasonTransportLost transport_failure
  | ReasonNegotiationFailed negotiation_failure
  | ReasonAuthenticationFailed authentication_failure
  | ReasonCorrelationMismatch correlation_id correlation_id
  | ReasonUnexpectedResponse
  | ReasonMalformedResponse
  | ReasonDeadlineExceeded call_id

datatype response_fault = FaultUnexpected | FaultMalformed

datatype call_failure =
    CallNotReady
  | CallDraining
  | CallClosed
  | CallCapacityReached usize
  | CallCorrelationSpaceExhausted
  | CallDeadlineExceeded
  | CallLocallyRejected
  | CallConnectionClosed close_reason
  | CallCorrelationMismatch correlation_id correlation_id

datatype identity_kind = IdCall | IdWriteEffect | IdDeadlineTimer

datatype connection_machine_error =
    IdentityInUse identity_kind
  | TransitionSequenceExhausted

section \<open>Limits\<close>

text \<open>\<open>in_flight\<close> and \<open>capabilities\<close> are \<open>NonZeroUsize\<close>.\<close>

record connection_limits =
  cl_in_flight :: usize
  cl_capabilities :: usize
  cl_trace_records :: usize

definition connection_limits_new :: "usize \<Rightarrow> usize \<Rightarrow> connection_limits" where
  "connection_limits_new max_in_flight max_trace_records =
     \<lparr>cl_in_flight = max_in_flight, cl_capabilities = 128, cl_trace_records = max_trace_records\<rparr>"

definition with_max_capabilities :: "connection_limits \<Rightarrow> usize \<Rightarrow> connection_limits" where
  "with_max_capabilities limits max_capabilities = limits\<lparr>cl_capabilities := max_capabilities\<rparr>"

definition connection_limits_default :: connection_limits where
  "connection_limits_default = connection_limits_new 256 128"

section \<open>Phases, input kinds and the transition trace\<close>

datatype connection_phase =
    PhDormant | PhOpening | PhNegotiating | PhAuthenticating | PhReady | PhDraining | PhClosing
  | PhClosed

datatype connection_input_kind =
    KindStart | KindTransportOpened | KindTransportOpenFailed | KindApiVersionsNegotiated
  | KindApiVersionsNegotiatedWithAuthentication | KindApiVersionsFailed | KindAuthentication
  | KindSubmit | KindWriteSubmitted | KindAbortUnsentCall | KindWriteFailed | KindResponseReceived
  | KindResponseRejected | KindDeadlineElapsed | KindBeginDrain | KindTransportClosed

datatype transition_disposition = Applied | Rejected | Ignored | IgnoredStale | Fault

record transition_record =
  tr_sequence :: u64
  tr_epoch :: connection_epoch
  tr_from :: connection_phase
  tr_input :: connection_input_kind
  tr_to :: connection_phase
  tr_disposition :: transition_disposition
  tr_effect_count :: usize

record transition_trace =
  tt_capacity :: usize
  tt_records :: "transition_record list"

definition trace_new :: "usize \<Rightarrow> transition_trace" where
  "trace_new capacity = \<lparr>tt_capacity = capacity, tt_records = []\<rparr>"

definition trace_push :: "transition_trace \<Rightarrow> transition_record \<Rightarrow> transition_trace" where
  "trace_push t r =
     (if tt_capacity t = 0 then t
      else
        let kept = (if length (tt_records t) = tt_capacity t then tl (tt_records t) else tt_records t)
        in t\<lparr>tt_records := kept @ [r]\<rparr>)"

text \<open>The trace keeps the newest records of the history, as many as it has room for.\<close>

lemma trace_push_newest:
  assumes "tt_records t = newest (tt_capacity t) history"
  shows "tt_records (trace_push t r) = newest (tt_capacity t) (history @ [r])"
    and "tt_capacity (trace_push t r) = tt_capacity t"
  using assms
  by (auto simp: trace_push_def newest_snoc Let_def)

section \<open>Correlation identities\<close>

definition i32_max :: i32 where
  "i32_max = 2147483647"

record correlation_allocator =
  ca_next :: i32

definition allocator_default :: correlation_allocator where
  "allocator_default = \<lparr>ca_next = 0\<rparr>"

fun allocate_loop ::
    "nat \<Rightarrow> (correlation_id \<Rightarrow> bool) \<Rightarrow> correlation_allocator \<Rightarrow>
     correlation_allocator \<times> correlation_id option" where
  "allocate_loop 0 is_in_use a = (a, None)"
| "allocate_loop (Suc n) is_in_use a =
     (let candidate = ca_next a;
          a' = a\<lparr>ca_next := (if ca_next a = i32_max then 0 else ca_next a + 1)\<rparr>
      in if \<not> is_in_use candidate then (a', Some candidate) else allocate_loop n is_in_use a')"

definition allocate ::
    "correlation_allocator \<Rightarrow> usize \<Rightarrow> (correlation_id \<Rightarrow> bool) \<Rightarrow>
     correlation_allocator \<times> correlation_id option" where
  "allocate a in_use_count is_in_use = allocate_loop (Suc in_use_count) is_in_use a"

definition allocator_wf :: "correlation_allocator \<Rightarrow> bool" where
  "allocator_wf a \<longleftrightarrow> 0 \<le> ca_next a \<and> ca_next a \<le> i32_max"

lemma allocator_default_wf [simp]: "allocator_wf allocator_default"
  by (simp add: allocator_wf_def allocator_default_def i32_max_def)

lemma allocate_loop_wf:
  "allocator_wf a \<Longrightarrow> allocator_wf (fst (allocate_loop n used a))"
  by (induction n used a rule: allocate_loop.induct) (auto simp: allocator_wf_def Let_def i32_max_def)

lemma allocate_loop_Some:
  "allocate_loop n used a = (a', Some c) \<Longrightarrow> allocator_wf a \<Longrightarrow> \<not> used c \<and> 0 \<le> c \<and> c \<le> i32_max"
  by (induction n used a rule: allocate_loop.induct)
     (auto simp: Let_def allocator_wf_def i32_max_def split: if_splits)

text \<open>The loop fails only when every candidate it tried is in use; the candidates wrap at \<open>i32::MAX\<close>.\<close>

definition wrap31 :: "i32 \<Rightarrow> i32" where
  "wrap31 n = n mod 2147483648"

lemma allocate_loop_None:
  assumes "allocate_loop n used a = (a', None)" and "allocator_wf a" and "k < n"
  shows "used (wrap31 (ca_next a + int k))"
  using assms
proof (induction n used a arbitrary: k rule: allocate_loop.induct)
  case (2 n used a)
  let ?a' = "a\<lparr>ca_next := (if ca_next a = i32_max then 0 else ca_next a + 1)\<rparr>"
  have wf: "allocator_wf ?a'" using 2(3) by (auto simp: allocator_wf_def i32_max_def)
  have now: "used (ca_next a)" and later: "allocate_loop n used ?a' = (a', None)"
    using 2(2) by (auto simp: Let_def split: if_splits)
  show ?case
  proof (cases k)
    case 0
    then show ?thesis using now 2(3) by (simp add: wrap31_def allocator_wf_def i32_max_def)
  next
    case (Suc j)
    have "used (wrap31 (ca_next ?a' + int j))"
      using 2(1) [of "ca_next a" ?a' j] now later wf 2(4) Suc by simp
    moreover have "wrap31 (ca_next ?a' + int j) = wrap31 (ca_next a + int k)"
    proof (cases "ca_next a = i32_max")
      case True
      then have "ca_next a + int k = int j + 2147483648"
        using Suc by (simp add: i32_max_def)
      then show ?thesis using True by (simp add: wrap31_def)
    qed (use Suc in \<open>simp add: add.assoc\<close>)
    ultimately show ?thesis by simp
  qed
qed simp

lemma wrap31_inj:
  assumes "n \<le> 2147483648"
  shows "inj_on (\<lambda>k. wrap31 (b + int k)) {..<n}"
proof (rule inj_onI)
  fix j k assume jk: "j \<in> {..<n}" "k \<in> {..<n}" and "wrap31 (b + int j) = wrap31 (b + int k)"
  then have "(2147483648 :: int) dvd int j - int k"
    by (simp add: wrap31_def mod_eq_dvd_iff)
  from dvd_imp_le_int [OF _ this] show "j = k" using jk assms by fastforce
qed

lemma allocate_succeeds:
  assumes wf: "allocator_wf a"
    and count: "card U \<le> n" "finite U" "n < 2147483648"
    and used: "\<And>c. used c \<longleftrightarrow> c \<in> U"
  shows "\<exists>a' c. allocate a n used = (a', Some c)"
proof (rule ccontr)
  assume "\<not> ?thesis"
  then obtain a' where "allocate_loop (Suc n) used a = (a', None)"
    unfolding allocate_def by (metis old.prod.exhaust option.exhaust)
  then have "(\<lambda>k. wrap31 (ca_next a + int k)) ` {..<Suc n} \<subseteq> U"
    using allocate_loop_None [of "Suc n" used a a', OF _ wf] used by (auto simp del: allocate_loop.simps)
  then have "card ((\<lambda>k. wrap31 (ca_next a + int k)) ` {..<Suc n}) \<le> card U"
    using count(2) by (rule card_mono [rotated])
  moreover have "card ((\<lambda>k. wrap31 (ca_next a + int k)) ` {..<Suc n}) = Suc n"
    using count(3) by (subst card_image [OF wrap31_inj]) simp_all
  ultimately show False using count(1) by simp
qed

section \<open>The pending queue\<close>

datatype pending_phase = AwaitingWrite | AwaitingResponse

record pending_call =
  pc_call_id :: call_id
  pc_correlation_id :: correlation_id
  pc_write_effect :: effect_id
  pc_deadline_timer :: timer_id
  pc_deadline :: moment
  pc_delivery :: delivery
  pc_phase :: pending_phase

definition pending_call_new ::
    "call_id \<Rightarrow> correlation_id \<Rightarrow> effect_id \<Rightarrow> timer_id \<Rightarrow> moment \<Rightarrow> pending_call" where
  "pending_call_new call_id correlation_id write_effect deadline_timer deadline =
     \<lparr>pc_call_id = call_id, pc_correlation_id = correlation_id, pc_write_effect = write_effect,
      pc_deadline_timer = deadline_timer, pc_deadline = deadline, pc_delivery = NotSent,
      pc_phase = AwaitingWrite\<rparr>"

definition mark_submitted :: "pending_call \<Rightarrow> pending_call" where
  "mark_submitted c =
     c\<lparr>pc_phase := AwaitingResponse, pc_delivery := delivery_combine (pc_delivery c) PossiblySent\<rparr>"

record pending_queue =
  pq_capacity :: usize
  pq_calls :: "pending_call list"

record identity_conflicts =
  ic_call :: bool
  ic_effect :: bool
  ic_timer :: bool

definition pending_new :: "usize \<Rightarrow> pending_queue" where
  "pending_new capacity = \<lparr>pq_capacity = capacity, pq_calls = []\<rparr>"

definition pending_len :: "pending_queue \<Rightarrow> usize" where
  "pending_len q = length (pq_calls q)"

definition pending_is_empty :: "pending_queue \<Rightarrow> bool" where
  "pending_is_empty q \<longleftrightarrow> pq_calls q = []"

definition pending_is_full :: "pending_queue \<Rightarrow> bool" where
  "pending_is_full q \<longleftrightarrow> pq_capacity q \<le> length (pq_calls q)"

definition pending_push :: "pending_queue \<Rightarrow> pending_call \<Rightarrow> pending_queue" where
  "pending_push q call = q\<lparr>pq_calls := pq_calls q @ [call]\<rparr>"

definition pending_front :: "pending_queue \<Rightarrow> pending_call option" where
  "pending_front q = (case pq_calls q of [] \<Rightarrow> None | c # cs \<Rightarrow> Some c)"

definition pending_pop_front :: "pending_queue \<Rightarrow> pending_queue \<times> pending_call option" where
  "pending_pop_front q =
     (case pq_calls q of [] \<Rightarrow> (q, None) | c # cs \<Rightarrow> (q\<lparr>pq_calls := cs\<rparr>, Some c))"

text \<open>
  \<open>by_write_effect_mut\<close> hands out a mutable reference to the first match. Reading through it is
  \<open>by_write_effect\<close>; writing through it is \<open>update_by_write_effect\<close>.
\<close>

definition by_write_effect :: "pending_queue \<Rightarrow> effect_id \<Rightarrow> pending_call option" where
  "by_write_effect q effect = List.find (\<lambda>c. pc_write_effect c = effect) (pq_calls q)"

definition update_by_write_effect ::
    "pending_queue \<Rightarrow> effect_id \<Rightarrow> (pending_call \<Rightarrow> pending_call) \<Rightarrow> pending_queue" where
  "update_by_write_effect q effect f =
     q\<lparr>pq_calls := update_first (\<lambda>c. pc_write_effect c = effect) f (pq_calls q)\<rparr>"

definition remove_awaiting_write ::
    "pending_queue \<Rightarrow> call_id \<Rightarrow> effect_id \<Rightarrow> (pending_queue \<times> pending_call) option" where
  "remove_awaiting_write q call_id effect_id =
     (case position (\<lambda>c. pc_call_id c = call_id \<and> pc_write_effect c = effect_id \<and>
              pc_phase c = AwaitingWrite) (pq_calls q) of
        None \<Rightarrow> None
      | Some index \<Rightarrow>
          Some (q\<lparr>pq_calls := remove_at index (pq_calls q)\<rparr>, pq_calls q ! index))"

definition by_timer :: "pending_queue \<Rightarrow> timer_id \<Rightarrow> pending_call option" where
  "by_timer q timer = List.find (\<lambda>c. pc_deadline_timer c = timer) (pq_calls q)"

definition contains_correlation :: "pending_queue \<Rightarrow> correlation_id \<Rightarrow> bool" where
  "contains_correlation q correlation \<longleftrightarrow>
     list_ex (\<lambda>c. pc_correlation_id c = correlation) (pq_calls q)"

definition has_identities ::
    "pending_queue \<Rightarrow> call_id \<Rightarrow> effect_id \<Rightarrow> timer_id \<Rightarrow> identity_conflicts" where
  "has_identities q call_id write_effect deadline_timer =
     \<lparr>ic_call = list_ex (\<lambda>c. pc_call_id c = call_id) (pq_calls q),
      ic_effect = list_ex (\<lambda>c. pc_write_effect c = write_effect) (pq_calls q),
      ic_timer = list_ex (\<lambda>c. pc_deadline_timer c = deadline_timer) (pq_calls q)\<rparr>"

lemmas pending_defs =
  pending_new_def pending_len_def pending_is_empty_def pending_is_full_def pending_push_def
  pending_front_def pending_pop_front_def by_write_effect_def update_by_write_effect_def
  by_timer_def contains_correlation_def has_identities_def

subsection \<open>Well-formed queues\<close>

text \<open>
  A queue stays within its capacity, its calls are pairwise distinct under each of the four
  identities the driver looks them up by, correlations are nonnegative 32-bit integers, and a
  call counts as possibly sent exactly when its write was submitted.
\<close>

definition pending_wf :: "pending_queue \<Rightarrow> bool" where
  "pending_wf q \<longleftrightarrow>
     length (pq_calls q) \<le> pq_capacity q \<and>
     distinct (map pc_call_id (pq_calls q)) \<and>
     distinct (map pc_write_effect (pq_calls q)) \<and>
     distinct (map pc_deadline_timer (pq_calls q)) \<and>
     distinct (map pc_correlation_id (pq_calls q)) \<and>
     (\<forall>c\<in>set (pq_calls q). 0 \<le> pc_correlation_id c \<and> pc_correlation_id c \<le> i32_max \<and>
        (pc_delivery c = PossiblySent \<longleftrightarrow> pc_phase c = AwaitingResponse))"

lemma pending_new_wf [simp]: "pending_wf (pending_new capacity)"
  by (simp add: pending_wf_def pending_new_def)

lemma pending_push_wf:
  assumes "pending_wf q" and "\<not> pending_is_full q"
    and "has_identities q call_id effect timer = \<lparr>ic_call = False, ic_effect = False, ic_timer = False\<rparr>"
    and "\<not> contains_correlation q corr" and "0 \<le> corr" and "corr \<le> i32_max"
  shows "pending_wf (pending_push q (pending_call_new call_id corr effect timer deadline))"
  using assms by (auto simp: pending_wf_def pending_defs pending_call_new_def list_ex_iff)

lemma distinct_map_subseq: "subseq xs ys \<Longrightarrow> distinct (map f ys) \<Longrightarrow> distinct (map f xs)"
  by (induction rule: list_emb.induct) (auto dest: list_emb_set)

lemma pending_subseq_wf:
  assumes "pending_wf q" and "subseq calls (pq_calls q)"
  shows "pending_wf (q\<lparr>pq_calls := calls\<rparr>)"
proof -
  have "length calls \<le> length (pq_calls q)" "set calls \<subseteq> set (pq_calls q)"
    using assms(2) by (auto simp: list_emb_length dest: list_emb_set)
  then show ?thesis
    using assms(1) distinct_map_subseq [OF assms(2)]
      distinct_map_subseq [OF assms(2), of pc_correlation_id]
    by (auto simp: pending_wf_def)
qed

lemma pending_pop_front_wf: "pending_wf q \<Longrightarrow> pending_wf (fst (pending_pop_front q))"
  by (cases "pq_calls q") (auto simp: pending_pop_front_def intro!: pending_subseq_wf)

lemma mark_submitted_identities [simp]:
  "pc_call_id (mark_submitted c) = pc_call_id c"
  "pc_write_effect (mark_submitted c) = pc_write_effect c"
  "pc_deadline_timer (mark_submitted c) = pc_deadline_timer c"
  "pc_correlation_id (mark_submitted c) = pc_correlation_id c"
  "pc_deadline (mark_submitted c) = pc_deadline c"
  "pc_phase (mark_submitted c) = AwaitingResponse"
  "pc_delivery (mark_submitted c) = PossiblySent"
  by (cases "pc_delivery c"; simp add: mark_submitted_def)+

lemma update_by_write_effect_wf:
  assumes "pending_wf q"
  shows "pending_wf (update_by_write_effect q effect mark_submitted)"
  using assms set_update_first [of "\<lambda>c. pc_write_effect c = effect" mark_submitted "pq_calls q"]
  by (fastforce simp: pending_wf_def update_by_write_effect_def update_first_map)

lemma remove_awaiting_write_Some:
  assumes "remove_awaiting_write q call_id effect_id = Some (q', c)"
  shows "pc_call_id c = call_id" "pc_phase c = AwaitingWrite" "c \<in> set (pq_calls q)"
    "subseq (pq_calls q') (pq_calls q)" "pq_capacity q' = pq_capacity q"
    "mset (pq_calls q) = add_mset c (mset (pq_calls q'))" "q' = q\<lparr>pq_calls := pq_calls q'\<rparr>"
  using assms
  by (auto simp: remove_awaiting_write_def position_Some_iff remove_at_subseq mset_remove_at
      split: option.splits)

lemma remove_awaiting_write_wf:
  assumes "pending_wf q" and "remove_awaiting_write q call_id effect_id = Some (q', c)"
  shows "pending_wf q'"
proof -
  have "pending_wf (q\<lparr>pq_calls := pq_calls q'\<rparr>)"
    using assms(1) remove_awaiting_write_Some(4) [OF assms(2)] by (rule pending_subseq_wf)
  then show ?thesis by (metis assms(2) remove_awaiting_write_Some(7))
qed

text \<open>With fewer than \<open>2\<^sup>3\<^sup>1\<close> calls in flight the allocator always finds a free correlation.\<close>

lemma pending_allocate:
  assumes "allocator_wf a" and "pending_wf q" and "pending_len q < 2147483648"
  shows "\<exists>a' c. allocate a (pending_len q) (contains_correlation q) = (a', Some c)"
proof (rule allocate_succeeds [OF assms(1), of "set (map pc_correlation_id (pq_calls q))"])
  show "card (set (map pc_correlation_id (pq_calls q))) \<le> pending_len q"
    using card_length [of "map pc_correlation_id (pq_calls q)"] by (simp add: pending_len_def)
qed (use assms(3) in \<open>auto simp: contains_correlation_def list_ex_iff\<close>)

end
