(* ===== verification/Connection.thy ===== *)
theory Connection
  imports Connection_Parts
begin

text \<open>
  The connection machine, \<open>connection/\<close> of \<open>kafka-driver-core\<close>: one physical connection from
  opening through negotiation, authentication and in-flight calls to closing. Every handler is one
  definition over the whole machine; it returns the machine and a \<open>Decision\<close>, the effects with
  their disposition. \<open>connection_apply\<close> is \<open>ConnectionMachine::apply\<close>, with the sequence number
  and the trace.
\<close>

section \<open>State\<close>

datatype active_mode = ModeReady | ModeDraining

record ('k, 'r) active_connection =
  ac_epoch :: connection_epoch
  ac_transport_id :: transport_id
  ac_correlations :: correlation_allocator
  ac_pending :: pending_queue
  ac_capabilities :: "('k, 'r) negotiated_capabilities"

definition active_connection_new ::
    "connection_epoch \<Rightarrow> transport_id \<Rightarrow> ('k, 'r) negotiated_capabilities \<Rightarrow> connection_limits \<Rightarrow>
     ('k, 'r) active_connection" where
  "active_connection_new epoch transport_id capabilities limits =
     \<lparr>ac_epoch = epoch, ac_transport_id = transport_id, ac_correlations = allocator_default,
      ac_pending = pending_new (cl_in_flight limits), ac_capabilities = capabilities\<rparr>"

datatype ('k, 'r, 'v) connection_state_data =
    ConnDormant connection_epoch
  | ConnOpening connection_epoch effect_id transport_id timer_id moment
  | ConnNegotiating connection_epoch transport_id effect_id timer_id moment
  | ConnAuthenticating connection_epoch transport_id "('k, 'r) negotiated_capabilities"
      "'v authentication_machine"
  | ConnActive active_mode "('k, 'r) active_connection"
  | ConnClosing connection_epoch transport_id close_reason
  | ConnClosed connection_epoch close_reason

fun state_epoch :: "('k, 'r, 'v) connection_state_data \<Rightarrow> connection_epoch" where
  "state_epoch (ConnDormant epoch) = epoch"
| "state_epoch (ConnOpening epoch e t d at) = epoch"
| "state_epoch (ConnNegotiating epoch t e d at) = epoch"
| "state_epoch (ConnAuthenticating epoch t c a) = epoch"
| "state_epoch (ConnClosing epoch t r) = epoch"
| "state_epoch (ConnClosed epoch r) = epoch"
| "state_epoch (ConnActive mode connection) = ac_epoch connection"

fun state_phase :: "('k, 'r, 'v) connection_state_data \<Rightarrow> connection_phase" where
  "state_phase (ConnDormant epoch) = PhDormant"
| "state_phase (ConnOpening epoch e t d at) = PhOpening"
| "state_phase (ConnNegotiating epoch t e d at) = PhNegotiating"
| "state_phase (ConnAuthenticating epoch t c a) = PhAuthenticating"
| "state_phase (ConnActive ModeReady connection) = PhReady"
| "state_phase (ConnActive ModeDraining connection) = PhDraining"
| "state_phase (ConnClosing epoch t r) = PhClosing"
| "state_phase (ConnClosed epoch r) = PhClosed"

datatype connection_state =
    StateDormant connection_epoch
  | StateOpening connection_epoch effect_id transport_id timer_id moment
  | StateNegotiating connection_epoch transport_id effect_id timer_id moment
  | StateAuthenticating connection_epoch transport_id authentication_state usize
  | StateReady connection_epoch transport_id usize usize
  | StateDraining connection_epoch transport_id usize usize
  | StateClosing connection_epoch transport_id close_reason
  | StateClosed connection_epoch close_reason

fun state_snapshot :: "('k, 'r, 'v) connection_state_data \<Rightarrow> connection_state" where
  "state_snapshot (ConnDormant epoch) = StateDormant epoch"
| "state_snapshot (ConnOpening epoch e t d at) = StateOpening epoch e t d at"
| "state_snapshot (ConnNegotiating epoch t e d at) = StateNegotiating epoch t e d at"
| "state_snapshot (ConnAuthenticating epoch t c a) =
     StateAuthenticating epoch t (am_state a) (capabilities_len c)"
| "state_snapshot (ConnActive ModeReady c) =
     StateReady (ac_epoch c) (ac_transport_id c) (pending_len (ac_pending c))
       (capabilities_len (ac_capabilities c))"
| "state_snapshot (ConnActive ModeDraining c) =
     StateDraining (ac_epoch c) (ac_transport_id c) (pending_len (ac_pending c))
       (capabilities_len (ac_capabilities c))"
| "state_snapshot (ConnClosing epoch t r) = StateClosing epoch t r"
| "state_snapshot (ConnClosed epoch r) = StateClosed epoch r"

fun connection_state_phase :: "connection_state \<Rightarrow> connection_phase" where
  "connection_state_phase (StateDormant epoch) = PhDormant"
| "connection_state_phase (StateOpening epoch e t d at) = PhOpening"
| "connection_state_phase (StateNegotiating epoch t e d at) = PhNegotiating"
| "connection_state_phase (StateAuthenticating epoch t a n) = PhAuthenticating"
| "connection_state_phase (StateReady epoch t p n) = PhReady"
| "connection_state_phase (StateDraining epoch t p n) = PhDraining"
| "connection_state_phase (StateClosing epoch t r) = PhClosing"
| "connection_state_phase (StateClosed epoch r) = PhClosed"

section \<open>Inputs, effects and decisions\<close>

record negotiation_attempt =
  ng_effect_id :: effect_id
  ng_deadline_timer :: timer_id
  ng_now :: moment
  ng_deadline :: moment

datatype ('k, 'r) connection_input =
    InStart effect_id transport_id timer_id moment
  | InTransportOpened connection_epoch effect_id transport_id negotiation_attempt
  | InTransportOpenFailed connection_epoch effect_id transport_id transport_failure
  | InApiVersionsNegotiated connection_epoch transport_id effect_id "('k, 'r) negotiated_capabilities"
  | InApiVersionsNegotiatedWithAuthentication connection_epoch transport_id effect_id
      "('k, 'r) negotiated_capabilities" authentication_attempt
  | InApiVersionsFailed connection_epoch transport_id effect_id negotiation_failure
  | InAuthentication authentication_input
  | InSubmit call_id effect_id timer_id moment moment
  | InWriteSubmitted connection_epoch transport_id effect_id
  | InAbortUnsentCall connection_epoch transport_id call_id effect_id
  | InWriteFailed connection_epoch transport_id effect_id transport_failure
  | InResponseReceived connection_epoch transport_id correlation_id
  | InResponseRejected connection_epoch transport_id response_fault
  | InDeadlineElapsed connection_epoch timer_id moment
  | InBeginDrain
  | InTransportClosed connection_epoch transport_id transport_failure

fun input_kind :: "('k, 'r) connection_input \<Rightarrow> connection_input_kind" where
  "input_kind (InStart e t d at) = KindStart"
| "input_kind (InTransportOpened ep e t n) = KindTransportOpened"
| "input_kind (InTransportOpenFailed ep e t f) = KindTransportOpenFailed"
| "input_kind (InApiVersionsNegotiated ep t e c) = KindApiVersionsNegotiated"
| "input_kind (InApiVersionsNegotiatedWithAuthentication ep t e c a) =
     KindApiVersionsNegotiatedWithAuthentication"
| "input_kind (InApiVersionsFailed ep t e f) = KindApiVersionsFailed"
| "input_kind (InAuthentication i) = KindAuthentication"
| "input_kind (InSubmit c w d now at) = KindSubmit"
| "input_kind (InWriteSubmitted ep t e) = KindWriteSubmitted"
| "input_kind (InAbortUnsentCall ep t c e) = KindAbortUnsentCall"
| "input_kind (InWriteFailed ep t e f) = KindWriteFailed"
| "input_kind (InResponseReceived ep t c) = KindResponseReceived"
| "input_kind (InResponseRejected ep t f) = KindResponseRejected"
| "input_kind (InDeadlineElapsed ep t now) = KindDeadlineElapsed"
| "input_kind InBeginDrain = KindBeginDrain"
| "input_kind (InTransportClosed ep t f) = KindTransportClosed"

datatype 'v connection_effect =
    ScheduleOpenDeadline connection_epoch timer_id moment
  | OpenTransport connection_epoch effect_id transport_id
  | ScheduleNegotiationDeadline connection_epoch timer_id moment
  | NegotiateApiVersions connection_epoch transport_id effect_id correlation_id
  | AuthenticationEffect "'v authentication_effect"
  | ScheduleDeadline connection_epoch call_id timer_id moment
  | WriteRequest connection_epoch transport_id call_id correlation_id effect_id
  | CancelDeadline timer_id
  | CompleteResponse call_id correlation_id
  | FailCall call_id call_failure delivery
  | CloseTransport connection_epoch transport_id close_reason

type_synonym 'v decision = "'v connection_effect list \<times> transition_disposition"

abbreviation applied :: "'v connection_effect list \<Rightarrow> 'v decision" where
  "applied effects \<equiv> (effects, Applied)"

abbreviation rejected :: "'v connection_effect list \<Rightarrow> 'v decision" where
  "rejected effects \<equiv> (effects, Rejected)"

abbreviation ignored :: "'v decision" where
  "ignored \<equiv> ([], Ignored)"

abbreviation stale :: "'v decision" where
  "stale \<equiv> ([], IgnoredStale)"

abbreviation fault :: "'v connection_effect list \<Rightarrow> 'v decision" where
  "fault effects \<equiv> (effects, Fault)"

record 'v connection_transition =
  ct_effects :: "'v connection_effect list"
  ct_record :: transition_record

section \<open>The machine\<close>

record ('k, 'r, 'v) connection_machine =
  cm_state :: "('k, 'r, 'v) connection_state_data"
  cm_limits :: connection_limits
  cm_authentication :: "'k authentication_policy option"
  cm_session :: "('k, 'r, 'v) kafka_session_machine"
  cm_trace :: transition_trace
  cm_next_sequence :: "u64 option"

type_synonym ('k, 'r, 'v) connection_step = "('k, 'r, 'v) connection_machine \<times> 'v decision"

definition connection_new ::
    "connection_epoch \<Rightarrow> connection_limits \<Rightarrow> ('k, 'r, 'v) connection_machine" where
  "connection_new epoch limits =
     \<lparr>cm_state = ConnDormant epoch, cm_limits = limits, cm_authentication = None,
      cm_session = kafka_session_new \<lparr>ksl_capabilities = cl_capabilities limits\<rparr>,
      cm_trace = trace_new (cl_trace_records limits), cm_next_sequence = Some 0\<rparr>"

definition connection_new_authenticated ::
    "connection_epoch \<Rightarrow> connection_limits \<Rightarrow> 'k authentication_policy \<Rightarrow>
     ('k, 'r, 'v) connection_machine" where
  "connection_new_authenticated epoch limits authentication =
     \<lparr>cm_state = ConnDormant epoch, cm_limits = limits, cm_authentication = Some authentication,
      cm_session = kafka_session_new_authenticated \<lparr>ksl_capabilities = cl_capabilities limits\<rparr>
        authentication,
      cm_trace = trace_new (cl_trace_records limits), cm_next_sequence = Some 0\<rparr>"

definition connection_active ::
    "('k, 'r, 'v) connection_machine \<Rightarrow> ('k, 'r) active_connection option" where
  "connection_active m = (case cm_state m of ConnActive mode connection \<Rightarrow> Some connection | _ \<Rightarrow> None)"

definition connection_epoch_of :: "('k, 'r, 'v) connection_machine \<Rightarrow> connection_epoch" where
  "connection_epoch_of m = state_epoch (cm_state m)"

definition pending_count :: "('k, 'r, 'v) connection_machine \<Rightarrow> usize" where
  "pending_count m = (case connection_active m of None \<Rightarrow> 0 | Some c \<Rightarrow> pending_len (ac_pending c))"

definition connection_pending_front :: "('k, 'r, 'v) connection_machine \<Rightarrow> pending_call option" where
  "connection_pending_front m =
     Option.bind (connection_active m) (\<lambda>c. pending_front (ac_pending c))"

definition connection_pending_call ::
    "('k, 'r, 'v) connection_machine \<Rightarrow> call_id \<Rightarrow> pending_call option" where
  "connection_pending_call m call_id =
     Option.bind (connection_active m)
       (\<lambda>c. List.find (\<lambda>p. pc_call_id p = call_id) (pq_calls (ac_pending c)))"

definition connection_negotiated_version ::
    "('r \<Rightarrow> 'v) \<Rightarrow> ('k::linorder, 'r, 'v) connection_machine \<Rightarrow> 'k \<Rightarrow> 'v option" where
  "connection_negotiated_version range_max m k =
     Option.bind (connection_active m) (\<lambda>_. session_negotiated_version range_max (cm_session m) k)"

definition connection_negotiated_api ::
    "('k::linorder, 'r, 'v) connection_machine \<Rightarrow> 'k \<Rightarrow> ('k, 'r) negotiated_api option" where
  "connection_negotiated_api m k =
     Option.bind (connection_active m) (\<lambda>_. session_negotiated_api (cm_session m) k)"

text \<open>\<open>self.session.apply(input)\<close>: the machine with its session advanced, and the transition.\<close>

definition drive_session ::
    "('r \<Rightarrow> 'v) \<Rightarrow> ('k::linorder, 'r, 'v) connection_machine \<Rightarrow> ('k, 'r) kafka_session_input \<Rightarrow>
     ('k, 'r, 'v) connection_machine \<times> 'v kafka_session_transition" where
  "drive_session range_max m input =
     (let (session, transition) = session_apply range_max (cm_session m) input
      in (m\<lparr>cm_session := session\<rparr>, transition))"

section \<open>Closing an active connection\<close>

fun append_failures ::
    "close_reason \<Rightarrow> (call_id \<times> call_failure) option \<Rightarrow> pending_call list \<Rightarrow> 'v connection_effect list" where
  "append_failures reason specific_failure [] = []"
| "append_failures reason specific_failure (pending # rest) =
     (let failure =
        (case specific_failure of
           Some (call_id, failure) \<Rightarrow>
             if call_id = pc_call_id pending then failure else CallConnectionClosed reason
         | None \<Rightarrow> CallConnectionClosed reason)
      in [CancelDeadline (pc_deadline_timer pending),
          FailCall (pc_call_id pending) failure (pc_delivery pending)] @
         append_failures reason specific_failure rest)"

definition begin_active_close ::
    "('k, 'r, 'v) connection_machine \<Rightarrow> close_reason \<Rightarrow> (call_id \<times> call_failure) option \<Rightarrow>
     ('k, 'r, 'v) connection_machine \<times> 'v connection_effect list" where
  "begin_active_close m reason specific_failure =
     (let epoch = state_epoch (cm_state m)
      in case cm_state m of
           ConnActive mode connection \<Rightarrow>
             (m\<lparr>cm_state := ConnClosing epoch (ac_transport_id connection) reason\<rparr>,
              CloseTransport epoch (ac_transport_id connection) reason #
              append_failures reason specific_failure (pq_calls (ac_pending connection)))
         | _ \<Rightarrow> (m\<lparr>cm_state := ConnClosed epoch reason\<rparr>, []))"

definition finish_active_close ::
    "('k, 'r, 'v) connection_machine \<Rightarrow> close_reason \<Rightarrow> (call_id \<times> call_failure) option \<Rightarrow>
     ('k, 'r, 'v) connection_machine \<times> 'v connection_effect list" where
  "finish_active_close m reason specific_failure =
     (let epoch = state_epoch (cm_state m)
      in case cm_state m of
           ConnActive mode connection \<Rightarrow>
             (m\<lparr>cm_state := ConnClosed epoch reason\<rparr>,
              append_failures reason specific_failure (pq_calls (ac_pending connection)))
         | _ \<Rightarrow> (m\<lparr>cm_state := ConnClosed epoch reason\<rparr>, []))"

section \<open>Opening and negotiation\<close>

definition conn_start ::
    "('k, 'r, 'v) connection_machine \<Rightarrow> effect_id \<Rightarrow> transport_id \<Rightarrow> timer_id \<Rightarrow> moment \<Rightarrow>
     ('k, 'r, 'v) connection_step" where
  "conn_start m effect_id transport_id deadline_timer deadline =
     (case cm_state m of
        ConnDormant epoch \<Rightarrow>
          (m\<lparr>cm_state := ConnOpening epoch effect_id transport_id deadline_timer deadline\<rparr>,
           applied [ScheduleOpenDeadline epoch deadline_timer deadline,
                    OpenTransport epoch effect_id transport_id])
      | _ \<Rightarrow> (m, ignored))"

definition negotiation_correlation :: correlation_id where
  "negotiation_correlation = 0"

definition begin_negotiation ::
    "('r \<Rightarrow> 'v) \<Rightarrow> ('k::linorder, 'r, 'v) connection_machine \<Rightarrow> connection_epoch \<Rightarrow> transport_id \<Rightarrow>
     negotiation_attempt \<Rightarrow> ('k, 'r, 'v) connection_step" where
  "begin_negotiation range_max m epoch transport_id attempt =
     (let (m', session) = drive_session range_max m
            (SessTransportOpened \<lparr>sd_now = ng_now attempt, sd_deadline = ng_deadline attempt\<rparr>)
      in if snd session = SessIgnoredStale then (m', stale)
         else if ng_deadline attempt \<le> ng_now attempt then
           (m'\<lparr>cm_state := ConnClosing epoch transport_id (ReasonNegotiationFailed NegTimeout)\<rparr>,
            applied [CloseTransport epoch transport_id (ReasonNegotiationFailed NegTimeout)])
         else
           (m'\<lparr>cm_state := ConnNegotiating epoch transport_id (ng_effect_id attempt)
                 (ng_deadline_timer attempt) (ng_deadline attempt)\<rparr>,
            applied
              [ScheduleNegotiationDeadline epoch (ng_deadline_timer attempt) (ng_deadline attempt),
               NegotiateApiVersions epoch transport_id (ng_effect_id attempt)
                 negotiation_correlation]))"

definition transport_opened ::
    "('r \<Rightarrow> 'v) \<Rightarrow> ('k::linorder, 'r, 'v) connection_machine \<Rightarrow> connection_epoch \<Rightarrow> effect_id \<Rightarrow>
     transport_id \<Rightarrow> negotiation_attempt \<Rightarrow> ('k, 'r, 'v) connection_step" where
  "transport_opened range_max m epoch effect_id transport_id negotiation =
     (case cm_state m of
        ConnOpening expected_epoch expected_effect expected_transport deadline_timer deadline \<Rightarrow>
          if epoch \<noteq> expected_epoch \<or> effect_id \<noteq> expected_effect \<or> transport_id \<noteq> expected_transport
          then (m, stale)
          else
            (let (m', decision) = begin_negotiation range_max m epoch transport_id negotiation
             in (m', (CancelDeadline deadline_timer # fst decision, snd decision)))
      | _ \<Rightarrow> (m, stale))"

definition transport_open_failed ::
    "('k, 'r, 'v) connection_machine \<Rightarrow> connection_epoch \<Rightarrow> effect_id \<Rightarrow> transport_id \<Rightarrow>
     transport_failure \<Rightarrow> ('k, 'r, 'v) connection_step" where
  "transport_open_failed m epoch effect_id transport_id failure =
     (case cm_state m of
        ConnOpening expected_epoch expected_effect expected_transport deadline_timer deadline \<Rightarrow>
          if epoch \<noteq> expected_epoch \<or> effect_id \<noteq> expected_effect \<or> transport_id \<noteq> expected_transport
          then (m, stale)
          else
            (m\<lparr>cm_state := ConnClosed epoch (ReasonOpenFailed failure)\<rparr>,
             applied [CancelDeadline deadline_timer])
      | _ \<Rightarrow> (m, stale))"

definition finish_negotiation_failure ::
    "('k, 'r, 'v) connection_machine \<Rightarrow> negotiation_failure \<Rightarrow> ('k, 'r, 'v) connection_step" where
  "finish_negotiation_failure m failure =
     (case cm_state m of
        ConnNegotiating epoch transport_id effect_id deadline_timer deadline \<Rightarrow>
          (m\<lparr>cm_state := ConnClosing epoch transport_id (ReasonNegotiationFailed failure)\<rparr>,
           applied [CloseTransport epoch transport_id (ReasonNegotiationFailed failure),
                    CancelDeadline deadline_timer])
      | _ \<Rightarrow> (m, stale))"

definition finish_authentication_setup_failure ::
    "('k, 'r, 'v) connection_machine \<Rightarrow> authentication_failure \<Rightarrow> ('k, 'r, 'v) connection_step" where
  "finish_authentication_setup_failure m failure =
     (case cm_state m of
        ConnNegotiating epoch transport_id effect_id deadline_timer deadline \<Rightarrow>
          (m\<lparr>cm_state := ConnClosing epoch transport_id (ReasonAuthenticationFailed failure)\<rparr>,
           applied [CloseTransport epoch transport_id (ReasonAuthenticationFailed failure),
                    CancelDeadline deadline_timer])
      | _ \<Rightarrow> (m, stale))"

definition api_versions_negotiated ::
    "('r \<Rightarrow> 'v) \<Rightarrow> ('k::linorder, 'r, 'v) connection_machine \<Rightarrow> connection_epoch \<Rightarrow> transport_id \<Rightarrow>
     effect_id \<Rightarrow> ('k, 'r) negotiated_capabilities \<Rightarrow> ('k, 'r, 'v) connection_step" where
  "api_versions_negotiated range_max m epoch transport_id effect_id capabilities =
     (case cm_state m of
        ConnNegotiating expected_epoch expected_transport expected_effect deadline_timer deadline \<Rightarrow>
          if epoch \<noteq> expected_epoch \<or> transport_id \<noteq> expected_transport \<or> effect_id \<noteq> expected_effect
          then (m, stale)
          else
            (let (m', session) = drive_session range_max m (SessApiVersionsSucceeded capabilities)
             in if snd session = SessIgnoredStale then (m', stale)
                else if cl_capabilities (cm_limits m') < capabilities_len capabilities
                  then finish_negotiation_failure m' NegCapacity
                else if cm_authentication m' \<noteq> None
                  then finish_authentication_setup_failure m' AuthProtocol
                else
                  (m'\<lparr>cm_state := ConnActive ModeReady
                        (active_connection_new epoch transport_id capabilities (cm_limits m'))\<rparr>,
                   applied [CancelDeadline deadline_timer]))
      | _ \<Rightarrow> (m, stale))"

definition api_versions_failed ::
    "('r \<Rightarrow> 'v) \<Rightarrow> ('k::linorder, 'r, 'v) connection_machine \<Rightarrow> connection_epoch \<Rightarrow> transport_id \<Rightarrow>
     effect_id \<Rightarrow> negotiation_failure \<Rightarrow> ('k, 'r, 'v) connection_step" where
  "api_versions_failed range_max m epoch transport_id effect_id failure =
     (case cm_state m of
        ConnNegotiating expected_epoch expected_transport expected_effect deadline_timer deadline \<Rightarrow>
          if epoch \<noteq> expected_epoch \<or> transport_id \<noteq> expected_transport \<or> effect_id \<noteq> expected_effect
          then (m, stale)
          else
            (let (m', session) = drive_session range_max m (SessApiVersionsFailed failure)
             in if snd session = SessIgnoredStale then (m', stale)
                else finish_negotiation_failure m' failure)
      | _ \<Rightarrow> (m, stale))"

section \<open>Authentication\<close>

definition wrap_effects :: "'v authentication_effect list \<Rightarrow> 'v connection_effect list" where
  "wrap_effects effects =
     List.map_filter
       (\<lambda>effect. case effect of
          AuthSucceededEffect \<Rightarrow> None
        | AuthFailedEffect failure \<Rightarrow> None
        | effect \<Rightarrow> Some (AuthenticationEffect effect)) effects"

fun session_authentication_input :: "authentication_input \<Rightarrow> ('k, 'r) kafka_session_input option" where
  "session_authentication_input (AuthStart attempt) = None"
| "session_authentication_input (HandshakeAccepted ep t e) = Some SessAuthenticationHandshakeSucceeded"
| "session_authentication_input (HandshakeFailed ep t e failure) =
     Some (SessAuthenticationHandshakeFailed failure)"
| "session_authentication_input (ExchangeCompleted ep t e r outcome) =
     Some (SessAuthenticationExchangeCompleted r outcome)"
| "session_authentication_input (AuthDeadlineElapsed ep t now) = Some (SessDeadlineElapsed now)"

definition matching_negotiation ::
    "('k, 'r, 'v) connection_machine \<Rightarrow> connection_epoch \<Rightarrow> transport_id \<Rightarrow> effect_id \<Rightarrow> timer_id option" where
  "matching_negotiation m epoch transport_id effect_id =
     (case cm_state m of
        ConnNegotiating expected_epoch expected_transport expected_effect deadline_timer deadline \<Rightarrow>
          if epoch = expected_epoch \<and> transport_id = expected_transport \<and> effect_id = expected_effect
          then Some deadline_timer else None
      | _ \<Rightarrow> None)"

definition begin_authentication ::
    "('r \<Rightarrow> 'v) \<Rightarrow> ('k::linorder, 'r, 'v) connection_machine \<Rightarrow> connection_epoch \<Rightarrow> transport_id \<Rightarrow>
     effect_id \<Rightarrow> ('k, 'r) negotiated_capabilities \<Rightarrow> authentication_attempt \<Rightarrow>
     ('k, 'r, 'v) connection_step" where
  "begin_authentication range_max m epoch transport_id effect_id capabilities attempt =
     (case matching_negotiation m epoch transport_id effect_id of
        None \<Rightarrow> (m, stale)
      | Some deadline_timer \<Rightarrow>
          (let (m', session) = drive_session range_max m
                 (SessApiVersionsSucceededWithAuthentication capabilities
                    \<lparr>sd_now = aa_now attempt, sd_deadline = aa_deadline attempt\<rparr>)
           in if snd session = SessIgnoredStale then (m', stale)
              else if cl_capabilities (cm_limits m') < capabilities_len capabilities
                then finish_negotiation_failure m' NegCapacity
              else
                (case cm_authentication m' of
                   None \<Rightarrow> finish_authentication_setup_failure m' AuthProtocol
                 | Some policy \<Rightarrow>
                     (case capabilities_version range_max capabilities (ap_handshake_api_key policy) of
                        None \<Rightarrow> finish_authentication_setup_failure m' AuthProtocol
                      | Some handshake_version \<Rightarrow>
                          (case capabilities_version range_max capabilities
                                  (ap_authenticate_api_key policy) of
                             None \<Rightarrow> finish_authentication_setup_failure m' AuthProtocol
                           | Some authenticate_version \<Rightarrow>
                               (let protocol =
                                      \<lparr>sp_mechanism = ap_mechanism policy,
                                       sp_handshake_version = handshake_version,
                                       sp_authenticate_version = authenticate_version\<rparr>;
                                    (authentication, transition) =
                                      authentication_apply
                                        (authentication_machine_new epoch transport_id protocol
                                           (ap_limits policy))
                                        (AuthStart attempt)
                                in case am_state authentication of
                                     AuthFailed failure \<Rightarrow>
                                       finish_authentication_setup_failure m' failure
                                   | _ \<Rightarrow>
                                       (m'\<lparr>cm_state := ConnAuthenticating epoch transport_id
                                             capabilities authentication\<rparr>,
                                        applied (CancelDeadline deadline_timer #
                                          wrap_effects (fst transition)))))))))"

definition finish_authentication_success ::
    "('k, 'r, 'v) connection_machine \<Rightarrow> 'v authentication_transition \<Rightarrow> ('k, 'r, 'v) connection_step" where
  "finish_authentication_success m transition =
     (case cm_state m of
        ConnAuthenticating epoch transport_id capabilities authentication \<Rightarrow>
          (m\<lparr>cm_state := ConnActive ModeReady
               (active_connection_new epoch transport_id capabilities (cm_limits m))\<rparr>,
           applied (wrap_effects (fst transition)))
      | _ \<Rightarrow> (m\<lparr>cm_state := ConnClosed (state_epoch (cm_state m)) ReasonRequested\<rparr>, stale))"

definition finish_authentication_failure ::
    "('k, 'r, 'v) connection_machine \<Rightarrow> authentication_failure \<Rightarrow> 'v authentication_transition \<Rightarrow>
     ('k, 'r, 'v) connection_step" where
  "finish_authentication_failure m failure transition =
     (case cm_state m of
        ConnAuthenticating epoch transport_id capabilities authentication \<Rightarrow>
          (m\<lparr>cm_state := ConnClosing epoch transport_id (ReasonAuthenticationFailed failure)\<rparr>,
           applied (CloseTransport epoch transport_id (ReasonAuthenticationFailed failure) #
             wrap_effects (fst transition)))
      | _ \<Rightarrow> (m\<lparr>cm_state := ConnClosed (state_epoch (cm_state m)) ReasonRequested\<rparr>, stale))"

text \<open>
  The \<open>debug_assert_ne!\<close> on the session's disposition does not change the result; it is the
  separate predicate \<open>authentication_assertion\<close>.
\<close>

definition authentication_input_apply ::
    "('r \<Rightarrow> 'v) \<Rightarrow> ('k::linorder, 'r, 'v) connection_machine \<Rightarrow> authentication_input \<Rightarrow>
     ('k, 'r, 'v) connection_step" where
  "authentication_input_apply range_max m input =
     (case cm_state m of
        ConnAuthenticating epoch transport_id capabilities authentication \<Rightarrow>
          (let (authentication', transition) = authentication_apply authentication input;
               m1 = m\<lparr>cm_state := ConnAuthenticating epoch transport_id capabilities authentication'\<rparr>
           in if snd transition = AuthIgnoredStale then (m1, stale)
              else
                (let m2 = (case session_authentication_input input of
                             None \<Rightarrow> m1
                           | Some session_input \<Rightarrow> fst (drive_session range_max m1 session_input))
                 in case am_state authentication' of
                      AuthSucceeded \<Rightarrow> finish_authentication_success m2 transition
                    | AuthFailed failure \<Rightarrow> finish_authentication_failure m2 failure transition
                    | _ \<Rightarrow> (m2, applied (wrap_effects (fst transition)))))
      | _ \<Rightarrow> (m, stale))"

definition authentication_assertion ::
    "('r \<Rightarrow> 'v) \<Rightarrow> ('k::linorder, 'r, 'v) connection_machine \<Rightarrow> authentication_input \<Rightarrow> bool" where
  "authentication_assertion range_max m input =
     (case cm_state m of
        ConnAuthenticating epoch transport_id capabilities authentication \<Rightarrow>
          snd (snd (authentication_apply authentication input)) = AuthIgnoredStale \<or>
          (case session_authentication_input input of
             None \<Rightarrow> True
           | Some session_input \<Rightarrow>
               snd (snd (session_apply range_max (cm_session m) session_input)) \<noteq> SessIgnoredStale)
      | _ \<Rightarrow> True)"

section \<open>Calls in flight\<close>

definition reject :: "call_id \<Rightarrow> call_failure \<Rightarrow> 'v decision" where
  "reject call_id failure = rejected [FailCall call_id failure NotSent]"

fun failure_for_closed_state :: "('k, 'r, 'v) connection_state_data \<Rightarrow> call_failure" where
  "failure_for_closed_state (ConnActive ModeDraining connection) = CallDraining"
| "failure_for_closed_state (ConnDormant epoch) = CallNotReady"
| "failure_for_closed_state (ConnOpening epoch e t d at) = CallNotReady"
| "failure_for_closed_state (ConnNegotiating epoch t e d at) = CallNotReady"
| "failure_for_closed_state (ConnAuthenticating epoch t c a) = CallNotReady"
| "failure_for_closed_state (ConnActive ModeReady connection) = CallNotReady"
| "failure_for_closed_state (ConnClosing epoch t reason) = CallConnectionClosed reason"
| "failure_for_closed_state (ConnClosed epoch reason) = CallConnectionClosed reason"

definition conn_submit ::
    "('k, 'r, 'v) connection_machine \<Rightarrow> call_id \<Rightarrow> effect_id \<Rightarrow> timer_id \<Rightarrow> moment \<Rightarrow> moment \<Rightarrow>
     ('k, 'r, 'v) connection_machine \<times> (connection_machine_error + 'v decision)" where
  "conn_submit m call_id write_effect deadline_timer now deadline =
     (case cm_state m of
        ConnActive ModeReady connection \<Rightarrow>
          if deadline \<le> now then (m, Inr (reject call_id CallDeadlineExceeded))
          else if pending_is_full (ac_pending connection)
            then (m, Inr (reject call_id (CallCapacityReached (cl_in_flight (cm_limits m)))))
          else
            (let conflicts = has_identities (ac_pending connection) call_id write_effect deadline_timer
             in if ic_call conflicts then (m, Inl (IdentityInUse IdCall))
                else if ic_effect conflicts then (m, Inl (IdentityInUse IdWriteEffect))
                else if ic_timer conflicts then (m, Inl (IdentityInUse IdDeadlineTimer))
                else
                  (case allocate (ac_correlations connection) (pending_len (ac_pending connection))
                          (contains_correlation (ac_pending connection)) of
                     (correlations, None) \<Rightarrow>
                       (m\<lparr>cm_state := ConnActive ModeReady (connection\<lparr>ac_correlations := correlations\<rparr>)\<rparr>,
                        Inr (reject call_id CallCorrelationSpaceExhausted))
                   | (correlations, Some correlation_id) \<Rightarrow>
                       (m\<lparr>cm_state := ConnActive ModeReady
                            (connection
                              \<lparr>ac_correlations := correlations,
                               ac_pending := pending_push (ac_pending connection)
                                 (pending_call_new call_id correlation_id write_effect
                                    deadline_timer deadline)\<rparr>)\<rparr>,
                        Inr (applied
                          [ScheduleDeadline (ac_epoch connection) call_id deadline_timer deadline,
                           WriteRequest (ac_epoch connection) (ac_transport_id connection) call_id
                             correlation_id write_effect]))))
      | _ \<Rightarrow> (m, Inr (reject call_id (failure_for_closed_state (cm_state m)))))"

definition write_submitted ::
    "('k, 'r, 'v) connection_machine \<Rightarrow> connection_epoch \<Rightarrow> transport_id \<Rightarrow> effect_id \<Rightarrow>
     ('k, 'r, 'v) connection_step" where
  "write_submitted m epoch transport_id effect_id =
     (case cm_state m of
        ConnActive mode connection \<Rightarrow>
          if epoch \<noteq> ac_epoch connection \<or> transport_id \<noteq> ac_transport_id connection then (m, stale)
          else
            (case by_write_effect (ac_pending connection) effect_id of
               None \<Rightarrow> (m, stale)
             | Some pending \<Rightarrow>
                 if pc_phase pending = AwaitingResponse then (m, stale)
                 else
                   (m\<lparr>cm_state := ConnActive mode
                        (connection\<lparr>ac_pending :=
                           update_by_write_effect (ac_pending connection) effect_id mark_submitted\<rparr>)\<rparr>,
                    applied []))
      | _ \<Rightarrow> (m, stale))"

definition abort_unsent_call ::
    "('r \<Rightarrow> 'v) \<Rightarrow> ('k::linorder, 'r, 'v) connection_machine \<Rightarrow> connection_epoch \<Rightarrow> transport_id \<Rightarrow>
     call_id \<Rightarrow> effect_id \<Rightarrow> ('k, 'r, 'v) connection_step" where
  "abort_unsent_call range_max m epoch transport_id call_id effect_id =
     (case cm_state m of
        ConnActive mode connection \<Rightarrow>
          if epoch \<noteq> ac_epoch connection \<or> transport_id \<noteq> ac_transport_id connection then (m, stale)
          else
            (case remove_awaiting_write (ac_pending connection) call_id effect_id of
               None \<Rightarrow> (m, stale)
             | Some (pending, aborted) \<Rightarrow>
                 (let effects = [CancelDeadline (pc_deadline_timer aborted),
                                 FailCall call_id CallLocallyRejected NotSent]
                  in if mode = ModeDraining \<and> pending_is_empty pending then
                       (let (m', session) = drive_session range_max m SessDrained
                        in (m'\<lparr>cm_state := ConnClosing epoch transport_id ReasonDrained\<rparr>,
                            applied (effects @ [CloseTransport epoch transport_id ReasonDrained])))
                     else
                       (m\<lparr>cm_state := ConnActive mode (connection\<lparr>ac_pending := pending\<rparr>)\<rparr>,
                        applied effects)))
      | _ \<Rightarrow> (m, stale))"

definition write_failed ::
    "('k, 'r, 'v) connection_machine \<Rightarrow> connection_epoch \<Rightarrow> transport_id \<Rightarrow> effect_id \<Rightarrow>
     transport_failure \<Rightarrow> ('k, 'r, 'v) connection_step" where
  "write_failed m epoch transport_id effect_id failure =
     (case cm_state m of
        ConnActive mode connection \<Rightarrow>
          if epoch \<noteq> ac_epoch connection \<or> transport_id \<noteq> ac_transport_id connection \<or>
             list_all (\<lambda>pending. pc_write_effect pending \<noteq> effect_id \<or>
               pc_phase pending \<noteq> AwaitingWrite) (pq_calls (ac_pending connection))
          then (m, stale)
          else
            (let (m', effects) = begin_active_close m (ReasonTransportLost failure) None
             in (m', applied effects))
      | _ \<Rightarrow> (m, stale))"

section \<open>Responses and deadlines\<close>

definition fail_session_protocol ::
    "('r \<Rightarrow> 'v) \<Rightarrow> ('k::linorder, 'r, 'v) connection_machine \<Rightarrow> kafka_session_protocol_failure \<Rightarrow>
     ('k, 'r, 'v) connection_machine" where
  "fail_session_protocol range_max m failure =
     fst (drive_session range_max m (SessProtocolFailed failure))"

fun fault_close_reason :: "response_fault \<Rightarrow> close_reason" where
  "fault_close_reason FaultUnexpected = ReasonUnexpectedResponse"
| "fault_close_reason FaultMalformed = ReasonMalformedResponse"

fun fault_session_failure :: "response_fault \<Rightarrow> kafka_session_protocol_failure" where
  "fault_session_failure FaultUnexpected = SessUnexpected"
| "fault_session_failure FaultMalformed = SessMalformed"

definition response_rejected ::
    "('r \<Rightarrow> 'v) \<Rightarrow> ('k::linorder, 'r, 'v) connection_machine \<Rightarrow> connection_epoch \<Rightarrow> transport_id \<Rightarrow>
     response_fault \<Rightarrow> ('k, 'r, 'v) connection_step" where
  "response_rejected range_max m epoch transport_id response_fault =
     (case cm_state m of
        ConnActive mode connection \<Rightarrow>
          if epoch \<noteq> ac_epoch connection \<or> transport_id \<noteq> ac_transport_id connection then (m, stale)
          else
            (let m1 = fail_session_protocol range_max m (fault_session_failure response_fault);
                 (m2, effects) = begin_active_close m1 (fault_close_reason response_fault) None
             in (m2, fault effects))
      | _ \<Rightarrow> (m, stale))"

definition response_received ::
    "('r \<Rightarrow> 'v) \<Rightarrow> ('k::linorder, 'r, 'v) connection_machine \<Rightarrow> connection_epoch \<Rightarrow> transport_id \<Rightarrow>
     correlation_id \<Rightarrow> ('k, 'r, 'v) connection_step" where
  "response_received range_max m epoch transport_id received =
     (case cm_state m of
        ConnActive mode connection \<Rightarrow>
          if epoch \<noteq> ac_epoch connection \<or> transport_id \<noteq> ac_transport_id connection then (m, stale)
          else
            (let unexpected = (\<lambda>reason specific.
                   let (m', effects) =
                     begin_active_close (fail_session_protocol range_max m SessUnexpected) reason specific
                   in (m', fault effects))
             in case pending_front (ac_pending connection) of
                  None \<Rightarrow> unexpected ReasonUnexpectedResponse None
                | Some front \<Rightarrow>
                    if pc_phase front \<noteq> AwaitingResponse
                    then unexpected ReasonUnexpectedResponse None
                    else if pc_correlation_id front \<noteq> received
                    then unexpected (ReasonCorrelationMismatch (pc_correlation_id front) received)
                      (Some (pc_call_id front,
                         CallCorrelationMismatch (pc_correlation_id front) received))
                    else
                      (case pending_pop_front (ac_pending connection) of
                         (pending, None) \<Rightarrow> (m, stale)
                       | (pending, Some completed) \<Rightarrow>
                           (let effects =
                              [CancelDeadline (pc_deadline_timer completed),
                               CompleteResponse (pc_call_id completed) (pc_correlation_id completed)]
                            in if mode = ModeDraining \<and> pending_is_empty pending then
                                 (let (m', session) = drive_session range_max m SessDrained
                                  in (m'\<lparr>cm_state := ConnClosing (ac_epoch connection)
                                           (ac_transport_id connection) ReasonDrained\<rparr>,
                                      applied (effects @ [CloseTransport (ac_epoch connection)
                                        (ac_transport_id connection) ReasonDrained])))
                               else
                                 (m\<lparr>cm_state := ConnActive mode (connection\<lparr>ac_pending := pending\<rparr>)\<rparr>,
                                  applied effects))))
      | _ \<Rightarrow> (m, stale))"

definition conn_deadline_elapsed ::
    "('r \<Rightarrow> 'v) \<Rightarrow> ('k::linorder, 'r, 'v) connection_machine \<Rightarrow> connection_epoch \<Rightarrow> timer_id \<Rightarrow>
     moment \<Rightarrow> ('k, 'r, 'v) connection_step" where
  "conn_deadline_elapsed range_max m epoch timer_id now =
     (case cm_state m of
        ConnOpening expected_epoch effect_id transport_id deadline_timer deadline \<Rightarrow>
          if epoch \<noteq> expected_epoch \<or> timer_id \<noteq> deadline_timer then (m, stale)
          else if now < deadline then (m, applied [ScheduleOpenDeadline epoch timer_id deadline])
          else
            (m\<lparr>cm_state := ConnClosing epoch transport_id (ReasonOpenFailed TimedOut)\<rparr>,
             applied [CloseTransport epoch transport_id (ReasonOpenFailed TimedOut)])
      | ConnAuthenticating e t c a \<Rightarrow>
          authentication_input_apply range_max m (AuthDeadlineElapsed epoch timer_id now)
      | ConnNegotiating expected_epoch transport_id effect_id deadline_timer deadline \<Rightarrow>
          if epoch \<noteq> expected_epoch \<or> timer_id \<noteq> deadline_timer then (m, stale)
          else
            (let (m', session) = drive_session range_max m (SessDeadlineElapsed now)
             in if snd session = SessIgnoredStale then (m', stale)
                else if now < deadline
                  then (m', applied [ScheduleNegotiationDeadline epoch timer_id deadline])
                else
                  (m'\<lparr>cm_state := ConnClosing epoch transport_id (ReasonNegotiationFailed NegTimeout)\<rparr>,
                   applied [CloseTransport epoch transport_id (ReasonNegotiationFailed NegTimeout)]))
      | ConnActive mode connection \<Rightarrow>
          if epoch \<noteq> ac_epoch connection then (m, stale)
          else
            (case by_timer (ac_pending connection) timer_id of
               None \<Rightarrow> (m, stale)
             | Some pending \<Rightarrow>
                 if now < pc_deadline pending
                 then (m, applied [ScheduleDeadline epoch (pc_call_id pending) timer_id
                        (pc_deadline pending)])
                 else
                   (let (m', effects) = begin_active_close m
                          (ReasonDeadlineExceeded (pc_call_id pending))
                          (Some (pc_call_id pending, CallDeadlineExceeded))
                    in (m', applied effects)))
      | _ \<Rightarrow> (m, stale))"

section \<open>Draining and transport closure\<close>

definition begin_authentication_drain ::
    "('k, 'r, 'v) connection_machine \<Rightarrow> ('k, 'r, 'v) connection_step" where
  "begin_authentication_drain m =
     (case cm_state m of
        ConnAuthenticating epoch transport_id capabilities authentication \<Rightarrow>
          (m\<lparr>cm_state := ConnClosing epoch transport_id ReasonRequested\<rparr>,
           applied
             (CloseTransport epoch transport_id ReasonRequested #
              (case auth_deadline_timer authentication of
                 Some timer_id \<Rightarrow> [AuthenticationEffect (AuthCancelDeadline timer_id)]
               | None \<Rightarrow> [])))
      | _ \<Rightarrow> (m, stale))"

definition conn_begin_drain ::
    "('r \<Rightarrow> 'v) \<Rightarrow> ('k::linorder, 'r, 'v) connection_machine \<Rightarrow> ('k, 'r, 'v) connection_step" where
  "conn_begin_drain range_max m =
     (let session_drain = (case cm_state m of
            ConnNegotiating ep t e d at \<Rightarrow> True
          | ConnAuthenticating ep t c a \<Rightarrow> True
          | ConnActive mode c \<Rightarrow> mode = ModeReady
          | _ \<Rightarrow> False);
          immediately_drained = (case cm_state m of
            ConnActive mode c \<Rightarrow> mode = ModeReady \<and> pending_is_empty (ac_pending c)
          | _ \<Rightarrow> False);
          m' = (if session_drain then
                  (let drained = fst (drive_session range_max m SessBeginDrain)
                   in if immediately_drained then fst (drive_session range_max drained SessDrained)
                      else drained)
                else m)
      in case cm_state m' of
           ConnDormant epoch \<Rightarrow> (m'\<lparr>cm_state := ConnClosed epoch ReasonRequested\<rparr>, applied [])
         | ConnOpening epoch effect_id transport_id deadline_timer deadline \<Rightarrow>
             (m'\<lparr>cm_state := ConnClosing epoch transport_id ReasonRequested\<rparr>,
              applied [CloseTransport epoch transport_id ReasonRequested,
                       CancelDeadline deadline_timer])
         | ConnNegotiating epoch transport_id effect_id deadline_timer deadline \<Rightarrow>
             (m'\<lparr>cm_state := ConnClosing epoch transport_id ReasonRequested\<rparr>,
              applied [CloseTransport epoch transport_id ReasonRequested,
                       CancelDeadline deadline_timer])
         | ConnAuthenticating epoch transport_id capabilities authentication \<Rightarrow>
             begin_authentication_drain m'
         | ConnActive mode connection \<Rightarrow>
             if mode = ModeReady \<and> pending_is_empty (ac_pending connection) then
               (m'\<lparr>cm_state := ConnClosing (ac_epoch connection) (ac_transport_id connection)
                     ReasonDrained\<rparr>,
                applied [CloseTransport (ac_epoch connection) (ac_transport_id connection)
                  ReasonDrained])
             else if mode = ModeReady
               then (m'\<lparr>cm_state := ConnActive ModeDraining connection\<rparr>, applied [])
             else (m', ignored)
         | ConnClosing epoch transport_id reason \<Rightarrow> (m', ignored)
         | ConnClosed epoch reason \<Rightarrow> (m', ignored))"

definition transport_closed ::
    "('r \<Rightarrow> 'v) \<Rightarrow> ('k::linorder, 'r, 'v) connection_machine \<Rightarrow> connection_epoch \<Rightarrow> transport_id \<Rightarrow>
     transport_failure \<Rightarrow> ('k, 'r, 'v) connection_step" where
  "transport_closed range_max m epoch transport_id failure =
     (if epoch \<noteq> state_epoch (cm_state m) then (m, stale)
      else
        (let closed = fst (drive_session range_max m SessClosedInput);
             lost = closed\<lparr>cm_state := ConnClosed epoch (ReasonTransportLost failure)\<rparr>
         in case cm_state m of
              ConnOpening ep effect_id expected deadline_timer deadline \<Rightarrow>
                if expected = transport_id then (lost, applied [CancelDeadline deadline_timer])
                else (m, stale)
            | ConnNegotiating ep expected effect_id deadline_timer deadline \<Rightarrow>
                if expected = transport_id then (lost, applied [CancelDeadline deadline_timer])
                else (m, stale)
            | ConnAuthenticating ep expected capabilities authentication \<Rightarrow>
                if expected = transport_id then
                  (lost, applied
                     (case auth_deadline_timer authentication of
                        Some timer_id \<Rightarrow> [AuthenticationEffect (AuthCancelDeadline timer_id)]
                      | None \<Rightarrow> []))
                else (m, stale)
            | ConnActive mode connection \<Rightarrow>
                if ac_transport_id connection = transport_id then
                  (let (m', effects) = finish_active_close closed (ReasonTransportLost failure) None
                   in (m', applied effects))
                else (m, stale)
            | ConnClosing ep expected reason \<Rightarrow>
                if expected = transport_id
                then (closed\<lparr>cm_state := ConnClosed epoch reason\<rparr>, applied [])
                else (m, stale)
            | _ \<Rightarrow> (m, stale)))"

section \<open>Dispatch\<close>

abbreviation decided ::
    "('k, 'r, 'v) connection_step \<Rightarrow>
     ('k, 'r, 'v) connection_machine \<times> (connection_machine_error + 'v decision)" where
  "decided step \<equiv> (fst step, Inr (snd step))"

fun connection_dispatch ::
    "('r \<Rightarrow> 'v) \<Rightarrow> ('k::linorder, 'r, 'v) connection_machine \<Rightarrow> ('k, 'r) connection_input \<Rightarrow>
     ('k, 'r, 'v) connection_machine \<times> (connection_machine_error + 'v decision)" where
  "connection_dispatch rm m (InStart effect_id transport_id timer deadline) =
     decided (conn_start m effect_id transport_id timer deadline)"
| "connection_dispatch rm m (InTransportOpened epoch effect_id transport_id negotiation) =
     decided (transport_opened rm m epoch effect_id transport_id negotiation)"
| "connection_dispatch rm m (InTransportOpenFailed epoch effect_id transport_id failure) =
     decided (transport_open_failed m epoch effect_id transport_id failure)"
| "connection_dispatch rm m (InApiVersionsNegotiated epoch transport_id effect_id capabilities) =
     decided (api_versions_negotiated rm m epoch transport_id effect_id capabilities)"
| "connection_dispatch rm m
     (InApiVersionsNegotiatedWithAuthentication epoch transport_id effect_id capabilities attempt) =
     decided (begin_authentication rm m epoch transport_id effect_id capabilities attempt)"
| "connection_dispatch rm m (InApiVersionsFailed epoch transport_id effect_id failure) =
     decided (api_versions_failed rm m epoch transport_id effect_id failure)"
| "connection_dispatch rm m (InAuthentication input) = decided (authentication_input_apply rm m input)"
| "connection_dispatch rm m (InSubmit call_id write_effect timer now deadline) =
     conn_submit m call_id write_effect timer now deadline"
| "connection_dispatch rm m (InWriteSubmitted epoch transport_id effect_id) =
     decided (write_submitted m epoch transport_id effect_id)"
| "connection_dispatch rm m (InAbortUnsentCall epoch transport_id call_id effect_id) =
     decided (abort_unsent_call rm m epoch transport_id call_id effect_id)"
| "connection_dispatch rm m (InWriteFailed epoch transport_id effect_id failure) =
     decided (write_failed m epoch transport_id effect_id failure)"
| "connection_dispatch rm m (InResponseReceived epoch transport_id correlation_id) =
     decided (response_received rm m epoch transport_id correlation_id)"
| "connection_dispatch rm m (InResponseRejected epoch transport_id response_fault) =
     decided (response_rejected rm m epoch transport_id response_fault)"
| "connection_dispatch rm m (InDeadlineElapsed epoch timer_id now) =
     decided (conn_deadline_elapsed rm m epoch timer_id now)"
| "connection_dispatch rm m InBeginDrain = decided (conn_begin_drain rm m)"
| "connection_dispatch rm m (InTransportClosed epoch transport_id failure) =
     decided (transport_closed rm m epoch transport_id failure)"

definition connection_apply ::
    "('r \<Rightarrow> 'v) \<Rightarrow> ('k::linorder, 'r, 'v) connection_machine \<Rightarrow> ('k, 'r) connection_input \<Rightarrow>
     ('k, 'r, 'v) connection_machine \<times> (connection_machine_error + 'v connection_transition)" where
  "connection_apply range_max m input =
     (case cm_next_sequence m of
        None \<Rightarrow> (m, Inl TransitionSequenceExhausted)
      | Some sequence \<Rightarrow>
          (case connection_dispatch range_max m input of
             (m', Inl e) \<Rightarrow> (m', Inl e)
           | (m', Inr (effects, disposition)) \<Rightarrow>
               (let record =
                  \<lparr>tr_sequence = sequence, tr_epoch = state_epoch (cm_state m'),
                   tr_from = state_phase (cm_state m), tr_input = input_kind input,
                   tr_to = state_phase (cm_state m'), tr_disposition = disposition,
                   tr_effect_count = length effects\<rparr>
                in (m'\<lparr>cm_next_sequence := checked_add sequence 1,
                       cm_trace := trace_push (cm_trace m') record\<rparr>,
                    Inr \<lparr>ct_effects = effects, ct_record = record\<rparr>))))"

definition recent_transitions :: "('k, 'r, 'v) connection_machine \<Rightarrow> transition_record list" where
  "recent_transitions m = tt_records (cm_trace m)"

end
