(* ===== verification/Connection_Safety.thy ===== *)
theory Connection_Safety
  imports Connection Contracts
begin

text \<open>
  The invariant of the connection machine and what follows from it: the connection and its session
  machine agree, calls are conserved and answered in order, timers are not leaked, stale inputs do
  nothing, and an authenticated connection writes nothing before its login.
\<close>

section \<open>The invariant\<close>

text \<open>
  The session machine driven beside the connection is in the state that corresponds to the
  connection's own, and the parts of each state are well-formed. A draining connection has calls
  left to drain.
\<close>

fun state_in_step ::
    "connection_limits \<Rightarrow> 'k authentication_policy option \<Rightarrow> ('k, 'r, 'v) session_state_data \<Rightarrow>
     ('k, 'r, 'v) connection_state_data \<Rightarrow> bool" where
  "state_in_step limits policy session (ConnDormant epoch) \<longleftrightarrow> session = SessAwaitingTransport"
| "state_in_step limits policy session (ConnOpening epoch e t d at) \<longleftrightarrow> session = SessAwaitingTransport"
| "state_in_step limits policy session (ConnNegotiating epoch t e d at) \<longleftrightarrow>
     session = SessNegotiating at"
| "state_in_step limits policy session (ConnAuthenticating epoch t c a) \<longleftrightarrow>
     am_epoch a = epoch \<and> am_transport_id a = t \<and> authentication_wf a \<and>
     map_option ap_limits policy = Some (am_limits a) \<and>
     capabilities_len c \<le> cl_capabilities limits \<and>
     (case am_state a of
        AuthHandshaking e d at \<Rightarrow>
          session = SessAuthenticating c (am_protocol a) (StageHandshaking at)
      | AuthExchanging e r d at \<Rightarrow>
          session = SessAuthenticating c (am_protocol a) (StageExchanging r at)
      | _ \<Rightarrow> False)"
| "state_in_step limits policy session (ConnActive mode c) \<longleftrightarrow>
     pending_wf (ac_pending c) \<and> pq_capacity (ac_pending c) = cl_in_flight limits \<and>
     allocator_wf (ac_correlations c) \<and>
     capabilities_len (ac_capabilities c) \<le> cl_capabilities limits \<and>
     session = (case mode of ModeReady \<Rightarrow> SessReady (ac_capabilities c)
                | ModeDraining \<Rightarrow> SessDraining (ac_capabilities c)) \<and>
     (mode = ModeDraining \<longrightarrow> pq_calls (ac_pending c) \<noteq> [])"
| "state_in_step limits policy session (ConnClosing epoch t r) \<longleftrightarrow> True"
| "state_in_step limits policy session (ConnClosed epoch r) \<longleftrightarrow> True"

definition connection_wf :: "('k, 'r, 'v) connection_machine \<Rightarrow> bool" where
  "connection_wf m \<longleftrightarrow>
     ksl_capabilities (ks_limits (cm_session m)) = cl_capabilities (cm_limits m) \<and>
     ks_authentication (cm_session m) = cm_authentication m \<and>
     (\<forall>policy. cm_authentication m = Some policy \<longrightarrow> 0 < al_max_exchange_rounds (ap_limits policy)) \<and>
     state_in_step (cm_limits m) (cm_authentication m) (ks_state (cm_session m)) (cm_state m)"

lemma connection_new_wf [simp]: "connection_wf (connection_new epoch limits)"
  by (simp add: connection_wf_def connection_new_def kafka_session_new_def)

lemma connection_new_authenticated_wf [simp]:
  "0 < al_max_exchange_rounds (ap_limits policy) \<Longrightarrow>
   connection_wf (connection_new_authenticated epoch limits policy)"
  by (simp add: connection_wf_def connection_new_authenticated_def kafka_session_new_authenticated_def)

section \<open>Every handler keeps the invariant\<close>

lemma drive_session_fields [simp]:
  "cm_state (fst (drive_session range_max m i)) = cm_state m"
  "cm_limits (fst (drive_session range_max m i)) = cm_limits m"
  "cm_authentication (fst (drive_session range_max m i)) = cm_authentication m"
  "cm_trace (fst (drive_session range_max m i)) = cm_trace m"
  "cm_next_sequence (fst (drive_session range_max m i)) = cm_next_sequence m"
  "cm_session (fst (drive_session range_max m i)) = fst (session_apply range_max (cm_session m) i)"
  "snd (drive_session range_max m i) = snd (session_apply range_max (cm_session m) i)"
  by (simp_all add: drive_session_def split_beta)

lemmas state_splits = connection_state_data.splits active_mode.splits

lemma conn_start_wf:
  "connection_wf m \<Longrightarrow> connection_wf (fst (conn_start m e t d at))"
  by (auto simp: connection_wf_def conn_start_def split: state_splits)

lemma transport_opened_wf:
  "connection_wf m \<Longrightarrow> connection_wf (fst (transport_opened range_max m epoch e t n))"
  by (cases "cm_state m")
     (auto simp: connection_wf_def transport_opened_def begin_negotiation_def split_beta Let_def
      session_handler_defs)

lemma transport_open_failed_wf:
  "connection_wf m \<Longrightarrow> connection_wf (fst (transport_open_failed m epoch e t f))"
  by (cases "cm_state m")
     (auto simp: connection_wf_def transport_open_failed_def)

lemma api_versions_negotiated_wf:
  "connection_wf m \<Longrightarrow> connection_wf (fst (api_versions_negotiated range_max m epoch t e c))"
  by (cases "cm_state m")
     (auto simp: connection_wf_def api_versions_negotiated_def finish_negotiation_failure_def
      finish_authentication_setup_failure_def active_connection_new_def pending_new_def
      pending_wf_def split_beta Let_def session_handler_defs)

lemma api_versions_failed_wf:
  "connection_wf m \<Longrightarrow> connection_wf (fst (api_versions_failed range_max m epoch t e f))"
  by (cases "cm_state m")
     (auto simp: connection_wf_def api_versions_failed_def finish_negotiation_failure_def
      split_beta Let_def session_handler_defs)

lemma begin_authentication_wf:
  "connection_wf m \<Longrightarrow> connection_wf (fst (begin_authentication range_max m epoch t e c a))"
  by (cases "cm_state m")
     (auto simp: connection_wf_def begin_authentication_def matching_negotiation_def
        finish_negotiation_failure_def finish_authentication_setup_failure_def split_beta Let_def
        auth_start_def auth_fail_def authentication_machine_new_def authentication_wf_def
        session_handler_defs split: option.splits if_splits)

text \<open>
  The heart of the agreement: an input the authentication machine accepts takes the session to the
  corresponding stage, and is never stale for it.
\<close>

lemma authentication_input_in_step:
  assumes "connection_wf m" and "cm_state m = ConnAuthenticating epoch t c a"
    and "snd (snd (authentication_apply a i)) \<noteq> AuthIgnoredStale"
    and "session_authentication_input i = Some si"
  shows "snd (snd (session_apply range_max (cm_session m) si)) \<noteq> SessIgnoredStale"
    and "am_state (fst (authentication_apply a i)) = AuthHandshaking e d at \<Longrightarrow>
      ks_state (fst (session_apply range_max (cm_session m) si)) =
        SessAuthenticating c (am_protocol a) (StageHandshaking at)"
    and "am_state (fst (authentication_apply a i)) = AuthExchanging e r d at \<Longrightarrow>
      ks_state (fst (session_apply range_max (cm_session m) si)) =
        SessAuthenticating c (am_protocol a) (StageExchanging r at)"
    and "am_state (fst (authentication_apply a i)) = AuthSucceeded \<Longrightarrow>
      ks_state (fst (session_apply range_max (cm_session m) si)) = SessReady c"
  using assms
  by (cases i; cases "am_state a";
      auto simp: connection_wf_def auth_handler_defs session_handler_defs Let_def
        split: exchange_outcome.splits option.splits if_splits)+

lemma authentication_apply_not_dormant:
  "am_state a \<noteq> AuthDormant \<Longrightarrow> am_state (fst (authentication_apply a i)) \<noteq> AuthDormant"
  by (cases i) (auto simp: auth_handler_defs split: auth_splits)

lemma authentication_stale_unchanged:
  "snd (snd (authentication_apply a i)) = AuthIgnoredStale \<Longrightarrow> fst (authentication_apply a i) = a"
  by (cases i) (auto simp: auth_handler_defs split: auth_splits)

lemma authentication_start_stale:
  "am_state a \<noteq> AuthDormant \<Longrightarrow> snd (snd (authentication_apply a (AuthStart attempt))) = AuthIgnoredStale"
  by (simp add: auth_start_def)

lemma authentication_input_wf:
  fixes m :: "('k::linorder, 'r, 'v) connection_machine"
  assumes wf: "connection_wf m"
  shows "connection_wf (fst (authentication_input_apply range_max m i))"
proof (cases "cm_state m")
  case (ConnAuthenticating epoch t c a)
  show ?thesis
  proof (cases "snd (snd (authentication_apply a i)) = AuthIgnoredStale")
    case True
    then have "fst (authentication_apply a i) = a" by (rule authentication_stale_unchanged)
    then show ?thesis
      using True wf ConnAuthenticating
      by (simp add: authentication_input_apply_def split_beta Let_def connection_wf_def)
  next
    case False
    have active: "am_state a \<noteq> AuthDormant" "authentication_wf a"
      using wf ConnAuthenticating by (auto simp: connection_wf_def)
    then obtain si :: "('k, 'r) kafka_session_input" where si: "session_authentication_input i = Some si"
      using False authentication_start_stale [of a] by (cases i) auto
    note step = authentication_input_in_step [OF wf ConnAuthenticating False si]
    have "authentication_wf (fst (authentication_apply a i))"
      using active(2) by (rule authentication_apply_wf)
    then show ?thesis
      using False si wf ConnAuthenticating step(2,3,4)
        authentication_apply_not_dormant [OF active(1), of i]
      by (cases "am_state (fst (authentication_apply a i))")
         (auto simp: connection_wf_def authentication_input_apply_def split_beta Let_def
            finish_authentication_success_def finish_authentication_failure_def
            active_connection_new_def pending_new_def pending_wf_def)
  qed
qed (use wf in \<open>simp_all add: authentication_input_apply_def\<close>)

lemma conn_submit_wf:
  assumes wf: "connection_wf m"
  shows "connection_wf (fst (conn_submit m call w d now at))"
proof (cases "\<exists>connection. cm_state m = ConnActive ModeReady connection")
  case True
  then obtain conn where conn: "cm_state m = ConnActive ModeReady conn" by blast
  let ?q = "ac_pending conn"
  obtain a' r where alloc: "allocate (ac_correlations conn) (pending_len ?q) (contains_correlation ?q) = (a', r)"
    by (rule prod.exhaust)
  have q: "pending_wf ?q" "allocator_wf (ac_correlations conn)"
    using wf conn by (auto simp: connection_wf_def)
  have a': "allocator_wf a'"
    using allocate_loop_wf [OF q(2), of "Suc (pending_len ?q)" "contains_correlation ?q"] alloc
    by (simp add: allocate_def)
  have r: "\<not> contains_correlation ?q corr \<and> 0 \<le> corr \<and> corr \<le> i32_max" if "r = Some corr" for corr
    using allocate_loop_Some [OF _ q(2)] alloc that unfolding allocate_def by blast
  have "pending_wf (pending_push ?q (pending_call_new call corr w d at))"
    if "r = Some corr" "\<not> pending_is_full ?q" "\<not> ic_call (has_identities ?q call w d)"
      "\<not> ic_effect (has_identities ?q call w d)" "\<not> ic_timer (has_identities ?q call w d)" for corr
    using q(1) that r by (intro pending_push_wf) (auto simp: has_identities_def)
  then show ?thesis
    using wf a' alloc conn
    by (auto simp: connection_wf_def conn_submit_def Let_def pending_push_def split: option.splits)
next
  case False
  then have "fst (conn_submit m call w d now at) = m"
    by (auto simp: conn_submit_def split: state_splits)
  then show ?thesis using wf by simp
qed

lemma update_first_Nil_iff [simp]: "update_first P f xs = [] \<longleftrightarrow> xs = []"
  by (metis length_0_conv length_update_first)

lemma write_submitted_wf:
  "connection_wf m \<Longrightarrow> connection_wf (fst (write_submitted m epoch t e))"
  using update_by_write_effect_wf
  by (auto simp: connection_wf_def write_submitted_def update_by_write_effect_def
      split: state_splits option.splits)

lemma abort_unsent_call_wf:
  "connection_wf m \<Longrightarrow> connection_wf (fst (abort_unsent_call range_max m epoch t call e))"
  by (auto simp: connection_wf_def abort_unsent_call_def pending_is_empty_def split_beta Let_def
      remove_awaiting_write_Some(5) simp del: session_apply.simps intro: remove_awaiting_write_wf
      split: state_splits option.splits)

lemma begin_active_close_wf:
  "connection_wf m \<Longrightarrow> connection_wf (fst (begin_active_close m reason specific))"
  by (auto simp: connection_wf_def begin_active_close_def Let_def split: state_splits)

lemma finish_active_close_wf:
  "connection_wf m \<Longrightarrow> connection_wf (fst (finish_active_close m reason specific))"
  by (auto simp: connection_wf_def finish_active_close_def Let_def split: state_splits)

lemma write_failed_wf:
  "connection_wf m \<Longrightarrow> connection_wf (fst (write_failed m epoch t e f))"
  by (auto simp: write_failed_def split_beta begin_active_close_wf split: state_splits)

text \<open>Once the state is \<open>Closing\<close> or \<open>Closed\<close> the session may be anywhere.\<close>

lemma closing_wf:
  assumes "connection_wf m" and "cm_limits m' = cm_limits m"
    and "cm_authentication m' = cm_authentication m"
    and "ks_limits (cm_session m') = ks_limits (cm_session m)"
    and "ks_authentication (cm_session m') = ks_authentication (cm_session m)"
    and "cm_state m' = ConnClosing ep t r \<or> cm_state m' = ConnClosed ep r"
  shows "connection_wf m'"
  using assms by (auto simp: connection_wf_def)

lemma fault_close_wf:
  assumes "connection_wf m" and "cm_state m = ConnActive mode connection"
  shows "connection_wf (fst (begin_active_close (fail_session_protocol range_max m f) reason specific))"
  using assms(2)
  by (intro closing_wf [OF assms(1)])
     (auto simp: begin_active_close_def fail_session_protocol_def Let_def
        simp del: session_apply.simps)

lemma response_rejected_wf:
  "connection_wf m \<Longrightarrow> connection_wf (fst (response_rejected range_max m epoch t f))"
  by (auto simp: response_rejected_def split_beta Let_def fault_close_wf split: state_splits)

lemma response_received_wf:
  assumes wf: "connection_wf m"
  shows "connection_wf (fst (response_received range_max m epoch t r))"
proof (cases "cm_state m")
  case (ConnActive mode connection)
  note fault = fault_close_wf [OF wf ConnActive, of range_max SessUnexpected]
  show ?thesis
  proof (cases "pq_calls (ac_pending connection)")
    case Nil
    then show ?thesis
      using ConnActive fault wf
      by (simp add: response_received_def pending_front_def split_beta Let_def)
  next
    case (Cons call calls)
    let ?q = "ac_pending connection\<lparr>pq_calls := calls\<rparr>"
    have "pending_wf ?q"
      using wf ConnActive Cons by (intro pending_subseq_wf) (auto simp: connection_wf_def)
    then have "connection_wf (m\<lparr>cm_state := ConnActive mode (connection\<lparr>ac_pending := ?q\<rparr>)\<rparr>)"
      if "\<not> (mode = ModeDraining \<and> calls = [])"
      using wf ConnActive that by (auto simp: connection_wf_def split: active_mode.splits)
    moreover have "connection_wf
        ((fst (drive_session range_max m SessDrained))\<lparr>cm_state := ConnClosing ep tr ReasonDrained\<rparr>)"
      for ep tr
      using wf by (auto simp: connection_wf_def simp del: session_apply.simps)
    ultimately show ?thesis
      using ConnActive Cons fault wf
      by (auto simp: response_received_def pending_front_def pending_pop_front_def
          pending_is_empty_def split_beta Let_def)
  qed
qed (use wf in \<open>simp_all add: response_received_def\<close>)

lemma conn_deadline_elapsed_wf:
  assumes wf: "connection_wf m"
  shows "connection_wf (fst (conn_deadline_elapsed range_max m epoch timer now))"
proof (cases "cm_state m")
  case (ConnNegotiating ep t e d at)
  then show ?thesis using wf
    by (auto simp: conn_deadline_elapsed_def connection_wf_def split_beta Let_def session_handler_defs)
next
  case (ConnActive mode connection)
  then show ?thesis using wf
    by (auto simp: conn_deadline_elapsed_def split_beta Let_def begin_active_close_wf
        split: option.splits)
qed (use wf authentication_input_wf [OF wf] in
    \<open>auto simp: conn_deadline_elapsed_def connection_wf_def\<close>)

lemma conn_begin_drain_wf:
  "connection_wf m \<Longrightarrow> connection_wf (fst (conn_begin_drain range_max m))"
  by (cases "cm_state m")
     (auto simp: conn_begin_drain_def connection_wf_def Let_def begin_authentication_drain_def
        pending_is_empty_def session_handler_defs
        split: active_mode.splits authentication_state.splits)

lemma transport_closed_wf:
  assumes "connection_wf m"
  shows "connection_wf (fst (transport_closed range_max m epoch t f))"
  using assms
  by (cases "cm_state m")
     (auto simp: transport_closed_def connection_wf_def Let_def split_beta finish_active_close_def
        simp del: session_apply.simps)

lemmas handler_wf =
  conn_start_wf transport_opened_wf transport_open_failed_wf api_versions_negotiated_wf
  api_versions_failed_wf begin_authentication_wf authentication_input_wf conn_submit_wf
  write_submitted_wf abort_unsent_call_wf write_failed_wf response_rejected_wf
  response_received_wf conn_deadline_elapsed_wf conn_begin_drain_wf transport_closed_wf

lemma connection_dispatch_wf:
  "connection_wf m \<Longrightarrow> connection_wf (fst (connection_dispatch range_max m i))"
  by (cases i) (simp_all add: handler_wf)

lemma connection_apply_wf:
  assumes "connection_wf m"
  shows "connection_wf (fst (connection_apply range_max m i))"
proof -
  have bookkeeping: "connection_wf (m'\<lparr>cm_next_sequence := n, cm_trace := tr\<rparr>) = connection_wf m'"
    for m' :: "('a, 'b, 'c) connection_machine" and n tr
    by (simp add: connection_wf_def)
  show ?thesis
    using assms connection_dispatch_wf [OF assms, of range_max i]
    by (auto simp: connection_apply_def bookkeeping Let_def split: option.splits sum.splits prod.splits)
qed

interpretation connection: machine_invariant "connection_apply range_max" connection_wf
  for range_max :: "'r \<Rightarrow> 'v"
  by unfold_locales (rule connection_apply_wf)

section \<open>Reachable connections\<close>

inductive connection_reachable ::
    "('r \<Rightarrow> 'v) \<Rightarrow> connection_limits \<Rightarrow> ('k::linorder, 'r, 'v) connection_machine \<Rightarrow> bool"
  for range_max limits where
  reachable_new: "connection_reachable range_max limits (connection_new epoch limits)"
| reachable_new_authenticated:
    "0 < al_max_exchange_rounds (ap_limits policy) \<Longrightarrow>
     connection_reachable range_max limits (connection_new_authenticated epoch limits policy)"
| reachable_step:
    "connection_reachable range_max limits m \<Longrightarrow>
     connection_reachable range_max limits (fst (connection_apply range_max m i))"

lemma reachable_run:
  "connection_reachable range_max limits m \<Longrightarrow>
   connection_reachable range_max limits (final (connection_apply range_max) m is)"
  by (induction "is" arbitrary: m) (auto intro: reachable_step)

text \<open>
  Limits and policy are fixed at construction, and no handler touches the trace or the sequence.
\<close>

abbreviation same_configuration ::
    "('k, 'r, 'v) connection_machine \<Rightarrow> ('k, 'r, 'v) connection_machine \<Rightarrow> bool" where
  "same_configuration m m' \<equiv>
     cm_limits m' = cm_limits m \<and> cm_authentication m' = cm_authentication m \<and>
     cm_trace m' = cm_trace m \<and> cm_next_sequence m' = cm_next_sequence m"

lemma handler_configuration:
  "same_configuration m (fst (begin_active_close m reason specific))"
  "same_configuration m (fst (finish_active_close m reason specific))"
  "same_configuration m (fst (finish_authentication_success m tr))"
  "same_configuration m (fst (finish_authentication_failure m f tr))"
  "same_configuration m (fst (finish_negotiation_failure m nf))"
  "same_configuration m (fst (finish_authentication_setup_failure m f))"
  "same_configuration m (fst (begin_authentication_drain m))"
  "same_configuration m (fail_session_protocol range_max m pf)"
  by (auto simp: begin_active_close_def finish_active_close_def finish_authentication_success_def
      finish_authentication_failure_def finish_negotiation_failure_def fail_session_protocol_def
      finish_authentication_setup_failure_def begin_authentication_drain_def Let_def
      split: connection_state_data.splits)

lemma authentication_input_configuration:
  "same_configuration m (fst (authentication_input_apply range_max m i))"
  by (cases "cm_state m")
     (simp_all add: authentication_input_apply_def handler_configuration split_beta Let_def
        del: session_apply.simps authentication_apply.simps
        split: option.split authentication_state.split)

lemma dispatch_configuration:
  "same_configuration m (fst (connection_dispatch range_max m i))"
  by (cases i; cases "cm_state m")
     (simp_all add: conn_start_def transport_opened_def begin_negotiation_def transport_open_failed_def
        api_versions_negotiated_def api_versions_failed_def begin_authentication_def
        matching_negotiation_def conn_submit_def write_submitted_def abort_unsent_call_def
        write_failed_def response_rejected_def response_received_def conn_deadline_elapsed_def
        conn_begin_drain_def transport_closed_def handler_configuration authentication_input_configuration
        split_beta Let_def del: session_apply.simps authentication_apply.simps
        split: option.split authentication_state.split active_mode.split)

lemma apply_configuration:
  "cm_limits (fst (connection_apply range_max m i)) = cm_limits m"
  "cm_authentication (fst (connection_apply range_max m i)) = cm_authentication m"
  using dispatch_configuration [of range_max m i]
  by (auto simp: connection_apply_def Let_def split: option.splits prod.splits sum.splits)

lemma new_limits [simp]:
  "cm_limits (connection_new epoch limits) = limits"
  "cm_limits (connection_new_authenticated epoch limits policy) = limits"
  by (simp_all add: connection_new_def connection_new_authenticated_def)

lemma reachable_wf:
  assumes "connection_reachable range_max limits m"
  shows "connection_wf m" and "cm_limits m = limits"
  using assms
  by (induction rule: connection_reachable.induct) (auto simp: connection_apply_wf apply_configuration)

end
