(* ===== verification/Connection_Calls.thy ===== *)
theory Connection_Calls
  imports Connection_Safety
begin

text \<open>
  What the connection machine promises about calls: every submitted call is settled exactly once,
  responses settle calls in the order they were written, a failed call reports truthfully whether
  it may have been sent, and correlations in flight are never reused.
\<close>

section \<open>From dispatch to apply\<close>

definition transition_effects ::
    "connection_machine_error + 'v connection_transition \<Rightarrow> 'v connection_effect list" where
  "transition_effects result = (case result of Inl e \<Rightarrow> [] | Inr t \<Rightarrow> ct_effects t)"

lemma dispatch_error_unchanged:
  "connection_dispatch range_max m i = (m', Inl e) \<Longrightarrow> m' = m"
  by (cases i)
     (auto simp: conn_submit_def Let_def split: state_splits if_splits option.splits prod.splits)

lemma apply_error_unchanged:
  "snd (connection_apply range_max m i) = Inl e \<Longrightarrow> fst (connection_apply range_max m i) = m"
  by (auto simp: connection_apply_def Let_def dest: dispatch_error_unchanged
      split: option.splits prod.splits sum.splits)

lemma apply_dispatch:
  assumes "snd (connection_apply range_max m i) = Inr t"
  obtains m' where
    "connection_dispatch range_max m i = (m', Inr (ct_effects t, tr_disposition (ct_record t)))"
    "cm_state (fst (connection_apply range_max m i)) = cm_state m'"
    "cm_session (fst (connection_apply range_max m i)) = cm_session m'"
    "cm_limits (fst (connection_apply range_max m i)) = cm_limits m'"
  using assms
  by (auto simp: connection_apply_def Let_def split: option.splits prod.splits sum.splits)

text \<open>
  A law about one dispatch, reading only states and effects, carries over to one application:
  an erroneous application leaves the machine alone.
\<close>

lemma apply_law:
  assumes "connection_wf m"
    and step: "\<And>m' effects d. connection_dispatch range_max m i = (m', Inr (effects, d)) \<Longrightarrow>
      P (cm_state m) (Some i) (cm_state m') effects"
    and skip: "P (cm_state m) None (cm_state m) []"
  shows "P (cm_state m) (case snd (connection_apply range_max m i) of Inl e \<Rightarrow> None | Inr t \<Rightarrow> Some i)
    (cm_state (fst (connection_apply range_max m i)))
    (transition_effects (snd (connection_apply range_max m i)))"
proof (cases "snd (connection_apply range_max m i)")
  case (Inl e)
  then show ?thesis
    using skip apply_error_unchanged [OF Inl] by (simp add: transition_effects_def)
next
  case (Inr t)
  then obtain m' where
    "connection_dispatch range_max m i = (m', Inr (ct_effects t, tr_disposition (ct_record t)))"
    "cm_state (fst (connection_apply range_max m i)) = cm_state m'"
    by (rule apply_dispatch) blast
  then show ?thesis using step Inr by (simp add: transition_effects_def)
qed

section \<open>Settlement\<close>

fun settled_call :: "'v connection_effect \<Rightarrow> call_id list" where
  "settled_call (CompleteResponse call_id correlation_id) = [call_id]"
| "settled_call (FailCall call_id failure delivery) = [call_id]"
| "settled_call e = []"

definition settled :: "'v connection_effect list \<Rightarrow> call_id list" where
  "settled effects = concat (map settled_call effects)"

fun pending_of :: "('k, 'r, 'v) connection_state_data \<Rightarrow> pending_call list" where
  "pending_of (ConnActive mode c) = pq_calls (ac_pending c)"
| "pending_of s = []"

fun submitted_call :: "('k, 'r) connection_input option \<Rightarrow> call_id list" where
  "submitted_call (Some (InSubmit call_id w d now at)) = [call_id]"
| "submitted_call i = []"

lemma settled_simps [simp]:
  "settled [] = []"
  "settled (e # es) = settled_call e @ settled es"
  "settled (es @ fs) = settled es @ settled fs"
  by (simp_all add: settled_def)

lemma settled_append_failures [simp]:
  "settled (append_failures reason specific calls) = map pc_call_id calls"
  by (induction reason specific calls rule: append_failures.induct) (auto simp: Let_def)

lemma settled_wrap_effects [simp]: "settled (wrap_effects effects) = []"
  by (induction effects)
     (auto simp: wrap_effects_def List.map_filter_simps split: authentication_effect.splits option.splits)

lemma update_first_same_ids [simp]:
  "image_mset pc_call_id (mset (update_first P mark_submitted calls)) = image_mset pc_call_id (mset calls)"
  by (simp add: update_first_map flip: mset_map)

lemma close_settles:
  "settled (snd (begin_active_close m reason specific)) = map pc_call_id (pending_of (cm_state m))"
  "pending_of (cm_state (fst (begin_active_close m reason specific))) = []"
  "settled (snd (finish_active_close m reason specific)) = map pc_call_id (pending_of (cm_state m))"
  "pending_of (cm_state (fst (finish_active_close m reason specific))) = []"
  by (auto simp: begin_active_close_def finish_active_close_def Let_def split: state_splits)

abbreviation balanced ::
    "('k, 'r, 'v) connection_state_data \<Rightarrow> call_id list \<Rightarrow> ('k, 'r, 'v) connection_state_data \<Rightarrow>
     'v connection_effect list \<Rightarrow> bool" where
  "balanced s new s' effects \<equiv>
     mset (map pc_call_id (pending_of s)) + mset new =
     mset (map pc_call_id (pending_of s')) + mset (settled effects)"

abbreviation balanced_step :: "('k, 'r, 'v) connection_machine \<Rightarrow> ('k, 'r, 'v) connection_step \<Rightarrow> bool" where
  "balanced_step m step \<equiv> balanced (cm_state m) [] (cm_state (fst step)) (fst (snd step))"

lemma opening_balanced:
  "balanced_step m (conn_start m e t d at)"
  "balanced_step m (transport_opened range_max m epoch e t n)"
  "balanced_step m (transport_open_failed m epoch e t f)"
  by (auto simp: conn_start_def transport_opened_def begin_negotiation_def transport_open_failed_def
      split_beta Let_def simp del: session_apply.simps split: state_splits)

lemma negotiation_balanced:
  "balanced_step m (api_versions_negotiated range_max m epoch t e c)"
  "balanced_step m (api_versions_failed range_max m epoch t e nf)"
  by (auto simp: api_versions_negotiated_def api_versions_failed_def finish_negotiation_failure_def
      finish_authentication_setup_failure_def active_connection_new_def pending_new_def
      split_beta Let_def simp del: session_apply.simps split: state_splits)

lemma begin_authentication_balanced:
  "balanced_step m (begin_authentication range_max m epoch t e c a)"
  by (cases "cm_state m")
     (auto simp: begin_authentication_def matching_negotiation_def finish_negotiation_failure_def
        finish_authentication_setup_failure_def split_beta Let_def
        simp del: session_apply.simps authentication_apply.simps
        split: option.splits authentication_state.splits)

lemma authentication_input_balanced:
  "balanced_step m (authentication_input_apply range_max m i)"
  by (cases "cm_state m")
     (auto simp: authentication_input_apply_def finish_authentication_success_def
        finish_authentication_failure_def active_connection_new_def pending_new_def
        split_beta Let_def simp del: session_apply.simps authentication_apply.simps
        split: option.splits authentication_state.splits)

lemma conn_submit_balanced:
  "conn_submit m call w d now at = (m', Inr (effects, disposition)) \<Longrightarrow>
   balanced (cm_state m) [call] (cm_state m') effects"
  by (auto simp: conn_submit_def reject_def Let_def pending_push_def pending_call_new_def
      split: state_splits if_splits option.splits prod.splits)

lemma call_flow_balanced:
  "balanced_step m (write_submitted m epoch t e)"
  "balanced_step m (abort_unsent_call range_max m epoch t call e)"
  "balanced_step m (write_failed m epoch t e f)"
  by (auto simp: write_submitted_def update_by_write_effect_def abort_unsent_call_def write_failed_def
      pending_is_empty_def close_settles split_beta Let_def remove_awaiting_write_Some(1,6)
      simp del: session_apply.simps split: state_splits option.splits)

lemma fail_session_protocol_fields [simp]:
  "cm_state (fail_session_protocol range_max m f) = cm_state m"
  "cm_limits (fail_session_protocol range_max m f) = cm_limits m"
  by (simp_all add: fail_session_protocol_def)

lemma response_balanced:
  "balanced_step m (response_rejected range_max m epoch t rf)"
  "balanced_step m (response_received range_max m epoch t corr)"
  by (cases "cm_state m";
      auto simp: response_rejected_def response_received_def close_settles split_beta Let_def
        pending_front_def pending_pop_front_def pending_is_empty_def
        simp del: session_apply.simps split: list.splits)+

lemma lifecycle_balanced:
  "balanced_step m (conn_deadline_elapsed range_max m epoch timer now)"
  "balanced_step m (conn_begin_drain range_max m)"
  "balanced_step m (transport_closed range_max m epoch t f)"
  using authentication_input_balanced [of m range_max]
  by (cases "cm_state m";
      auto simp: conn_deadline_elapsed_def conn_begin_drain_def begin_authentication_drain_def
        transport_closed_def close_settles pending_is_empty_def split_beta Let_def
        simp del: session_apply.simps split: option.splits)+

lemmas handlers_balanced =
  opening_balanced negotiation_balanced begin_authentication_balanced authentication_input_balanced
  call_flow_balanced response_balanced lifecycle_balanced

lemma dispatch_balanced:
  assumes "connection_dispatch range_max m i = (m', Inr (effects, d))"
  shows "balanced (cm_state m) (submitted_call (Some i)) (cm_state m') effects"
proof -
  have step: "balanced (cm_state m) [] (cm_state m') effects"
    if "decided step = (m', Inr (effects, d))" "balanced_step m step" for step
    using that by auto
  show ?thesis
    using assms
    by (cases i; simp only: connection_dispatch.simps submitted_call.simps)
       (erule conn_submit_balanced | erule step, rule handlers_balanced)+
qed

definition pending_calls :: "('k, 'r, 'v) connection_machine \<Rightarrow> call_id list" where
  "pending_calls m = map pc_call_id (pending_of (cm_state m))"

definition accepted_calls ::
    "('k, 'r) connection_input \<Rightarrow> connection_machine_error + 'v connection_transition \<Rightarrow> call_id list" where
  "accepted_calls i result = (case result of Inl e \<Rightarrow> [] | Inr t \<Rightarrow> submitted_call (Some i))"

definition settled_calls :: "connection_machine_error + 'v connection_transition \<Rightarrow> call_id list" where
  "settled_calls result = settled (transition_effects result)"

interpretation connection_calls: conserving_machine "connection_apply range_max" connection_wf
  "\<lambda>m. mset (pending_calls m)" "\<lambda>i r. mset (accepted_calls i r)" "\<lambda>r. mset (settled_calls r)"
  for range_max :: "'r \<Rightarrow> 'v"
proof
  fix m :: "('k::linorder, 'r, 'v) connection_machine" and i
  assume wf: "connection_wf m"
  show "mset (pending_calls m) + mset (accepted_calls i (snd (connection_apply range_max m i))) =
      mset (pending_calls (fst (connection_apply range_max m i))) +
      mset (settled_calls (snd (connection_apply range_max m i)))"
  proof (cases "snd (connection_apply range_max m i)")
    case (Inl e)
    then show ?thesis
      using apply_error_unchanged [OF Inl]
      by (simp add: accepted_calls_def settled_calls_def transition_effects_def)
  next
    case (Inr t)
    then show ?thesis
      by (rule apply_dispatch) (use Inr in \<open>auto dest!: dispatch_balanced
          simp: pending_calls_def accepted_calls_def settled_calls_def transition_effects_def\<close>)
  qed
qed

text \<open>
  C1. No call is lost and none is settled twice. Over any sequence of inputs to a new connection,
  plain or authenticated, the calls the machine accepted are, with multiplicity, exactly the calls
  still pending together with the calls its effects settled by a response or a failure.
\<close>

theorem connection_calls_conserved:
  fixes range_max :: "'r \<Rightarrow> 'v"
  assumes "m = connection_new epoch limits \<or>
      m = connection_new_authenticated epoch limits policy \<and>
      0 < al_max_exchange_rounds (ap_limits policy)"
    and results: "results = outputs (connection_apply range_max) m is"
  shows "mset (concat (map2 accepted_calls is results)) =
    mset (pending_calls (final (connection_apply range_max) m is)) +
    mset (concat (map settled_calls results))"
proof -
  have "connection_wf m" using assms(1) by auto
  moreover have "pending_calls m = []"
    using assms(1)
    by (auto simp: pending_calls_def connection_new_def connection_new_authenticated_def)
  ultimately show ?thesis
    using connection_calls.run_conserves [of m "is" range_max]
    by (simp add: results sum_list_mset sum_list_mset2)
qed

text \<open>Three calls: one answered, one rejected after its deadline, one lost with the transport.\<close>

definition sample_negotiation :: negotiation_attempt where
  "sample_negotiation =
     \<lparr>ng_effect_id = 2, ng_deadline_timer = 2, ng_now = 5, ng_deadline = 50\<rparr>"

definition sample_opening :: "(nat, nat) connection_input list" where
  "sample_opening =
     [InStart 1 7 1 40, InTransportOpened 9 1 7 sample_negotiation,
      InApiVersionsNegotiated 9 7 2 sample_capabilities]"

definition sample_calls :: "(nat, nat) connection_input list" where
  "sample_calls =
     [InSubmit 100 11 21 10 60, InSubmit 101 12 22 10 60, InSubmit 102 13 23 70 60,
      InWriteSubmitted 9 7 11, InResponseReceived 9 7 0, InTransportClosed 9 7 Reset]"

definition sample_connection :: "(nat, nat, nat) connection_machine" where
  "sample_connection = connection_new 9 connection_limits_default"

theorem connection_calls_conserved_witness:
  "concat (map2 accepted_calls (sample_opening @ sample_calls)
      (outputs (connection_apply id) sample_connection (sample_opening @ sample_calls)))
     = [100, 101, 102]
   \<and> mset (observed settled_calls (connection_apply id) sample_connection
      (sample_opening @ sample_calls)) = {#100, 101, 102#}"
proof -
  let ?is = "sample_opening @ sample_calls"
  have "pending_calls (final (connection_apply id) sample_connection ?is) = []"
    "concat (map2 accepted_calls ?is (outputs (connection_apply id) sample_connection ?is))
      = [100, 101, 102]"
    by code_simp+
  then show ?thesis
    using connection_calls_conserved [OF disjI1 refl,
        of sample_connection 9 connection_limits_default "?is" id]
    by (simp add: sample_connection_def)
qed

section \<open>Order of responses\<close>

fun written_call :: "'v connection_effect \<Rightarrow> (call_id \<times> correlation_id) list" where
  "written_call (WriteRequest epoch t call_id correlation_id e) = [(call_id, correlation_id)]"
| "written_call e = []"

fun completed_call :: "'v connection_effect \<Rightarrow> (call_id \<times> correlation_id) list" where
  "completed_call (CompleteResponse call_id correlation_id) = [(call_id, correlation_id)]"
| "completed_call e = []"

definition written :: "'v connection_effect list \<Rightarrow> (call_id \<times> correlation_id) list" where
  "written effects = concat (map written_call effects)"

definition completed :: "'v connection_effect list \<Rightarrow> (call_id \<times> correlation_id) list" where
  "completed effects = concat (map completed_call effects)"

abbreviation call_key :: "pending_call \<Rightarrow> call_id \<times> correlation_id" where
  "call_key c \<equiv> (pc_call_id c, pc_correlation_id c)"

definition write_order :: "('k, 'r, 'v) connection_state_data \<Rightarrow> (call_id \<times> correlation_id) list" where
  "write_order s = map call_key (pending_of s)"

lemma write_order_idle [simp]:
  "write_order (ConnDormant ep) = []"
  "write_order (ConnOpening ep e t d at) = []"
  "write_order (ConnNegotiating ep t e d at) = []"
  "write_order (ConnAuthenticating ep t c a) = []"
  "write_order (ConnClosing ep t r) = []"
  "write_order (ConnClosed ep r) = []"
  by (simp_all add: write_order_def)

lemma written_simps [simp]:
  "written [] = []" "written (e # es) = written_call e @ written es"
  "written (es @ fs) = written es @ written fs"
  "completed [] = []" "completed (e # es) = completed_call e @ completed es"
  "completed (es @ fs) = completed es @ completed fs"
  by (simp_all add: written_def completed_def)

lemma failures_write_nothing [simp]:
  "written (append_failures reason specific calls) = []"
  "completed (append_failures reason specific calls) = []"
  by (induction reason specific calls rule: append_failures.induct) (auto simp: Let_def)

lemma wrapped_write_nothing [simp]:
  "written (wrap_effects effects) = []" "completed (wrap_effects effects) = []"
  by (induction effects)
     (auto simp: wrap_effects_def List.map_filter_simps split: authentication_effect.splits option.splits)

lemma close_writes_nothing [simp]:
  "written (snd (begin_active_close m reason specific)) = []"
  "completed (snd (begin_active_close m reason specific)) = []"
  "written (snd (finish_active_close m reason specific)) = []"
  "completed (snd (finish_active_close m reason specific)) = []"
  "write_order (cm_state (fst (begin_active_close m reason specific))) = []"
  "write_order (cm_state (fst (finish_active_close m reason specific))) = []"
  by (auto simp: begin_active_close_def finish_active_close_def write_order_def Let_def
      split: state_splits)

lemma update_first_same_order [simp]:
  "map call_key (update_first P mark_submitted calls) = map call_key calls"
  by (simp add: update_first_map)

abbreviation in_order ::
    "('k, 'r, 'v) connection_state_data \<Rightarrow> ('k, 'r, 'v) connection_state_data \<Rightarrow>
     'v connection_effect list \<Rightarrow> bool" where
  "in_order s s' effects \<equiv>
     subseq (completed effects @ write_order s') (write_order s @ written effects)"

abbreviation in_order_step :: "('k, 'r, 'v) connection_machine \<Rightarrow> ('k, 'r, 'v) connection_step \<Rightarrow> bool" where
  "in_order_step m step \<equiv> in_order (cm_state m) (cm_state (fst step)) (fst (snd step))"

lemma opening_in_order:
  "in_order_step m (conn_start m e t d at)"
  "in_order_step m (transport_opened range_max m epoch e t n)"
  "in_order_step m (transport_open_failed m epoch e t f)"
  by (cases "cm_state m";
      simp add: conn_start_def transport_opened_def begin_negotiation_def transport_open_failed_def
        write_order_def split_beta Let_def del: session_apply.simps)+

lemma negotiation_in_order:
  "in_order_step m (api_versions_negotiated range_max m epoch t e c)"
  "in_order_step m (api_versions_failed range_max m epoch t e nf)"
  by (cases "cm_state m";
      simp add: api_versions_negotiated_def api_versions_failed_def finish_negotiation_failure_def
        finish_authentication_setup_failure_def active_connection_new_def pending_new_def
        write_order_def split_beta Let_def del: session_apply.simps)+

lemma begin_authentication_in_order:
  "in_order_step m (begin_authentication range_max m epoch t e c a)"
  by (cases "cm_state m")
     (auto simp: begin_authentication_def matching_negotiation_def finish_negotiation_failure_def
        finish_authentication_setup_failure_def write_order_def split_beta Let_def
        simp del: session_apply.simps authentication_apply.simps
        split: option.splits authentication_state.splits)

lemma authentication_input_in_order:
  "in_order_step m (authentication_input_apply range_max m i)"
  by (cases "cm_state m")
     (auto simp: authentication_input_apply_def finish_authentication_success_def
        finish_authentication_failure_def active_connection_new_def pending_new_def write_order_def
        split_beta Let_def simp del: session_apply.simps authentication_apply.simps
        split: option.splits authentication_state.splits)

lemma conn_submit_in_order:
  "conn_submit m call w d now at = (m', Inr (effects, disposition)) \<Longrightarrow>
   in_order (cm_state m) (cm_state m') effects"
  by (auto simp: conn_submit_def reject_def Let_def pending_push_def pending_call_new_def
      write_order_def split: state_splits if_splits option.splits prod.splits)

lemma remove_awaiting_write_order:
  "remove_awaiting_write q call e = Some (q', c) \<Longrightarrow>
   subseq (map call_key (pq_calls q')) (map call_key (pq_calls q))"
  by (rule subseq_map) (rule remove_awaiting_write_Some(4))

lemma write_submitted_in_order: "in_order_step m (write_submitted m epoch t e)"
  by (cases "cm_state m")
     (simp_all add: write_submitted_def update_by_write_effect_def write_order_def split: option.split)

lemma write_failed_in_order: "in_order_step m (write_failed m epoch t e f)"
  by (cases "cm_state m") (simp_all add: write_failed_def split_beta)

lemma abort_unsent_call_in_order: "in_order_step m (abort_unsent_call range_max m epoch t call e)"
  by (cases "cm_state m")
     (auto simp: abort_unsent_call_def write_order_def split_beta Let_def
        simp del: session_apply.simps intro: remove_awaiting_write_order split: option.split)

lemma response_rejected_in_order: "in_order_step m (response_rejected range_max m epoch t rf)"
  by (cases "cm_state m") (simp_all add: response_rejected_def split_beta Let_def)

lemma response_received_in_order: "in_order_step m (response_received range_max m epoch t corr)"
proof (cases "cm_state m")
  case (ConnActive mode c)
  then show ?thesis
    by (cases "pq_calls (ac_pending c)")
       (simp_all add: response_received_def split_beta Let_def write_order_def close_settles
          pending_front_def pending_pop_front_def del: session_apply.simps)
qed (simp_all add: response_received_def write_order_def)

lemma deadline_in_order: "in_order_step m (conn_deadline_elapsed range_max m epoch timer now)"
  using authentication_input_in_order [of range_max m]
  by (cases "cm_state m")
     (simp_all add: conn_deadline_elapsed_def split_beta Let_def del: session_apply.simps
        split: option.split)

lemma begin_drain_in_order: "in_order_step m (conn_begin_drain range_max m)"
  by (cases "cm_state m")
     (simp_all add: conn_begin_drain_def begin_authentication_drain_def write_order_def
        pending_is_empty_def Let_def del: session_apply.simps split: option.split)

lemma transport_closed_in_order: "in_order_step m (transport_closed range_max m epoch t f)"
  by (cases "cm_state m")
     (simp_all add: transport_closed_def write_order_def close_settles split_beta Let_def
        del: session_apply.simps split: option.split)

lemmas handlers_in_order =
  opening_in_order negotiation_in_order begin_authentication_in_order authentication_input_in_order
  write_submitted_in_order write_failed_in_order abort_unsent_call_in_order
  response_rejected_in_order response_received_in_order deadline_in_order begin_drain_in_order
  transport_closed_in_order

lemma dispatch_in_order:
  assumes "connection_dispatch range_max m i = (m', Inr (effects, d))"
  shows "in_order (cm_state m) (cm_state m') effects"
proof -
  have step: "in_order (cm_state m) (cm_state m') effects"
    if "decided step = (m', Inr (effects, d))" "in_order_step m step" for step
    using that by auto
  show ?thesis
    using assms
    by (cases i; simp only: connection_dispatch.simps)
       (erule conn_submit_in_order | erule step, rule handlers_in_order)+
qed

interpretation connection_order: fifo_machine "connection_apply range_max" connection_wf
  "\<lambda>m. write_order (cm_state m)" "\<lambda>i r. written (transition_effects r)"
  "\<lambda>r. completed (transition_effects r)" for range_max :: "'r \<Rightarrow> 'v"
proof
  fix m :: "('k::linorder, 'r, 'v) connection_machine" and i
  let ?r = "snd (connection_apply range_max m i)"
  show "subseq (completed (transition_effects ?r) @ write_order (cm_state (fst (connection_apply range_max m i))))
      (write_order (cm_state m) @ written (transition_effects ?r))"
  proof (cases ?r)
    case (Inl e)
    then show ?thesis
      using apply_error_unchanged [OF Inl] by (simp add: transition_effects_def)
  next
    case (Inr t)
    then show ?thesis
      by (rule apply_dispatch) (use Inr dispatch_in_order [of range_max m i] in
          \<open>simp add: transition_effects_def\<close>)
  qed
qed

text \<open>Most inputs neither write nor answer a call; they keep pending calls as they are or settle them.\<close>

fun write_place :: "('k, 'r, 'v) connection_state_data \<Rightarrow> (connection_epoch \<times> transport_id) option" where
  "write_place (ConnActive mode c) = Some (ac_epoch c, ac_transport_id c)"
| "write_place s = None"

definition calls_kept :: "('k, 'r, 'v) connection_state_data \<Rightarrow> ('k, 'r, 'v) connection_state_data \<Rightarrow> bool" where
  "calls_kept s s' \<longleftrightarrow>
     (\<forall>c\<in>set (pending_of s'). c \<in> set (pending_of s) \<and> write_place s' = write_place s)"

definition quiet ::
    "('k, 'r, 'v) connection_state_data \<Rightarrow> ('k, 'r, 'v) connection_state_data \<Rightarrow> 'v connection_effect list \<Rightarrow> bool" where
  "quiet s s' effects \<longleftrightarrow> written effects = [] \<and> completed effects = [] \<and> calls_kept s s'"

abbreviation quiet_step :: "('k, 'r, 'v) connection_machine \<Rightarrow> ('k, 'r, 'v) connection_step \<Rightarrow> bool" where
  "quiet_step m step \<equiv> quiet (cm_state m) (cm_state (fst step)) (fst (snd step))"

lemmas quiet_defs = quiet_def calls_kept_def

lemma opening_quiet:
  "quiet_step m (conn_start m e t d at)"
  "quiet_step m (transport_opened range_max m epoch e t n)"
  "quiet_step m (transport_open_failed m epoch e t f)"
  by (cases "cm_state m";
      simp add: conn_start_def transport_opened_def begin_negotiation_def transport_open_failed_def
        quiet_defs split_beta Let_def del: session_apply.simps)+

lemma negotiation_quiet:
  "quiet_step m (api_versions_negotiated range_max m epoch t e c)"
  "quiet_step m (api_versions_failed range_max m epoch t e nf)"
  by (cases "cm_state m";
      simp add: api_versions_negotiated_def api_versions_failed_def finish_negotiation_failure_def
        finish_authentication_setup_failure_def active_connection_new_def pending_new_def
        quiet_defs split_beta Let_def del: session_apply.simps)+

lemma begin_authentication_quiet:
  "quiet_step m (begin_authentication range_max m epoch t e c a)"
  by (cases "cm_state m")
     (auto simp: begin_authentication_def matching_negotiation_def finish_negotiation_failure_def
        finish_authentication_setup_failure_def quiet_defs split_beta Let_def
        simp del: session_apply.simps authentication_apply.simps
        split: option.splits authentication_state.splits)

lemma authentication_input_quiet:
  "quiet_step m (authentication_input_apply range_max m i)"
  by (cases "cm_state m")
     (auto simp: authentication_input_apply_def finish_authentication_success_def
        finish_authentication_failure_def active_connection_new_def pending_new_def quiet_defs
        split_beta Let_def simp del: session_apply.simps authentication_apply.simps
        split: option.splits authentication_state.splits)

lemma call_flow_quiet:
  "quiet_step m (write_failed m epoch t e f)"
  "quiet_step m (response_rejected range_max m epoch t rf)"
  by (cases "cm_state m";
      simp add: write_failed_def response_rejected_def close_settles quiet_defs split_beta Let_def)+

lemma remove_awaiting_write_set:
  "remove_awaiting_write q call e = Some (q', c) \<Longrightarrow> c' \<in> set (pq_calls q') \<Longrightarrow> c' \<in> set (pq_calls q)"
  by (drule remove_awaiting_write_Some(6)) (metis insertI2 set_mset_add_mset_insert set_mset_mset)

lemma abort_unsent_call_quiet: "quiet_step m (abort_unsent_call range_max m epoch t call e)"
  by (cases "cm_state m")
     (auto simp: abort_unsent_call_def quiet_defs split_beta Let_def simp del: session_apply.simps
        dest: remove_awaiting_write_set split: option.split)

lemma lifecycle_quiet:
  "quiet_step m (conn_deadline_elapsed range_max m epoch timer now)"
  "quiet_step m (conn_begin_drain range_max m)"
  "quiet_step m (transport_closed range_max m epoch t f)"
  using authentication_input_quiet [of m range_max]
  by (cases "cm_state m";
      simp add: conn_deadline_elapsed_def conn_begin_drain_def begin_authentication_drain_def transport_closed_def
        close_settles quiet_defs pending_is_empty_def split_beta Let_def
        del: session_apply.simps split: option.split)+

lemmas handlers_quiet =
  opening_quiet negotiation_quiet begin_authentication_quiet authentication_input_quiet call_flow_quiet
  abort_unsent_call_quiet lifecycle_quiet

lemma quiet_dispatch:
  assumes "connection_dispatch range_max m i = (m', Inr (effects, d))"
    and "\<And>call w timer now at. i \<noteq> InSubmit call w timer now at"
    and "\<And>epoch t e. i \<noteq> InWriteSubmitted epoch t e" "\<And>epoch t corr. i \<noteq> InResponseReceived epoch t corr"
  shows "quiet (cm_state m) (cm_state m') effects"
proof -
  have step: "quiet (cm_state m) (cm_state m') effects"
    if "decided step = (m', Inr (effects, d))" "quiet_step m step" for step
    using that by auto
  show ?thesis
    using assms
    by (cases i; simp only: connection_dispatch.simps connection_input.distinct connection_input.inject)
       (erule step, rule handlers_quiet | simp)+
qed

text \<open>The calls an input may answer: only a response answers, and only a call with its correlation.\<close>

fun answered_by :: "('k, 'r) connection_input \<Rightarrow> (call_id \<times> correlation_id) list \<Rightarrow> bool" where
  "answered_by (InResponseReceived epoch t correlation_id) calls \<longleftrightarrow>
     length calls \<le> 1 \<and> list_all (\<lambda>(call, c). c = correlation_id) calls"
| "answered_by i calls \<longleftrightarrow> calls = []"

lemma response_received_effects:
  "written (fst (snd (response_received range_max m epoch t corr))) = []"
  "answered_by (InResponseReceived epoch t corr) (completed (fst (snd (response_received range_max m epoch t corr))))"
  "calls_kept (cm_state m) (cm_state (fst (response_received range_max m epoch t corr)))"
proof -
  let ?r = "response_received range_max m epoch t corr"
  have "written (fst (snd ?r)) = [] \<and> answered_by (InResponseReceived epoch t corr) (completed (fst (snd ?r))) \<and>
      calls_kept (cm_state m) (cm_state (fst ?r))"
  proof (cases "cm_state m")
    case (ConnActive mode c)
    then show ?thesis
      by (cases "pq_calls (ac_pending c)")
         (simp_all add: response_received_def split_beta Let_def calls_kept_def close_settles
            pending_front_def pending_pop_front_def pending_is_empty_def del: session_apply.simps)
  qed (simp_all add: response_received_def calls_kept_def)
  then show "written (fst (snd ?r)) = []"
    "answered_by (InResponseReceived epoch t corr) (completed (fst (snd ?r)))"
    "calls_kept (cm_state m) (cm_state (fst ?r))"
    by blast+
qed

lemma submit_completes_nothing:
  "conn_submit m call w d now at = (m', Inr (effects, disposition)) \<Longrightarrow> completed effects = []"
  by (auto simp: conn_submit_def reject_def Let_def split: state_splits if_splits option.splits prod.splits)

lemma dispatch_answers:
  assumes "connection_dispatch range_max m i = (m', Inr (effects, d))"
  shows "answered_by i (completed effects)"
proof (cases i)
  case (InSubmit call w timer now at)
  then show ?thesis using assms submit_completes_nothing by (simp, blast)
next
  case (InWriteSubmitted epoch t e)
  then show ?thesis
    using assms by (cases "cm_state m") (auto simp: write_submitted_def split: if_splits option.splits)
next
  case (InResponseReceived epoch t corr)
  then show ?thesis using assms response_received_effects(2) [of epoch t corr range_max m] by auto
qed (use quiet_dispatch [OF assms] in \<open>simp_all add: quiet_def\<close>)

lemma run_answers:
  "list_all2 (\<lambda>i r. answered_by i (completed (transition_effects r))) is (outputs (connection_apply range_max) m is)"
proof (induction "is" arbitrary: m)
  case (Cons i js)
  have "answered_by i (completed (transition_effects (snd (connection_apply range_max m i))))"
  proof (cases "snd (connection_apply range_max m i)")
    case (Inl e)
    then show ?thesis by (cases i) (simp_all add: transition_effects_def)
  next
    case (Inr t)
    then show ?thesis
      by (rule apply_dispatch) (use Inr in \<open>auto simp: transition_effects_def dest: dispatch_answers\<close>)
  qed
  with Cons.IH show ?case by simp
qed simp

text \<open>
  C3. Responses settle calls in the order their requests were written, and each only under its own
  correlation: over any sequence of inputs to a new connection, the completed calls with their
  correlations form a subsequence of the written calls with theirs, and a call is completed only
  by a response that carries the correlation its request was written with, one call per response.
\<close>

theorem connection_responses_in_order:
  fixes range_max :: "'r \<Rightarrow> 'v"
  assumes "m = connection_new epoch limits \<or>
      m = connection_new_authenticated epoch limits policy \<and>
      0 < al_max_exchange_rounds (ap_limits policy)"
    and results: "results = outputs (connection_apply range_max) m is"
  shows "subseq (concat (map (\<lambda>r. completed (transition_effects r)) results))
      (concat (map (\<lambda>r. written (transition_effects r)) results)) \<and>
    list_all2 (\<lambda>i r. answered_by i (completed (transition_effects r))) is results"
proof -
  have "connection_wf m" using assms(1) by auto
  moreover have "write_order (cm_state m) = []"
    using assms(1) by (auto simp: connection_new_def connection_new_authenticated_def)
  moreover have "map2 (\<lambda>i r. written (transition_effects r)) is results =
      map (\<lambda>r. written (transition_effects r)) results"
    by (simp add: results map2_snd)
  ultimately show ?thesis
    using connection_order.run_fifo [of m range_max "is"] run_answers [of "is" range_max m] by (simp add: results)
qed

definition sample_answers :: "(nat, nat) connection_input list" where
  "sample_answers =
     [InSubmit 100 11 21 10 60, InSubmit 101 12 22 10 60, InSubmit 102 13 23 10 60,
      InWriteSubmitted 9 7 11, InAbortUnsentCall 9 7 101 12, InWriteSubmitted 9 7 13,
      InResponseReceived 9 7 0, InResponseReceived 9 7 2]"

theorem connection_responses_in_order_witness:
  "let results = outputs (connection_apply id) sample_connection (sample_opening @ sample_answers) in
   concat (map (\<lambda>r. completed (transition_effects r)) results) = [(100, 0), (102, 2)] \<and>
   subseq [(100, 0), (102, 2)] (concat (map (\<lambda>r. written (transition_effects r)) results)) \<and>
   list_all2 (\<lambda>i r. answered_by i (completed (transition_effects r))) (sample_opening @ sample_answers) results"
proof -
  let ?is = "sample_opening @ sample_answers"
  have "concat (map (\<lambda>r. completed (transition_effects r)) (outputs (connection_apply id) sample_connection ?is))
      = [(100, 0), (102, 2)]"
    by code_simp
  then show ?thesis
    using connection_responses_in_order [OF disjI1 refl,
        of sample_connection 9 connection_limits_default id "?is"]
    by (simp add: sample_connection_def)
qed

section \<open>Delivery knowledge\<close>

text \<open>What a failure may say of delivery: nothing was sent for a rejected submission, and otherwise
  what the pending call recorded.\<close>

definition truthful ::
    "('k, 'r, 'v) connection_state_data \<Rightarrow> call_id list \<Rightarrow> 'v connection_effect list \<Rightarrow> bool" where
  "truthful s new effects \<longleftrightarrow>
     (\<forall>call failure d. FailCall call failure d \<in> set effects \<longrightarrow>
        (call \<in> set new \<and> d = NotSent) \<or>
        (\<exists>c\<in>set (pending_of s). pc_call_id c = call \<and> pc_delivery c = d))"

lemma FailCall_append_failures:
  "FailCall call failure d \<in> set (append_failures reason specific calls) \<Longrightarrow>
   \<exists>c\<in>set calls. pc_call_id c = call \<and> pc_delivery c = d"
  by (induction reason specific calls rule: append_failures.induct) (auto simp: Let_def)

lemma FailCall_wrap_effects [simp]: "FailCall call failure d \<notin> set (wrap_effects effects)"
  by (induction effects)
     (auto simp: wrap_effects_def List.map_filter_simps split: authentication_effect.splits option.splits)

lemma FailCall_close:
  "FailCall call failure d \<in> set (snd (begin_active_close m reason specific)) \<Longrightarrow>
   \<exists>c\<in>set (pending_of (cm_state m)). pc_call_id c = call \<and> pc_delivery c = d"
  "FailCall call failure d \<in> set (snd (finish_active_close m reason specific)) \<Longrightarrow>
   \<exists>c\<in>set (pending_of (cm_state m)). pc_call_id c = call \<and> pc_delivery c = d"
  by (auto simp: begin_active_close_def finish_active_close_def Let_def
      dest: FailCall_append_failures split: state_splits)

abbreviation truthful_step :: "('k, 'r, 'v) connection_machine \<Rightarrow> ('k, 'r, 'v) connection_step \<Rightarrow> bool" where
  "truthful_step m step \<equiv> truthful (cm_state m) [] (fst (snd step))"

lemma setup_truthful:
  "truthful_step m (conn_start m e t d at)"
  "truthful_step m (transport_opened range_max m epoch e t n)"
  "truthful_step m (transport_open_failed m epoch e t f)"
  "truthful_step m (api_versions_negotiated range_max m epoch t e c)"
  "truthful_step m (api_versions_failed range_max m epoch t e nf)"
  by (cases "cm_state m";
      simp add: conn_start_def transport_opened_def begin_negotiation_def transport_open_failed_def
        api_versions_negotiated_def api_versions_failed_def finish_negotiation_failure_def
        finish_authentication_setup_failure_def truthful_def split_beta Let_def
        del: session_apply.simps)+

lemma authentication_truthful:
  "truthful_step m (begin_authentication range_max m epoch t e c a)"
  "truthful_step m (authentication_input_apply range_max m i)"
  by (cases "cm_state m";
      simp add: begin_authentication_def matching_negotiation_def finish_negotiation_failure_def
        finish_authentication_setup_failure_def authentication_input_apply_def
        finish_authentication_success_def finish_authentication_failure_def truthful_def
        split_beta Let_def del: session_apply.simps authentication_apply.simps
        split: option.split authentication_state.split)+

lemma conn_submit_truthful:
  "conn_submit m call w d now at = (m', Inr (effects, disposition)) \<Longrightarrow> truthful (cm_state m) [call] effects"
  by (auto simp: conn_submit_def reject_def Let_def truthful_def
      split: state_splits if_splits option.splits prod.splits)

lemma abort_truthful:
  assumes wf: "connection_wf m"
  shows "truthful_step m (abort_unsent_call range_max m epoch t call e)"
proof (cases "cm_state m")
  case (ConnActive mode conn)
  have "\<exists>c\<in>set (pq_calls (ac_pending conn)). pc_call_id c = call \<and> pc_delivery c = NotSent"
    if "remove_awaiting_write (ac_pending conn) call e = Some (q', c)" for q' c
  proof -
    have "pending_wf (ac_pending conn)" using wf ConnActive by (simp add: connection_wf_def)
    then have "pc_delivery c \<noteq> PossiblySent"
      using remove_awaiting_write_Some(2,3) [OF that] by (auto simp: pending_wf_def)
    then have "pc_delivery c = NotSent" by (cases "pc_delivery c") auto
    then show ?thesis using remove_awaiting_write_Some(1,3) [OF that] by blast
  qed
  then show ?thesis
    using ConnActive
    by (auto simp: abort_unsent_call_def truthful_def split_beta Let_def split: option.splits)
qed (simp_all add: abort_unsent_call_def truthful_def)

lemma active_truthful:
  "truthful_step m (write_submitted m epoch t e)"
  "truthful_step m (write_failed m epoch t e f)"
  "truthful_step m (response_rejected range_max m epoch t rf)"
  by (cases "cm_state m";
      auto simp: write_submitted_def write_failed_def response_rejected_def truthful_def
        split_beta Let_def dest!: FailCall_close split: option.splits)+

lemma response_received_truthful:
  "truthful_step m (response_received range_max m epoch t corr)"
proof (cases "cm_state m")
  case (ConnActive mode c)
  then show ?thesis
    by (cases "pq_calls (ac_pending c)")
       (auto simp: response_received_def truthful_def pending_front_def pending_pop_front_def
          split_beta Let_def dest!: FailCall_close)
qed (simp_all add: response_received_def truthful_def)

lemma lifecycle_truthful:
  "truthful_step m (conn_deadline_elapsed range_max m epoch timer now)"
  "truthful_step m (conn_begin_drain range_max m)"
  "truthful_step m (transport_closed range_max m epoch t f)"
  using authentication_truthful(2) [of m range_max]
  by (cases "cm_state m";
      auto simp: conn_deadline_elapsed_def conn_begin_drain_def begin_authentication_drain_def
        transport_closed_def truthful_def split_beta Let_def dest!: FailCall_close
        simp del: session_apply.simps split: option.splits)+

lemmas handlers_truthful =
  setup_truthful authentication_truthful active_truthful response_received_truthful lifecycle_truthful

lemma dispatch_truthful:
  assumes "connection_wf m" and "connection_dispatch range_max m i = (m', Inr (effects, d))"
  shows "truthful (cm_state m) (submitted_call (Some i)) effects"
proof -
  have step: "truthful (cm_state m) [] effects"
    if "decided step = (m', Inr (effects, d))" "truthful_step m step" for step
    using that by auto
  show ?thesis
    using assms(2)
    by (cases i; simp only: connection_dispatch.simps submitted_call.simps)
       (erule conn_submit_truthful | erule step, rule handlers_truthful abort_truthful [OF assms(1)])+
qed

text \<open>
  What the driver was told about writes: a request was written for a call under an effect identity,
  and the host reported that the transport took the write of an effect.
\<close>

datatype write_event =
    RequestWritten connection_epoch transport_id call_id effect_id
  | WriteHandedOver connection_epoch transport_id effect_id

fun written_event :: "'v connection_effect \<Rightarrow> write_event list" where
  "written_event (WriteRequest epoch t call_id correlation_id e) = [RequestWritten epoch t call_id e]"
| "written_event e = []"

fun handed_over :: "('k, 'r) connection_input \<Rightarrow> write_event list" where
  "handed_over (InWriteSubmitted epoch t e) = [WriteHandedOver epoch t e]"
| "handed_over i = []"

definition write_events ::
    "('k, 'r) connection_input \<Rightarrow> connection_machine_error + 'v connection_transition \<Rightarrow> write_event list" where
  "write_events i result =
     (case result of
        Inl e \<Rightarrow> []
      | Inr t \<Rightarrow> handed_over i @ concat (map written_event (ct_effects t)))"

text \<open>The latest request written for a call, and whether its write was handed over since.\<close>

fun note_write ::
    "call_id \<Rightarrow> ((connection_epoch \<times> transport_id \<times> effect_id) \<times> bool) option \<Rightarrow> write_event \<Rightarrow>
     ((connection_epoch \<times> transport_id \<times> effect_id) \<times> bool) option" where
  "note_write call st (RequestWritten epoch t c e) = (if c = call then Some ((epoch, t, e), False) else st)"
| "note_write call st (WriteHandedOver epoch t e) = map_option (\<lambda>(w, sent). (w, sent \<or> w = (epoch, t, e))) st"

definition write_of ::
    "write_event list \<Rightarrow> call_id \<Rightarrow> ((connection_epoch \<times> transport_id \<times> effect_id) \<times> bool) option" where
  "write_of past call = foldl (note_write call) None past"

lemma write_of_simps [simp]:
  "write_of [] call = None" "write_of (past @ [e]) call = note_write call (write_of past call) e"
  by (simp_all add: write_of_def)

definition writes_recorded :: "write_event list \<Rightarrow> ('k, 'r, 'v) connection_machine \<Rightarrow> bool" where
  "writes_recorded past m \<longleftrightarrow>
     connection_wf m \<and>
     (\<forall>c\<in>set (pending_of (cm_state m)). \<exists>epoch t. write_place (cm_state m) = Some (epoch, t) \<and>
        write_of past (pc_call_id c) = Some ((epoch, t, pc_write_effect c), pc_phase c = AwaitingResponse))"

lemma writes_recorded_kept:
  "writes_recorded past m \<Longrightarrow> connection_wf m' \<Longrightarrow> calls_kept (cm_state m) (cm_state m') \<Longrightarrow> writes_recorded past m'"
  by (fastforce simp: writes_recorded_def calls_kept_def)

lemma no_written_event: "written effects = [] \<Longrightarrow> concat (map written_event effects) = []"
proof (induction effects)
  case (Cons e es)
  then show ?case by (cases e) simp_all
qed simp

lemma writes_recorded_quiet:
  "writes_recorded past m \<Longrightarrow> connection_wf m' \<Longrightarrow> calls_kept (cm_state m) (cm_state m') \<Longrightarrow> written effects = [] \<Longrightarrow>
   writes_recorded (past @ concat (map written_event effects)) m'"
  by (simp only: no_written_event append_Nil2 writes_recorded_kept)

lemma conn_submit_records:
  assumes "writes_recorded past m" "connection_wf m'"
    and "conn_submit m call w timer now at = (m', Inr (effects, d))"
  shows "writes_recorded (past @ concat (map written_event effects)) m'"
proof (cases "written effects = []")
  case True
  then have "calls_kept (cm_state m) (cm_state m')"
    using assms(3)
    by (auto simp: conn_submit_def reject_def Let_def calls_kept_def split: state_splits if_splits option.splits prod.splits)
  then show ?thesis using True by (rule writes_recorded_quiet [OF assms(1,2)])
next
  case False
  then obtain conn a' corr where submit: "cm_state m = ConnActive ModeReady conn"
    "\<not> ic_call (has_identities (ac_pending conn) call w timer)"
    "cm_state m' = ConnActive ModeReady (conn\<lparr>ac_correlations := a',
       ac_pending := pending_push (ac_pending conn) (pending_call_new call corr w timer at)\<rparr>)"
    "effects = [ScheduleDeadline (ac_epoch conn) call timer at,
       WriteRequest (ac_epoch conn) (ac_transport_id conn) call corr w]"
    using assms(3)
    by (auto simp: conn_submit_def reject_def Let_def split: state_splits if_splits option.splits prod.splits)
  have "pc_call_id c \<noteq> call" if "c \<in> set (pq_calls (ac_pending conn))" for c
    using submit(2) that by (auto simp: has_identities_def list_ex_iff)
  then show ?thesis
    using assms(1,2) submit(1,3,4)
    by (auto simp: writes_recorded_def pending_push_def pending_call_new_def)
qed

lemma update_first_distinct:
  assumes "distinct (map g xs)" "y \<in> set (update_first (\<lambda>x. g x = k) f xs)"
  shows "y \<in> set xs \<and> g y \<noteq> k \<or> (\<exists>x\<in>set xs. g x = k \<and> y = f x)"
  using assms by (induction xs) (auto simp: image_iff split: if_splits)

lemma write_submitted_records:
  assumes "writes_recorded past m" "connection_wf m'" "write_submitted m epoch t e = (m', effects, d)"
  shows "writes_recorded (past @ [WriteHandedOver epoch t e]) m' \<and> written effects = []"
proof (cases "cm_state m")
  case (ConnActive mode conn)
  let ?q = "ac_pending conn"
  have "pending_wf ?q" using assms(1) ConnActive by (simp add: writes_recorded_def connection_wf_def)
  then have distinct: "distinct (map pc_write_effect (pq_calls ?q))" by (simp add: pending_wf_def)
  have before: "write_of past (pc_call_id c) =
      Some ((ac_epoch conn, ac_transport_id conn, pc_write_effect c), pc_phase c = AwaitingResponse)"
    if "c \<in> set (pq_calls ?q)" for c
    using assms(1) that ConnActive by (auto simp: writes_recorded_def)
  show ?thesis
  proof (cases "by_write_effect ?q e")
    case None
    then have "pc_write_effect c \<noteq> e" if "c \<in> set (pq_calls ?q)" for c
      using that by (auto simp: by_write_effect_def find_None_iff)
    moreover have "m' = m" "effects = []"
      using None assms(3) ConnActive by (auto simp: write_submitted_def split: if_splits)
    ultimately show ?thesis using assms(1) ConnActive before by (auto simp: writes_recorded_def)
  next
    case (Some c)
    have c: "c \<in> set (pq_calls ?q)" "pc_write_effect c = e"
      using Some by (auto simp: by_write_effect_def find_Some_iff in_set_conv_nth)
    have only: "c' = c" if "c' \<in> set (pq_calls ?q)" "pc_write_effect c' = e" for c'
      using distinct c that by (auto simp: distinct_map inj_on_def)
    show ?thesis
    proof (cases "epoch \<noteq> ac_epoch conn \<or> t \<noteq> ac_transport_id conn \<or> pc_phase c = AwaitingResponse")
      case True
      then have "m' = m" "effects = []"
        using assms(3) ConnActive Some by (auto simp: write_submitted_def split: if_splits)
      with True show ?thesis
        using assms(1) ConnActive before only by (auto simp: writes_recorded_def)
    next
      case False
      then have m': "cm_state m' = ConnActive mode (conn\<lparr>ac_pending := update_by_write_effect ?q e mark_submitted\<rparr>)"
        "effects = []"
        using assms(3) ConnActive Some by (auto simp: write_submitted_def)
      have "note_write (pc_call_id c') (write_of past (pc_call_id c')) (WriteHandedOver epoch t e) =
          Some ((ac_epoch conn, ac_transport_id conn, pc_write_effect c'), pc_phase c' = AwaitingResponse)"
        if "c' \<in> set (update_first (\<lambda>c. pc_write_effect c = e) mark_submitted (pq_calls ?q))" for c'
        using update_first_distinct [OF distinct that]
      proof (elim disjE conjE bexE)
        fix x assume "x \<in> set (pq_calls ?q)" "pc_write_effect x = e" "c' = mark_submitted x"
        then show ?thesis using False by (simp add: before mark_submitted_def)
      qed (simp add: before)
      then show ?thesis
        using assms(2) m' by (simp add: writes_recorded_def update_by_write_effect_def)
    qed
  qed
qed (use assms in \<open>auto simp: write_submitted_def writes_recorded_def\<close>)

lemma dispatch_records:
  assumes "writes_recorded past m" "connection_wf m'" "connection_dispatch range_max m i = (m', Inr (effects, d))"
  shows "writes_recorded (past @ handed_over i @ concat (map written_event effects)) m'"
proof (cases i)
  case (InSubmit call w timer now at)
  then show ?thesis using conn_submit_records [OF assms(1,2)] assms(3) by simp
next
  case (InWriteSubmitted epoch t e)
  then have "write_submitted m epoch t e = (m', effects, d)" 
    using assms(3) by (cases "write_submitted m epoch t e") simp
  note recorded = write_submitted_records [OF assms(1,2) this]
  then have "concat (map written_event effects) = []" by (intro no_written_event) simp
  then show ?thesis using recorded by (simp only: InWriteSubmitted handed_over.simps append_Nil2)
next
  case (InResponseReceived epoch t corr)
  then have "m' = fst (response_received range_max m epoch t corr)"
    "effects = fst (snd (response_received range_max m epoch t corr))"
    using assms(3) by auto
  then have "calls_kept (cm_state m) (cm_state m')" "written effects = []"
    using response_received_effects(1,3) by simp_all
  from writes_recorded_quiet [OF assms(1,2) this] show ?thesis
    by (simp only: InResponseReceived handed_over.simps append_Nil)
qed (use quiet_dispatch [OF assms(3)] writes_recorded_quiet [OF assms(1,2), of effects]
      in \<open>simp_all only: quiet_def handed_over.simps append_Nil connection_input.distinct not_False_eq_True simp_thms\<close>)

interpretation connection_writes: recording_machine "connection_apply range_max" "\<lambda>_. True" "\<lambda>m. write_events"
  writes_recorded for range_max :: "'r \<Rightarrow> 'v"
proof
  fix past and m :: "('k::linorder, 'r, 'v) connection_machine" and i
  assume rec: "writes_recorded past m"
  let ?m = "fst (connection_apply range_max m i)" and ?r = "snd (connection_apply range_max m i)"
  have wf: "connection_wf ?m" using rec by (simp add: writes_recorded_def connection.step_keeps)
  show "writes_recorded (past @ write_events i ?r) ?m"
  proof (cases ?r)
    case (Inl e)
    then show ?thesis using rec apply_error_unchanged [OF Inl] by (simp add: write_events_def)
  next
    case (Inr t)
    then obtain m' where m': "connection_dispatch range_max m i = (m', Inr (ct_effects t, tr_disposition (ct_record t)))"
      "cm_state ?m = cm_state m'" "cm_session ?m = cm_session m'" "cm_limits ?m = cm_limits m'"
      by (rule apply_dispatch)
    have "connection_wf m'" using connection_dispatch_wf [of m range_max i] rec m'(1) by (simp add: writes_recorded_def)
    from dispatch_records [OF rec this m'(1)] show ?thesis
      using Inr wf m'(2) by (simp add: write_events_def writes_recorded_def)
  qed
qed

text \<open>
  C4. A failed call reports truthfully whether its request may have reached the broker. After any
  sequence of inputs to a new connection, a failure effect either rejects the submission being
  made, and then claims nothing was sent, or concerns a call whose request was written; then it
  claims possible delivery exactly when the host has reported, since that request was written,
  that the transport took the write under the request's effect, epoch and transport.
\<close>

theorem connection_delivery_truthful:
  fixes range_max :: "'r \<Rightarrow> 'v"
  assumes "m = connection_new epoch limits \<or>
      m = connection_new_authenticated epoch limits policy \<and>
      0 < al_max_exchange_rounds (ap_limits policy)"
    and past: "past = events (\<lambda>m. write_events) (connection_apply range_max) m is"
    and ok: "snd (connection_apply range_max (final (connection_apply range_max) m is) i) = Inr t"
    and fail: "FailCall call failure d \<in> set (ct_effects t)"
  shows "(\<exists>w timer now at. i = InSubmit call w timer now at \<and> d = NotSent) \<or>
    (\<exists>request. write_of past call = Some (request, d = PossiblySent))"
proof -
  let ?m = "final (connection_apply range_max) m is"
  have "writes_recorded [] m"
    using assms(1) by (auto simp: writes_recorded_def connection_new_def connection_new_authenticated_def
        intro: connection_new_wf [unfolded connection_new_def]
          connection_new_authenticated_wf [unfolded connection_new_authenticated_def])
  then have rec: "writes_recorded past ?m"
    using connection_writes.run_records [of "[]" m "is" range_max] by (simp add: past list_all_iff)
  then have wf: "connection_wf ?m" by (simp add: writes_recorded_def)
  obtain m' where "connection_dispatch range_max ?m i = (m', Inr (ct_effects t, tr_disposition (ct_record t)))"
    using ok by (rule apply_dispatch)
  then have "truthful (cm_state ?m) (submitted_call (Some i)) (ct_effects t)"
    by (rule dispatch_truthful [OF wf])
  then consider "call \<in> set (submitted_call (Some i))" "d = NotSent"
    | c where "c \<in> set (pending_of (cm_state ?m))" "pc_call_id c = call" "pc_delivery c = d"
    using fail unfolding truthful_def by blast
  then show ?thesis
  proof cases
    case 1
    then show ?thesis by (cases i) auto
  next
    case 2
    have "pc_delivery c = PossiblySent \<longleftrightarrow> pc_phase c = AwaitingResponse"
      using wf 2(1) by (cases "cm_state ?m") (auto simp: connection_wf_def pending_wf_def)
    then show ?thesis using 2 rec by (auto simp: writes_recorded_def)
  qed
qed

definition sample_in_flight :: "(nat, nat, nat) connection_machine" where
  "sample_in_flight = final (connection_apply id) sample_connection
     (sample_opening @ [InSubmit 100 11 21 10 60, InSubmit 101 12 22 10 60, InWriteSubmitted 9 7 11])"

lemma sample_in_flight_reachable:
  "connection_reachable id connection_limits_default sample_in_flight"
  unfolding sample_in_flight_def sample_connection_def by (intro reachable_run reachable_new)

text \<open>Two calls are written, the transport takes the second, and the connection is lost.\<close>

definition sample_overtaken :: "(nat, nat) connection_input list" where
  "sample_overtaken =
     sample_opening @ [InSubmit 100 11 21 10 60, InSubmit 101 12 22 10 60, InWriteSubmitted 9 7 12]"

theorem connection_delivery_truthful_witness:
  "(\<exists>request. write_of (events (\<lambda>m. write_events) (connection_apply id) sample_connection sample_overtaken) 100 =
      Some (request, False)) \<and>
   (\<exists>request. write_of (events (\<lambda>m. write_events) (connection_apply id) sample_connection sample_overtaken) 101 =
      Some (request, True))"
proof -
  let ?i = "InTransportClosed 9 7 Reset :: (nat, nat) connection_input"
  let ?r = "snd (connection_apply id (final (connection_apply id) sample_connection sample_overtaken) ?i)"
  have t: "?r = Inr (projr ?r)"
    "ct_effects (projr ?r) =
      [CancelDeadline 21, FailCall 100 (CallConnectionClosed (ReasonTransportLost Reset)) NotSent,
       CancelDeadline 22, FailCall 101 (CallConnectionClosed (ReasonTransportLost Reset)) PossiblySent]"
    by code_simp+
  have fails: "FailCall 100 (CallConnectionClosed (ReasonTransportLost Reset)) NotSent \<in> set (ct_effects (projr ?r))"
    "FailCall 101 (CallConnectionClosed (ReasonTransportLost Reset)) PossiblySent \<in> set (ct_effects (projr ?r))"
    unfolding t(2) by simp_all
  note truthful = connection_delivery_truthful [OF disjI1 refl t(1), of 9 connection_limits_default]
  show ?thesis
    using truthful [OF _ fails(1)] truthful [OF _ fails(2)] by (simp add: sample_connection_def)
qed

section \<open>Correlations\<close>

lemma conn_submit_correlation:
  assumes wf: "connection_wf m" and bound: "cl_in_flight (cm_limits m) \<le> 2 ^ 31"
    and submit: "conn_submit m call w timer now at = (m', Inr (effects, disposition))"
    and ready: "cm_state m = ConnActive ModeReady conn"
  shows "FailCall c CallCorrelationSpaceExhausted d \<notin> set effects"
    and "WriteRequest epoch tr c corr e \<in> set effects \<Longrightarrow>
      0 \<le> corr \<and> corr \<le> i32_max \<and> corr \<notin> pc_correlation_id ` set (pq_calls (ac_pending conn))"
proof -
  let ?q = "ac_pending conn"
  have q: "pending_wf ?q" "allocator_wf (ac_correlations conn)"
    "pq_capacity ?q = cl_in_flight (cm_limits m)"
    using wf ready by (auto simp: connection_wf_def)
  have "\<exists>a' c. allocate (ac_correlations conn) (pending_len ?q) (contains_correlation ?q) = (a', Some c)"
    if "\<not> pending_is_full ?q"
    using that bound q by (intro pending_allocate) (auto simp: pending_defs)
  then show "FailCall c CallCorrelationSpaceExhausted d \<notin> set effects"
    using submit ready
    by (auto simp: conn_submit_def reject_def Let_def split: if_splits option.splits prod.splits)
  have free: "\<not> contains_correlation ?q corr \<and> 0 \<le> corr \<and> corr \<le> i32_max"
    if "allocate (ac_correlations conn) (pending_len ?q) (contains_correlation ?q) = (a', Some corr)" for a'
    using allocate_loop_Some [OF _ q(2)] that unfolding allocate_def by blast
  show "0 \<le> corr \<and> corr \<le> i32_max \<and> corr \<notin> pc_correlation_id ` set (pq_calls ?q)"
    if "WriteRequest epoch tr c corr e \<in> set effects"
    using submit ready that free
    by (auto simp: conn_submit_def reject_def Let_def contains_correlation_def list_ex_iff
        split: if_splits option.splits prod.splits)
qed

text \<open>
  C8. With an in-flight limit of at most \<open>2\<^sup>3\<^sup>1\<close>, submitting a call never fails for lack of a
  correlation: in every reachable connection the allocator finds one, and the correlation a
  request is written with is a nonnegative 32-bit integer that no pending call holds.
\<close>

theorem connection_correlation_fresh:
  assumes reach: "connection_reachable range_max limits m"
    and bound: "cl_in_flight limits \<le> 2 ^ 31"
    and ok: "snd (connection_apply range_max m (InSubmit call w timer now at)) = Inr t"
  shows "FailCall c CallCorrelationSpaceExhausted d \<notin> set (ct_effects t) \<and>
    (WriteRequest epoch tr c corr e \<in> set (ct_effects t) \<longrightarrow>
       0 \<le> corr \<and> corr \<le> i32_max \<and>
       corr \<notin> pc_correlation_id ` set (pending_of (cm_state m)))"
proof -
  have m: "connection_wf m" "cl_in_flight (cm_limits m) \<le> 2 ^ 31"
    using reachable_wf [OF reach] bound by auto
  obtain m' where submit: "conn_submit m call w timer now at =
      (m', Inr (ct_effects t, tr_disposition (ct_record t)))"
    using ok by (rule apply_dispatch) simp
  show ?thesis
  proof (cases "\<exists>conn. cm_state m = ConnActive ModeReady conn")
    case True
    then show ?thesis using conn_submit_correlation [OF m submit] by fastforce
  next
    case False
    then have "ct_effects t = [FailCall call (failure_for_closed_state (cm_state m)) NotSent]"
      using submit by (auto simp: conn_submit_def reject_def split: state_splits)
    moreover have "failure_for_closed_state (cm_state m) \<noteq> CallCorrelationSpaceExhausted"
      by (cases "cm_state m" rule: failure_for_closed_state.cases) auto
    ultimately show ?thesis by auto
  qed
qed

theorem connection_correlation_fresh_witness:
  "(2 :: int) \<le> i32_max \<and>
   2 \<notin> pc_correlation_id ` set (pending_of (cm_state sample_in_flight))"
proof -
  let ?i = "InSubmit 102 13 23 10 60 :: (nat, nat) connection_input"
  have t: "snd (connection_apply id sample_in_flight ?i) =
      Inr (projr (snd (connection_apply id sample_in_flight ?i)))"
    "ct_effects (projr (snd (connection_apply id sample_in_flight ?i))) =
      [ScheduleDeadline 9 102 23 60, WriteRequest 9 7 102 2 13]"
    by code_simp+
  have "cl_in_flight connection_limits_default \<le> 2 ^ 31"
    by (simp add: connection_limits_default_def connection_limits_new_def)
  from connection_correlation_fresh [OF sample_in_flight_reachable this t(1),
      where epoch = 9 and tr = 7 and c = 102 and corr = 2 and e = 13]
  show ?thesis using t(2) by simp
qed

end
