(* ===== verification/Connection_Lifecycle.thy ===== *)
theory Connection_Lifecycle
  imports Connection_Calls
begin

text \<open>
  What the connection machine promises about its life: bounded and distinct pending calls, a
  session that never contradicts it, deafness to other epochs, phases that only advance, one open,
  one negotiation and one close per connection, no write before login, no leaked timer, and a
  faithful trace.
\<close>

section \<open>What holds in every reachable connection\<close>

text \<open>
  C7. In every reachable connection the calls in flight stay within the configured limit and are
  pairwise distinct under each identity the machine looks them up by (call, write effect, deadline
  timer and correlation), and the capabilities it serves are exactly those of its session, within
  the configured bound.
\<close>

theorem connection_invariant:
  assumes reach: "connection_reachable range_max limits m"
    and active: "cm_state m = ConnActive mode c"
  shows "pending_count m \<le> cl_in_flight limits
    \<and> distinct (map pc_call_id (pq_calls (ac_pending c)))
    \<and> distinct (map pc_write_effect (pq_calls (ac_pending c)))
    \<and> distinct (map pc_deadline_timer (pq_calls (ac_pending c)))
    \<and> distinct (map pc_correlation_id (pq_calls (ac_pending c)))
    \<and> session_capabilities (cm_session m) = Some (ac_capabilities c)
    \<and> capabilities_len (ac_capabilities c) \<le> cl_capabilities limits"
  using reachable_wf [OF reach] active
  by (cases mode)
     (auto simp: connection_wf_def pending_wf_def pending_count_def connection_active_def
        pending_len_def session_capabilities_def)

theorem connection_invariant_witness:
  "pending_count sample_in_flight = 2 \<and> pending_count sample_in_flight \<le> 256"
proof -
  obtain c where "cm_state sample_in_flight = ConnActive ModeReady c"
  proof
    show "cm_state sample_in_flight = ConnActive ModeReady
        (the (connection_active sample_in_flight))"
      by code_simp
  qed
  from connection_invariant [OF sample_in_flight_reachable this]
  have "pending_count sample_in_flight \<le> 256"
    by (simp add: connection_limits_default_def connection_limits_new_def)
  moreover have "pending_count sample_in_flight = 2" by code_simp
  ultimately show ?thesis by simp
qed

text \<open>
  The debug assertion of \<open>authentication_input\<close> never fires: in every reachable connection
  an authentication input that the authentication machine accepts is not stale for the session
  machine driven beside it.
\<close>

theorem connection_authentication_assertion:
  fixes m :: "('k::linorder, 'r, 'v) connection_machine"
  assumes reach: "connection_reachable range_max limits m"
  shows "authentication_assertion range_max m i"
proof (cases "cm_state m")
  case (ConnAuthenticating epoch t c a)
  note wf = reachable_wf(1) [OF reach]
  show ?thesis
  proof (cases "session_authentication_input i :: ('k, 'r) kafka_session_input option")
    case (Some si)
    then show ?thesis
      using authentication_input_in_step(1) [OF wf ConnAuthenticating _ Some] ConnAuthenticating
      by (auto simp: authentication_assertion_def)
  qed (use ConnAuthenticating in \<open>auto simp: authentication_assertion_def\<close>)
qed (simp_all add: authentication_assertion_def)

definition sample_login_opening :: "(nat, nat) connection_input list" where
  "sample_login_opening =
     [InStart 1 7 1 40, InTransportOpened 9 1 7 sample_negotiation,
      InApiVersionsNegotiatedWithAuthentication 9 7 2 sample_capabilities
        \<lparr>aa_effect_id = 5, aa_deadline_timer = 6, aa_now = 10, aa_deadline = 90\<rparr>]"

definition sample_authenticating :: "(nat, nat, nat) connection_machine" where
  "sample_authenticating =
     final (connection_apply id)
       (connection_new_authenticated 9 connection_limits_default sample_policy) sample_login_opening"

lemma sample_authenticating_reachable:
  "connection_reachable id connection_limits_default sample_authenticating"
  unfolding sample_authenticating_def
  by (intro reachable_run reachable_new_authenticated)
     (simp add: sample_policy_def authentication_limits_default_def)

theorem connection_authentication_assertion_witness:
  "authentication_assertion id sample_authenticating (HandshakeAccepted 9 7 5)
   \<and> snd (snd (authentication_input_apply id sample_authenticating (HandshakeAccepted 9 7 5))) = Applied"
proof -
  have "snd (snd (authentication_input_apply id sample_authenticating (HandshakeAccepted 9 7 5))) = Applied"
    by code_simp
  then show ?thesis
    using connection_authentication_assertion [OF sample_authenticating_reachable] by simp
qed

section \<open>Stale inputs\<close>

text \<open>The epoch an input claims to come from. Local commands carry none.\<close>

fun input_epoch :: "('k, 'r) connection_input \<Rightarrow> connection_epoch option" where
  "input_epoch (InTransportOpened ep e t n) = Some ep"
| "input_epoch (InTransportOpenFailed ep e t f) = Some ep"
| "input_epoch (InApiVersionsNegotiated ep t e c) = Some ep"
| "input_epoch (InApiVersionsNegotiatedWithAuthentication ep t e c a) = Some ep"
| "input_epoch (InApiVersionsFailed ep t e f) = Some ep"
| "input_epoch (InAuthentication (HandshakeAccepted ep t e)) = Some ep"
| "input_epoch (InAuthentication (HandshakeFailed ep t e f)) = Some ep"
| "input_epoch (InAuthentication (ExchangeCompleted ep t e r outcome)) = Some ep"
| "input_epoch (InAuthentication (AuthDeadlineElapsed ep timer now)) = Some ep"
| "input_epoch (InAuthentication (AuthStart attempt)) = None"
| "input_epoch (InWriteSubmitted ep t e) = Some ep"
| "input_epoch (InAbortUnsentCall ep t c e) = Some ep"
| "input_epoch (InWriteFailed ep t e f) = Some ep"
| "input_epoch (InResponseReceived ep t c) = Some ep"
| "input_epoch (InResponseRejected ep t f) = Some ep"
| "input_epoch (InDeadlineElapsed ep timer now) = Some ep"
| "input_epoch (InTransportClosed ep t f) = Some ep"
| "input_epoch (InStart e t d at) = None"
| "input_epoch (InSubmit c w d now at) = None"
| "input_epoch InBeginDrain = None"

lemma stale_authentication:
  assumes wf: "connection_wf m" and "input_epoch (InAuthentication i) = Some ep"
    and "ep \<noteq> state_epoch (cm_state m)"
  shows "authentication_input_apply range_max m i = (m, stale)"
proof (cases "cm_state m")
  case (ConnAuthenticating epoch t c a)
  have "am_epoch a = epoch" using wf ConnAuthenticating by (simp add: connection_wf_def)
  then have "snd (authentication_apply a i) = auth_stale"
    using assms(2,3) ConnAuthenticating
    by (cases i) (auto simp: auth_handler_defs split: authentication_state.splits option.splits)
  then show ?thesis
    using ConnAuthenticating authentication_stale_unchanged [of a i]
    by (simp add: authentication_input_apply_def split_beta Let_def)
qed (simp_all add: authentication_input_apply_def)

lemma stale_dispatch:
  assumes wf: "connection_wf m" and ep: "input_epoch i = Some ep"
    and other: "ep \<noteq> state_epoch (cm_state m)"
  shows "connection_dispatch range_max m i = (m, Inr stale)"
proof (cases i)
  case (InAuthentication ai)
  have "authentication_input_apply range_max m ai = (m, stale)"
    by (rule stale_authentication [OF wf ep [unfolded InAuthentication] other])
  then show ?thesis using InAuthentication by simp
next
  case (InDeadlineElapsed e timer now)
  then show ?thesis
    using ep other stale_authentication [OF wf, of "AuthDeadlineElapsed e timer now" e range_max]
    by (cases "cm_state m") (simp_all add: conn_deadline_elapsed_def)
qed (use ep other in \<open>cases "cm_state m";
    simp add: transport_opened_def transport_open_failed_def api_versions_negotiated_def
      begin_authentication_def matching_negotiation_def api_versions_failed_def write_submitted_def
      abort_unsent_call_def write_failed_def response_received_def response_rejected_def
      transport_closed_def\<close>)+

text \<open>
  C9. Inputs that carry another epoch change nothing: in every reachable connection an input from
  a different epoch is recorded as stale, has no effects, and leaves the state, the session and
  every pending call as they were.
\<close>

theorem connection_ignores_other_epochs:
  assumes reach: "connection_reachable range_max limits m"
    and ep: "input_epoch i = Some ep" and other: "ep \<noteq> state_epoch (cm_state m)"
    and ok: "snd (connection_apply range_max m i) = Inr t"
  shows "ct_effects t = [] \<and> tr_disposition (ct_record t) = IgnoredStale \<and>
    cm_state (fst (connection_apply range_max m i)) = cm_state m \<and>
    cm_session (fst (connection_apply range_max m i)) = cm_session m"
  using stale_dispatch [OF reachable_wf(1) [OF reach] ep other, of range_max] ok
  by (auto simp: connection_apply_def Let_def split: option.splits)

theorem connection_ignores_other_epochs_witness:
  "cm_state (fst (connection_apply id sample_in_flight (InTransportClosed 8 7 Reset)))
     = cm_state sample_in_flight
   \<and> pending_count sample_in_flight = 2"
proof -
  let ?i = "InTransportClosed 8 7 Reset :: (nat, nat) connection_input"
  have "snd (connection_apply id sample_in_flight ?i) =
      Inr (projr (snd (connection_apply id sample_in_flight ?i)))"
    and "state_epoch (cm_state sample_in_flight) = 9" and "pending_count sample_in_flight = 2"
    by code_simp+
  then show ?thesis
    using connection_ignores_other_epochs [OF sample_in_flight_reachable, of ?i 8] by simp
qed

section \<open>Phases only advance\<close>

fun phase_rank :: "connection_phase \<Rightarrow> nat" where
  "phase_rank PhDormant = 0"
| "phase_rank PhOpening = 1"
| "phase_rank PhNegotiating = 2"
| "phase_rank PhAuthenticating = 3"
| "phase_rank PhReady = 4"
| "phase_rank PhDraining = 5"
| "phase_rank PhClosing = 6"
| "phase_rank PhClosed = 7"

abbreviation state_rank :: "('k, 'r, 'v) connection_state_data \<Rightarrow> nat" where
  "state_rank s \<equiv> phase_rank (state_phase s)"

text \<open>
  The effects that happen once in the life of a connection, each numbered by the phase that
  emits it: opening the transport, asking for API versions, sending the SASL handshake, and
  closing the transport, which any phase from opening to draining may do.
\<close>

fun milestone :: "'v connection_effect \<Rightarrow> nat list" where
  "milestone (OpenTransport ep e t) = [0]"
| "milestone (NegotiateApiVersions ep t e c) = [1]"
| "milestone (AuthenticationEffect (SendHandshake ep t e c mech v)) = [2]"
| "milestone (CloseTransport ep t r) = [5]"
| "milestone e = []"

definition milestones :: "'v connection_effect list \<Rightarrow> nat list" where
  "milestones effects = concat (map milestone effects)"

lemma milestones_simps [simp]:
  "milestones [] = []" "milestones (e # es) = milestone e @ milestones es"
  "milestones (es @ fs) = milestones es @ milestones fs"
  by (simp_all add: milestones_def)

lemma milestones_failures [simp]: "milestones (append_failures reason specific calls) = []"
  by (induction reason specific calls rule: append_failures.induct) (auto simp: Let_def)

lemma wrap_effects_simps:
  "wrap_effects [] = []"
  "wrap_effects (AuthScheduleDeadline ep t at # es) =
     AuthenticationEffect (AuthScheduleDeadline ep t at) # wrap_effects es"
  "wrap_effects (SendHandshake ep t e c mech v # es) =
     AuthenticationEffect (SendHandshake ep t e c mech v) # wrap_effects es"
  "wrap_effects (SendExchange ep t e r c v # es) =
     AuthenticationEffect (SendExchange ep t e r c v) # wrap_effects es"
  "wrap_effects (AuthCancelDeadline t # es) = AuthenticationEffect (AuthCancelDeadline t) # wrap_effects es"
  "wrap_effects (AuthSucceededEffect # es) = wrap_effects es"
  "wrap_effects (AuthFailedEffect f # es) = wrap_effects es"
  by (simp_all add: wrap_effects_def List.map_filter_simps)

lemma milestones_authentication:
  "am_state a \<noteq> AuthDormant \<Longrightarrow> milestones (wrap_effects (fst (snd (authentication_apply a i)))) = []"
  by (cases i) (auto simp: auth_handler_defs wrap_effects_simps split: auth_splits)

definition advances ::
    "('k, 'r, 'v) connection_state_data \<Rightarrow> ('k, 'r, 'v) connection_state_data \<Rightarrow>
     'v connection_effect list \<Rightarrow> bool" where
  "advances s s' effects \<longleftrightarrow>
     state_rank s \<le> state_rank s' \<and>
     (\<forall>n\<in>set (milestones effects). state_rank s \<le> n \<and> n < state_rank s') \<and>
     sorted_wrt (<) (milestones effects)"

lemma advances_refl [simp]: "advances s s []"
  by (simp add: advances_def)

abbreviation advances_step :: "('k, 'r, 'v) connection_machine \<Rightarrow> ('k, 'r, 'v) connection_step \<Rightarrow> bool" where
  "advances_step m step \<equiv> advances (cm_state m) (cm_state (fst step)) (fst (snd step))"

lemma close_advances:
  assumes "cm_state m = ConnActive mode c"
  shows "advances (cm_state m) (cm_state (fst (begin_active_close m reason specific)))
      (snd (begin_active_close m reason specific))"
    and "advances (cm_state m) (cm_state (fst (finish_active_close m reason specific)))
      (snd (finish_active_close m reason specific))"
  using assms
  by (cases mode; simp add: begin_active_close_def finish_active_close_def advances_def Let_def)+

lemma setup_advances:
  "advances_step m (conn_start m e t d at)"
  "advances_step m (transport_opened range_max m epoch e t n)"
  "advances_step m (transport_open_failed m epoch e t f)"
  "advances_step m (api_versions_negotiated range_max m epoch t e c)"
  "advances_step m (api_versions_failed range_max m epoch t e nf)"
  by (cases "cm_state m";
      simp add: conn_start_def transport_opened_def begin_negotiation_def transport_open_failed_def
        api_versions_negotiated_def api_versions_failed_def finish_negotiation_failure_def
        finish_authentication_setup_failure_def advances_def split_beta Let_def
        del: session_apply.simps)+

lemma begin_authentication_advances:
  "advances_step m (begin_authentication range_max m epoch t e c a)"
  by (cases "cm_state m")
     (simp_all add: begin_authentication_def matching_negotiation_def finish_negotiation_failure_def
        finish_authentication_setup_failure_def advances_def auth_start_def auth_fail_def
        authentication_machine_new_def wrap_effects_simps split_beta Let_def
        del: session_apply.simps split: option.split)

lemma authentication_input_advances:
  assumes wf: "connection_wf m"
  shows "advances_step m (authentication_input_apply range_max m i)"
proof (cases "cm_state m")
  case (ConnAuthenticating epoch t c a)
  then have "am_state a \<noteq> AuthDormant" using wf by (auto simp: connection_wf_def)
  then show ?thesis
    using ConnAuthenticating
    by (simp add: authentication_input_apply_def finish_authentication_success_def
        finish_authentication_failure_def milestones_authentication advances_def split_beta Let_def
        del: session_apply.simps authentication_apply.simps
        split: option.split authentication_state.split)
qed (simp_all add: authentication_input_apply_def)

lemma conn_submit_advances:
  "conn_submit m call w d now at = (m', Inr (effects, disposition)) \<Longrightarrow>
   advances (cm_state m) (cm_state m') effects"
  by (auto simp: conn_submit_def reject_def Let_def advances_def
      split: state_splits if_splits option.splits prod.splits)

lemma write_advances:
  "advances_step m (write_submitted m epoch t e)"
  "advances_step m (write_failed m epoch t e f)"
  using close_advances(1) [of m]
  by (cases "cm_state m"; cases "state_phase (cm_state m)";
      auto simp: write_submitted_def write_failed_def advances_def split_beta
      split: option.splits elim: state_phase.elims)+

lemma state_rank_active:
  "state_rank (ConnActive mode c) = (if mode = ModeReady then 4 else 5)"
  by (cases mode) simp_all

lemma abort_advances: "advances_step m (abort_unsent_call range_max m epoch t call e)"
  by (cases "cm_state m")
     (auto simp: abort_unsent_call_def advances_def state_rank_active split_beta Let_def
        simp del: session_apply.simps split: option.split)

lemma response_rejected_advances: "advances_step m (response_rejected range_max m epoch t rf)"
  using close_advances(1) [of "fail_session_protocol range_max m (fault_session_failure rf)"]
  by (cases "cm_state m") (simp_all add: response_rejected_def split_beta Let_def)

lemma response_received_advances: "advances_step m (response_received range_max m epoch t corr)"
proof (cases "cm_state m")
  case (ConnActive mode c)
  then show ?thesis
    by (cases mode; cases "pq_calls (ac_pending c)")
       (simp_all add: response_received_def pending_front_def pending_pop_front_def advances_def
          begin_active_close_def split_beta Let_def del: session_apply.simps)
qed (simp_all add: response_received_def)

lemma deadline_advances:
  assumes "connection_wf m"
  shows "advances_step m (conn_deadline_elapsed range_max m epoch timer now)"
  using authentication_input_advances [OF assms, of range_max] close_advances(1) [of m]
  by (cases "cm_state m")
     (auto simp: conn_deadline_elapsed_def advances_def split_beta Let_def
        simp del: session_apply.simps split: option.split)

lemma begin_drain_advances: "advances_step m (conn_begin_drain range_max m)"
  by (cases "cm_state m")
     (auto simp: conn_begin_drain_def begin_authentication_drain_def advances_def state_rank_active
        Let_def simp del: session_apply.simps split: option.split)

lemma transport_closed_advances: "advances_step m (transport_closed range_max m epoch t f)"
  using close_advances(2) [of "fst (drive_session range_max m SessClosedInput)"]
  by (cases "cm_state m")
     (auto simp: transport_closed_def advances_def split_beta Let_def
        simp del: session_apply.simps split: option.split)

lemmas handlers_advance =
  setup_advances begin_authentication_advances authentication_input_advances write_advances
  abort_advances response_rejected_advances response_received_advances deadline_advances
  begin_drain_advances transport_closed_advances

lemma dispatch_advances:
  assumes wf: "connection_wf m" and "connection_dispatch range_max m i = (m', Inr (effects, d))"
  shows "advances (cm_state m) (cm_state m') effects"
proof -
  have step: "advances (cm_state m) (cm_state m') effects"
    if "decided step = (m', Inr (effects, d))" "advances_step m step" for step
    using that by auto
  show ?thesis
    using assms(2)
    by (cases i; simp only: connection_dispatch.simps)
       (erule conn_submit_advances | erule step, (rule handlers_advance)+, (rule wf)?)+
qed

lemma apply_advances:
  assumes wf: "connection_wf m"
  shows "advances (cm_state m) (cm_state (fst (connection_apply range_max m i)))
    (transition_effects (snd (connection_apply range_max m i)))"
proof (cases "snd (connection_apply range_max m i)")
  case (Inl e)
  then show ?thesis using apply_error_unchanged [OF Inl] by (simp add: transition_effects_def)
next
  case (Inr t)
  then show ?thesis
    by (rule apply_dispatch) (use Inr dispatch_advances [OF wf] in
        \<open>simp add: transition_effects_def\<close>)
qed

interpretation connection_phases: ranked_machine "connection_apply range_max" connection_wf
  "\<lambda>m. state_rank (cm_state m)" for range_max :: "'r \<Rightarrow> 'v"
  by unfold_locales (use apply_advances in \<open>auto simp: advances_def\<close>)

interpretation connection_milestones: fenced_machine "connection_apply range_max" connection_wf
  "\<lambda>m. state_rank (cm_state m)" "\<lambda>r. milestones (transition_effects r)"
  for range_max :: "'r \<Rightarrow> 'v"
  by unfold_locales (use apply_advances in \<open>auto simp: advances_def\<close>)

text \<open>
  C6. A connection opens its transport, negotiates, sends its SASL handshake and closes its
  transport at most once each and only in that order: over any sequence of inputs to a reachable
  connection the milestones of the emitted effects are strictly increasing, none belongs to a
  phase already left, and the phase never moves back.
\<close>

theorem connection_milestones_ordered:
  assumes reach: "connection_reachable range_max limits m"
    and results: "results = outputs (connection_apply range_max) m is"
  shows "sorted_wrt (<) (concat (map (\<lambda>r. milestones (transition_effects r)) results))
    \<and> (\<forall>n\<in>set (concat (map (\<lambda>r. milestones (transition_effects r)) results)).
         phase_rank (state_phase (cm_state m)) \<le> n)
    \<and> phase_rank (state_phase (cm_state m)) \<le>
        phase_rank (state_phase (cm_state (final (connection_apply range_max) m is)))"
  using connection_milestones.run_issues [OF reachable_wf(1) [OF reach], of range_max "is"]
    connection_phases.run_rank [OF reachable_wf(1) [OF reach], of range_max "is"]
  by (simp add: results)

theorem connection_milestones_ordered_witness:
  "observed (\<lambda>r. milestones (transition_effects r)) (connection_apply id) sample_connection
     (sample_opening @ sample_calls @ [InTransportClosed 9 7 Reset, InBeginDrain]) = [0, 1]
   \<and> sorted_wrt (<) (observed (\<lambda>r. milestones (transition_effects r)) (connection_apply id)
       sample_connection (sample_opening @ [InResponseReceived 9 7 4, InBeginDrain]))
   \<and> observed (\<lambda>r. milestones (transition_effects r)) (connection_apply id) sample_connection
     (sample_opening @ [InResponseReceived 9 7 4, InBeginDrain]) = [0, 1, 5]"
proof -
  have "connection_reachable id connection_limits_default sample_connection"
    unfolding sample_connection_def by (rule reachable_new)
  from connection_milestones_ordered [OF this refl]
  have "sorted_wrt (<) (observed (\<lambda>r. milestones (transition_effects r)) (connection_apply id)
       sample_connection (sample_opening @ [InResponseReceived 9 7 4, InBeginDrain]))"
    by blast
  moreover have "observed (\<lambda>r. milestones (transition_effects r)) (connection_apply id) sample_connection
     (sample_opening @ [InResponseReceived 9 7 4, InBeginDrain]) = [0, 1, 5]"
    "observed (\<lambda>r. milestones (transition_effects r)) (connection_apply id) sample_connection
     (sample_opening @ sample_calls @ [InTransportClosed 9 7 Reset, InBeginDrain]) = [0, 1]"
    by code_simp+
  ultimately show ?thesis by blast
qed

section \<open>No write before login\<close>

text \<open>
  What the inputs consumed so far must contain, in order, for a connection with an authentication
  policy to be where it is: the negotiation that started the login, the acceptance of its
  handshake and its successful exchange, all under the connection's own epoch and transport.
\<close>

definition login_evidence ::
    "('k, 'r, 'v) connection_state_data \<Rightarrow> ('k, 'r) connection_input list \<Rightarrow> bool" where
  "login_evidence s is \<longleftrightarrow>
     (case s of
        ConnAuthenticating ep t c a \<Rightarrow>
          (\<exists>e0 attempt.
             (case am_state a of
                AuthExchanging e r d at \<Rightarrow>
                  e = aa_effect_id attempt \<and>
                  subseq [InApiVersionsNegotiatedWithAuthentication ep t e0 c attempt,
                    InAuthentication (HandshakeAccepted ep t e)] is
              | AuthHandshaking e d at \<Rightarrow>
                  e = aa_effect_id attempt \<and>
                  subseq [InApiVersionsNegotiatedWithAuthentication ep t e0 c attempt] is
              | _ \<Rightarrow> True))
      | ConnActive mode conn \<Rightarrow>
          (\<exists>e0 attempt r. subseq
             [InApiVersionsNegotiatedWithAuthentication (ac_epoch conn) (ac_transport_id conn) e0
                (ac_capabilities conn) attempt,
              InAuthentication (HandshakeAccepted (ac_epoch conn) (ac_transport_id conn)
                (aa_effect_id attempt)),
              InAuthentication (ExchangeCompleted (ac_epoch conn) (ac_transport_id conn)
                (aa_effect_id attempt) r ExchangeSucceeded)] is)
      | _ \<Rightarrow> True)"

text \<open>Steps that cannot bring a connection closer to ready: they keep a login state or leave it.\<close>

fun login_kept ::
    "('k, 'r, 'v) connection_state_data \<Rightarrow> ('k, 'r, 'v) connection_state_data \<Rightarrow> bool" where
  "login_kept s (ConnAuthenticating ep t c a) \<longleftrightarrow> s = ConnAuthenticating ep t c a"
| "login_kept s (ConnActive mode c) \<longleftrightarrow>
     (\<exists>mode0 c0. s = ConnActive mode0 c0 \<and> ac_epoch c0 = ac_epoch c \<and>
        ac_transport_id c0 = ac_transport_id c \<and> ac_capabilities c0 = ac_capabilities c)"
| "login_kept s s' \<longleftrightarrow> True"

abbreviation login_kept_step :: "('k, 'r, 'v) connection_machine \<Rightarrow> ('k, 'r, 'v) connection_step \<Rightarrow> bool" where
  "login_kept_step m step \<equiv> login_kept (cm_state m) (cm_state (fst step))"

lemma login_kept_refl [simp]: "login_kept s s"
  by (cases s) auto

lemma close_login_kept [simp]:
  "login_kept s (cm_state (fst (begin_active_close m reason specific)))"
  "login_kept s (cm_state (fst (finish_active_close m reason specific)))"
  by (cases "cm_state m"; simp add: begin_active_close_def finish_active_close_def Let_def)+

lemma setup_login_kept:
  "login_kept_step m (conn_start m e t d at)"
  "login_kept_step m (transport_opened range_max m epoch e t n)"
  "login_kept_step m (transport_open_failed m epoch e t f)"
  "login_kept_step m (api_versions_failed range_max m epoch t e nf)"
  by (cases "cm_state m";
      simp add: conn_start_def transport_opened_def begin_negotiation_def transport_open_failed_def
        api_versions_failed_def finish_negotiation_failure_def split_beta Let_def
        del: session_apply.simps)+

lemma negotiated_login_kept:
  "cm_authentication m \<noteq> None \<Longrightarrow> login_kept_step m (api_versions_negotiated range_max m epoch t e c)"
  by (cases "cm_state m")
     (simp_all add: api_versions_negotiated_def finish_negotiation_failure_def
        finish_authentication_setup_failure_def split_beta Let_def del: session_apply.simps)

lemma conn_submit_login_kept:
  "conn_submit m call w d now at = (m', Inr (effects, disposition)) \<Longrightarrow>
   login_kept (cm_state m) (cm_state m')"
  by (auto simp: conn_submit_def Let_def split: state_splits if_splits option.splits prod.splits)

lemma flow_login_kept:
  "login_kept_step m (write_submitted m epoch t e)"
  "login_kept_step m (write_failed m epoch t e f)"
  "login_kept_step m (abort_unsent_call range_max m epoch t call e)"
  "login_kept_step m (response_rejected range_max m epoch t rf)"
  "login_kept_step m (conn_begin_drain range_max m)"
  "login_kept_step m (transport_closed range_max m epoch t f)"
  by (cases "cm_state m";
      simp add: write_submitted_def write_failed_def abort_unsent_call_def response_rejected_def
        conn_begin_drain_def begin_authentication_drain_def transport_closed_def split_beta Let_def
        del: session_apply.simps split: option.split)+

lemma response_received_login_kept:
  "login_kept_step m (response_received range_max m epoch t corr)"
proof (cases "cm_state m")
  case (ConnActive mode c)
  then show ?thesis
    by (cases "pq_calls (ac_pending c)")
       (simp_all add: response_received_def pending_front_def pending_pop_front_def split_beta Let_def
          del: session_apply.simps)
qed (simp_all add: response_received_def)

lemma elapsed_authentication_login_kept:
  "login_kept_step m (authentication_input_apply range_max m (AuthDeadlineElapsed epoch timer now))"
proof (cases "cm_state m")
  case (ConnAuthenticating ep t c a)
  then show ?thesis
    by (cases "am_state a")
       (simp_all add: authentication_input_apply_def auth_deadline_elapsed_def
          auth_active_deadline_def auth_fail_def finish_authentication_failure_def split_beta Let_def
          del: session_apply.simps)
qed (simp_all add: authentication_input_apply_def)

lemma deadline_login_kept:
  "login_kept_step m (conn_deadline_elapsed range_max m epoch timer now)"
  using elapsed_authentication_login_kept [of m range_max epoch timer now]
  by (cases "cm_state m")
     (simp_all add: conn_deadline_elapsed_def split_beta Let_def del: session_apply.simps
        split: option.split)

lemmas handlers_login_kept =
  setup_login_kept negotiated_login_kept flow_login_kept response_received_login_kept
  deadline_login_kept elapsed_authentication_login_kept

lemma login_evidence_kept:
  assumes "login_kept s s'" and "login_evidence s is"
  shows "login_evidence s' (is @ [i])"
proof (cases s')
  case (ConnAuthenticating ep t c a)
  then have "login_evidence s' is" using assms by simp
  then show ?thesis
    unfolding ConnAuthenticating login_evidence_def
    by (cases "am_state a") (simp_all, (blast intro: subseq_snoc(2))+)
next
  case (ConnActive mode c)
  then have "login_evidence s' is" using assms by (auto simp: login_evidence_def)
  then show ?thesis
    unfolding ConnActive login_evidence_def by simp (blast intro: subseq_snoc(2))
qed (simp_all add: login_evidence_def)

lemma begin_authentication_evidence:
  assumes "login_evidence (cm_state m) is"
    and i: "i = InApiVersionsNegotiatedWithAuthentication ep t e c attempt"
  shows "login_evidence (cm_state (fst (begin_authentication range_max m ep t e c attempt))) (is @ [i])"
proof (cases "cm_state m")
  case (ConnNegotiating ep' t' e' d' at')
  have "subseq [InApiVersionsNegotiatedWithAuthentication ep t e c attempt] (is @ [i])"
    using subseq_snoc(3) [of i "is"] i by simp
  then show ?thesis
    using ConnNegotiating
    by (auto simp: begin_authentication_def matching_negotiation_def finish_negotiation_failure_def
        finish_authentication_setup_failure_def login_evidence_def auth_start_def auth_fail_def
        authentication_machine_new_def split_beta Let_def simp del: session_apply.simps
        split: option.split)
qed (use login_evidence_kept [OF login_kept_refl assms(1), of i] in
    \<open>simp_all add: begin_authentication_def matching_negotiation_def\<close>)

lemma handshake_accepted_evidence:
  assumes wf: "connection_wf m" and ev: "login_evidence (cm_state m) is"
    and i: "i = InAuthentication (HandshakeAccepted ep t e)"
  shows "login_evidence (cm_state (fst (authentication_input_apply range_max m (HandshakeAccepted ep t e))))
    (is @ [i])"
proof (cases "cm_state m")
  case (ConnAuthenticating ep' t' c a)
  have a: "am_epoch a = ep'" "am_transport_id a = t'"
    using wf ConnAuthenticating by (auto simp: connection_wf_def)
  show ?thesis
  proof (cases "am_state a")
    case (AuthHandshaking e' d at)
    then obtain e0 attempt where
      "subseq [InApiVersionsNegotiatedWithAuthentication ep' t' e0 c attempt] is" "e' = aa_effect_id attempt"
      using ev ConnAuthenticating by (auto simp: login_evidence_def)
    moreover from this(1) have
      "subseq [InApiVersionsNegotiatedWithAuthentication ep' t' e0 c attempt, i] (is @ [i])"
      using subseq_snoc(1) by fastforce
    ultimately show ?thesis
      using ConnAuthenticating AuthHandshaking a i login_evidence_kept [OF login_kept_refl ev, of i]
      by (auto simp: authentication_input_apply_def auth_handshake_accepted_def auth_matches_def
          login_evidence_def split_beta Let_def simp del: session_apply.simps)
  qed (use ConnAuthenticating login_evidence_kept [OF login_kept_refl ev, of i] in
      \<open>simp_all add: authentication_input_apply_def auth_handshake_accepted_def split_beta Let_def\<close>)
qed (use login_evidence_kept [OF login_kept_refl ev, of i] in
    \<open>simp_all add: authentication_input_apply_def\<close>)

lemma exchange_completed_evidence:
  assumes wf: "connection_wf m" and ev: "login_evidence (cm_state m) is"
    and i: "i = InAuthentication (ExchangeCompleted ep t e r outcome)"
  shows "login_evidence (cm_state (fst (authentication_input_apply range_max m
    (ExchangeCompleted ep t e r outcome)))) (is @ [i])"
proof (cases "cm_state m")
  case (ConnAuthenticating ep' t' c a)
  have a: "am_epoch a = ep'" "am_transport_id a = t'"
    using wf ConnAuthenticating by (auto simp: connection_wf_def)
  show ?thesis
  proof (cases "am_state a")
    case (AuthExchanging e' r' d at)
    then obtain e0 attempt where sub: "subseq [InApiVersionsNegotiatedWithAuthentication ep' t' e0 c attempt,
        InAuthentication (HandshakeAccepted ep' t' e')] is" "e' = aa_effect_id attempt"
      using ev ConnAuthenticating by (auto simp: login_evidence_def)
    have "subseq [InApiVersionsNegotiatedWithAuthentication ep' t' e0 c attempt,
        InAuthentication (HandshakeAccepted ep' t' e')] (is @ [i])"
      "subseq [InApiVersionsNegotiatedWithAuthentication ep' t' e0 c attempt,
        InAuthentication (HandshakeAccepted ep' t' e'), i] (is @ [i])"
      using subseq_snoc(1,2) [OF sub(1), of i] by auto
    then show ?thesis
      using ConnAuthenticating AuthExchanging a i sub(2) login_evidence_kept [OF login_kept_refl ev, of i]
      by (cases outcome)
         (auto simp: authentication_input_apply_def auth_exchange_completed_def auth_matches_def
            auth_succeed_def auth_fail_def finish_authentication_success_def
            finish_authentication_failure_def active_connection_new_def login_evidence_def
            split_beta Let_def simp del: session_apply.simps split: option.split)
  qed (use ConnAuthenticating login_evidence_kept [OF login_kept_refl ev, of i] in
      \<open>simp_all add: authentication_input_apply_def auth_exchange_completed_def split_beta Let_def\<close>)
qed (use login_evidence_kept [OF login_kept_refl ev, of i] in
    \<open>simp_all add: authentication_input_apply_def\<close>)

lemma handshake_failed_login_kept:
  "login_kept_step m (authentication_input_apply range_max m (HandshakeFailed ep t e f))"
proof (cases "cm_state m")
  case (ConnAuthenticating ep t c a)
  then show ?thesis
    by (cases "am_state a")
       (simp_all add: authentication_input_apply_def auth_handshake_failed_def auth_fail_def
          finish_authentication_failure_def split_beta Let_def del: session_apply.simps)
qed (simp_all add: authentication_input_apply_def)

lemma start_login_kept:
  assumes "connection_wf m"
  shows "login_kept_step m (authentication_input_apply range_max m (AuthStart attempt))"
proof (cases "cm_state m")
  case (ConnAuthenticating ep t c a)
  then have "am_state a \<noteq> AuthDormant" using assms by (auto simp: connection_wf_def)
  then show ?thesis
    using ConnAuthenticating by (simp add: authentication_input_apply_def auth_start_def split_beta Let_def)
qed (simp_all add: authentication_input_apply_def)

text \<open>The only inputs that bring an authenticating connection closer to ready.\<close>

fun login_progress :: "('k, 'r) connection_input \<Rightarrow> bool" where
  "login_progress (InApiVersionsNegotiatedWithAuthentication ep t e c attempt) = True"
| "login_progress (InAuthentication (HandshakeAccepted ep t e)) = True"
| "login_progress (InAuthentication (ExchangeCompleted ep t e r outcome)) = True"
| "login_progress i = False"

lemma dispatch_login_kept:
  assumes wf: "connection_wf m" and policy: "cm_authentication m \<noteq> None"
    and "\<not> login_progress i" and "connection_dispatch range_max m i = (m', Inr (effects, d))"
  shows "login_kept (cm_state m) (cm_state m')"
proof -
  have step: "login_kept (cm_state m) (cm_state m')"
    if "decided step = (m', Inr (effects, d))" "login_kept_step m step" for step
    using that by auto
  show ?thesis
    using assms(3,4)
    by (cases i rule: input_epoch.cases;
        simp only: connection_dispatch.simps login_progress.simps not_True_eq_False)
       (erule conn_submit_login_kept | erule step,
        rule handlers_login_kept negotiated_login_kept [OF policy] handshake_failed_login_kept
          start_login_kept [OF wf])+
qed

lemma login_evidence_step:
  assumes wf: "connection_wf m" and policy: "cm_authentication m \<noteq> None"
    and ev: "login_evidence (cm_state m) is"
    and step: "connection_dispatch range_max m i = (m', Inr (effects, d))"
  shows "login_evidence (cm_state m') (is @ [i])"
proof (cases "login_progress i")
  case False
  then show ?thesis
    using dispatch_login_kept [OF wf policy _ step] login_evidence_kept [OF _ ev] by blast
next
  case True
  then show ?thesis
    using step begin_authentication_evidence [OF ev, of i _ _ _ _ _ range_max]
      handshake_accepted_evidence [OF wf ev, of i _ _ _ range_max]
      exchange_completed_evidence [OF wf ev, of i _ _ _ _ _ range_max]
    by (cases i rule: login_progress.cases) auto
qed

lemma apply_policy:
  "cm_authentication (fst (connection_apply range_max m i)) = cm_authentication m"
  using apply_configuration [of range_max m i] by simp

lemma run_policy:
  "cm_authentication (final (connection_apply range_max) m is) = cm_authentication m"
  by (induction "is" arbitrary: m) (auto simp: apply_policy)

lemma login_evidence_apply:
  assumes "connection_wf m" and "cm_authentication m \<noteq> None" and ev: "login_evidence (cm_state m) is"
  shows "login_evidence (cm_state (fst (connection_apply range_max m i))) (is @ [i])"
proof (cases "snd (connection_apply range_max m i)")
  case (Inl e)
  then show ?thesis
    using apply_error_unchanged [OF Inl] login_evidence_kept [OF login_kept_refl ev] by simp
next
  case (Inr t)
  then show ?thesis
    by (rule apply_dispatch) (use login_evidence_step [OF assms] in simp)
qed

lemma login_evidence_run:
  assumes wf: "connection_wf m" and policy: "cm_authentication m \<noteq> None"
    and "cm_state m = ConnDormant epoch"
  shows "login_evidence (cm_state (final (connection_apply range_max) m is)) is"
proof (induction "is" rule: rev_induct)
  case Nil
  then show ?case using assms(3) by (simp add: login_evidence_def)
next
  case (snoc i js)
  let ?m = "final (connection_apply range_max) m js"
  have "connection_wf ?m" using wf by (rule connection.run_keeps)
  moreover have "cm_authentication ?m \<noteq> None" using policy by (simp add: run_policy)
  ultimately show ?case
    using login_evidence_apply snoc by (simp add: run_append)
qed

lemma setup_writes_nothing:
  "written (fst (snd (conn_start m e t d at))) = []"
  "written (fst (snd (transport_opened range_max m epoch e t n))) = []"
  "written (fst (snd (transport_open_failed m epoch e t f))) = []"
  "written (fst (snd (api_versions_negotiated range_max m epoch t e c))) = []"
  "written (fst (snd (api_versions_failed range_max m epoch t e nf))) = []"
  by (cases "cm_state m";
      simp add: conn_start_def transport_opened_def begin_negotiation_def transport_open_failed_def
        api_versions_negotiated_def api_versions_failed_def finish_negotiation_failure_def
        finish_authentication_setup_failure_def split_beta Let_def del: session_apply.simps)+

lemma authentication_writes_nothing:
  "written (fst (snd (begin_authentication range_max m epoch t e c a))) = []"
  "written (fst (snd (authentication_input_apply range_max m i))) = []"
  by (cases "cm_state m";
      simp add: begin_authentication_def matching_negotiation_def finish_negotiation_failure_def
        finish_authentication_setup_failure_def authentication_input_apply_def
        finish_authentication_success_def finish_authentication_failure_def split_beta Let_def
        del: session_apply.simps authentication_apply.simps
        split: option.split authentication_state.split)+

lemma flow_writes_nothing:
  "written (fst (snd (write_submitted m epoch t e))) = []"
  "written (fst (snd (abort_unsent_call range_max m epoch t call e))) = []"
  "written (fst (snd (write_failed m epoch t e f))) = []"
  "written (fst (snd (response_rejected range_max m epoch t rf))) = []"
  "written (fst (snd (response_received range_max m epoch t corr))) = []"
  by (cases "cm_state m";
      simp add: write_submitted_def abort_unsent_call_def write_failed_def response_rejected_def
        response_received_def split_beta Let_def del: session_apply.simps split: option.split)+

lemma lifecycle_writes_nothing:
  "written (fst (snd (conn_deadline_elapsed range_max m epoch timer now))) = []"
  "written (fst (snd (conn_begin_drain range_max m))) = []"
  "written (fst (snd (transport_closed range_max m epoch t f))) = []"
  by (cases "cm_state m";
      simp add: conn_deadline_elapsed_def conn_begin_drain_def begin_authentication_drain_def
        transport_closed_def authentication_writes_nothing split_beta Let_def
        del: session_apply.simps split: option.split)+

lemma conn_submit_writes_ready:
  "conn_submit m call w d now at = (m', Inr (effects, disposition)) \<Longrightarrow>
   WriteRequest ep tr call' corr w' \<in> set effects \<Longrightarrow>
   \<exists>c. cm_state m = ConnActive ModeReady c \<and> ac_epoch c = ep \<and> ac_transport_id c = tr"
  by (auto simp: conn_submit_def reject_def Let_def
      split: state_splits if_splits option.splits prod.splits)

lemmas handlers_write_nothing =
  setup_writes_nothing authentication_writes_nothing flow_writes_nothing lifecycle_writes_nothing

lemma dispatch_writes_ready:
  assumes "connection_dispatch range_max m i = (m', Inr (effects, d))"
    and wr: "WriteRequest ep tr call corr w \<in> set effects"
  shows "\<exists>c. cm_state m = ConnActive ModeReady c \<and> ac_epoch c = ep \<and> ac_transport_id c = tr"
proof -
  have step: "\<exists>c. cm_state m = ConnActive ModeReady c \<and> ac_epoch c = ep \<and> ac_transport_id c = tr"
    if "decided step = (m', Inr (effects, d))" "written (fst (snd step)) = []"
    for step :: "('a, 'b, 'c) connection_step"
  proof -
    have "written effects \<noteq> []" using wr by (force simp: written_def)
    then show ?thesis using that by auto
  qed
  show ?thesis
    using assms(1)
    by (cases i; simp only: connection_dispatch.simps)
       (erule conn_submit_writes_ready, rule wr | erule step, rule handlers_write_nothing)+
qed

text \<open>
  C2. An authenticated connection writes no request before its login. Whenever a run of a
  connection created with an authentication policy writes a request, the inputs before it contain
  in order the negotiation that started the login, the acceptance of that login's handshake and a
  successful exchange, all under the same epoch, transport and effect identity.
\<close>

theorem connection_login_before_write:
  fixes range_max :: "'r \<Rightarrow> 'v"
  assumes m: "m = connection_new_authenticated epoch limits policy"
    and rounds: "0 < al_max_exchange_rounds (ap_limits policy)"
    and ok: "snd (connection_apply range_max (final (connection_apply range_max) m is) i) = Inr t"
    and wr: "WriteRequest ep tr call corr w \<in> set (ct_effects t)"
  shows "\<exists>e0 c attempt r. subseq
    [InApiVersionsNegotiatedWithAuthentication ep tr e0 c attempt,
     InAuthentication (HandshakeAccepted ep tr (aa_effect_id attempt)),
     InAuthentication (ExchangeCompleted ep tr (aa_effect_id attempt) r ExchangeSucceeded)] is"
proof -
  let ?m = "final (connection_apply range_max) m is"
  have wf: "connection_wf m" using m rounds by simp
  obtain m' where
    "connection_dispatch range_max ?m i = (m', Inr (ct_effects t, tr_disposition (ct_record t)))"
    using ok by (rule apply_dispatch)
  then obtain c where "cm_state ?m = ConnActive ModeReady c" "ac_epoch c = ep" "ac_transport_id c = tr"
    using dispatch_writes_ready [OF _ wr] by blast
  moreover have "login_evidence (cm_state ?m) is"
    by (rule login_evidence_run [OF wf]) (simp_all add: m connection_new_authenticated_def)
  ultimately show ?thesis by (simp add: login_evidence_def) blast
qed

definition sample_login_exchange :: "(nat, nat) connection_input list" where
  "sample_login_exchange =
     [InAuthentication (HandshakeAccepted 9 7 5),
      InAuthentication (ExchangeCompleted 9 7 5 1 ExchangeSucceeded)]"

theorem connection_login_before_write_witness:
  "\<exists>e0 c attempt r. subseq
    [InApiVersionsNegotiatedWithAuthentication 9 7 e0 c attempt,
     InAuthentication (HandshakeAccepted 9 7 (aa_effect_id attempt)),
     InAuthentication (ExchangeCompleted 9 7 (aa_effect_id attempt) r ExchangeSucceeded)]
    (sample_login_opening @ sample_login_exchange)"
proof -
  let ?m = "connection_new_authenticated 9 connection_limits_default sample_policy
    :: (nat, nat, nat) connection_machine"
  let ?m' = "final (connection_apply id) ?m (sample_login_opening @ sample_login_exchange)"
  let ?i = "InSubmit 100 11 21 10 60 :: (nat, nat) connection_input"
  have "snd (connection_apply id ?m' ?i) = Inr (projr (snd (connection_apply id ?m' ?i)))"
    and e: "ct_effects (projr (snd (connection_apply id ?m' ?i))) =
      [ScheduleDeadline 9 100 21 60, WriteRequest 9 7 100 0 11]"
    by code_simp+
  from connection_login_before_write [OF refl _ this(1), of 9 7 100 0 11] e
  show ?thesis by (simp add: sample_policy_def authentication_limits_default_def)
qed

end
