(* ===== verification/Connection_Timers.thy ===== *)
theory Connection_Timers
  imports Connection_Lifecycle
begin

text \<open>
  Timers and trace of the connection machine: every deadline it schedules is still armed, has been
  cancelled, or has fired; and its trace holds the newest transitions, numbered without gaps.
\<close>

section \<open>Timers\<close>

fun armed_timers :: "('k, 'r, 'v) connection_state_data \<Rightarrow> timer_id list" where
  "armed_timers (ConnOpening ep e t timer at) = [timer]"
| "armed_timers (ConnNegotiating ep t e timer at) = [timer]"
| "armed_timers (ConnAuthenticating ep t c a) =
     (case auth_deadline_timer a of Some timer \<Rightarrow> [timer] | None \<Rightarrow> [])"
| "armed_timers (ConnActive mode c) = map pc_deadline_timer (pq_calls (ac_pending c))"
| "armed_timers s = []"

fun scheduled_timer :: "'v connection_effect \<Rightarrow> timer_id list" where
  "scheduled_timer (ScheduleOpenDeadline ep timer at) = [timer]"
| "scheduled_timer (ScheduleNegotiationDeadline ep timer at) = [timer]"
| "scheduled_timer (ScheduleDeadline ep c timer at) = [timer]"
| "scheduled_timer (AuthenticationEffect (AuthScheduleDeadline ep timer at)) = [timer]"
| "scheduled_timer e = []"

fun cancelled_timer :: "'v connection_effect \<Rightarrow> timer_id list" where
  "cancelled_timer (CancelDeadline timer) = [timer]"
| "cancelled_timer (AuthenticationEffect (AuthCancelDeadline timer)) = [timer]"
| "cancelled_timer e = []"

fun fired_timer :: "('k, 'r) connection_input \<Rightarrow> timer_id list" where
  "fired_timer (InDeadlineElapsed ep timer now) = [timer]"
| "fired_timer (InAuthentication (AuthDeadlineElapsed ep timer now)) = [timer]"
| "fired_timer i = []"

definition scheduled_timers :: "'v connection_effect list \<Rightarrow> timer_id list" where
  "scheduled_timers effects = concat (map scheduled_timer effects)"

definition cancelled_timers :: "'v connection_effect list \<Rightarrow> timer_id list" where
  "cancelled_timers effects = concat (map cancelled_timer effects)"

lemma timer_simps [simp]:
  "scheduled_timers [] = []" "scheduled_timers (e # es) = scheduled_timer e @ scheduled_timers es"
  "scheduled_timers (es @ fs) = scheduled_timers es @ scheduled_timers fs"
  "cancelled_timers [] = []" "cancelled_timers (e # es) = cancelled_timer e @ cancelled_timers es"
  "cancelled_timers (es @ fs) = cancelled_timers es @ cancelled_timers fs"
  by (simp_all add: scheduled_timers_def cancelled_timers_def)

lemma failure_timers [simp]:
  "scheduled_timers (append_failures reason specific calls) = []"
  "cancelled_timers (append_failures reason specific calls) = map pc_deadline_timer calls"
  by (induction reason specific calls rule: append_failures.induct) (auto simp: Let_def)

text \<open>What is armed or scheduled stays armed, is cancelled, or is the timer that fired.\<close>

definition timers_kept ::
    "('k, 'r, 'v) connection_state_data \<Rightarrow> timer_id list \<Rightarrow> ('k, 'r, 'v) connection_state_data \<Rightarrow>
     'v connection_effect list \<Rightarrow> bool" where
  "timers_kept s fired s' effects \<longleftrightarrow>
     set (armed_timers s) \<union> set (scheduled_timers effects) \<subseteq>
     set (armed_timers s') \<union> set (cancelled_timers effects) \<union> set fired"

abbreviation timers_step ::
    "('k, 'r, 'v) connection_machine \<Rightarrow> timer_id list \<Rightarrow> ('k, 'r, 'v) connection_step \<Rightarrow> bool" where
  "timers_step m fired step \<equiv> timers_kept (cm_state m) fired (cm_state (fst step)) (fst (snd step))"

lemma timers_kept_refl [simp]: "timers_kept s fired s []"
  by (auto simp: timers_kept_def)

lemma close_timers:
  assumes "cm_state m = ConnActive mode c"
  shows "timers_kept (cm_state m) fired (cm_state (fst (begin_active_close m reason specific)))
      (snd (begin_active_close m reason specific))"
    and "timers_kept (cm_state m) fired (cm_state (fst (finish_active_close m reason specific)))
      (snd (finish_active_close m reason specific))"
  using assms
  by (auto simp: begin_active_close_def finish_active_close_def timers_kept_def Let_def)

lemma setup_timers:
  "timers_step m [] (conn_start m e t d at)"
  "timers_step m [] (transport_opened range_max m epoch e t n)"
  "timers_step m [] (transport_open_failed m epoch e t f)"
  "timers_step m [] (api_versions_negotiated range_max m epoch t e c)"
  "timers_step m [] (api_versions_failed range_max m epoch t e nf)"
  by (cases "cm_state m";
      simp add: conn_start_def transport_opened_def begin_negotiation_def transport_open_failed_def
        api_versions_negotiated_def api_versions_failed_def finish_negotiation_failure_def
        finish_authentication_setup_failure_def timers_kept_def split_beta Let_def
        del: session_apply.simps)+

lemma begin_authentication_timers:
  "timers_step m [] (begin_authentication range_max m epoch t e c a)"
  by (cases "cm_state m")
     (simp_all add: begin_authentication_def matching_negotiation_def finish_negotiation_failure_def
        finish_authentication_setup_failure_def timers_kept_def auth_start_def auth_fail_def
        authentication_machine_new_def auth_deadline_timer_def wrap_effects_simps split_beta Let_def
        del: session_apply.simps split: option.split)

lemma authentication_input_timers:
  "timers_step m (fired_timer (InAuthentication i)) (authentication_input_apply range_max m i)"
proof (cases "cm_state m")
  case (ConnAuthenticating epoch t c a)
  then show ?thesis
    by (cases i; cases "am_state a")
       (auto simp: authentication_input_apply_def auth_handler_defs auth_deadline_timer_def
          finish_authentication_success_def finish_authentication_failure_def wrap_effects_simps
          timers_kept_def split_beta Let_def simp del: session_apply.simps
          split: exchange_outcome.split option.split)
qed (simp_all add: authentication_input_apply_def)

lemma conn_submit_timers:
  "conn_submit m call w d now at = (m', Inr (effects, disposition)) \<Longrightarrow>
   timers_kept (cm_state m) [] (cm_state m') effects"
  by (auto simp: conn_submit_def reject_def Let_def timers_kept_def pending_push_def pending_call_new_def
      split: state_splits if_splits option.splits prod.splits)

lemma update_first_same_timers [simp]:
  "pc_deadline_timer ` set (update_first P mark_submitted calls) = pc_deadline_timer ` set calls"
  using update_first_map [of pc_deadline_timer mark_submitted P calls]
  by (simp flip: set_map)

lemma remove_awaiting_write_timers:
  assumes "remove_awaiting_write q call e = Some (q', c)"
  shows "pc_deadline_timer ` set (pq_calls q) =
    insert (pc_deadline_timer c) (pc_deadline_timer ` set (pq_calls q'))"
proof -
  have "set (pq_calls q) = insert c (set (pq_calls q'))"
    using remove_awaiting_write_Some(6) [OF assms] by (metis set_mset_add_mset_insert set_mset_mset)
  then show ?thesis by simp
qed

lemma write_submitted_timers: "timers_step m [] (write_submitted m epoch t e)"
  by (cases "cm_state m")
     (simp_all add: write_submitted_def update_by_write_effect_def timers_kept_def split: option.split)

lemma write_failed_timers: "timers_step m [] (write_failed m epoch t e f)"
  using close_timers(1) [of m] by (cases "cm_state m") (simp_all add: write_failed_def split_beta)

lemma abort_timers: "timers_step m [] (abort_unsent_call range_max m epoch t call e)"
  by (cases "cm_state m")
     (auto simp: abort_unsent_call_def timers_kept_def pending_is_empty_def split_beta Let_def
        remove_awaiting_write_timers simp del: session_apply.simps split: option.split)

lemma response_rejected_timers: "timers_step m [] (response_rejected range_max m epoch t rf)"
  using close_timers(1) [of "fail_session_protocol range_max m (fault_session_failure rf)"]
  by (cases "cm_state m") (simp_all add: response_rejected_def split_beta Let_def)

lemma response_received_timers: "timers_step m [] (response_received range_max m epoch t corr)"
proof (cases "cm_state m")
  case (ConnActive mode c)
  then show ?thesis
    by (cases "pq_calls (ac_pending c)")
       (auto simp: response_received_def pending_front_def pending_pop_front_def pending_is_empty_def
          timers_kept_def begin_active_close_def split_beta Let_def simp del: session_apply.simps)
qed (simp_all add: response_received_def)

lemma by_timer_armed:
  "by_timer q timer = Some c \<Longrightarrow> timer \<in> pc_deadline_timer ` set (pq_calls q)"
  by (auto simp: by_timer_def find_Some_iff)

lemma deadline_timers:
  "timers_step m [timer] (conn_deadline_elapsed range_max m epoch timer now)"
proof (cases "cm_state m")
  case (ConnAuthenticating ep t c a)
  then show ?thesis
    using authentication_input_timers [of m "AuthDeadlineElapsed epoch timer now" range_max]
    by (simp add: conn_deadline_elapsed_def)
next
  case (ConnActive mode c)
  then show ?thesis
    by (auto simp: conn_deadline_elapsed_def timers_kept_def begin_active_close_def split_beta Let_def
        dest: by_timer_armed split: option.splits)
qed (auto simp: conn_deadline_elapsed_def timers_kept_def split_beta Let_def
    simp del: session_apply.simps)

lemma begin_drain_timers: "timers_step m [] (conn_begin_drain range_max m)"
  by (cases "cm_state m")
     (auto simp: conn_begin_drain_def begin_authentication_drain_def timers_kept_def
        pending_is_empty_def Let_def simp del: session_apply.simps split: option.split)

lemma transport_closed_timers: "timers_step m [] (transport_closed range_max m epoch t f)"
  by (cases "cm_state m")
     (auto simp: transport_closed_def timers_kept_def finish_active_close_def split_beta Let_def
        simp del: session_apply.simps split: option.split)

lemmas handlers_timers =
  setup_timers begin_authentication_timers write_submitted_timers write_failed_timers abort_timers
  response_rejected_timers response_received_timers deadline_timers begin_drain_timers
  transport_closed_timers

lemma timers_kept_more: "timers_kept s [] s' effects \<Longrightarrow> timers_kept s fired s' effects"
  by (auto simp: timers_kept_def)

lemma dispatch_timers:
  assumes "connection_dispatch range_max m i = (m', Inr (effects, d))"
  shows "timers_kept (cm_state m) (fired_timer i) (cm_state m') effects"
proof (cases "\<exists>ai. i = InAuthentication ai")
  case True
  then obtain ai where i: "i = InAuthentication ai" by blast
  have "timers_step m (fired_timer i) (authentication_input_apply range_max m ai)"
    unfolding i by (rule authentication_input_timers)
  then show ?thesis using assms i by auto
next
  case False
  have step: "timers_kept (cm_state m) fired (cm_state m') effects"
    if "decided step = (m', Inr (effects, d))" "timers_step m fired step" for step fired
    using that by auto
  show ?thesis
    using assms False
    by (cases i; simp only: connection_dispatch.simps fired_timer.simps)
       (erule conn_submit_timers | erule step, rule handlers_timers | blast)+
qed

definition released_timers ::
    "('k, 'r) connection_input \<Rightarrow> connection_machine_error + 'v connection_transition \<Rightarrow> timer_id list" where
  "released_timers i result = fired_timer i @ cancelled_timers (transition_effects result)"

interpretation connection_timers: releasing_machine "connection_apply range_max" connection_wf
  "\<lambda>m. armed_timers (cm_state m)" "\<lambda>r. scheduled_timers (transition_effects r)" released_timers
  for range_max :: "'r \<Rightarrow> 'v"
proof
  fix m :: "('k::linorder, 'r, 'v) connection_machine" and i
  let ?r = "snd (connection_apply range_max m i)"
  show "set (armed_timers (cm_state m)) \<union> set (scheduled_timers (transition_effects ?r)) \<subseteq>
      set (armed_timers (cm_state (fst (connection_apply range_max m i)))) \<union>
      set (released_timers i ?r)"
  proof (cases ?r)
    case (Inl e)
    then show ?thesis
      using apply_error_unchanged [OF Inl] by (simp add: transition_effects_def)
  next
    case (Inr t)
    then show ?thesis
      by (rule apply_dispatch) (use Inr dispatch_timers [of range_max m i] in
          \<open>auto simp: transition_effects_def released_timers_def timers_kept_def\<close>)
  qed
qed

text \<open>
  C5. No deadline timer is leaked. Over any run of a reachable connection that ends closing or
  closed, every timer that was armed at the start and every timer the run scheduled, for opening,
  negotiation, authentication or a call, has been cancelled by an effect of the run or has fired.
\<close>

theorem connection_timers_released:
  assumes reach: "connection_reachable range_max limits m"
    and final: "m' = final (connection_apply range_max) m is"
    and closed: "state_phase (cm_state m') = PhClosing \<or> state_phase (cm_state m') = PhClosed"
  shows "set (armed_timers (cm_state m)) \<union>
      set (observed (\<lambda>r. scheduled_timers (transition_effects r)) (connection_apply range_max) m is)
    \<subseteq> set (concat (map2 released_timers is (outputs (connection_apply range_max) m is)))"
proof -
  have "armed_timers (cm_state m') = []"
    using closed by (cases "cm_state m'" rule: state_phase.cases) auto
  then show ?thesis
    using connection_timers.run_releases [OF reachable_wf(1) [OF reach], of range_max "is"] final
    by simp
qed

definition sample_shutdown :: "(nat, nat) connection_input list" where
  "sample_shutdown = [InTransportClosed 9 7 Reset]"

theorem connection_timers_released_witness:
  "{21, 22} \<subseteq> set (concat (map2 released_timers sample_shutdown
     (outputs (connection_apply id) sample_in_flight sample_shutdown)))"
proof -
  have "state_phase (cm_state (final (connection_apply id) sample_in_flight sample_shutdown)) = PhClosed"
    and "armed_timers (cm_state sample_in_flight) = [21, 22]"
    by code_simp+
  then show ?thesis
    using connection_timers_released [OF sample_in_flight_reachable refl, of sample_shutdown] by simp
qed

section \<open>The trace\<close>

definition recorded ::
    "connection_machine_error + 'v connection_transition \<Rightarrow> transition_record list" where
  "recorded result = (case result of Inl e \<Rightarrow> [] | Inr t \<Rightarrow> [ct_record t])"

text \<open>
  After \<open>history\<close>, the trace holds its newest records, the next sequence number is the length of
  the history, or none is left once all \<open>2\<^sup>6\<^sup>4\<close> are used.
\<close>

definition trace_in_step :: "('k, 'r, 'v) connection_machine \<Rightarrow> transition_record list \<Rightarrow> bool" where
  "trace_in_step m history \<longleftrightarrow>
     tt_capacity (cm_trace m) = cl_trace_records (cm_limits m) \<and>
     tt_records (cm_trace m) = newest (cl_trace_records (cm_limits m)) history \<and>
     (case cm_next_sequence m of
        Some n \<Rightarrow> unat n = length history | None \<Rightarrow> length history = 2 ^ 64) \<and>
     map (unat \<circ> tr_sequence) history = [0..<length history]"

lemma trace_step:
  assumes "trace_in_step m history"
  shows "trace_in_step (fst (connection_apply range_max m i))
    (history @ recorded (snd (connection_apply range_max m i)))"
proof (cases "snd (connection_apply range_max m i)")
  case (Inl e)
  then show ?thesis using assms apply_error_unchanged [OF Inl] by (simp add: recorded_def)
next
  case (Inr t)
  obtain n m' effects d where n: "cm_next_sequence m = Some n"
    and disp: "connection_dispatch range_max m i = (m', Inr (effects, d))"
    using Inr by (auto simp: connection_apply_def split: option.splits prod.splits sum.splits)
  have same: "cm_limits m' = cm_limits m" "cm_trace m' = cm_trace m"
    using dispatch_configuration [of range_max m i] disp by auto
  have next_n: "case checked_add n 1 of Some k \<Rightarrow> unat k = Suc (unat n) | None \<Rightarrow> Suc (unat n) = 2 ^ 64"
    using checked_add_unat [of n 1] unsigned_less [of n, where ?'a = nat]
    by (auto simp: checked_add_None split: option.splits)
  have "ct_record t = ct_record t\<lparr>tr_sequence := n\<rparr>" "unat n = length history"
    using Inr n disp assms by (auto simp: connection_apply_def Let_def trace_in_step_def)
  then show ?thesis
    using assms Inr n disp same next_n
      trace_push_newest [of "cm_trace m" history "ct_record t"]
    by (auto simp: trace_in_step_def connection_apply_def recorded_def Let_def split: option.splits)
qed

lemma trace_run:
  assumes "trace_in_step m history"
  shows "trace_in_step (final (connection_apply range_max) m is)
    (history @ observed recorded (connection_apply range_max) m is)"
  using assms
proof (induction "is" arbitrary: m history)
  case (Cons i js)
  from Cons.IH [OF trace_step [OF Cons.prems, of range_max i]] show ?case by simp
qed simp

text \<open>
  The trace is faithful. Over any run of a new connection the recent transitions are exactly
  the newest records the run returned, as many as the configured capacity allows, and the records
  carry the sequence numbers zero, one, two and so on without a gap or a repetition.
\<close>

theorem connection_trace_newest:
  fixes range_max :: "'r \<Rightarrow> 'v"
  assumes m: "m = connection_new epoch limits \<or> m = connection_new_authenticated epoch limits policy"
    and records: "records = observed recorded (connection_apply range_max) m is"
  shows "recent_transitions (final (connection_apply range_max) m is) =
      drop (length records - cl_trace_records limits) records
    \<and> map (unat \<circ> tr_sequence) records = [0..<length records]"
proof -
  have "trace_in_step m []"
    using m by (auto simp: trace_in_step_def connection_new_def connection_new_authenticated_def
        trace_new_def)
  from trace_run [OF this, of range_max "is"]
  have "trace_in_step (final (connection_apply range_max) m is) records" by (simp add: records)
  moreover have "cm_limits (final (connection_apply range_max) m is) = limits"
    using m by (induction "is" rule: rev_induct) (auto simp: run_append apply_configuration)
  ultimately show ?thesis by (simp add: trace_in_step_def recent_transitions_def newest_def)
qed

definition sample_short_trace :: "(nat, nat, nat) connection_machine" where
  "sample_short_trace = connection_new 9 (connection_limits_new 4 2)"

theorem connection_trace_newest_witness:
  "map tr_input (recent_transitions (final (connection_apply id) sample_short_trace sample_opening))
     = [KindTransportOpened, KindApiVersionsNegotiated]
   \<and> map (unat \<circ> tr_sequence) (observed recorded (connection_apply id) sample_short_trace sample_opening)
     = [0, 1, 2]"
proof -
  have len: "length (observed recorded (connection_apply id) sample_short_trace sample_opening) = 3"
    by code_simp
  have "map tr_input (recent_transitions (final (connection_apply id) sample_short_trace sample_opening))
     = [KindTransportOpened, KindApiVersionsNegotiated]"
    by code_simp
  moreover have "[0..<3] = [0, 1, 2 :: nat]" by code_simp
  ultimately show ?thesis
    using connection_trace_newest [OF disjI1 [OF sample_short_trace_def] refl, of id sample_opening]
    unfolding len by (simp only: simp_thms)
qed

end
