(* ===== verification/Directory.thy ===== *)
theory Directory
  imports Identity
begin

text \<open>
  The bounded broker directory of one metadata generation: the module \<open>directory/\<close> of
  \<open>kafka-driver-core\<close>. A directory is built by collecting, sorting and refusing duplicate
  brokers; a route names a broker together with the generation and the evidence it was found
  under, and resolving it checks both before the lookup.
\<close>

section \<open>Entries, routes and errors\<close>

record broker_directory_entry =
  bde_broker_id :: broker_id
  bde_endpoint :: broker_endpoint

datatype broker_directory_error = DirectoryCapacity usize | DuplicateBroker broker_id

datatype broker_route_error =
    StaleGeneration metadata_generation metadata_generation
  | StaleEvidence evidence_stamp evidence_stamp
  | UnknownBroker broker_id

record broker_directory_limits =
  bdl_max_brokers :: usize

definition broker_directory_limits_default :: broker_directory_limits where
  "broker_directory_limits_default = \<lparr>bdl_max_brokers = 4096\<rparr>"

record broker_route =
  br_generation :: metadata_generation
  br_broker_id :: broker_id
  br_evidence :: evidence_stamp

definition is_same_broker :: "broker_route \<Rightarrow> broker_route \<Rightarrow> bool" where
  "is_same_broker r other \<longleftrightarrow> br_broker_id r = br_broker_id other"

section \<open>The directory\<close>

record broker_directory =
  bd_generation :: metadata_generation
  bd_evidence :: evidence_stamp
  bd_entries :: "broker_directory_entry list"

text \<open>
  \<open>sort_unstable_by_key\<close> may permute entries with equal keys; such entries only ever reach the
  error branch, which reports the key they share.
\<close>

definition directory_with_evidence ::
    "metadata_generation \<Rightarrow> evidence_stamp \<Rightarrow> broker_directory_entry list \<Rightarrow>
     broker_directory_limits \<Rightarrow> broker_directory_error + broker_directory" where
  "directory_with_evidence generation evidence entries limits =
     (case collect_bounded (bdl_max_brokers limits) [] entries of
        None \<Rightarrow> Inl (DirectoryCapacity (bdl_max_brokers limits))
      | Some collected \<Rightarrow>
          (let canonical = sort_key bde_broker_id collected in
           case find_adjacent (\<lambda>a b. bde_broker_id a = bde_broker_id b) canonical of
             Some duplicate \<Rightarrow> Inl (DuplicateBroker (bde_broker_id duplicate))
           | None \<Rightarrow> Inr \<lparr>bd_generation = generation, bd_evidence = evidence,
                          bd_entries = canonical\<rparr>))"

definition directory_try_from_iter ::
    "metadata_generation \<Rightarrow> broker_directory_entry list \<Rightarrow>
     broker_directory_limits \<Rightarrow> broker_directory_error + broker_directory" where
  "directory_try_from_iter generation entries limits =
     directory_with_evidence generation 0 entries limits"

definition directory_find :: "broker_directory \<Rightarrow> broker_id \<Rightarrow> broker_directory_entry option" where
  "directory_find d broker_id = table_find bde_broker_id (bd_entries d) broker_id"

definition route_to :: "broker_directory \<Rightarrow> broker_id \<Rightarrow> broker_route option" where
  "route_to d broker_id =
     map_option (\<lambda>_. \<lparr>br_generation = bd_generation d, br_broker_id = broker_id,
                      br_evidence = bd_evidence d\<rparr>) (directory_find d broker_id)"

definition directory_resolve ::
    "broker_directory \<Rightarrow> broker_route \<Rightarrow> broker_route_error + broker_directory_entry" where
  "directory_resolve d route =
     (if br_generation route \<noteq> bd_generation d
        then Inl (StaleGeneration (bd_generation d) (br_generation route))
      else if br_evidence route \<noteq> bd_evidence d
        then Inl (StaleEvidence (bd_evidence d) (br_evidence route))
      else case directory_find d (br_broker_id route) of
             None \<Rightarrow> Inl (UnknownBroker (br_broker_id route))
           | Some entry \<Rightarrow> Inr entry)"

section \<open>The directory is a sorted table\<close>

definition directory_wf :: "broker_directory \<Rightarrow> bool" where
  "directory_wf d \<longleftrightarrow> sorted_wrt (<) (map bde_broker_id (bd_entries d))"

interpretation directory_table: keyed_table bde_broker_id bd_entries directory_find directory_wf
  by unfold_locales (auto simp: directory_wf_def directory_find_def table_find_eq)

lemma directory_with_evidence_Inr:
  assumes "directory_with_evidence generation evidence entries limits = Inr d"
  shows "directory_wf d" "mset (bd_entries d) = mset entries" "bd_generation d = generation"
    "bd_evidence d = evidence" "length (bd_entries d) \<le> bdl_max_brokers limits"
    "distinct (map bde_broker_id entries)"
proof -
  have c: "collect_bounded (bdl_max_brokers limits) [] entries = Some entries"
    "length entries \<le> bdl_max_brokers limits"
    using assms by (auto simp: directory_with_evidence_def collect_bounded_eq split: if_splits)
  then have n: "find_adjacent (\<lambda>a b. bde_broker_id a = bde_broker_id b) (sort_key bde_broker_id entries) = None"
    and d: "d = \<lparr>bd_generation = generation, bd_evidence = evidence, bd_entries = sort_key bde_broker_id entries\<rparr>"
    using assms by (auto simp: directory_with_evidence_def Let_def split: option.splits)
  have "sorted_wrt (<) (map bde_broker_id (sort_key bde_broker_id entries))"
    using n find_adjacent_sorted [of bde_broker_id "sort_key bde_broker_id entries"] by simp
  then show "directory_wf d" "mset (bd_entries d) = mset entries" "bd_generation d = generation"
    "bd_evidence d = evidence" "length (bd_entries d) \<le> bdl_max_brokers limits"
    "distinct (map bde_broker_id entries)"
    using c n by (simp_all add: d directory_wf_def sort_key_no_duplicate)
qed

lemma directory_entries:
  assumes "directory_with_evidence generation evidence entries limits = Inr d"
  shows "set (bd_entries d) = set entries"
  using directory_with_evidence_Inr(2) [OF assms] by (metis set_mset_mset)

section \<open>Properties\<close>

text \<open>
  A directory is built exactly when the entries fit the limit and name distinct brokers, and
  it then holds exactly those entries in the order of their broker identities.
\<close>

theorem directory_construction:
  "(\<exists>d. directory_with_evidence generation evidence entries limits = Inr d \<and>
        mset (bd_entries d) = mset entries \<and> sorted (map bde_broker_id (bd_entries d))) \<longleftrightarrow>
     length entries \<le> bdl_max_brokers limits \<and> distinct (map bde_broker_id entries)"
proof (cases "find_adjacent (\<lambda>a b. bde_broker_id a = bde_broker_id b) (sort_key bde_broker_id entries)")
  case None
  then have "distinct (map bde_broker_id entries)" by (simp only: sort_key_no_duplicate)
  with None show ?thesis
    by (auto simp: directory_with_evidence_def collect_bounded_eq)
next
  case (Some duplicate)
  then have "\<not> distinct (map bde_broker_id entries)"
    using sort_key_no_duplicate [of bde_broker_id entries] by simp
  with Some show ?thesis
    by (auto simp: directory_with_evidence_def collect_bounded_eq)
qed

lemma directory_lookup:
  assumes "directory_with_evidence generation evidence entries limits = Inr d"
  shows "directory_find d b = Some e \<longleftrightarrow> e \<in> set entries \<and> bde_broker_id e = b"
    "directory_find d b = None \<longleftrightarrow> b \<notin> bde_broker_id ` set entries"
  using directory_table.lookup_Some [OF directory_with_evidence_Inr(1) [OF assms]]
    directory_table.lookup_None [OF directory_with_evidence_Inr(1) [OF assms]]
    directory_entries [OF assms] by simp_all

text \<open>
  C33. Round trip of routing: a directory built from entries gives a route exactly to the brokers
  it was given, the route resolves under that directory to the entry the caller supplied for that
  broker, and no directory of another generation or with other evidence resolves it.
\<close>

theorem directory_route_roundtrip:
  assumes built: "directory_with_evidence generation evidence entries limits = Inr d"
  shows "case route_to d b of
      None \<Rightarrow> b \<notin> bde_broker_id ` set entries
    | Some route \<Rightarrow>
        (\<exists>entry\<in>set entries. bde_broker_id entry = b \<and> directory_resolve d route = Inr entry) \<and>
        (\<forall>d' entry'. directory_resolve d' route = Inr entry' \<longrightarrow>
           bd_generation d' = generation \<and> bd_evidence d' = evidence)"
proof (cases "directory_find d b")
  case None
  then have "b \<notin> bde_broker_id ` set entries" using directory_lookup(2) [OF built] by blast
  with None show ?thesis by (simp add: route_to_def)
next
  case (Some entry)
  then have "entry \<in> set entries" "bde_broker_id entry = b"
    using directory_lookup(1) [OF built] by simp_all
  then show ?thesis
    using Some directory_with_evidence_Inr(3,4) [OF built]
    by (auto simp: route_to_def directory_resolve_def split: if_splits option.splits)
qed

definition sample_endpoint :: broker_endpoint where
  "sample_endpoint = \<lparr>be_host = ''kafka'', be_port = 9092\<rparr>"

definition sample_directory_entries :: "broker_directory_entry list" where
  "sample_directory_entries =
     [\<lparr>bde_broker_id = 7, bde_endpoint = sample_endpoint\<rparr>,
      \<lparr>bde_broker_id = 2, bde_endpoint = sample_endpoint\<rparr>]"

definition sample_directory :: broker_directory where
  "sample_directory = \<lparr>bd_generation = 3, bd_evidence = 5, bd_entries = rev sample_directory_entries\<rparr>"

lemma sample_directory_built:
  "directory_with_evidence 3 5 sample_directory_entries broker_directory_limits_default =
     Inr sample_directory"
  by code_simp

theorem directory_route_roundtrip_witness:
  "\<exists>entry\<in>set sample_directory_entries. bde_broker_id entry = 7 \<and>
     directory_resolve sample_directory
       \<lparr>br_generation = 3, br_broker_id = 7, br_evidence = 5\<rparr> = Inr entry"
proof -
  have "route_to sample_directory 7 = Some \<lparr>br_generation = 3, br_broker_id = 7, br_evidence = 5\<rparr>"
    by code_simp
  then show ?thesis
    using directory_route_roundtrip [OF sample_directory_built, of 7] by simp
qed

end
