(* ===== verification/Resolution.thy ===== *)
theory Resolution
  imports Directory
begin

text \<open>
  Name resolution and dialing of \<open>kafka-driver-core\<close>: the bounded address set and the DNS
  request and outcome of \<open>resolution/\<close>, the machine of \<open>broker_resolution/\<close> that turns a route
  and an epoch into one resolution, and the candidate rotation of \<open>endpoint_dialer/\<close>.
\<close>

section \<open>Address sets\<close>

record resolution_limits =
  rl_max_addresses :: usize

definition resolution_limits_default :: resolution_limits where
  "resolution_limits_default = \<lparr>rl_max_addresses = 16\<rparr>"

datatype resolved_address_set_error = AddressSetEmpty | AddressSetCapacity usize

type_synonym resolved_address_set = "resolved_address list"

definition address_set_try_from_iter ::
    "resolved_address list \<Rightarrow> resolution_limits \<Rightarrow> resolved_address_set_error + resolved_address_set" where
  "address_set_try_from_iter addresses limits =
     (case collect_unique (rl_max_addresses limits) 0 [] addresses of
        None \<Rightarrow> Inl (AddressSetCapacity (rl_max_addresses limits))
      | Some unique \<Rightarrow> if unique = [] then Inl AddressSetEmpty else Inr unique)"

definition address_set_get :: "resolved_address_set \<Rightarrow> usize \<Rightarrow> resolved_address option" where
  "address_set_get addresses index =
     (if index < length addresses then Some (addresses ! index) else None)"

section \<open>DNS requests and outcomes\<close>

datatype dns_failure = NameNotFound | DnsTemporary | NoUsableAddress

record dns_request =
  dr_epoch :: connection_epoch
  dr_effect_id :: effect_id
  dr_endpoint :: broker_endpoint

record dns_outcome =
  do_epoch :: connection_epoch
  do_effect_id :: effect_id
  do_result :: "dns_failure + resolved_address_set"

section \<open>Resolution of one broker\<close>

datatype broker_resolution_state =
    BrDormant
  | BrResolving broker_route broker_endpoint connection_epoch effect_id
  | BrResolved broker_route connection_epoch
  | BrFailed broker_route connection_epoch dns_failure

datatype broker_resolution_effect =
    BrEffectResolve dns_request
  | BrEffectResolved broker_route connection_epoch broker_endpoint resolved_address_set
  | BrEffectFailed broker_route dns_failure

datatype broker_resolution_disposition = BrApplied | BrIgnoredStale | BrIgnoredBusy | BrRejectedBroker

datatype broker_resolution_input =
    BrStart broker_route broker_endpoint connection_epoch effect_id
  | BrResolutionCompleted dns_outcome

record broker_resolution_machine =
  brm_broker_id :: broker_id
  brm_state :: broker_resolution_state

type_synonym broker_resolution_transition =
  "broker_resolution_effect list \<times> broker_resolution_disposition"

definition broker_resolution_new :: "broker_id \<Rightarrow> broker_resolution_machine" where
  "broker_resolution_new broker_id = \<lparr>brm_broker_id = broker_id, brm_state = BrDormant\<rparr>"

fun br_current_identity :: "broker_resolution_state \<Rightarrow> (broker_route \<times> connection_epoch) option" where
  "br_current_identity BrDormant = None"
| "br_current_identity (BrResolving route endpoint epoch effect_id) = Some (route, epoch)"
| "br_current_identity (BrResolved route epoch) = Some (route, epoch)"
| "br_current_identity (BrFailed route epoch failure) = Some (route, epoch)"

definition br_begin ::
    "broker_resolution_machine \<Rightarrow> broker_route \<Rightarrow> broker_endpoint \<Rightarrow> connection_epoch \<Rightarrow> effect_id \<Rightarrow>
     broker_resolution_machine \<times> broker_resolution_transition" where
  "br_begin m route endpoint epoch effect_id =
     (m\<lparr>brm_state := BrResolving route endpoint epoch effect_id\<rparr>,
      [BrEffectResolve \<lparr>dr_epoch = epoch, dr_effect_id = effect_id, dr_endpoint = endpoint\<rparr>],
      BrApplied)"

definition br_start ::
    "broker_resolution_machine \<Rightarrow> broker_route \<Rightarrow> broker_endpoint \<Rightarrow> connection_epoch \<Rightarrow> effect_id \<Rightarrow>
     broker_resolution_machine \<times> broker_resolution_transition" where
  "br_start m route endpoint epoch effect_id =
     (if br_broker_id route \<noteq> brm_broker_id m then (m, [], BrRejectedBroker)
      else case br_current_identity (brm_state m) of
        Some (current_route, current_epoch) \<Rightarrow>
          (if br_generation route < br_generation current_route \<or> epoch < current_epoch
             then (m, [], BrIgnoredStale)
           else if epoch = current_epoch then (m, [], BrIgnoredBusy)
           else br_begin m route endpoint epoch effect_id)
      | None \<Rightarrow> br_begin m route endpoint epoch effect_id)"

definition br_complete ::
    "broker_resolution_machine \<Rightarrow> dns_outcome \<Rightarrow>
     broker_resolution_machine \<times> broker_resolution_transition" where
  "br_complete m outcome =
     (case brm_state m of
        BrResolving route endpoint epoch effect_id \<Rightarrow>
          (if do_epoch outcome \<noteq> epoch \<or> do_effect_id outcome \<noteq> effect_id
             then (m, [], BrIgnoredStale)
           else case do_result outcome of
             Inr addresses \<Rightarrow>
               (m\<lparr>brm_state := BrResolved route epoch\<rparr>,
                [BrEffectResolved route epoch endpoint addresses], BrApplied)
           | Inl failure \<Rightarrow>
               (m\<lparr>brm_state := BrFailed route epoch failure\<rparr>,
                [BrEffectFailed route failure], BrApplied))
      | _ \<Rightarrow> (m, [], BrIgnoredStale))"

fun broker_resolution_apply ::
    "broker_resolution_machine \<Rightarrow> broker_resolution_input \<Rightarrow>
     broker_resolution_machine \<times> broker_resolution_transition" where
  "broker_resolution_apply m (BrStart route endpoint epoch effect_id) =
     br_start m route endpoint epoch effect_id"
| "broker_resolution_apply m (BrResolutionCompleted outcome) = br_complete m outcome"

section \<open>The endpoint dialer\<close>

datatype dial_phase = DialIdle | DialCandidate usize | DialConnected usize

datatype endpoint_dialer_effect =
    DialOpenCandidate broker_endpoint resolved_address
  | DialResolve broker_endpoint

datatype endpoint_dialer_input =
    DialInOpenCandidate
  | DialInConnectionReady
  | DialInConnectionFailed
  | DialInResolutionCompleted resolved_address_set

record endpoint_dialer =
  ed_endpoint :: broker_endpoint
  ed_addresses :: resolved_address_set
  ed_next :: usize
  ed_failures :: usize
  ed_phase :: dial_phase

type_synonym endpoint_dialer_transition = "endpoint_dialer_effect list"

definition endpoint_dialer_new :: "broker_endpoint \<Rightarrow> resolved_address_set \<Rightarrow> endpoint_dialer" where
  "endpoint_dialer_new endpoint addresses =
     \<lparr>ed_endpoint = endpoint, ed_addresses = addresses, ed_next = 0, ed_failures = 0,
      ed_phase = DialIdle\<rparr>"

definition dialer_primary :: "endpoint_dialer \<Rightarrow> resolved_address option" where
  "dialer_primary d = address_set_get (ed_addresses d) 0"

definition dial_open_candidate :: "endpoint_dialer \<Rightarrow> endpoint_dialer \<times> endpoint_dialer_transition" where
  "dial_open_candidate d =
     (if ed_phase d \<noteq> DialIdle then (d, [])
      else let selected = ed_next d in
        case address_set_get (ed_addresses d) selected of
          None \<Rightarrow> (d, [])
        | Some address \<Rightarrow>
            (d\<lparr>ed_next := (selected + 1) mod length (ed_addresses d),
               ed_phase := DialCandidate selected\<rparr>,
             [DialOpenCandidate (ed_endpoint d) address]))"

definition dial_connection_ready :: "endpoint_dialer \<Rightarrow> endpoint_dialer \<times> endpoint_dialer_transition" where
  "dial_connection_ready d =
     (case ed_phase d of
        DialCandidate selected \<Rightarrow>
          (d\<lparr>ed_failures := 0, ed_phase := DialConnected selected\<rparr>, [])
      | _ \<Rightarrow> (d, []))"

definition dial_candidate_failed :: "endpoint_dialer \<Rightarrow> endpoint_dialer \<times> endpoint_dialer_transition" where
  "dial_candidate_failed d =
     (let failures = ed_failures d + 1 in
      if failures < length (ed_addresses d)
        then (d\<lparr>ed_failures := failures, ed_phase := DialIdle\<rparr>, [])
      else (d\<lparr>ed_failures := 0, ed_phase := DialIdle\<rparr>, [DialResolve (ed_endpoint d)]))"

definition dial_connection_failed :: "endpoint_dialer \<Rightarrow> endpoint_dialer \<times> endpoint_dialer_transition" where
  "dial_connection_failed d =
     (case ed_phase d of
        DialCandidate _ \<Rightarrow> dial_candidate_failed d
      | DialConnected selected \<Rightarrow>
          (d\<lparr>ed_next := selected, ed_failures := 0, ed_phase := DialIdle\<rparr>, [])
      | DialIdle \<Rightarrow> (d, []))"

definition dial_replace_addresses ::
    "endpoint_dialer \<Rightarrow> resolved_address_set \<Rightarrow> endpoint_dialer \<times> endpoint_dialer_transition" where
  "dial_replace_addresses d addresses =
     (d\<lparr>ed_addresses := addresses, ed_next := 0, ed_failures := 0, ed_phase := DialIdle\<rparr>, [])"

fun endpoint_dialer_apply ::
    "endpoint_dialer \<Rightarrow> endpoint_dialer_input \<Rightarrow> endpoint_dialer \<times> endpoint_dialer_transition" where
  "endpoint_dialer_apply d DialInOpenCandidate = dial_open_candidate d"
| "endpoint_dialer_apply d DialInConnectionReady = dial_connection_ready d"
| "endpoint_dialer_apply d DialInConnectionFailed = dial_connection_failed d"
| "endpoint_dialer_apply d (DialInResolutionCompleted addresses) = dial_replace_addresses d addresses"

section \<open>Address sets are bounded and free of duplicates\<close>

definition first_occurrences :: "'a list \<Rightarrow> 'a list" where
  "first_occurrences xs = rev (remdups (rev xs))"

lemma first_occurrences_snoc:
  "first_occurrences (xs @ [x]) = (if x \<in> set xs then first_occurrences xs else first_occurrences xs @ [x])"
  by (simp add: first_occurrences_def)

lemma set_first_occurrences [simp]: "set (first_occurrences xs) = set xs"
  by (simp add: first_occurrences_def)

lemma first_occurrences_Nil_iff [simp]: "first_occurrences xs = [] \<longleftrightarrow> xs = []"
  by (simp add: first_occurrences_def)

lemma collect_unique_reference:
  assumes "inspected = length ys" "inspected \<le> limit"
  shows "collect_unique limit inspected (first_occurrences ys) xs =
    (if length ys + length xs \<le> limit then Some (first_occurrences (ys @ xs)) else None)"
  using assms
proof (induction xs arbitrary: inspected ys)
  case (Cons x xs)
  show ?case
  proof (cases "inspected = limit")
    case False
    then have "collect_unique limit (Suc inspected) (first_occurrences (ys @ [x])) xs =
        (if length (ys @ [x]) + length xs \<le> limit
         then Some (first_occurrences ((ys @ [x]) @ xs)) else None)"
      using Cons.prems by (intro Cons.IH) auto
    with False show ?thesis by (simp add: first_occurrences_snoc)
  qed (use Cons.prems in simp)
qed simp

lemma collect_unique_first_occurrences:
  "collect_unique limit 0 [] xs =
     (if length xs \<le> limit then Some (first_occurrences xs) else None)"
  using collect_unique_reference [of 0 "[]" limit xs] by (simp add: first_occurrences_def)

section \<open>One resolution at a time\<close>

definition requested :: "broker_resolution_transition \<Rightarrow> dns_request list" where
  "requested t = concat (map (\<lambda>e. case e of BrEffectResolve r \<Rightarrow> [r] | _ \<Rightarrow> []) (fst t))"

lemmas br_defs = br_start_def br_begin_def br_complete_def requested_def

definition br_fence :: "broker_resolution_machine \<Rightarrow> nat" where
  "br_fence m = (case br_current_identity (brm_state m) of None \<Rightarrow> 0 | Some (route, epoch) \<Rightarrow> unat epoch + 1)"

interpretation br_epochs: fenced_machine broker_resolution_apply "\<lambda>_. True" br_fence
  "\<lambda>t. map (\<lambda>r. unat (dr_epoch r)) (requested t)"
proof
  fix m i
  show "br_fence m \<le> br_fence (fst (broker_resolution_apply m i))"
    by (cases i; cases "brm_state m")
       (auto simp: br_defs br_fence_def word_less_nat_alt not_less split: sum.split)
  show "br_fence m \<le> e \<and> e < br_fence (fst (broker_resolution_apply m i))"
    if "e \<in> set (map (\<lambda>r. unat (dr_epoch r)) (requested (snd (broker_resolution_apply m i))))" for e
    using that by (cases i; cases "brm_state m")
       (auto simp: br_defs br_fence_def word_less_nat_alt word_le_nat_alt not_less unat_arith_simps
         split: sum.splits if_splits)
  show "sorted_wrt (<) (map (\<lambda>r. unat (dr_epoch r)) (requested (snd (broker_resolution_apply m i))))"
    by (cases i; cases "brm_state m") (auto simp: br_defs split: sum.split)
qed simp

text \<open>While a resolution is outstanding, it is the one requested last, for the machine's own broker.\<close>

definition outstanding_is_last :: "broker_id \<Rightarrow> broker_resolution_machine \<Rightarrow> dns_request list \<Rightarrow> bool" where
  "outstanding_is_last b m requests \<longleftrightarrow> brm_broker_id m = b \<and>
     (case brm_state m of
        BrResolving route endpoint epoch effect_id \<Rightarrow>
          br_broker_id route = b \<and> requests \<noteq> [] \<and>
          last requests = \<lparr>dr_epoch = epoch, dr_effect_id = effect_id, dr_endpoint = endpoint\<rparr>
      | _ \<Rightarrow> True)"

lemma outstanding_step:
  assumes "outstanding_is_last b m requests"
  shows "outstanding_is_last b (fst (broker_resolution_apply m i))
    (requests @ requested (snd (broker_resolution_apply m i)))"
  using assms
  by (cases i; cases "brm_state m") (auto simp: br_defs outstanding_is_last_def split: sum.split)

lemma outstanding_run:
  "outstanding_is_last b m requests \<Longrightarrow>
   outstanding_is_last b (final broker_resolution_apply m is)
     (requests @ observed requested broker_resolution_apply m is)"
proof (induction "is" arbitrary: m requests)
  case (Cons i js)
  from Cons.IH [OF outstanding_step [OF Cons.prems]] show ?case by simp
qed simp

section \<open>The dialer rotates through its candidates\<close>

definition dialer_wf :: "endpoint_dialer \<Rightarrow> bool" where
  "dialer_wf d \<longleftrightarrow>
     (if ed_addresses d = [] then ed_phase d = DialIdle \<and> ed_failures d = 0
      else ed_next d < length (ed_addresses d) \<and> ed_failures d < length (ed_addresses d) \<and>
        (case ed_phase d of
           DialIdle \<Rightarrow> True
         | DialCandidate selected \<Rightarrow> selected < length (ed_addresses d)
         | DialConnected selected \<Rightarrow> selected < length (ed_addresses d)))"

definition dialer_streak :: "endpoint_dialer \<Rightarrow> nat" where
  "dialer_streak d =
     (case ed_phase d of
        DialIdle \<Rightarrow> ed_failures d
      | DialCandidate _ \<Rightarrow> ed_failures d + 1
      | DialConnected _ \<Rightarrow> 0)"

definition opened_addresses :: "endpoint_dialer_transition \<Rightarrow> resolved_address list" where
  "opened_addresses t = concat (map (\<lambda>e. case e of DialOpenCandidate ep a \<Rightarrow> [a] | _ \<Rightarrow> []) t)"

lemmas dial_defs =
  dial_open_candidate_def dial_connection_ready_def dial_connection_failed_def
  dial_candidate_failed_def dial_replace_addresses_def address_set_get_def Let_def

lemma dialer_apply_wf: "dialer_wf d \<Longrightarrow> dialer_wf (fst (endpoint_dialer_apply d i))"
  by (cases i; cases "ed_phase d") (auto simp: dial_defs dialer_wf_def split: if_splits)

interpretation dialer_rotation: rotating_machine endpoint_dialer_apply dialer_wf
  ed_addresses ed_next dialer_streak opened_addresses
proof
  fix d i
  assume wf: "dialer_wf d"
  show "dialer_wf (fst (endpoint_dialer_apply d i))"
    using wf by (rule dialer_apply_wf)
  show "dialer_streak (fst (endpoint_dialer_apply d i)) \<le>
      dialer_streak d + length (opened_addresses (snd (endpoint_dialer_apply d i)))"
    by (cases i; cases "ed_phase d") (auto simp: dial_defs dialer_streak_def opened_addresses_def)
  show "rotation_window (ed_addresses (fst (endpoint_dialer_apply d i)))
      (ed_next (fst (endpoint_dialer_apply d i))) (dialer_streak (fst (endpoint_dialer_apply d i))) =
    newest (dialer_streak (fst (endpoint_dialer_apply d i)))
      (rotation_window (ed_addresses d) (ed_next d) (dialer_streak d) @
       opened_addresses (snd (endpoint_dialer_apply d i)))"
  proof (cases "i = DialInOpenCandidate \<and> ed_phase d = DialIdle \<and> ed_addresses d \<noteq> []")
    case True
    then show ?thesis
      using wf rotation_window_step [of "ed_next d" "ed_addresses d" "ed_failures d"]
        newest_append [of "rotation_window (ed_addresses d) (ed_next d) (ed_failures d) @ [ed_addresses d ! ed_next d]" "[]"]
      by (simp add: dial_defs dialer_wf_def dialer_streak_def opened_addresses_def
          length_rotation_window)
  next
    case False
    then show ?thesis
      using wf newest_append [of "rotation_window (ed_addresses d) (ed_next d) (dialer_streak d)" "[]"]
      by (cases i; cases "ed_phase d")
         (auto simp: dial_defs dialer_wf_def dialer_streak_def opened_addresses_def
           length_rotation_window split: if_splits)
  qed
qed

lemma dialer_new_wf: "dialer_wf (endpoint_dialer_new endpoint addresses)"
  by (simp add: endpoint_dialer_new_def dialer_wf_def)

section \<open>Sample values\<close>

definition sample_addresses :: resolved_address_set where
  "sample_addresses = [SocketV4 [10, 0, 0, 1] 9092, SocketV4 [10, 0, 0, 2] 9092]"

definition sample_route :: broker_route where
  "sample_route = \<lparr>br_generation = 1, br_broker_id = 7, br_evidence = 0\<rparr>"

definition sample_resolution :: "broker_resolution_input list" where
  "sample_resolution =
     [BrStart sample_route sample_endpoint 1 10, BrStart sample_route sample_endpoint 2 11]"

section \<open>Properties\<close>

text \<open>
  An address set is built exactly when the resolver returned at least one and at most the
  permitted number of addresses; it holds the first occurrence of each address in the order the
  resolver gave them, whatever loop collected them.
\<close>

theorem address_set_construction:
  "address_set_try_from_iter addresses limits =
     (if rl_max_addresses limits < length addresses
        then Inl (AddressSetCapacity (rl_max_addresses limits))
      else if addresses = [] then Inl AddressSetEmpty
      else Inr (first_occurrences addresses))"
  by (simp add: address_set_try_from_iter_def collect_unique_first_occurrences)

text \<open>
  A broker resolution reports addresses only for the request it issued last: the outcome
  carries that request's epoch and effect, the endpoint is the requested one, the route names the
  machine's broker, and requests were issued with strictly increasing epochs.
\<close>

theorem broker_resolution_answers_latest:
  assumes "m = final broker_resolution_apply (broker_resolution_new b) is"
    and "requests = observed requested broker_resolution_apply (broker_resolution_new b) is"
    and "BrEffectResolved route epoch endpoint addresses \<in> set (fst (snd (broker_resolution_apply m i)))"
  shows "br_broker_id route = b \<and> requests \<noteq> [] \<and> dr_epoch (last requests) = epoch \<and>
    dr_endpoint (last requests) = endpoint \<and>
    i = BrResolutionCompleted \<lparr>do_epoch = epoch, do_effect_id = dr_effect_id (last requests),
        do_result = Inr addresses\<rparr> \<and>
    sorted_wrt (<) (map (\<lambda>r. unat (dr_epoch r)) requests)"
proof -
  have "outstanding_is_last b (broker_resolution_new b) []"
    by (simp add: outstanding_is_last_def broker_resolution_new_def)
  from outstanding_run [OF this, of "is"] have last: "outstanding_is_last b m requests"
    by (simp add: assms(1,2))
  have "sorted_wrt (<) (map (\<lambda>r. unat (dr_epoch r)) requests)"
    using br_epochs.run_issues [of "broker_resolution_new b" "is"]
    by (simp add: assms(2) map_concat o_def)
  with last assms(3) show ?thesis
    by (cases i; cases "brm_state m")
       (auto simp: br_defs outstanding_is_last_def split: if_splits sum.splits option.splits)
qed

theorem broker_resolution_answers_latest_witness:
  "dr_epoch (last (observed requested broker_resolution_apply (broker_resolution_new 7) sample_resolution)) = 2"
proof -
  have "BrEffectResolved sample_route 2 sample_endpoint sample_addresses \<in>
      set (fst (snd (broker_resolution_apply
        (final broker_resolution_apply (broker_resolution_new 7) sample_resolution)
        (BrResolutionCompleted \<lparr>do_epoch = 2, do_effect_id = 11, do_result = Inr sample_addresses\<rparr>))))"
    by code_simp
  from broker_resolution_answers_latest [OF refl refl this] show ?thesis by blast
qed

text \<open>
  C30. The dialer asks for a new resolution only after it has tried every address of the current
  set since its last success: the newest openings, one per address, are a rotation of the set.
\<close>

theorem dialer_tries_every_address:
  assumes "d = final endpoint_dialer_apply (endpoint_dialer_new endpoint addresses) is"
    and "snd (endpoint_dialer_apply d i) = [DialResolve asked]"
  shows "newest (length (ed_addresses d))
      (observed opened_addresses endpoint_dialer_apply (endpoint_dialer_new endpoint addresses) is) =
    rotate (ed_next d) (ed_addresses d)"
proof -
  have wf: "dialer_wf d"
    using dialer_rotation.run_keeps [OF dialer_new_wf] by (simp add: assms(1))
  have "newest (dialer_streak d)
      (observed opened_addresses endpoint_dialer_apply (endpoint_dialer_new endpoint addresses) is) =
    rotation_window (ed_addresses d) (ed_next d) (dialer_streak d)"
    using dialer_rotation.run_picks [OF dialer_new_wf, of endpoint addresses "[]" "is"]
    by (simp add: assms(1) dialer_streak_def endpoint_dialer_new_def)
  moreover have "dialer_streak d = length (ed_addresses d)"
    using wf assms(2)
    by (cases i; cases "ed_phase d")
       (auto simp: dial_defs dialer_wf_def dialer_streak_def split: if_splits)
  ultimately show ?thesis by (simp add: rotation_window_full)
qed

theorem dialer_tries_every_address_witness:
  "newest 2 (observed opened_addresses endpoint_dialer_apply
     (endpoint_dialer_new sample_endpoint sample_addresses)
     [DialInOpenCandidate, DialInConnectionFailed, DialInOpenCandidate]) =
   rotate 0 sample_addresses"
proof -
  define d where "d = final endpoint_dialer_apply (endpoint_dialer_new sample_endpoint sample_addresses)
    [DialInOpenCandidate, DialInConnectionFailed, DialInOpenCandidate]"
  have "snd (endpoint_dialer_apply d DialInConnectionFailed) = [DialResolve sample_endpoint]"
    and "ed_addresses d = sample_addresses" "ed_next d = 0" "length sample_addresses = 2"
    unfolding d_def by code_simp+
  with dialer_tries_every_address [OF d_def] show ?thesis by metis
qed

end
