(* ===== verification/Backoff.thy ===== *)
theory Backoff
  imports Identity
begin

text \<open>
  The retry policy of \<open>kafka-driver-core\<close> (\<open>broker/policy.rs\<close>): an exponential delay with jitter,
  computed in saturating 64-bit arithmetic. The theory shows what the arithmetic computes over
  the natural numbers and that it meets the contract of a bounded delay policy, on which the
  broker and the bootstrap retry machines rely.
\<close>

unbundle bit_operations_syntax

section \<open>Samples, ordinals and the policy\<close>

type_synonym jitter_sample = u64

type_synonym retry_ordinal = u32

definition retry_ordinal_from_raw :: "u32 \<Rightarrow> retry_ordinal option" where
  "retry_ordinal_from_raw value = (if value = 0 then None else Some value)"

definition retry_first :: retry_ordinal where
  "retry_first = 1"

definition retry_next :: "retry_ordinal \<Rightarrow> retry_ordinal option" where
  "retry_next r = checked_add r 1"

record backoff_policy =
  bp_base_nanos :: u64
  bp_max_nanos :: u64

datatype backoff_policy_error = ZeroBase | MaxBelowBase | DurationTooLarge

definition duration_nanos :: "duration \<Rightarrow> backoff_policy_error + u64" where
  "duration_nanos d = (if d < 2 ^ 64 then Inr (of_nat d) else Inl DurationTooLarge)"

definition backoff_try_new :: "duration \<Rightarrow> duration \<Rightarrow> backoff_policy_error + backoff_policy" where
  "backoff_try_new base max_delay =
     (case duration_nanos base of Inl e \<Rightarrow> Inl e | Inr base_nanos \<Rightarrow>
      (case duration_nanos max_delay of Inl e \<Rightarrow> Inl e | Inr max_nanos \<Rightarrow>
       (if base_nanos = 0 then Inl ZeroBase
        else if max_nanos < base_nanos then Inl MaxBelowBase
        else Inr \<lparr>bp_base_nanos = base_nanos, bp_max_nanos = max_nanos\<rparr>)))"

definition backoff_delay :: "backoff_policy \<Rightarrow> retry_ordinal \<Rightarrow> jitter_sample \<Rightarrow> duration" where
  "backoff_delay p retry jitter =
     (let exponent = min (saturating_sub retry 1) 63;
          multiplier = (case checked_shl 1 exponent of Some m \<Rightarrow> m | None \<Rightarrow> - 1);
          cap = min (saturating_mul (bp_base_nanos p) multiplier) (bp_max_nanos p);
          floor = div_ceil cap 2;
          width = cap - floor + 1
      in unat (floor + jitter mod width))"

definition backoff_default :: backoff_policy where
  "backoff_default = \<lparr>bp_base_nanos = 100000000, bp_max_nanos = 10000000000\<rparr>"

section \<open>What the arithmetic computes\<close>

definition backoff_valid :: "backoff_policy \<Rightarrow> bool" where
  "backoff_valid p \<longleftrightarrow> 0 < bp_base_nanos p \<and> bp_base_nanos p \<le> bp_max_nanos p"

definition backoff_cap :: "backoff_policy \<Rightarrow> retry_ordinal \<Rightarrow> nat" where
  "backoff_cap p retry =
     min (unat (bp_base_nanos p) * 2 ^ min (unat retry - 1) 63) (unat (bp_max_nanos p))"

lemma backoff_try_new_valid:
  "backoff_try_new base max_delay = Inr p \<Longrightarrow> backoff_valid p"
  by (auto simp: backoff_try_new_def backoff_valid_def word_neq_0_conv not_less
      split: sum.splits if_splits)

lemma backoff_default_valid: "backoff_valid backoff_default"
  by (simp add: backoff_valid_def backoff_default_def)

lemma unat_u64_less: "unat (x :: u64) < 2 ^ 64"
  using unsigned_less [of x, where ?'a = nat] by simp

lemma unat_min_word: "unat (min a b) = min (unat a) (unat b)"
  for a b :: "'a::len word"
  by (simp add: min_def word_le_nat_alt)

lemma backoff_multiplier:
  "\<exists>m. checked_shl (1 :: u64) (min (saturating_sub retry 1) 63) = Some m \<and>
     unat m = 2 ^ min (unat retry - 1) 63"
proof -
  let ?e = "min (saturating_sub retry 1) (63 :: u32)"
  have e: "unat ?e = min (unat retry - 1) 63"
    by (simp add: unat_min_word unat_saturating_sub)
  then have "unat ?e < 64" by simp
  moreover have "unat (push_bit (unat ?e) (1 :: u64)) = 2 ^ unat ?e"
    using \<open>unat ?e < 64\<close>
      power_strict_increasing [of "unat ?e" 64 "2 :: nat"]
    by (simp only: unsigned_push_bit_eq) (simp add: take_bit_eq_mod push_bit_eq_mult)
  ultimately show ?thesis by (simp add: checked_shl_def e)
qed

lemma backoff_cap_word:
  fixes base most m :: u64
  shows "unat (min (saturating_mul base m) most) = min (unat base * unat m) (unat most)"
  unfolding unat_min_word unat_saturating_mul
  using unat_u64_less [of most] by (simp add: min_def)

lemma jitter_range: "(c + 1) div 2 + j mod (c div 2 + 1) \<le> (c :: nat)"
proof -
  have "j mod (c div 2 + 1) < c div 2 + 1" by (rule mod_less_divisor) simp
  moreover have "c div 2 + (c + 1) div 2 = c" by presburger
  ultimately show ?thesis by linarith
qed

lemma jittered_between:
  fixes cap jitter :: u64
  shows "unat (div_ceil cap 2 + jitter mod (cap - div_ceil cap 2 + 1)) =
    (unat cap + 1) div 2 + unat jitter mod (unat cap div 2 + 1)"
proof -
  let ?floor = "div_ceil cap 2" and ?width = "cap - div_ceil cap 2 + 1"
  have f: "unat ?floor = (unat cap + 1) div 2" by (rule unat_div_ceil_two)
  have le: "?floor \<le> cap"
    unfolding word_le_nat_alt f by presburger
  have d: "unat (cap - ?floor) = unat cap div 2"
    using le f by (simp add: unat_sub)
  have "unat cap div 2 + 1 < 2 ^ 64" using unat_u64_less [of cap] by simp
  then have w: "unat ?width = unat cap div 2 + 1"
    using d by (simp add: unat_word_ariths)
  have r: "unat (jitter mod ?width) = unat jitter mod (unat cap div 2 + 1)"
    by (simp add: unat_mod w)
  show ?thesis
    using f r jitter_range [of "unat cap" "unat jitter"] unat_u64_less [of cap] by (simp add: unat_word_ariths)
qed

lemma backoff_delay_nat:
  "backoff_delay p retry jitter =
     (backoff_cap p retry + 1) div 2 + unat jitter mod (backoff_cap p retry div 2 + 1)"
proof -
  obtain m where m: "checked_shl (1 :: u64) (min (saturating_sub retry 1) 63) = Some m"
    "unat m = 2 ^ min (unat retry - 1) 63"
    using backoff_multiplier by blast
  have c: "unat (min (saturating_mul (bp_base_nanos p) m) (bp_max_nanos p)) = backoff_cap p retry"
    using m(2) by (simp only: backoff_cap_word backoff_cap_def)
  show ?thesis
    by (simp only: backoff_delay_def Let_def m(1) option.case jittered_between c)
qed

interpretation backoff_delays: delay_policy backoff_delay backoff_cap
  "\<lambda>p. unat (bp_max_nanos p)" backoff_valid
proof
  fix p retry and jitter :: u64
  assume valid: "backoff_valid p"
  show "backoff_delay p retry jitter \<le> backoff_cap p retry"
    unfolding backoff_delay_nat by (rule jitter_range)
  have "backoff_cap p retry \<le> 2 * ((backoff_cap p retry + 1) div 2)" by presburger
  then show "backoff_cap p retry \<le> 2 * backoff_delay p retry jitter"
    unfolding backoff_delay_nat by simp
  show "0 < backoff_cap p retry"
    using valid by (simp add: backoff_cap_def backoff_valid_def word_less_nat_alt word_le_nat_alt)
  show "backoff_cap p retry \<le> unat (bp_max_nanos p)"
    by (simp add: backoff_cap_def)
qed

interpretation retry_succ: checked_successor retry_next unat
  by unfold_locales (auto simp: retry_next_def dest: checked_add_unat)

section \<open>Properties\<close>

text \<open>
  C29. The saturating 64-bit computation of a retry delay is exact: it equals the jittered half of
  the exponential cap over the natural numbers, no intermediate step wraps, the delay lies between
  half the cap and the cap, and every duration in that range is the delay of some jitter sample.
\<close>

theorem backoff_delay_exact:
  "backoff_delay p retry jitter =
     (backoff_cap p retry + 1) div 2 + unat jitter mod (backoff_cap p retry div 2 + 1) \<and>
   (\<forall>d. (backoff_cap p retry + 1) div 2 \<le> d \<and> d \<le> backoff_cap p retry \<longleftrightarrow>
      (\<exists>j. d = backoff_delay p retry j))"
proof (intro conjI allI iffI)
  let ?c = "backoff_cap p retry"
  show "backoff_delay p retry jitter = (?c + 1) div 2 + unat jitter mod (?c div 2 + 1)"
    by (rule backoff_delay_nat)
  fix d
  assume d: "(?c + 1) div 2 \<le> d \<and> d \<le> ?c"
  let ?k = "d - (?c + 1) div 2"
  have "c - (c + 1) div 2 < c div 2 + 1" for c :: nat by presburger
  from this [of ?c] have k: "?k < ?c div 2 + 1" using d by linarith
  have "?c \<le> unat (bp_max_nanos p)" by (simp add: backoff_cap_def)
  then have "?k < 2 ^ 64" using d unat_u64_less [of "bp_max_nanos p"] by linarith
  then have "unat (of_nat ?k :: u64) = ?k" by (simp add: unat_of_nat)
  then have "d = backoff_delay p retry (of_nat ?k)"
    using k d by (simp add: backoff_delay_nat)
  then show "\<exists>j. d = backoff_delay p retry j" ..
next
  let ?c = "backoff_cap p retry"
  fix d
  assume "\<exists>j. d = backoff_delay p retry j"
  then obtain j where j: "d = backoff_delay p retry j" ..
  show "(?c + 1) div 2 \<le> d" "d \<le> ?c"
    unfolding j backoff_delay_nat using jitter_range by simp_all
qed

end
