(* ===== verification/Bootstrap.thy ===== *)
theory Bootstrap
  imports Resolution Backoff
begin

text \<open>
  Cluster bootstrap of \<open>kafka-driver-core\<close> (\<open>bootstrap/\<close>): the bounded endpoint set, the cursor
  that rotates through it, the machine that resolves one endpoint after another until one has
  addresses or all have failed, and the machine that schedules the next sweep.
\<close>

section \<open>Endpoint sets and the cursor\<close>

record bootstrap_limits =
  bsl_max_endpoints :: usize

definition bootstrap_limits_default :: bootstrap_limits where
  "bootstrap_limits_default = \<lparr>bsl_max_endpoints = 16\<rparr>"

datatype bootstrap_error = BootstrapEmpty | BootstrapCapacity usize

type_synonym bootstrap_set = "broker_endpoint list"

definition bootstrap_set_try_from_iter ::
    "broker_endpoint list \<Rightarrow> bootstrap_limits \<Rightarrow> bootstrap_error + bootstrap_set" where
  "bootstrap_set_try_from_iter endpoints limits =
     (case collect_unique (bsl_max_endpoints limits) 0 [] endpoints of
        None \<Rightarrow> Inl (BootstrapCapacity (bsl_max_endpoints limits))
      | Some unique \<Rightarrow> if unique = [] then Inl BootstrapEmpty else Inr unique)"

record bootstrap_cursor =
  bc_next_index :: usize

definition bootstrap_cursor_default :: bootstrap_cursor where
  "bootstrap_cursor_default = \<lparr>bc_next_index = 0\<rparr>"

text \<open>The index is in range whenever the set is not empty, which its constructor ensures.\<close>

definition select_next :: "bootstrap_cursor \<Rightarrow> bootstrap_set \<Rightarrow> bootstrap_cursor \<times> broker_endpoint" where
  "select_next cursor endpoints =
     (let selected = bc_next_index cursor in
      (cursor\<lparr>bc_next_index := (selected + 1) mod length endpoints\<rparr>, endpoints ! selected))"

section \<open>The bootstrap machine\<close>

datatype bootstrap_state =
    BsDormant
  | BsResolving connection_epoch effect_id broker_endpoint usize
  | BsResolved connection_epoch
  | BsExhausted connection_epoch dns_failure

datatype bootstrap_effect =
    BsEffectResolve dns_request
  | BsEffectResolved connection_epoch broker_endpoint resolved_address_set
  | BsEffectExhausted connection_epoch dns_failure

datatype bootstrap_disposition = BsApplied | BsIgnoredStale | BsIgnoredBusy

datatype bootstrap_input =
    BsStart connection_epoch effect_id
  | BsResolutionCompleted dns_outcome effect_id

record bootstrap_machine =
  bsm_endpoints :: bootstrap_set
  bsm_cursor :: bootstrap_cursor
  bsm_state :: bootstrap_state

type_synonym bootstrap_transition = "bootstrap_effect list \<times> bootstrap_disposition"

definition bootstrap_new :: "bootstrap_set \<Rightarrow> bootstrap_machine" where
  "bootstrap_new endpoints =
     \<lparr>bsm_endpoints = endpoints, bsm_cursor = bootstrap_cursor_default, bsm_state = BsDormant\<rparr>"

fun bs_current_epoch :: "bootstrap_state \<Rightarrow> connection_epoch option" where
  "bs_current_epoch BsDormant = None"
| "bs_current_epoch (BsResolving epoch effect_id endpoint remaining) = Some epoch"
| "bs_current_epoch (BsResolved epoch) = Some epoch"
| "bs_current_epoch (BsExhausted epoch failure) = Some epoch"

text \<open>\<open>retry\<close>; \<open>start\<close> ends with the same selection, with all other endpoints remaining.\<close>

definition bs_retry ::
    "bootstrap_machine \<Rightarrow> connection_epoch \<Rightarrow> effect_id \<Rightarrow> usize \<Rightarrow>
     bootstrap_machine \<times> bootstrap_transition" where
  "bs_retry m epoch effect_id remaining =
     (let (cursor, endpoint) = select_next (bsm_cursor m) (bsm_endpoints m) in
      (m\<lparr>bsm_cursor := cursor, bsm_state := BsResolving epoch effect_id endpoint remaining\<rparr>,
       [BsEffectResolve \<lparr>dr_epoch = epoch, dr_effect_id = effect_id, dr_endpoint = endpoint\<rparr>],
       BsApplied))"

definition bs_start ::
    "bootstrap_machine \<Rightarrow> connection_epoch \<Rightarrow> effect_id \<Rightarrow> bootstrap_machine \<times> bootstrap_transition" where
  "bs_start m epoch effect_id =
     (let begin = (let (cursor, endpoint) = select_next (bsm_cursor m) (bsm_endpoints m) in
            (m\<lparr>bsm_cursor := cursor,
               bsm_state := BsResolving epoch effect_id endpoint (length (bsm_endpoints m) - 1)\<rparr>,
             [BsEffectResolve \<lparr>dr_epoch = epoch, dr_effect_id = effect_id, dr_endpoint = endpoint\<rparr>],
             BsApplied))
      in case bs_current_epoch (bsm_state m) of
           Some current \<Rightarrow>
             (if epoch < current then (m, [], BsIgnoredStale)
              else if epoch = current then (m, [], BsIgnoredBusy)
              else begin)
         | None \<Rightarrow> begin)"

definition bs_complete ::
    "bootstrap_machine \<Rightarrow> dns_outcome \<Rightarrow> effect_id \<Rightarrow> bootstrap_machine \<times> bootstrap_transition" where
  "bs_complete m outcome retry_effect_id =
     (case bsm_state m of
        BsResolving epoch effect_id endpoint remaining \<Rightarrow>
          (if do_epoch outcome \<noteq> epoch \<or> do_effect_id outcome \<noteq> effect_id
             then (m, [], BsIgnoredStale)
           else case do_result outcome of
             Inr addresses \<Rightarrow>
               (m\<lparr>bsm_state := BsResolved epoch\<rparr>,
                [BsEffectResolved epoch endpoint addresses], BsApplied)
           | Inl last_failure \<Rightarrow>
               (if remaining = 0
                  then (m\<lparr>bsm_state := BsExhausted epoch last_failure\<rparr>,
                        [BsEffectExhausted epoch last_failure], BsApplied)
                else bs_retry m epoch retry_effect_id (remaining - 1)))
      | _ \<Rightarrow> (m, [], BsIgnoredStale))"

fun bootstrap_apply ::
    "bootstrap_machine \<Rightarrow> bootstrap_input \<Rightarrow> bootstrap_machine \<times> bootstrap_transition" where
  "bootstrap_apply m (BsStart epoch effect_id) = bs_start m epoch effect_id"
| "bootstrap_apply m (BsResolutionCompleted outcome retry_effect_id) =
     bs_complete m outcome retry_effect_id"

section \<open>The retry machine\<close>

datatype bootstrap_retry_state =
    BrtReady retry_ordinal
  | BrtWaiting retry_ordinal moment

datatype bootstrap_retry_effect = BrtWaitUntil moment | BrtRestart

datatype bootstrap_retry_input =
    BrtExhausted moment jitter_sample
  | BrtElapsed moment
  | BrtSucceeded

datatype bootstrap_retry_disposition = BrtApplied | BrtIgnored

datatype bootstrap_retry_error = BrtDeadlineOverflow

record bootstrap_retry_machine =
  brt_policy :: backoff_policy
  brt_state :: bootstrap_retry_state

type_synonym bootstrap_retry_transition =
  "bootstrap_retry_effect list \<times> bootstrap_retry_disposition"

definition bootstrap_retry_new :: "backoff_policy \<Rightarrow> bootstrap_retry_machine" where
  "bootstrap_retry_new policy = \<lparr>brt_policy = policy, brt_state = BrtReady retry_first\<rparr>"

definition brt_elapsed ::
    "bootstrap_retry_machine \<Rightarrow> moment \<Rightarrow> bootstrap_retry_machine \<times> bootstrap_retry_transition" where
  "brt_elapsed m now =
     (case brt_state m of
        BrtReady _ \<Rightarrow> (m, [], BrtIgnored)
      | BrtWaiting retry at \<Rightarrow>
          (if now < at then (m, [BrtWaitUntil at], BrtApplied)
           else (m\<lparr>brt_state := BrtReady (case retry_next retry of Some r \<Rightarrow> r | None \<Rightarrow> retry)\<rparr>,
                 [BrtRestart], BrtApplied)))"

fun bootstrap_retry_apply ::
    "bootstrap_retry_machine \<Rightarrow> bootstrap_retry_input \<Rightarrow>
     bootstrap_retry_machine \<times> (bootstrap_retry_error + bootstrap_retry_transition)" where
  "bootstrap_retry_apply m (BrtExhausted now jitter) =
     (case brt_state m of
        BrtWaiting _ _ \<Rightarrow> (m, Inr ([], BrtIgnored))
      | BrtReady retry \<Rightarrow>
          (case moment_checked_add now (backoff_delay (brt_policy m) retry jitter) of
             None \<Rightarrow> (m, Inl BrtDeadlineOverflow)
           | Some at \<Rightarrow> (m\<lparr>brt_state := BrtWaiting retry at\<rparr>, Inr ([BrtWaitUntil at], BrtApplied))))"
| "bootstrap_retry_apply m (BrtElapsed now) = (let (m', t) = brt_elapsed m now in (m', Inr t))"
| "bootstrap_retry_apply m BrtSucceeded =
     (m\<lparr>brt_state := BrtReady retry_first\<rparr>, Inr ([], BrtApplied))"

fun bootstrap_retry_deadline :: "bootstrap_retry_machine \<Rightarrow> moment option" where
  "bootstrap_retry_deadline m =
     (case brt_state m of BrtReady _ \<Rightarrow> None | BrtWaiting _ at \<Rightarrow> Some at)"

section \<open>The sweep rotates through the endpoints\<close>

lemma bootstrap_set_construction:
  "bootstrap_set_try_from_iter endpoints limits =
     (if bsl_max_endpoints limits < length endpoints
        then Inl (BootstrapCapacity (bsl_max_endpoints limits))
      else if endpoints = [] then Inl BootstrapEmpty
      else Inr (first_occurrences endpoints))"
  by (simp add: bootstrap_set_try_from_iter_def collect_unique_first_occurrences)

definition bootstrap_wf :: "bootstrap_machine \<Rightarrow> bool" where
  "bootstrap_wf m \<longleftrightarrow>
     bsm_endpoints m \<noteq> [] \<and> bc_next_index (bsm_cursor m) < length (bsm_endpoints m) \<and>
     (case bsm_state m of
        BsResolving epoch effect_id endpoint remaining \<Rightarrow> remaining < length (bsm_endpoints m)
      | _ \<Rightarrow> True)"

definition bootstrap_streak :: "bootstrap_machine \<Rightarrow> nat" where
  "bootstrap_streak m =
     (case bsm_state m of
        BsResolving epoch effect_id endpoint remaining \<Rightarrow> length (bsm_endpoints m) - remaining
      | _ \<Rightarrow> 0)"

definition bootstrap_requests :: "bootstrap_transition \<Rightarrow> dns_request list" where
  "bootstrap_requests t = concat (map (\<lambda>e. case e of BsEffectResolve r \<Rightarrow> [r] | _ \<Rightarrow> []) (fst t))"

lemmas bs_defs =
  bs_start_def bs_complete_def bs_retry_def select_next_def bootstrap_requests_def Let_def

lemma bootstrap_apply_wf: "bootstrap_wf m \<Longrightarrow> bootstrap_wf (fst (bootstrap_apply m i))"
  by (cases i; cases "bsm_state m") (auto simp: bs_defs bootstrap_wf_def split: sum.split)

lemma bootstrap_new_wf: "endpoints \<noteq> [] \<Longrightarrow> bootstrap_wf (bootstrap_new endpoints)"
  by (simp add: bootstrap_wf_def bootstrap_new_def bootstrap_cursor_default_def)

text \<open>A request either starts a sweep or continues the current one.\<close>

lemma bootstrap_request_cases:
  assumes "bootstrap_wf m"
  obtains (none) "bootstrap_requests (snd (bootstrap_apply m i)) = []"
      "bootstrap_streak (fst (bootstrap_apply m i)) = 0 \<or> fst (bootstrap_apply m i) = m"
      "bsm_endpoints (fst (bootstrap_apply m i)) = bsm_endpoints m"
  | (pick) epoch effect_id streak where
      "bootstrap_requests (snd (bootstrap_apply m i)) =
         [\<lparr>dr_epoch = epoch, dr_effect_id = effect_id,
           dr_endpoint = bsm_endpoints m ! bc_next_index (bsm_cursor m)\<rparr>]"
      "bootstrap_streak (fst (bootstrap_apply m i)) = Suc streak"
      "streak = 0 \<or> streak = bootstrap_streak m \<and> bs_current_epoch (bsm_state m) = Some epoch"
      "streak < length (bsm_endpoints m)"
      "bsm_endpoints (fst (bootstrap_apply m i)) = bsm_endpoints m"
      "bc_next_index (bsm_cursor (fst (bootstrap_apply m i))) =
         (bc_next_index (bsm_cursor m) + 1) mod length (bsm_endpoints m)"
      "bs_current_epoch (bsm_state (fst (bootstrap_apply m i))) = Some epoch"
proof (cases "bootstrap_requests (snd (bootstrap_apply m i)) = []")
  case True
  then show ?thesis
    by (intro none; cases i; cases "bsm_state m")
       (auto simp: bs_defs bootstrap_streak_def split: if_splits sum.splits)
next
  case False
  then show ?thesis
    using assms
    by (cases i; cases "bsm_state m")
       (auto simp: bs_defs bootstrap_streak_def bootstrap_wf_def
         intro: pick [of _ _ 0] pick [of _ _ "bootstrap_streak m"]
         split: if_splits sum.splits)
qed

interpretation bootstrap_rotation: rotating_machine bootstrap_apply bootstrap_wf
  bsm_endpoints "\<lambda>m. bc_next_index (bsm_cursor m)" bootstrap_streak
  "\<lambda>t. map dr_endpoint (bootstrap_requests t)"
proof
  fix m i
  assume wf: "bootstrap_wf m"
  let ?m' = "fst (bootstrap_apply m i)" and ?t = "snd (bootstrap_apply m i)"
  let ?w = "\<lambda>k. rotation_window (bsm_endpoints m) (bc_next_index (bsm_cursor m)) k"
  show "bootstrap_wf ?m'" using wf by (rule bootstrap_apply_wf)
  show "bootstrap_streak ?m' \<le> bootstrap_streak m + length (map dr_endpoint (bootstrap_requests ?t))"
    using wf by (rule bootstrap_request_cases [of m i]) auto
  have len: "length (?w (bootstrap_streak m)) = bootstrap_streak m"
    by (cases "bsm_state m") (simp_all add: bootstrap_streak_def length_rotation_window)
  from wf show "rotation_window (bsm_endpoints ?m') (bc_next_index (bsm_cursor ?m')) (bootstrap_streak ?m') =
      newest (bootstrap_streak ?m')
        (?w (bootstrap_streak m) @ map dr_endpoint (bootstrap_requests ?t))"
  proof (cases rule: bootstrap_request_cases [of m i])
    case none
    then show ?thesis using newest_append [of "?w (bootstrap_streak m)" "[]"] len by auto
  next
    case (pick epoch effect_id streak)
    have step: "rotation_window (bsm_endpoints ?m') (bc_next_index (bsm_cursor ?m')) (Suc streak) =
        ?w streak @ [bsm_endpoints m ! bc_next_index (bsm_cursor m)]"
      using rotation_window_step [of "bc_next_index (bsm_cursor m)" "bsm_endpoints m" streak] pick wf
      by (simp add: bootstrap_wf_def)
    from pick(3) show ?thesis
      using pick(1,2) step len newest_append [of "?w streak @ [bsm_endpoints m ! bc_next_index (bsm_cursor m)]" "[]"]
        newest_append [of "[bsm_endpoints m ! bc_next_index (bsm_cursor m)]" "?w (bootstrap_streak m)"]
      by auto
  qed
qed

text \<open>All requests of the current sweep carry the epoch it was started under.\<close>

definition sweep_in_epoch :: "bootstrap_machine \<Rightarrow> dns_request list \<Rightarrow> bool" where
  "sweep_in_epoch m requests \<longleftrightarrow>
     bootstrap_streak m \<le> length requests \<and>
     (\<forall>r\<in>set (newest (bootstrap_streak m) requests). bs_current_epoch (bsm_state m) = Some (dr_epoch r))"

lemma newest_Suc_snoc: "newest (Suc k) (xs @ [x]) = newest k xs @ [x]"
  by (simp add: newest_def)

lemma sweep_step:
  assumes "bootstrap_wf m" "sweep_in_epoch m requests"
  shows "sweep_in_epoch (fst (bootstrap_apply m i))
    (requests @ bootstrap_requests (snd (bootstrap_apply m i)))"
  using assms(1)
proof (cases rule: bootstrap_request_cases [of m i])
  case none
  then show ?thesis using assms(2) by (auto simp: sweep_in_epoch_def)
next
  case (pick epoch effect_id streak)
  then show ?thesis using assms(2) by (auto simp: sweep_in_epoch_def newest_Suc_snoc)
qed

lemma sweep_run:
  "bootstrap_wf m \<Longrightarrow> sweep_in_epoch m requests \<Longrightarrow>
   sweep_in_epoch (final bootstrap_apply m is) (requests @ observed bootstrap_requests bootstrap_apply m is)"
proof (induction "is" arbitrary: m requests)
  case (Cons i js)
  from Cons.IH [OF bootstrap_apply_wf [OF Cons.prems(1)] sweep_step [OF Cons.prems]]
  show ?case by simp
qed simp

lemma bootstrap_endpoints_fixed:
  "bsm_endpoints (final bootstrap_apply m is) = bsm_endpoints m"
proof (induction "is" arbitrary: m)
  case (Cons i js)
  have "bsm_endpoints (fst (bootstrap_apply m i)) = bsm_endpoints m"
    by (cases i; cases "bsm_state m") (auto simp: bs_defs split: sum.split)
  with Cons.IH show ?case by simp
qed simp

section \<open>Sweeps end\<close>

text \<open>The failure of the outstanding resolution, with the effect to retry under.\<close>

fun failing_outcome :: "bootstrap_machine \<Rightarrow> dns_failure \<times> effect_id \<Rightarrow> bootstrap_input" where
  "failing_outcome m (failure, retry_effect_id) =
     (case bsm_state m of
        BsResolving epoch effect_id endpoint remaining \<Rightarrow>
          BsResolutionCompleted
            \<lparr>do_epoch = epoch, do_effect_id = effect_id, do_result = Inl failure\<rparr> retry_effect_id
      | _ \<Rightarrow> BsResolutionCompleted \<lparr>do_epoch = 0, do_effect_id = 0, do_result = Inl failure\<rparr> retry_effect_id)"

abbreviation failing_step ::
    "bootstrap_machine \<Rightarrow> dns_failure \<times> effect_id \<Rightarrow> bootstrap_machine \<times> bootstrap_transition" where
  "failing_step m answer \<equiv> bootstrap_apply m (failing_outcome m answer)"

lemma failing_sweep:
  "bsm_state m = BsResolving epoch effect_id endpoint remaining \<Longrightarrow>
   length answers = Suc remaining \<Longrightarrow>
   bsm_state (final failing_step m answers) = BsExhausted epoch (fst (last answers))"
proof (induction remaining arbitrary: m effect_id endpoint answers)
  case 0
  then obtain answer where "answers = [answer]" by (auto simp: length_Suc_conv)
  with 0 show ?case by (cases answer) (simp add: bs_complete_def)
next
  case (Suc remaining)
  then obtain failure retry rest where a: "answers = (failure, retry) # rest" "length rest = Suc remaining"
    by (metis length_Suc_conv surj_pair)
  let ?m' = "fst (failing_step m (failure, retry))"
  have "\<exists>ep. bsm_state ?m' = BsResolving epoch retry ep remaining"
    using Suc.prems(1) by (simp add: bs_complete_def bs_retry_def select_next_def Let_def)
  then obtain ep where "bsm_state ?m' = BsResolving epoch retry ep remaining" ..
  from Suc.IH [OF this a(2)] show ?case
    using a by (auto simp: last_ConsR)
qed

section \<open>Properties of the sweep\<close>

text \<open>
  C31. Bootstrap reports exhaustion only after a whole sweep: the newest requests, one per
  configured endpoint, are a rotation of the endpoint set and all carry the exhausted epoch.
\<close>

theorem bootstrap_sweeps_every_endpoint:
  assumes "endpoints \<noteq> []"
    and "m = final bootstrap_apply (bootstrap_new endpoints) is"
    and "requests = observed bootstrap_requests bootstrap_apply (bootstrap_new endpoints) is"
    and "BsEffectExhausted epoch failure \<in> set (fst (snd (bootstrap_apply m i)))"
  shows "map dr_endpoint (newest (length endpoints) requests) =
      rotate (bc_next_index (bsm_cursor m)) endpoints \<and>
    (\<forall>r\<in>set (newest (length endpoints) requests). dr_epoch r = epoch)"
proof -
  note wf = bootstrap_new_wf [OF assms(1)]
  have start: "sweep_in_epoch (bootstrap_new endpoints) []"
    by (simp add: sweep_in_epoch_def bootstrap_streak_def bootstrap_new_def)
  have sweep: "sweep_in_epoch m requests"
    using sweep_run [OF wf start, of "is"] by (simp add: assms(2,3))
  have rot: "newest (bootstrap_streak m) (map dr_endpoint requests) =
      rotation_window (bsm_endpoints m) (bc_next_index (bsm_cursor m)) (bootstrap_streak m)"
    using bootstrap_rotation.run_picks [OF wf, of "[]" "is"]
    by (simp add: assms(2,3) map_concat o_def bootstrap_streak_def bootstrap_new_def)
  have "bsm_endpoints m = endpoints"
    by (simp add: assms(2) bootstrap_endpoints_fixed) (simp add: bootstrap_new_def)
  moreover have "bootstrap_streak m = length (bsm_endpoints m) \<and> bs_current_epoch (bsm_state m) = Some epoch"
    using assms(4)
    by (cases i; cases "bsm_state m") (auto simp: bs_defs bootstrap_streak_def split: if_splits sum.splits)
  ultimately show ?thesis
    using rot sweep by (simp add: sweep_in_epoch_def rotation_window_full newest_def drop_map)
qed

definition sample_bootstrap :: "bootstrap_input list" where
  "sample_bootstrap = [BsStart 1 10]"

theorem bootstrap_sweeps_every_endpoint_witness:
  "map dr_endpoint (newest 1
     (observed bootstrap_requests bootstrap_apply (bootstrap_new [sample_endpoint]) sample_bootstrap)) =
   rotate 0 [sample_endpoint]"
proof -
  define m where "m = final bootstrap_apply (bootstrap_new [sample_endpoint]) sample_bootstrap"
  have ex: "BsEffectExhausted 1 NameNotFound \<in> set (fst (snd (bootstrap_apply m
      (BsResolutionCompleted \<lparr>do_epoch = 1, do_effect_id = 10, do_result = Inl NameNotFound\<rparr> 11))))"
    and "bc_next_index (bsm_cursor m) = 0"
    unfolding m_def by code_simp+
  with bootstrap_sweeps_every_endpoint [OF _ m_def refl ex] show ?thesis by simp
qed

text \<open>
  C32. A started sweep always ends: when every resolution fails, one failure per configured
  endpoint takes the machine to exhaustion with the last failure, whatever the failures and the
  retry effects are.
\<close>

theorem bootstrap_sweep_ends:
  assumes "bootstrap_wf m" "bs_current_epoch (bsm_state m) = None \<or> bs_current_epoch (bsm_state m) = Some e"
    and "e < epoch" "length answers = length (bsm_endpoints m)"
  shows "bsm_state (final failing_step (fst (bootstrap_apply m (BsStart epoch effect_id))) answers) =
    BsExhausted epoch (fst (last answers))"
proof -
  obtain endpoint where "bsm_state (fst (bootstrap_apply m (BsStart epoch effect_id))) =
      BsResolving epoch effect_id endpoint (length (bsm_endpoints m) - 1)"
    using assms(2) order.strict_implies_not_eq [OF assms(3)] less_not_sym [OF assms(3)]
    by (auto simp: bs_start_def select_next_def Let_def)
  moreover have "length answers = Suc (length (bsm_endpoints m) - 1)"
    using assms(1,4) by (simp add: bootstrap_wf_def)
  ultimately show ?thesis by (rule failing_sweep)
qed

theorem bootstrap_sweep_ends_witness:
  "bsm_state (final failing_step
     (fst (bootstrap_apply (bootstrap_new [sample_endpoint, sample_endpoint]) (BsStart 1 10)))
     [(DnsTemporary, 11), (NameNotFound, 12)]) = BsExhausted 1 NameNotFound"
  using bootstrap_sweep_ends [of "bootstrap_new [sample_endpoint, sample_endpoint]" 0 1
      "[(DnsTemporary, 11), (NameNotFound, 12)]" 10] bootstrap_new_wf
  by (simp add: bootstrap_new_def)

section \<open>The retry machine waits out its backoff\<close>

text \<open>Restarts since the last success, over the inputs and results of a run.\<close>

fun restart_count :: "nat \<Rightarrow> (bootstrap_retry_input \<times> (bootstrap_retry_error + bootstrap_retry_transition)) list \<Rightarrow> nat" where
  "restart_count n [] = n"
| "restart_count n ((i, t) # rest) =
     restart_count (if i = BrtSucceeded then 0
       else case t of Inr (effects, d) \<Rightarrow> (if BrtRestart \<in> set effects then Suc n else n) | Inl _ \<Rightarrow> n) rest"

fun brt_ordinal :: "bootstrap_retry_state \<Rightarrow> retry_ordinal" where
  "brt_ordinal (BrtReady retry) = retry"
| "brt_ordinal (BrtWaiting retry at) = retry"

definition ordinal_counts :: "bootstrap_retry_machine \<Rightarrow> nat \<Rightarrow> bool" where
  "ordinal_counts m n \<longleftrightarrow> unat (brt_ordinal (brt_state m)) = min (Suc n) (2 ^ 32 - 1)"

definition waited_from :: "bootstrap_retry_machine \<Rightarrow> bootstrap_retry_input list \<Rightarrow> bool" where
  "waited_from m inputs \<longleftrightarrow>
     (case brt_state m of
        BrtReady _ \<Rightarrow> True
      | BrtWaiting retry at \<Rightarrow>
          (\<exists>now jitter. BrtExhausted now jitter \<in> set inputs \<and>
             moment_checked_add now (backoff_delay (brt_policy m) retry jitter) = Some at))"

lemma retry_next_saturates:
  assumes "unat r = min (Suc n) (2 ^ 32 - 1)"
  shows "unat (case retry_next r of Some r' \<Rightarrow> r' | None \<Rightarrow> r) = min (Suc (Suc n)) (2 ^ 32 - 1)"
proof (cases "retry_next r")
  case None
  then have "2 ^ 32 \<le> unat r + 1" by (simp add: retry_next_def checked_add_None)
  then show ?thesis using None assms by simp
next
  case (Some r')
  then have "unat r' = Suc (unat r)" "unat r' < 2 ^ 32"
    using retry_succ.succ_ordinal unsigned_less [of r', where ?'a = nat] by auto
  then show ?thesis using assms Some by simp
qed

lemma bootstrap_retry_step:
  assumes "waited_from m past" "ordinal_counts m n"
  shows "waited_from (fst (bootstrap_retry_apply m i)) (past @ [i]) \<and>
    ordinal_counts (fst (bootstrap_retry_apply m i)) (restart_count n [(i, snd (bootstrap_retry_apply m i))]) \<and>
    brt_policy (fst (bootstrap_retry_apply m i)) = brt_policy m"
  using assms retry_next_saturates
  by (cases i; cases "brt_state m")
     (auto simp: waited_from_def ordinal_counts_def brt_elapsed_def retry_first_def
       split: option.split)

lemma restart_count_append:
  "restart_count n (xs @ ys) = restart_count (restart_count n xs) ys"
  by (induction n xs rule: restart_count.induct) simp_all

lemma bootstrap_retry_run:
  assumes "waited_from m past" "ordinal_counts m n"
  shows "waited_from (final bootstrap_retry_apply m is) (past @ is) \<and>
    ordinal_counts (final bootstrap_retry_apply m is)
      (restart_count n (zip is (outputs bootstrap_retry_apply m is))) \<and>
    brt_policy (final bootstrap_retry_apply m is) = brt_policy m"
  using assms
proof (induction "is" arbitrary: m past n)
  case (Cons i js)
  from bootstrap_retry_step [OF Cons.prems, of i]
  have step: "waited_from (fst (bootstrap_retry_apply m i)) (past @ [i])"
    "ordinal_counts (fst (bootstrap_retry_apply m i)) (restart_count n [(i, snd (bootstrap_retry_apply m i))])"
    "brt_policy (fst (bootstrap_retry_apply m i)) = brt_policy m"
    by simp_all
  from Cons.IH [OF step(1,2)] step(3) show ?case by simp
qed simp

text \<open>
  A restart never comes early: it follows an exhausted sweep whose backoff has elapsed in
  full, and the backoff is that of the number of restarts since the last success, saturating at
  the largest ordinal.
\<close>

theorem bootstrap_retry_waits:
  assumes "backoff_valid p" "m = final bootstrap_retry_apply (bootstrap_retry_new p) is"
    and "snd (bootstrap_retry_apply m (BrtElapsed now)) = Inr ([BrtRestart], BrtApplied)"
  shows "\<exists>before jitter retry. BrtExhausted before jitter \<in> set is \<and> before < now \<and>
    unat before + backoff_delay p retry jitter \<le> unat now \<and>
    unat retry = min (Suc (restart_count 0
      (zip is (outputs bootstrap_retry_apply (bootstrap_retry_new p) is)))) (2 ^ 32 - 1)"
proof -
  have "waited_from (bootstrap_retry_new p) []" "ordinal_counts (bootstrap_retry_new p) 0"
    by (simp_all add: waited_from_def ordinal_counts_def bootstrap_retry_new_def retry_first_def)
  from bootstrap_retry_run [OF this, of "is"]
  have m: "waited_from m is" "brt_policy m = p"
    "ordinal_counts m (restart_count 0 (zip is (outputs bootstrap_retry_apply (bootstrap_retry_new p) is)))"
    by (simp_all add: assms(2) bootstrap_retry_new_def)
  obtain retry at where w: "brt_state m = BrtWaiting retry at" "at \<le> now"
    using assms(3) by (cases "brt_state m") (auto simp: brt_elapsed_def not_less split: if_splits)
  obtain before jitter where b: "BrtExhausted before jitter \<in> set is"
    "moment_checked_add before (backoff_delay p retry jitter) = Some at"
    using m(1,2) w(1) by (auto simp: waited_from_def)
  have "unat before + backoff_delay p retry jitter \<le> unat now"
    using moment_checked_add_unat [OF b(2)] w(2) by (simp add: word_le_nat_alt)
  moreover have "0 < backoff_delay p retry jitter"
    using assms(1) by (rule backoff_delays.delay_positive)
  ultimately have "before < now" "unat before + backoff_delay p retry jitter \<le> unat now"
    by (simp_all add: word_less_nat_alt)
  moreover have "unat retry = min (Suc (restart_count 0
      (zip is (outputs bootstrap_retry_apply (bootstrap_retry_new p) is)))) (2 ^ 32 - 1)"
    using m(3) w(1) by (simp add: ordinal_counts_def)
  ultimately show ?thesis using b(1) by blast
qed

definition sample_retry :: "bootstrap_retry_input list" where
  "sample_retry = [BrtExhausted 5 0]"

theorem bootstrap_retry_waits_witness:
  "\<exists>before jitter retry. BrtExhausted before jitter \<in> set sample_retry \<and>
     unat before + backoff_delay backoff_default retry jitter \<le> unat (60000000 :: moment)"
proof -
  define m where "m = final bootstrap_retry_apply (bootstrap_retry_new backoff_default) sample_retry"
  have "backoff_delay backoff_default 1 0 = 50000000"
    by (simp add: backoff_delay_nat backoff_cap_def backoff_default_def)
  then have "snd (bootstrap_retry_apply m (BrtElapsed 60000000)) = Inr ([BrtRestart], BrtApplied)"
    by (simp add: m_def sample_retry_def bootstrap_retry_new_def retry_first_def brt_elapsed_def
        moment_checked_add_def checked_add_def)
  from bootstrap_retry_waits [OF backoff_default_valid m_def this] show ?thesis by blast
qed

end
