(* ===== verification/Broker.thy ===== *)
theory Broker
  imports Authentication Resolution Backoff
begin

text \<open>
  The machine that keeps one logical broker connected (\<open>broker/\<close> of \<open>kafka-driver-core\<close>): it opens
  one connection attempt per epoch, backs off after a failure, refreshes the endpoint when the
  dialer has run out of addresses, and drains on request.
\<close>

section \<open>States, inputs and effects\<close>

datatype broker_close_reason =
    BrokerRequested
  | BrokerEpochExhausted
  | BrokerRetryExhausted
  | BrokerRetryResourcesUnavailable
  | BrokerClockOverflow
  | BrokerAuthenticationFailed authentication_failure
  | BrokerEndpointResolutionFailed dns_failure

datatype address_refresh_state =
    RefreshPending "retry_ordinal option"
  | RefreshResolving "retry_ordinal option"
  | RefreshBackoff retry_ordinal timer_id moment

datatype broker_state =
    BkDormant connection_epoch
  | BkConnecting connection_epoch "retry_ordinal option"
  | BkAvailable connection_epoch
  | BkBackoff connection_epoch connection_epoch retry_ordinal timer_id moment
  | BkRefreshing connection_epoch connection_epoch retry_ordinal timer_id moment address_refresh_state
  | BkDraining connection_epoch
  | BkClosed broker_close_reason

datatype broker_phase =
  BpDormant | BpConnecting | BpAvailable | BpBackoff | BpRefreshing | BpDraining | BpClosed

fun broker_state_phase :: "broker_state \<Rightarrow> broker_phase" where
  "broker_state_phase (BkDormant e) = BpDormant"
| "broker_state_phase (BkConnecting e r) = BpConnecting"
| "broker_state_phase (BkAvailable e) = BpAvailable"
| "broker_state_phase (BkBackoff f n r t d) = BpBackoff"
| "broker_state_phase (BkRefreshing f n r t d s) = BpRefreshing"
| "broker_state_phase (BkDraining e) = BpDraining"
| "broker_state_phase (BkClosed reason) = BpClosed"

record reconnect_schedule =
  rs_timer_id :: timer_id
  rs_now :: moment
  rs_jitter :: jitter_sample

record endpoint_refresh_schedule =
  ers_timer_id :: timer_id
  ers_now :: moment
  ers_jitter :: jitter_sample

datatype broker_input =
    BkStart
  | BkConnectionReady connection_epoch
  | BkConnectionFailed connection_epoch reconnect_schedule
  | BkEndpointExhausted connection_epoch reconnect_schedule
  | BkEndpointRefreshStarted connection_epoch
  | BkEndpointRefreshDeferred connection_epoch
  | BkEndpointRefreshFailed connection_epoch dns_failure "endpoint_refresh_schedule option"
  | BkEndpointRefreshRetryElapsed connection_epoch timer_id moment
  | BkEndpointRefreshed connection_epoch moment
  | BkConnectionRejected connection_epoch authentication_failure
  | BkConnectionDrained connection_epoch
  | BkReconnectElapsed connection_epoch timer_id moment
  | BkBeginDrain

datatype broker_effect =
    BkOpenConnection connection_epoch
  | BkScheduleReconnect connection_epoch timer_id moment
  | BkScheduleEndpointRefreshRetry connection_epoch timer_id moment
  | BkCancelReconnect timer_id
  | BkCancelEndpointRefreshRetry timer_id
  | BkDrainConnection connection_epoch

datatype broker_disposition = BkApplied | BkIgnored | BkIgnoredStale

type_synonym broker_transition = "broker_effect list \<times> broker_disposition"

record broker_machine =
  bm_state :: broker_state
  bm_backoff :: backoff_policy

type_synonym broker_step = "broker_machine \<times> broker_transition"

definition broker_new :: "connection_epoch \<Rightarrow> backoff_policy \<Rightarrow> broker_machine" where
  "broker_new initial_epoch backoff = \<lparr>bm_state = BkDormant initial_epoch, bm_backoff = backoff\<rparr>"

abbreviation bk_applied :: "broker_machine \<Rightarrow> broker_effect list \<Rightarrow> broker_step" where
  "bk_applied m effects \<equiv> (m, effects, BkApplied)"

abbreviation bk_stale :: "broker_machine \<Rightarrow> broker_step" where
  "bk_stale m \<equiv> (m, [], BkIgnoredStale)"

abbreviation bk_ignored :: "broker_machine \<Rightarrow> broker_step" where
  "bk_ignored m \<equiv> (m, [], BkIgnored)"

definition bk_close :: "broker_machine \<Rightarrow> broker_close_reason \<Rightarrow> broker_step" where
  "bk_close m reason = bk_applied (m\<lparr>bm_state := BkClosed reason\<rparr>) []"

section \<open>Connection attempts\<close>

definition bk_start :: "broker_machine \<Rightarrow> broker_step" where
  "bk_start m =
     (case bm_state m of
        BkDormant initial_epoch \<Rightarrow>
          bk_applied (m\<lparr>bm_state := BkConnecting initial_epoch None\<rparr>) [BkOpenConnection initial_epoch]
      | _ \<Rightarrow> bk_ignored m)"

definition bk_connection_ready :: "broker_machine \<Rightarrow> connection_epoch \<Rightarrow> broker_step" where
  "bk_connection_ready m epoch =
     (case bm_state m of
        BkConnecting expected _ \<Rightarrow>
          (if epoch \<noteq> expected then bk_stale m
           else bk_applied (m\<lparr>bm_state := BkAvailable epoch\<rparr>) [])
      | _ \<Rightarrow> bk_stale m)"

definition bk_connection_rejected ::
    "broker_machine \<Rightarrow> connection_epoch \<Rightarrow> authentication_failure \<Rightarrow> broker_step" where
  "bk_connection_rejected m epoch failure =
     (case bm_state m of
        BkConnecting expected _ \<Rightarrow>
          (if epoch \<noteq> expected then bk_stale m
           else bk_close m (BrokerAuthenticationFailed failure))
      | _ \<Rightarrow> bk_stale m)"

definition bk_reconnect_elapsed ::
    "broker_machine \<Rightarrow> connection_epoch \<Rightarrow> timer_id \<Rightarrow> moment \<Rightarrow> broker_step" where
  "bk_reconnect_elapsed m failed_epoch timer_id now =
     (case bm_state m of
        BkBackoff expected_epoch next_epoch retry expected_timer deadline \<Rightarrow>
          (if failed_epoch \<noteq> expected_epoch \<or> timer_id \<noteq> expected_timer then bk_stale m
           else if now < deadline
             then bk_applied m [BkScheduleReconnect failed_epoch timer_id deadline]
           else bk_applied (m\<lparr>bm_state := BkConnecting next_epoch (Some retry)\<rparr>)
                  [BkOpenConnection next_epoch])
      | _ \<Rightarrow> bk_stale m)"

definition bk_begin_drain :: "broker_machine \<Rightarrow> broker_step" where
  "bk_begin_drain m =
     (case bm_state m of
        BkDormant _ \<Rightarrow> bk_close m BrokerRequested
      | BkConnecting epoch _ \<Rightarrow>
          bk_applied (m\<lparr>bm_state := BkDraining epoch\<rparr>) [BkDrainConnection epoch]
      | BkAvailable epoch \<Rightarrow>
          bk_applied (m\<lparr>bm_state := BkDraining epoch\<rparr>) [BkDrainConnection epoch]
      | BkBackoff _ _ _ timer_id _ \<Rightarrow>
          bk_applied (m\<lparr>bm_state := BkClosed BrokerRequested\<rparr>) [BkCancelReconnect timer_id]
      | BkRefreshing _ _ _ _ _ (RefreshBackoff _ timer_id _) \<Rightarrow>
          bk_applied (m\<lparr>bm_state := BkClosed BrokerRequested\<rparr>) [BkCancelEndpointRefreshRetry timer_id]
      | BkRefreshing _ _ _ _ _ _ \<Rightarrow>
          bk_applied (m\<lparr>bm_state := BkClosed BrokerRequested\<rparr>) []
      | BkDraining _ \<Rightarrow> bk_ignored m
      | BkClosed _ \<Rightarrow> bk_ignored m)"

definition bk_connection_drained :: "broker_machine \<Rightarrow> connection_epoch \<Rightarrow> broker_step" where
  "bk_connection_drained m epoch =
     (case bm_state m of
        BkDraining expected \<Rightarrow>
          (if epoch \<noteq> expected then bk_stale m else bk_close m BrokerRequested)
      | _ \<Rightarrow> bk_stale m)"

section \<open>Recovery\<close>

record recovery_generation =
  rg_next_epoch :: connection_epoch
  rg_retry :: retry_ordinal
  rg_timer_id :: timer_id
  rg_deadline :: moment

definition next_ordinal :: "retry_ordinal option \<Rightarrow> retry_ordinal option" where
  "next_ordinal last_retry = (case last_retry of None \<Rightarrow> Some retry_first | Some r \<Rightarrow> retry_next r)"

text \<open>\<open>Inl\<close> is the transition that \<open>recovery_after\<close> has already taken.\<close>

definition recovery_after ::
    "broker_machine \<Rightarrow> connection_epoch \<Rightarrow> reconnect_schedule \<Rightarrow> broker_step + recovery_generation" where
  "recovery_after m epoch reconnect =
     (let found = (case bm_state m of
            BkConnecting expected retry \<Rightarrow>
              if epoch = expected then Some (next_ordinal retry) else None
          | BkAvailable expected \<Rightarrow> if epoch = expected then Some (Some retry_first) else None
          | _ \<Rightarrow> None)
      in case found of
           None \<Rightarrow> Inl (bk_stale m)
         | Some None \<Rightarrow> Inl (bk_close m BrokerRetryExhausted)
         | Some (Some retry) \<Rightarrow>
             (case checked_add epoch 1 of
                None \<Rightarrow> Inl (bk_close m BrokerEpochExhausted)
              | Some next_epoch \<Rightarrow>
                  (case moment_checked_add (rs_now reconnect)
                          (backoff_delay (bm_backoff m) retry (rs_jitter reconnect)) of
                     None \<Rightarrow> Inl (bk_close m BrokerClockOverflow)
                   | Some deadline \<Rightarrow>
                       Inr \<lparr>rg_next_epoch = next_epoch, rg_retry = retry,
                            rg_timer_id = rs_timer_id reconnect, rg_deadline = deadline\<rparr>)))"

definition bk_connection_failed ::
    "broker_machine \<Rightarrow> connection_epoch \<Rightarrow> reconnect_schedule \<Rightarrow> broker_step" where
  "bk_connection_failed m epoch reconnect =
     (case recovery_after m epoch reconnect of
        Inl transition \<Rightarrow> transition
      | Inr g \<Rightarrow>
          bk_applied (m\<lparr>bm_state := BkBackoff epoch (rg_next_epoch g) (rg_retry g)
                                      (rg_timer_id g) (rg_deadline g)\<rparr>)
            [BkScheduleReconnect epoch (rg_timer_id g) (rg_deadline g)])"

definition bk_endpoint_exhausted ::
    "broker_machine \<Rightarrow> connection_epoch \<Rightarrow> reconnect_schedule \<Rightarrow> broker_step" where
  "bk_endpoint_exhausted m epoch reconnect =
     (case recovery_after m epoch reconnect of
        Inl transition \<Rightarrow> transition
      | Inr g \<Rightarrow>
          bk_applied (m\<lparr>bm_state := BkRefreshing epoch (rg_next_epoch g) (rg_retry g)
                                      (rg_timer_id g) (rg_deadline g) (RefreshPending None)\<rparr>) [])"

section \<open>Endpoint refresh\<close>

definition bk_endpoint_refresh_started :: "broker_machine \<Rightarrow> connection_epoch \<Rightarrow> broker_step" where
  "bk_endpoint_refresh_started m failed_epoch =
     (case bm_state m of
        BkRefreshing expected next_epoch retry timer_id deadline (RefreshPending last_retry) \<Rightarrow>
          (if failed_epoch \<noteq> expected then bk_stale m
           else bk_applied (m\<lparr>bm_state := BkRefreshing failed_epoch next_epoch retry timer_id deadline
                                            (RefreshResolving last_retry)\<rparr>) [])
      | _ \<Rightarrow> bk_stale m)"

definition bk_endpoint_refresh_deferred :: "broker_machine \<Rightarrow> connection_epoch \<Rightarrow> broker_step" where
  "bk_endpoint_refresh_deferred m failed_epoch =
     (case bm_state m of
        BkRefreshing expected next_epoch retry timer_id deadline (RefreshResolving last_retry) \<Rightarrow>
          (if failed_epoch \<noteq> expected then bk_stale m
           else bk_applied (m\<lparr>bm_state := BkRefreshing failed_epoch next_epoch retry timer_id deadline
                                            (RefreshPending last_retry)\<rparr>) [])
      | _ \<Rightarrow> bk_stale m)"

definition bk_endpoint_refresh_failed ::
    "broker_machine \<Rightarrow> connection_epoch \<Rightarrow> dns_failure \<Rightarrow> endpoint_refresh_schedule option \<Rightarrow>
     broker_step" where
  "bk_endpoint_refresh_failed m failed_epoch failure schedule =
     (case bm_state m of
        BkRefreshing expected next_epoch reconnect_retry reconnect_timer reconnect_deadline
            (RefreshResolving last_retry) \<Rightarrow>
          (if failed_epoch \<noteq> expected then bk_stale m
           else if failure = NoUsableAddress
             then bk_close m (BrokerEndpointResolutionFailed failure)
           else case schedule of
             None \<Rightarrow> bk_close m BrokerRetryResourcesUnavailable
           | Some schedule \<Rightarrow>
               (case next_ordinal last_retry of
                  None \<Rightarrow> bk_close m BrokerRetryExhausted
                | Some retry \<Rightarrow>
                    (case moment_checked_add (ers_now schedule)
                            (backoff_delay (bm_backoff m) retry (ers_jitter schedule)) of
                       None \<Rightarrow> bk_close m BrokerClockOverflow
                     | Some deadline \<Rightarrow>
                         bk_applied (m\<lparr>bm_state := BkRefreshing failed_epoch next_epoch
                             reconnect_retry reconnect_timer reconnect_deadline
                             (RefreshBackoff retry (ers_timer_id schedule) deadline)\<rparr>)
                           [BkScheduleEndpointRefreshRetry failed_epoch (ers_timer_id schedule) deadline])))
      | _ \<Rightarrow> bk_stale m)"

definition bk_endpoint_refresh_retry_elapsed ::
    "broker_machine \<Rightarrow> connection_epoch \<Rightarrow> timer_id \<Rightarrow> moment \<Rightarrow> broker_step" where
  "bk_endpoint_refresh_retry_elapsed m failed_epoch timer_id now =
     (case bm_state m of
        BkRefreshing expected_epoch next_epoch reconnect_retry reconnect_timer reconnect_deadline
            (RefreshBackoff retry expected_timer deadline) \<Rightarrow>
          (if failed_epoch \<noteq> expected_epoch \<or> timer_id \<noteq> expected_timer then bk_stale m
           else if now < deadline
             then bk_applied m [BkScheduleEndpointRefreshRetry failed_epoch timer_id deadline]
           else bk_applied (m\<lparr>bm_state := BkRefreshing failed_epoch next_epoch reconnect_retry
                  reconnect_timer reconnect_deadline (RefreshPending (Some retry))\<rparr>) [])
      | _ \<Rightarrow> bk_stale m)"

definition bk_endpoint_refreshed :: "broker_machine \<Rightarrow> connection_epoch \<Rightarrow> moment \<Rightarrow> broker_step" where
  "bk_endpoint_refreshed m failed_epoch now =
     (case bm_state m of
        BkRefreshing expected next_epoch retry timer_id deadline (RefreshResolving _) \<Rightarrow>
          (if failed_epoch \<noteq> expected then bk_stale m
           else if now < deadline
             then bk_applied (m\<lparr>bm_state := BkBackoff failed_epoch next_epoch retry timer_id deadline\<rparr>)
                    [BkScheduleReconnect failed_epoch timer_id deadline]
           else bk_applied (m\<lparr>bm_state := BkConnecting next_epoch (Some retry)\<rparr>)
                  [BkOpenConnection next_epoch])
      | _ \<Rightarrow> bk_stale m)"

section \<open>Dispatch\<close>

fun broker_apply :: "broker_machine \<Rightarrow> broker_input \<Rightarrow> broker_step" where
  "broker_apply m BkStart = bk_start m"
| "broker_apply m (BkConnectionReady epoch) = bk_connection_ready m epoch"
| "broker_apply m (BkConnectionFailed epoch reconnect) = bk_connection_failed m epoch reconnect"
| "broker_apply m (BkEndpointExhausted epoch reconnect) = bk_endpoint_exhausted m epoch reconnect"
| "broker_apply m (BkEndpointRefreshStarted failed_epoch) = bk_endpoint_refresh_started m failed_epoch"
| "broker_apply m (BkEndpointRefreshDeferred failed_epoch) = bk_endpoint_refresh_deferred m failed_epoch"
| "broker_apply m (BkEndpointRefreshFailed failed_epoch failure retry) =
     bk_endpoint_refresh_failed m failed_epoch failure retry"
| "broker_apply m (BkEndpointRefreshRetryElapsed failed_epoch timer_id now) =
     bk_endpoint_refresh_retry_elapsed m failed_epoch timer_id now"
| "broker_apply m (BkEndpointRefreshed failed_epoch now) = bk_endpoint_refreshed m failed_epoch now"
| "broker_apply m (BkConnectionRejected epoch failure) = bk_connection_rejected m epoch failure"
| "broker_apply m (BkConnectionDrained epoch) = bk_connection_drained m epoch"
| "broker_apply m (BkReconnectElapsed failed_epoch timer_id now) =
     bk_reconnect_elapsed m failed_epoch timer_id now"
| "broker_apply m BkBeginDrain = bk_begin_drain m"

end
