(* ===== verification/Broker_Lifecycle.thy ===== *)
theory Broker_Lifecycle
  imports Broker
begin

text \<open>
  What the broker machine promises. An abstract lifecycle (attempt, up, waiting, winding down,
  done) says when a connection may be opened; the machine refines it, so its epochs are
  consecutive and no reconnect comes before its backoff has elapsed. The theory also shows that
  every timer the machine arms is cancelled or fires, and that no live state is stuck.
\<close>

lemmas bk_defs =
  bk_start_def bk_connection_ready_def bk_connection_rejected_def bk_reconnect_elapsed_def
  bk_begin_drain_def bk_connection_drained_def recovery_after_def bk_connection_failed_def
  bk_endpoint_exhausted_def bk_endpoint_refresh_started_def bk_endpoint_refresh_deferred_def
  bk_endpoint_refresh_failed_def bk_endpoint_refresh_retry_elapsed_def bk_endpoint_refreshed_def
  bk_close_def Let_def

section \<open>The abstract lifecycle\<close>

text \<open>Epochs and moments are numbers here; a waiting broker knows the failed epoch and its deadline.\<close>

datatype lifecycle =
    LcIdle nat
  | LcAttempt nat
  | LcUp nat
  | LcWaiting nat nat
  | LcWinding nat
  | LcDone

inductive lifecycle_step ::
    "backoff_policy \<Rightarrow> lifecycle \<Rightarrow> nat option \<Rightarrow> nat list \<Rightarrow> lifecycle \<Rightarrow> bool" for p where
  stay: "lifecycle_step p s t [] s"
| launch: "lifecycle_step p (LcIdle e) t [e] (LcAttempt e)"
| establish: "lifecycle_step p (LcAttempt e) t [] (LcUp e)"
| lose: "s = LcAttempt e \<or> s = LcUp e \<Longrightarrow> d = now + backoff_delay p retry jitter \<Longrightarrow>
    lifecycle_step p s (Some now) [] (LcWaiting e d)"
| reopen: "d \<le> now \<Longrightarrow> lifecycle_step p (LcWaiting e d) (Some now) [Suc e] (LcAttempt (Suc e))"
| wind: "s = LcAttempt e \<or> s = LcUp e \<Longrightarrow> lifecycle_step p s t [] (LcWinding e)"
| finish: "lifecycle_step p s t [] LcDone"

inductive_cases lifecycle_stepE: "lifecycle_step p s t os s'"

fun broker_abs :: "broker_state \<Rightarrow> lifecycle" where
  "broker_abs (BkDormant e) = LcIdle (unat e)"
| "broker_abs (BkConnecting e r) = LcAttempt (unat e)"
| "broker_abs (BkAvailable e) = LcUp (unat e)"
| "broker_abs (BkBackoff f n r t d) = LcWaiting (unat f) (unat d)"
| "broker_abs (BkRefreshing f n r t d s) = LcWaiting (unat f) (unat d)"
| "broker_abs (BkDraining e) = LcWinding (unat e)"
| "broker_abs (BkClosed reason) = LcDone"

fun input_moment :: "broker_input \<Rightarrow> moment option" where
  "input_moment (BkConnectionFailed epoch reconnect) = Some (rs_now reconnect)"
| "input_moment (BkEndpointExhausted epoch reconnect) = Some (rs_now reconnect)"
| "input_moment (BkEndpointRefreshed failed_epoch now) = Some now"
| "input_moment (BkReconnectElapsed failed_epoch timer_id now) = Some now"
| "input_moment _ = None"

definition opened_epochs :: "broker_transition \<Rightarrow> connection_epoch list" where
  "opened_epochs t = concat (map (\<lambda>e. case e of BkOpenConnection epoch \<Rightarrow> [epoch] | _ \<Rightarrow> []) (fst t))"

fun successor_epochs :: "broker_state \<Rightarrow> bool" where
  "successor_epochs (BkBackoff f n r t d) \<longleftrightarrow> checked_add f 1 = Some n"
| "successor_epochs (BkRefreshing f n r t d s) \<longleftrightarrow> checked_add f 1 = Some n"
| "successor_epochs _ \<longleftrightarrow> True"

definition broker_wf :: "broker_machine \<Rightarrow> bool" where
  "broker_wf m \<longleftrightarrow> backoff_valid (bm_backoff m) \<and> successor_epochs (bm_state m)"

lemma broker_new_wf: "backoff_valid p \<Longrightarrow> broker_wf (broker_new e p)"
  by (simp add: broker_wf_def broker_new_def)

lemma broker_policy_fixed [simp]: "bm_backoff (fst (broker_apply m i)) = bm_backoff m"
  by (cases i; cases "bm_state m") (auto simp: bk_defs split: option.split address_refresh_state.split)

lemma broker_successor:
  "successor_epochs (bm_state m) \<Longrightarrow> successor_epochs (bm_state (fst (broker_apply m i)))"
  by (cases i; cases "bm_state m") (auto simp: bk_defs split: option.split address_refresh_state.split)

interpretation broker_inv: machine_invariant broker_apply broker_wf
  by unfold_locales (simp add: broker_wf_def broker_successor)

lemma recovery_after_Inr:
  assumes "recovery_after m epoch reconnect = Inr g"
  shows "broker_abs (bm_state m) = LcAttempt (unat epoch) \<or> broker_abs (bm_state m) = LcUp (unat epoch)"
    "checked_add epoch 1 = Some (rg_next_epoch g)"
    "unat (rg_deadline g) =
       unat (rs_now reconnect) + backoff_delay (bm_backoff m) (rg_retry g) (rs_jitter reconnect)"
  using assms
  by (cases "bm_state m";
      auto simp: recovery_after_def dest!: moment_checked_add_unat split: if_splits option.splits)+

lemma recovery_after_Inl:
  assumes "recovery_after m epoch reconnect = Inl r"
  shows "r = bk_stale m \<or> (\<exists>reason. r = bk_close m reason)"
  using assms
  by (cases "bm_state m") (auto simp: recovery_after_def split: if_splits option.splits)

section \<open>Refinement\<close>

abbreviation lc_step :: "broker_machine \<Rightarrow> broker_input \<Rightarrow> broker_step \<Rightarrow> bool" where
  "lc_step m i result \<equiv>
     lifecycle_step (bm_backoff m) (broker_abs (bm_state m)) (map_option unat (input_moment i))
       (map unat (opened_epochs (snd result))) (broker_abs (bm_state (fst result)))"

lemma lc_stale: "lc_step m i (bk_stale m)" "lc_step m i (bk_ignored m)" "lc_step m i (bk_close m reason)"
  by (simp_all add: opened_epochs_def bk_close_def stay finish)

lemma recovery_refines:
  assumes "i = BkConnectionFailed epoch reconnect \<or> i = BkEndpointExhausted epoch reconnect"
  shows "lc_step m i (broker_apply m i)"
proof (cases "recovery_after m epoch reconnect")
  case (Inl r)
  then have "broker_apply m i = r"
    using assms by (auto simp: bk_connection_failed_def bk_endpoint_exhausted_def)
  then show ?thesis using recovery_after_Inl [OF Inl] lc_stale by auto
next
  case (Inr g)
  have "lifecycle_step (bm_backoff m) (broker_abs (bm_state m)) (Some (unat (rs_now reconnect))) []
      (LcWaiting (unat epoch) (unat (rg_deadline g)))"
    using recovery_after_Inr(1,3) [OF Inr] by (rule lose)
  then show ?thesis
    using assms Inr
    by (auto simp: bk_connection_failed_def bk_endpoint_exhausted_def opened_epochs_def)
qed

lemma successor_unat: "checked_add f 1 = Some n \<Longrightarrow> unat n = Suc (unat (f :: u64))"
  by (drule checked_add_unat) simp

lemma reopen_refines:
  assumes "successor_epochs (bm_state m)"
    and "i = BkEndpointRefreshed failed_epoch now \<or> i = BkReconnectElapsed failed_epoch timer_id now"
  shows "lc_step m i (broker_apply m i)"
  using assms
  by (cases "bm_state m")
     (auto simp: bk_endpoint_refreshed_def bk_reconnect_elapsed_def opened_epochs_def successor_unat
       word_le_nat_alt not_less intro: stay reopen split: address_refresh_state.split)

lemma other_refines:
  assumes "input_moment i = None"
  shows "lc_step m i (broker_apply m i)"
  using assms
  by (cases i; cases "bm_state m")
     (auto simp: bk_defs opened_epochs_def
       intro: stay launch establish finish wind
       split: address_refresh_state.split option.split)

text \<open>The lifecycle as a specification of inputs and transitions.\<close>

definition lifecycle_spec ::
    "backoff_policy \<Rightarrow> broker_input \<Rightarrow> broker_transition \<Rightarrow> lifecycle \<Rightarrow> lifecycle \<Rightarrow> bool" where
  "lifecycle_spec p i t s s' \<longleftrightarrow>
     lifecycle_step p s (map_option unat (input_moment i)) (map unat (opened_epochs t)) s'"

lemma broker_simulates:
  assumes "broker_wf m"
  shows "lc_step m i (broker_apply m i)"
proof (cases "input_moment i")
  case None
  then show ?thesis by (rule other_refines)
next
  case (Some now)
  then consider (lost) epoch reconnect where
      "i = BkConnectionFailed epoch reconnect \<or> i = BkEndpointExhausted epoch reconnect"
    | (waited) failed_epoch timer_id where
      "i = BkEndpointRefreshed failed_epoch now \<or> i = BkReconnectElapsed failed_epoch timer_id now"
    by (cases i) auto
  then show ?thesis
  proof cases
    case lost
    then show ?thesis by (rule recovery_refines)
  next
    case waited
    then show ?thesis using assms by (intro reopen_refines) (auto simp: broker_wf_def)
  qed
qed

interpretation broker_simulation: simulating_machine broker_apply
  "\<lambda>m. broker_wf m \<and> bm_backoff m = p" "\<lambda>m. broker_abs (bm_state m)" "lifecycle_spec p" for p
proof
  show "broker_wf (fst (broker_apply m i)) \<and> bm_backoff (fst (broker_apply m i)) = p"
    if "broker_wf m \<and> bm_backoff m = p" for m i
    using that broker_inv.step_keeps by simp
  show "lifecycle_spec p i (snd (broker_apply m i)) (broker_abs (bm_state m))
      (broker_abs (bm_state (fst (broker_apply m i))))" if "broker_wf m \<and> bm_backoff m = p" for m i
    using that broker_simulates [of m i] by (simp add: lifecycle_spec_def)
qed

section \<open>Refinement of the lifecycle\<close>

text \<open>
  C12. The broker machine refines the abstract lifecycle: any run from a new machine is a path of
  the lifecycle with the connections it opens as the outputs of its steps. In particular a waiting
  broker opens only the successor of the failed epoch, and only once the deadline, the failure
  moment plus the policy's delay, has passed.
\<close>

theorem broker_refines_lifecycle:
  assumes "backoff_valid p"
  shows "spec_path (lifecycle_spec p) (LcIdle (unat e))
    (zip is (outputs broker_apply (broker_new e p) is))
    (broker_abs (bm_state (final broker_apply (broker_new e p) is)))"
  using broker_simulation.run_simulates [of "broker_new e p" p "is"] broker_new_wf [OF assms]
  by (simp add: broker_new_def)

definition sample_broker :: "broker_input list" where
  "sample_broker = [BkStart, BkConnectionReady 7, BkBeginDrain]"

theorem broker_refines_lifecycle_witness:
  "spec_path (lifecycle_spec backoff_default) (LcIdle 7)
     [(BkStart, [BkOpenConnection 7], BkApplied), (BkConnectionReady 7, [], BkApplied),
      (BkBeginDrain, [BkDrainConnection 7], BkApplied)] (LcWinding 7)"
proof -
  have "zip sample_broker (outputs broker_apply (broker_new 7 backoff_default) sample_broker) =
      [(BkStart, [BkOpenConnection 7], BkApplied), (BkConnectionReady 7, [], BkApplied),
       (BkBeginDrain, [BkDrainConnection 7], BkApplied)]"
    and "broker_abs (bm_state (final broker_apply (broker_new 7 backoff_default) sample_broker)) = LcWinding 7"
    and "unat (7 :: u64) = 7"
    by code_simp+
  then show ?thesis
    using broker_refines_lifecycle [OF backoff_default_valid, of 7 sample_broker] by simp
qed

section \<open>Consecutive epochs\<close>

fun lc_next :: "lifecycle \<Rightarrow> nat" where
  "lc_next (LcIdle e) = e"
| "lc_next (LcAttempt e) = Suc e"
| "lc_next (LcUp e) = Suc e"
| "lc_next (LcWaiting e d) = Suc e"
| "lc_next (LcWinding e) = Suc e"
| "lc_next LcDone = 0"

lemma lifecycle_step_next:
  assumes "lifecycle_step p s t os s'"
  shows "(os = [] \<and> (lc_next s' = lc_next s \<or> s' = LcDone)) \<or> (os = [lc_next s] \<and> lc_next s' = Suc (lc_next s))"
  using assms by cases auto

lemma lifecycle_done: "lifecycle_step p LcDone t os s' \<Longrightarrow> os = [] \<and> s' = LcDone"
  by (auto elim: lifecycle_stepE)

lemma lifecycle_path_done:
  "spec_path (lifecycle_spec p) LcDone trace s \<Longrightarrow> concat (map (\<lambda>x. opened_epochs (snd x)) trace) = []"
proof (induction trace)
  case (Cons x trace)
  then show ?case
    by (cases x) (auto simp: lifecycle_spec_def dest: lifecycle_done)
qed simp

lemma lifecycle_path_consecutive:
  "spec_path (lifecycle_spec p) s trace s' \<Longrightarrow>
   \<exists>k. map unat (concat (map (\<lambda>x. opened_epochs (snd x)) trace)) = [lc_next s ..< lc_next s + k]"
proof (induction trace arbitrary: s)
  case (Cons x trace)
  obtain i t where x: "x = (i, t)" by (cases x)
  obtain b where spec: "lifecycle_spec p i t s b" and b: "spec_path (lifecycle_spec p) b trace s'"
    using Cons.prems by (auto simp: x)
  note step = spec [unfolded lifecycle_spec_def]
  obtain k where k: "map unat (concat (map (\<lambda>x. opened_epochs (snd x)) trace)) = [lc_next b ..< lc_next b + k]"
    using Cons.IH [OF b] by blast
  from lifecycle_step_next [OF step] show ?case
  proof (elim disjE conjE)
    assume "map unat (opened_epochs t) = [lc_next s]" "lc_next b = Suc (lc_next s)"
    then show ?thesis using k by (intro exI [of _ "Suc k"]) (simp add: x upt_conv_Cons del: upt_Suc)
  next
    assume "map unat (opened_epochs t) = []" "b = LcDone"
    then show ?thesis
      using lifecycle_path_done b by (intro exI [of _ 0]) (simp add: x)
  qed (use k in \<open>auto simp: x\<close>)
qed (auto intro: exI [of _ 0])

text \<open>
  C14. Over any run the broker opens its connections with consecutive epochs from the initial one:
  no epoch is reused and none is skipped, so a stale completion can always be told apart.
\<close>

theorem broker_epochs_consecutive:
  assumes "backoff_valid p"
  shows "\<exists>k. map unat (observed opened_epochs broker_apply (broker_new e p) is) =
    [unat e ..< unat e + k]"
proof -
  have "concat (map (\<lambda>x. opened_epochs (snd x)) (zip is (outputs broker_apply (broker_new e p) is))) =
      observed opened_epochs broker_apply (broker_new e p) is"
    by (simp add: map_snd_zip_comp)
  moreover have "spec_path (lifecycle_spec p) (LcIdle (unat e))
      (zip is (outputs broker_apply (broker_new e p) is))
      (broker_abs (bm_state (final broker_apply (broker_new e p) is)))"
    using broker_simulation.run_simulates [of "broker_new e p" p "is"] broker_new_wf [OF assms]
    by (simp add: broker_new_def)
  ultimately show ?thesis using lifecycle_path_consecutive by fastforce
qed

theorem broker_epochs_consecutive_witness:
  "observed opened_epochs broker_apply (broker_new 7 backoff_default) sample_broker = [7] \<and>
   (\<exists>k. map unat (observed opened_epochs broker_apply (broker_new 7 backoff_default) sample_broker) =
     [unat (7 :: u64) ..< unat (7 :: u64) + k])"
proof (rule conjI)
  show "observed opened_epochs broker_apply (broker_new 7 backoff_default) sample_broker = [7]"
    by code_simp
qed (rule broker_epochs_consecutive [OF backoff_default_valid])

section \<open>Timers\<close>

datatype broker_timer = ReconnectTimer timer_id | RefreshTimer timer_id

fun armed_timers :: "broker_state \<Rightarrow> broker_timer list" where
  "armed_timers (BkBackoff f n r t d) = [ReconnectTimer t]"
| "armed_timers (BkRefreshing f n r t d (RefreshBackoff r' t' d')) = [RefreshTimer t']"
| "armed_timers _ = []"

definition scheduled_timers :: "broker_transition \<Rightarrow> broker_timer list" where
  "scheduled_timers t = concat (map (\<lambda>e. case e of
       BkScheduleReconnect f timer_id at \<Rightarrow> [ReconnectTimer timer_id]
     | BkScheduleEndpointRefreshRetry f timer_id at \<Rightarrow> [RefreshTimer timer_id]
     | _ \<Rightarrow> []) (fst t))"

definition retired_timers :: "broker_input \<Rightarrow> broker_transition \<Rightarrow> broker_timer list" where
  "retired_timers i t =
     (case i of
        BkReconnectElapsed f timer_id now \<Rightarrow> [ReconnectTimer timer_id]
      | BkEndpointRefreshRetryElapsed f timer_id now \<Rightarrow> [RefreshTimer timer_id]
      | _ \<Rightarrow> []) @
     concat (map (\<lambda>e. case e of
       BkCancelReconnect timer_id \<Rightarrow> [ReconnectTimer timer_id]
     | BkCancelEndpointRefreshRetry timer_id \<Rightarrow> [RefreshTimer timer_id]
     | _ \<Rightarrow> []) (fst t))"

interpretation broker_timers: releasing_machine broker_apply "\<lambda>_. True"
  "\<lambda>m. armed_timers (bm_state m)" scheduled_timers retired_timers
proof
  fix m i
  show "set (armed_timers (bm_state m)) \<union> set (scheduled_timers (snd (broker_apply m i))) \<subseteq>
      set (armed_timers (bm_state (fst (broker_apply m i)))) \<union>
      set (retired_timers i (snd (broker_apply m i)))"
    by (cases i; cases "bm_state m" rule: armed_timers.cases)
       (auto simp: bk_defs scheduled_timers_def retired_timers_def split: option.split)
qed simp

text \<open>
  Every reconnect or refresh timer the broker schedules is accounted for: it is the one armed
  in the current state, or it was cancelled by an effect, or its elapsed input has arrived.
\<close>

theorem broker_timers_accounted:
  "set (observed scheduled_timers broker_apply (broker_new e p) is) \<subseteq>
     set (armed_timers (bm_state (final broker_apply (broker_new e p) is))) \<union>
     set (concat (map2 retired_timers is (outputs broker_apply (broker_new e p) is)))"
  using broker_timers.run_releases [of "broker_new e p" "is"] by simp

section \<open>Liveness\<close>

text \<open>The inputs that take a live broker to an established connection.\<close>

fun recovery_inputs :: "broker_state \<Rightarrow> broker_input list" where
  "recovery_inputs (BkDormant e) = [BkStart, BkConnectionReady e]"
| "recovery_inputs (BkConnecting e r) = [BkConnectionReady e]"
| "recovery_inputs (BkAvailable e) = []"
| "recovery_inputs (BkBackoff f n r t d) = [BkReconnectElapsed f t d, BkConnectionReady n]"
| "recovery_inputs (BkRefreshing f n r t d (RefreshResolving l)) =
     [BkEndpointRefreshed f d, BkConnectionReady n]"
| "recovery_inputs (BkRefreshing f n r t d (RefreshPending l)) =
     [BkEndpointRefreshStarted f, BkEndpointRefreshed f d, BkConnectionReady n]"
| "recovery_inputs (BkRefreshing f n r t d (RefreshBackoff r' t' d')) =
     [BkEndpointRefreshRetryElapsed f t' d', BkEndpointRefreshStarted f,
      BkEndpointRefreshed f d, BkConnectionReady n]"
| "recovery_inputs (BkDraining e) = []"
| "recovery_inputs (BkClosed reason) = []"

text \<open>
  C15. No live state is stuck: a broker that is neither draining nor closed reaches an established
  connection by at most four inputs, its due timers, a refreshed endpoint and readiness.
\<close>

theorem broker_recovers:
  "broker_state_phase (bm_state m) \<in> {BpDraining, BpClosed} \<or>
   (length (recovery_inputs (bm_state m)) \<le> 4 \<and>
    broker_state_phase (bm_state (final broker_apply m (recovery_inputs (bm_state m)))) = BpAvailable)"
  by (cases "bm_state m" rule: recovery_inputs.cases) (simp_all add: bk_defs)

section \<open>Backoff counts consecutive failures\<close>

fun failure_count :: "nat \<Rightarrow> (broker_input \<times> broker_transition) list \<Rightarrow> nat" where
  "failure_count n [] = n"
| "failure_count n ((i, effects, d) # rest) =
     failure_count (if d \<noteq> BkApplied then n
       else case i of
         BkConnectionReady epoch \<Rightarrow> 0
       | BkConnectionFailed epoch reconnect \<Rightarrow> Suc n
       | BkEndpointExhausted epoch reconnect \<Rightarrow> Suc n
       | _ \<Rightarrow> n) rest"

fun counts_failures :: "broker_state \<Rightarrow> nat \<Rightarrow> bool" where
  "counts_failures (BkDormant e) n \<longleftrightarrow> n = 0"
| "counts_failures (BkConnecting e None) n \<longleftrightarrow> n = 0"
| "counts_failures (BkConnecting e (Some r)) n \<longleftrightarrow> unat r = n"
| "counts_failures (BkAvailable e) n \<longleftrightarrow> n = 0"
| "counts_failures (BkBackoff f nx r t d) n \<longleftrightarrow> unat r = n"
| "counts_failures (BkRefreshing f nx r t d s) n \<longleftrightarrow> unat r = n"
| "counts_failures _ n \<longleftrightarrow> True"

lemma next_ordinal_unat:
  "next_ordinal previous = Some r \<Longrightarrow> unat r = Suc (case previous of None \<Rightarrow> 0 | Some l \<Rightarrow> unat l)"
  by (auto simp: next_ordinal_def retry_first_def retry_succ.succ_ordinal split: option.splits)

lemma counts_failures_step:
  assumes "counts_failures (bm_state m) n"
  shows "counts_failures (bm_state (fst (broker_apply m i)))
    (failure_count n [(i, snd (broker_apply m i))])"
  using assms
  by (cases i; cases "(bm_state m, n)" rule: counts_failures.cases)
     (auto simp: bk_defs retry_first_def dest!: next_ordinal_unat
       split: option.split address_refresh_state.split)

text \<open>The failure that the machine applied last, with the epoch it ended.\<close>

fun note_failure ::
    "(connection_epoch \<times> reconnect_schedule) option \<Rightarrow> broker_input \<times> broker_transition \<Rightarrow>
     (connection_epoch \<times> reconnect_schedule) option" where
  "note_failure latest (i, effects, d) =
     (if d \<noteq> BkApplied then latest
      else case i of
        BkConnectionFailed epoch reconnect \<Rightarrow> Some (epoch, reconnect)
      | BkEndpointExhausted epoch reconnect \<Rightarrow> Some (epoch, reconnect)
      | _ \<Rightarrow> latest)"

definition last_failure ::
    "(broker_input \<times> broker_transition) list \<Rightarrow> (connection_epoch \<times> reconnect_schedule) option" where
  "last_failure past = foldl note_failure None past"

text \<open>The deadline of a waiting broker comes from that failure.\<close>

definition waits_for ::
    "broker_machine \<Rightarrow> (connection_epoch \<times> reconnect_schedule) option \<Rightarrow> connection_epoch \<Rightarrow> retry_ordinal \<Rightarrow>
     moment \<Rightarrow> bool" where
  "waits_for m latest failed retry deadline \<longleftrightarrow>
     (case latest of
        None \<Rightarrow> False
      | Some (epoch, reconnect) \<Rightarrow>
          epoch = failed \<and>
          moment_checked_add (rs_now reconnect)
            (backoff_delay (bm_backoff m) retry (rs_jitter reconnect)) = Some deadline)"

definition waits_truthfully ::
    "broker_machine \<Rightarrow> (connection_epoch \<times> reconnect_schedule) option \<Rightarrow> bool" where
  "waits_truthfully m latest \<longleftrightarrow>
     (case bm_state m of
        BkBackoff f n r t d \<Rightarrow> waits_for m latest f r d
      | BkRefreshing f n r t d s \<Rightarrow> waits_for m latest f r d
      | _ \<Rightarrow> True)"

lemma waits_for_policy: "waits_for m latest f r d \<Longrightarrow> bm_backoff m' = bm_backoff m \<Longrightarrow> waits_for m' latest f r d"
  by (auto simp: waits_for_def split: option.splits)

lemma recovery_waits:
  assumes "recovery_after m epoch reconnect = Inr g" "bm_backoff m' = bm_backoff m"
  shows "waits_for m' (Some (epoch, reconnect)) epoch (rg_retry g) (rg_deadline g)"
  using assms
  by (cases "bm_state m")
     (auto simp: waits_for_def recovery_after_def split: if_splits option.splits)

lemma waits_truthfully_step:
  assumes "waits_truthfully m latest"
  shows "waits_truthfully (fst (broker_apply m i)) (note_failure latest (i, snd (broker_apply m i)))"
proof (cases "\<exists>epoch reconnect. i = BkConnectionFailed epoch reconnect \<or> i = BkEndpointExhausted epoch reconnect")
  case True
  then obtain epoch reconnect where i: "i = BkConnectionFailed epoch reconnect \<or> i = BkEndpointExhausted epoch reconnect"
    by blast
  show ?thesis
  proof (cases "recovery_after m epoch reconnect")
    case (Inl r)
    then have step: "broker_apply m i = r"
      using i by (auto simp: bk_connection_failed_def bk_endpoint_exhausted_def)
    have "fst r = m \<and> note_failure latest (i, snd r) = latest \<or> (\<exists>reason. bm_state (fst r) = BkClosed reason)"
      using recovery_after_Inl [OF Inl] by (auto simp: bk_close_def)
    then show ?thesis
      unfolding step by (elim disjE conjE exE) (simp_all only: assms, simp add: waits_truthfully_def)
  next
    case (Inr g)
    from recovery_waits [OF Inr, of "fst (broker_apply m i)"] i Inr show ?thesis
      by (auto simp: waits_truthfully_def bk_connection_failed_def bk_endpoint_exhausted_def)
  qed
next
  case False
  then have "note_failure latest (i, snd (broker_apply m i)) = latest"
    by (cases "snd (broker_apply m i)") (simp split: broker_input.split)
  then show ?thesis
    using assms False
    by (cases i; cases "bm_state m")
       (auto simp: bk_defs waits_truthfully_def intro: waits_for_policy
         split: option.split address_refresh_state.split)
qed

lemma broker_history:
  assumes "waits_truthfully m latest" "counts_failures (bm_state m) n" "broker_wf m"
  shows "waits_truthfully (final broker_apply m is) (foldl note_failure latest (zip is (outputs broker_apply m is))) \<and>
    counts_failures (bm_state (final broker_apply m is))
      (failure_count n (zip is (outputs broker_apply m is))) \<and>
    bm_backoff (final broker_apply m is) = bm_backoff m \<and> broker_wf (final broker_apply m is)"
  using assms
proof (induction "is" arbitrary: m latest n)
  case (Cons i js)
  have "failure_count n (zip (i # js) (outputs broker_apply m (i # js))) =
      failure_count (failure_count n [(i, snd (broker_apply m i))])
        (zip js (outputs broker_apply (fst (broker_apply m i)) js))"
    by (cases "snd (broker_apply m i)") simp
  with Cons.IH [OF waits_truthfully_step [OF Cons.prems(1)] counts_failures_step [OF Cons.prems(2)]
      broker_inv.step_keeps [OF Cons.prems(3)], of i]
  show ?case by simp
qed simp

text \<open>
  C13. Backoff is honoured: apart from the first attempt, a connection is opened only for the epoch that
  follows the one whose failure the machine applied last, and only at a moment later than that
  failure by at least the policy's delay for the number of failures since the broker was last
  available.
\<close>

theorem broker_backs_off:
  assumes "backoff_valid p" "m = final broker_apply (broker_new e p) is"
    and "past = zip is (outputs broker_apply (broker_new e p) is)"
    and "BkOpenConnection epoch \<in> set (fst (snd (broker_apply m i)))" and "i \<noteq> BkStart"
  shows "\<exists>failed reconnect retry now.
    last_failure past = Some (failed, reconnect) \<and> unat epoch = Suc (unat failed) \<and>
    input_moment i = Some now \<and> rs_now reconnect < now \<and>
    unat (rs_now reconnect) + backoff_delay p retry (rs_jitter reconnect) \<le> unat now \<and>
    unat retry = failure_count 0 past"
proof -
  have "waits_truthfully (broker_new e p) None" "counts_failures (bm_state (broker_new e p)) 0" "broker_wf (broker_new e p)"
    using broker_new_wf [OF assms(1)] by (simp_all add: waits_truthfully_def broker_new_def)
  from broker_history [OF this, of "is"]
  have h: "waits_truthfully m (last_failure past)" "bm_backoff m = p" "broker_wf m"
    "counts_failures (bm_state m) (failure_count 0 past)"
    by (simp_all add: assms(2,3) broker_new_def last_failure_def)
  have "\<exists>f retry deadline now. waits_for m (last_failure past) f retry deadline \<and> checked_add f 1 = Some epoch \<and>
      input_moment i = Some now \<and> deadline \<le> now \<and> unat retry = failure_count 0 past"
    using assms(4,5) h(1,3,4)
    by (cases i; cases "bm_state m")
       (auto simp: bk_defs waits_truthfully_def broker_wf_def not_less
         split: if_splits option.splits address_refresh_state.splits)
  then obtain f retry deadline now reconnect where w:
    "last_failure past = Some (f, reconnect)" "checked_add f 1 = Some epoch"
    "moment_checked_add (rs_now reconnect) (backoff_delay p retry (rs_jitter reconnect)) = Some deadline"
    "input_moment i = Some now" "deadline \<le> now" "unat retry = failure_count 0 past"
    by (auto simp: waits_for_def h(2) split: option.splits)
  have "unat (rs_now reconnect) + backoff_delay p retry (rs_jitter reconnect) \<le> unat now"
    using moment_checked_add_unat [OF w(3)] w(5) by (simp add: word_le_nat_alt)
  moreover from this have "rs_now reconnect < now"
    using backoff_delays.delay_positive [OF assms(1), of retry "rs_jitter reconnect"]
    by (simp add: word_less_nat_alt)
  moreover have "unat epoch = Suc (unat f)" using checked_add_unat [OF w(2)] by simp
  ultimately show ?thesis using w(1,4,6) by blast
qed

text \<open>A failure, a reconnect, a connection, and a second failure much later: only that one counts.\<close>

definition sample_policy :: backoff_policy where
  "sample_policy = \<lparr>bp_base_nanos = 10, bp_max_nanos = 40\<rparr>"

definition sample_failures :: "broker_input list" where
  "sample_failures =
     [BkStart, BkConnectionFailed 7 \<lparr>rs_timer_id = 4, rs_now = 100, rs_jitter = 0\<rparr>,
      BkReconnectElapsed 7 4 105, BkConnectionReady 8,
      BkConnectionFailed 8 \<lparr>rs_timer_id = 5, rs_now = 200, rs_jitter = 0\<rparr>,
      BkConnectionFailed 7 \<lparr>rs_timer_id = 6, rs_now = 201, rs_jitter = 0\<rparr>]"

theorem broker_backs_off_witness:
  "last_failure (zip sample_failures (outputs broker_apply (broker_new 7 sample_policy) sample_failures)) =
     Some (8, \<lparr>rs_timer_id = 5, rs_now = 200, rs_jitter = 0\<rparr>) \<and>
   200 + backoff_delay sample_policy 1 0 \<le> 205"
proof -
  let ?past = "zip sample_failures (outputs broker_apply (broker_new 7 sample_policy) sample_failures)"
  define m where "m = final broker_apply (broker_new 7 sample_policy) sample_failures"
  have valid: "backoff_valid sample_policy" by (simp add: backoff_valid_def sample_policy_def)
  have delay: "backoff_delay sample_policy 1 0 = 5"
    by (simp add: backoff_delay_nat backoff_cap_def sample_policy_def)
  note run = sample_failures_def broker_new_def bk_defs next_ordinal_def retry_first_def moment_checked_add_def
    checked_add_def delay
  have failure: "last_failure ?past = Some (8, \<lparr>rs_timer_id = 5, rs_now = 200, rs_jitter = 0\<rparr>)"
    "failure_count 0 ?past = 1"
    by (simp_all add: run last_failure_def)
  have "BkOpenConnection 9 \<in> set (fst (snd (broker_apply m (BkReconnectElapsed 8 5 205))))"
    by (simp add: m_def run)
  from broker_backs_off [OF valid m_def refl this] obtain retry where
    "200 + backoff_delay sample_policy retry 0 \<le> 205" "unat retry = 1"
    using failure by auto
  moreover from this(2) have "retry = 1" by (metis unat_1 unsigned_word_eqI)
  ultimately show ?thesis using failure by simp
qed

end
