(* ===== verification/Frame.thy ===== *)
theory Frame
  imports Identity
begin

text \<open>
  The bounded incremental frame decoder of \<open>kafka-driver-transport\<close> (\<open>frame/\<close>): bytes are fed as
  the transport delivers them and complete length-prefixed frames are taken out. The encoding of
  a frame is a specification here; the theory shows that, whatever the chunks, the decoder
  delivers exactly the frames of the byte stream, in order, and that it never stalls.
\<close>

section \<open>Limits and errors\<close>

definition length_prefix_bytes :: usize where
  "length_prefix_bytes = 4"

record frame_limits =
  fl_max_frame_bytes :: usize
  fl_max_buffered_bytes :: usize

datatype frame_limits_error =
    FrameExceedsProtocolMaximum usize usize
  | BufferCannotHoldMaximumFrame usize usize

definition frame_limits_new :: "usize \<Rightarrow> usize \<Rightarrow> frame_limits_error + frame_limits" where
  "frame_limits_new max_frame_bytes max_buffered_bytes =
     (let maximum_protocol_frame = 2147483647 in
      if maximum_protocol_frame < max_frame_bytes
        then Inl (FrameExceedsProtocolMaximum max_frame_bytes maximum_protocol_frame)
      else case usize_checked_add max_frame_bytes length_prefix_bytes of
        None \<Rightarrow> Inl (FrameExceedsProtocolMaximum max_frame_bytes maximum_protocol_frame)
      | Some required \<Rightarrow>
          (if max_buffered_bytes < required
             then Inl (BufferCannotHoldMaximumFrame required max_buffered_bytes)
           else Inr \<lparr>fl_max_frame_bytes = max_frame_bytes, fl_max_buffered_bytes = max_buffered_bytes\<rparr>))"

definition frame_limits_default :: frame_limits where
  "frame_limits_default =
     \<lparr>fl_max_frame_bytes = 128 * 1024 * 1024,
      fl_max_buffered_bytes = 128 * 1024 * 1024 + length_prefix_bytes\<rparr>"

datatype frame_decode_error =
    DecoderFailed
  | BufferCapacityExceeded usize usize usize
  | NegativeFrameLength i32
  | FrameTooLarge usize usize

section \<open>The decoder\<close>

type_synonym bytes = "u8 list"

record frame_decoder =
  fd_limits :: frame_limits
  fd_buffered :: bytes
  fd_failed :: bool

definition frame_decoder_new :: "frame_limits \<Rightarrow> frame_decoder" where
  "frame_decoder_new limits = \<lparr>fd_limits = limits, fd_buffered = [], fd_failed = False\<rparr>"

definition feed :: "frame_decoder \<Rightarrow> bytes \<Rightarrow> frame_decoder \<times> (frame_decode_error + unit)" where
  "feed d input =
     (if fd_failed d then (d, Inl DecoderFailed)
      else case usize_checked_add (length (fd_buffered d)) (length input) of
        Some accepted \<Rightarrow>
          (if fl_max_buffered_bytes (fd_limits d) < accepted
             then (d, Inl (BufferCapacityExceeded (length (fd_buffered d)) (length input)
                             (fl_max_buffered_bytes (fd_limits d))))
           else (d\<lparr>fd_buffered := fd_buffered d @ input\<rparr>, Inr ()))
      | None \<Rightarrow> (d, Inl (BufferCapacityExceeded (length (fd_buffered d)) (length input)
                           (fl_max_buffered_bytes (fd_limits d)))))"

text \<open>\<open>i32::from_be_bytes\<close> of the first four bytes: the unsigned value, read in two's complement.\<close>

definition be_value :: "bytes \<Rightarrow> int" where
  "be_value octets = foldl (\<lambda>acc b. acc * 256 + uint b) 0 octets"

definition i32_from_be_bytes :: "bytes \<Rightarrow> i32" where
  "i32_from_be_bytes octets =
     (if be_value octets < 2 ^ 31 then be_value octets else be_value octets - 2 ^ 32)"

definition decoder_fail ::
    "frame_decoder \<Rightarrow> frame_decode_error \<Rightarrow> frame_decoder \<times> (frame_decode_error + 'a)" where
  "decoder_fail d error = (d\<lparr>fd_failed := True\<rparr>, Inl error)"

definition next_frame :: "frame_decoder \<Rightarrow> frame_decoder \<times> (frame_decode_error + bytes option)" where
  "next_frame d =
     (if fd_failed d then (d, Inl DecoderFailed)
      else if length (fd_buffered d) < length_prefix_bytes then (d, Inr None)
      else let signed_length = i32_from_be_bytes (take length_prefix_bytes (fd_buffered d)) in
        if signed_length < 0 then decoder_fail d (NegativeFrameLength signed_length)
        else let len = nat signed_length in
          if fl_max_frame_bytes (fd_limits d) < len
            then decoder_fail d (FrameTooLarge len (fl_max_frame_bytes (fd_limits d)))
          else let total = length_prefix_bytes + len in
            if length (fd_buffered d) < total then (d, Inr None)
            else (d\<lparr>fd_buffered := drop total (fd_buffered d)\<rparr>,
                  Inr (Some (drop length_prefix_bytes (take total (fd_buffered d))))))"

section \<open>The framing the decoder inverts\<close>

definition be_bytes :: "nat \<Rightarrow> bytes" where
  "be_bytes n = map (\<lambda>k. of_nat (n div 256 ^ k)) [3, 2, 1, 0]"

definition encode_frame :: "bytes \<Rightarrow> bytes" where
  "encode_frame body = be_bytes (length body) @ body"

lemma length_be_bytes [simp]: "length (be_bytes n) = 4"
  by (simp add: be_bytes_def)

lemma be_value_be_bytes:
  assumes "n < 2 ^ 32"
  shows "be_value (be_bytes n) = int n"
proof -
  have b: "uint (of_nat k :: u8) = int (k mod 256)" for k
    by (simp add: unsigned_of_nat take_bit_eq_mod of_nat_mod)
  have split: "m div 256 * 256 + m mod 256 = m" for m :: nat by simp
  have d: "n div 65536 = n div 256 div 256" "n div 16777216 = n div 65536 div 256"
    using div_mult2_eq [of n 256 256] div_mult2_eq [of n 65536 256] by simp_all
  have "n div 16777216 < 256" using assms by (simp add: div_less_iff_less_mult)
  then have t: "n div 16777216 mod 256 = n div 16777216" by simp
  have "((n div 16777216 mod 256 * 256 + n div 65536 mod 256) * 256 + n div 256 mod 256) * 256 + n mod 256 = n"
    unfolding t by (simp only: d(2) split) (simp only: d(1) split)
  moreover have "be_value (be_bytes n) =
      int (((n div 16777216 mod 256 * 256 + n div 65536 mod 256) * 256 + n div 256 mod 256) * 256 + n mod 256)"
    by (simp add: be_value_def be_bytes_def b t)
  ultimately show ?thesis by (simp only:)
qed

lemma be_value_nat:
  "be_value [a, b, c, d] =
     int (((unat a * 256 + unat b) * 256 + unat c) * 256 + unat d)"
  by (simp add: be_value_def)

lemma be_bytes_be_value:
  assumes "length octets = 4"
  shows "be_bytes (nat (be_value octets)) = octets"
proof -
  obtain a b c d where p: "octets = [a, b, c, d]"
    using assms by (auto simp: numeral_eq_Suc length_Suc_conv)
  have l: "unat x < 256" for x :: u8
    using unsigned_less [of x, where ?'a = nat] by simp
  define n where "n = ((unat a * 256 + unat b) * 256 + unat c) * 256 + unat d"
  have "n div 256 = (unat a * 256 + unat b) * 256 + unat c"
    using l [of d] by (simp add: n_def)
  moreover from this have "n div 65536 = unat a * 256 + unat b"
    using l [of c] div_mult2_eq [of n 256 256] by simp
  moreover from this have "n div 16777216 = unat a"
    using l [of b] div_mult2_eq [of n 65536 256] by simp
  ultimately have "be_bytes n = [of_nat (unat a), of_nat (unat a * 256 + unat b),
      of_nat ((unat a * 256 + unat b) * 256 + unat c), of_nat n]"
    by (simp add: be_bytes_def)
  moreover have low: "of_nat (k * 256 + unat x) = x" for k and x :: u8
  proof -
    have "of_nat (k * 256 + unat x) = of_nat k * (256 :: u8) + x" by simp
    moreover have "(256 :: u8) = 0" by simp
    ultimately show ?thesis by (metis add_0 mult_zero_right)
  qed
  moreover have "of_nat n = d" unfolding n_def by (rule low)
  moreover have "of_nat (unat a) = a" by simp
  ultimately have "be_bytes n = [a, b, c, d]" by (simp only: low)
  then show ?thesis by (simp only: p be_value_nat n_def nat_int)
qed

section \<open>One step of the decoder\<close>

lemma i32_from_be_bytes_nonneg:
  assumes "length octets = 4" "0 \<le> i32_from_be_bytes octets"
  shows "be_bytes (nat (i32_from_be_bytes octets)) = octets"
proof -
  obtain a b c d where p: "octets = [a, b, c, d]"
    using assms(1) by (auto simp: numeral_eq_Suc length_Suc_conv)
  have l: "uint x < 256" for x :: u8
    using uint_lt2p [of x] by simp
  have "be_value octets < 2 ^ 32"
    using l [of a] l [of b] l [of c] l [of d] by (simp add: p be_value_def)
  then have "i32_from_be_bytes octets = be_value octets"
    using assms(2) by (simp add: i32_from_be_bytes_def split: if_splits)
  then show ?thesis using be_bytes_be_value [OF assms(1)] by simp
qed

lemma next_frame_delivers:
  assumes "next_frame d = (d', Inr (Some body))"
  shows "fd_buffered d = encode_frame body @ fd_buffered d'"
    "length body \<le> fl_max_frame_bytes (fd_limits d)"
    "fd_limits d' = fd_limits d" "\<not> fd_failed d'"
proof -
  let ?p = "take 4 (fd_buffered d)"
  define n where "n = nat (i32_from_be_bytes ?p)"
  have f: "\<not> fd_failed d" "4 \<le> length (fd_buffered d)" "0 \<le> i32_from_be_bytes ?p"
    "n \<le> fl_max_frame_bytes (fd_limits d)" "4 + n \<le> length (fd_buffered d)"
    "d' = d\<lparr>fd_buffered := drop (4 + n) (fd_buffered d)\<rparr>"
    "body = drop 4 (take (4 + n) (fd_buffered d))"
    using assms
    by (auto simp: next_frame_def decoder_fail_def length_prefix_bytes_def Let_def n_def not_less
        split: if_splits)
  have len: "length body = n" using f by simp
  have "be_bytes n = ?p"
    using i32_from_be_bytes_nonneg [of ?p] f by (simp add: n_def)
  moreover have "?p @ body = take (4 + n) (fd_buffered d)"
    unfolding f(7) by (metis append_take_drop_id min.absorb1 le_add1 take_take)
  ultimately show "fd_buffered d = encode_frame body @ fd_buffered d'"
    using f(6) len by (simp add: encode_frame_def)
  show "length body \<le> fl_max_frame_bytes (fd_limits d)" "fd_limits d' = fd_limits d" "\<not> fd_failed d'"
    using f len by simp_all
qed

lemma next_frame_accepts:
  assumes "\<not> fd_failed d" "fd_buffered d = encode_frame body @ rest"
    and "length body \<le> fl_max_frame_bytes (fd_limits d)" "fl_max_frame_bytes (fd_limits d) < 2 ^ 31"
  shows "next_frame d = (d\<lparr>fd_buffered := rest\<rparr>, Inr (Some body))"
proof -
  have "be_value (be_bytes (length body)) = int (length body)"
    using assms(3,4) by (intro be_value_be_bytes) simp
  then have "i32_from_be_bytes (be_bytes (length body)) = int (length body)"
    using assms(3,4) by (simp add: i32_from_be_bytes_def)
  then show ?thesis
    using assms(1-3) by (simp add: next_frame_def encode_frame_def length_prefix_bytes_def Let_def)
qed

lemma next_frame_other:
  assumes "\<forall>b. snd (next_frame d) \<noteq> Inr (Some b)"
  shows "fd_buffered (fst (next_frame d)) = fd_buffered d" "fd_limits (fst (next_frame d)) = fd_limits d"
  using assms by (auto simp: next_frame_def decoder_fail_def Let_def split: if_splits)

section \<open>Runs of the decoder\<close>

datatype frame_op = OpFeed bytes | OpNext

fun frame_apply :: "frame_decoder \<Rightarrow> frame_op \<Rightarrow> frame_decoder \<times> (frame_decode_error + bytes option)" where
  "frame_apply d (OpFeed input) =
     (let (d', r) = feed d input in (d', case r of Inl e \<Rightarrow> Inl e | Inr _ \<Rightarrow> Inr None))"
| "frame_apply d OpNext = next_frame d"

fun fed_bytes :: "frame_op \<Rightarrow> frame_decode_error + bytes option \<Rightarrow> bytes" where
  "fed_bytes (OpFeed input) (Inr _) = input"
| "fed_bytes _ _ = []"

fun delivered :: "frame_decode_error + bytes option \<Rightarrow> bytes list" where
  "delivered (Inr (Some body)) = [body]"
| "delivered _ = []"

definition step_exact :: "frame_decoder \<Rightarrow> bytes \<Rightarrow> frame_decoder \<Rightarrow> bytes list \<Rightarrow> bool" where
  "step_exact d input d' bodies \<longleftrightarrow>
     fd_buffered d @ input = concat (map encode_frame bodies) @ fd_buffered d' \<and>
     fd_limits d' = fd_limits d \<and>
     (\<forall>body\<in>set bodies. length body \<le> fl_max_frame_bytes (fd_limits d))"

lemma feed_exact:
  "step_exact d (fed_bytes (OpFeed input) (snd (frame_apply d (OpFeed input))))
     (fst (frame_apply d (OpFeed input))) (delivered (snd (frame_apply d (OpFeed input))))"
  by (cases "fd_failed d"; cases "usize_checked_add (length (fd_buffered d)) (length input)")
     (simp_all add: feed_def step_exact_def)

lemma next_exact:
  "step_exact d [] (fst (next_frame d)) (delivered (snd (next_frame d)))"
proof (cases "\<exists>body. snd (next_frame d) = Inr (Some body)")
  case True
  then obtain body d' where e: "next_frame d = (d', Inr (Some body))"
    by (cases "next_frame d") auto
  from next_frame_delivers [OF e] show ?thesis by (simp add: e step_exact_def)
next
  case False
  moreover from this have "delivered (snd (next_frame d)) = []"
    by (cases "snd (next_frame d)" rule: delivered.cases) auto
  ultimately show ?thesis using next_frame_other [of d] by (simp add: step_exact_def)
qed

lemma frame_step_exact:
  "step_exact d (fed_bytes i (snd (frame_apply d i))) (fst (frame_apply d i))
     (delivered (snd (frame_apply d i)))"
  using feed_exact [of d] next_exact [of d] by (cases i) simp_all

lemma step_exact_trans:
  assumes "step_exact d xs d' as" "step_exact d' ys d'' bs"
  shows "step_exact d (xs @ ys) d'' (as @ bs)"
proof -
  have "fd_buffered d @ (xs @ ys) = (concat (map encode_frame as) @ fd_buffered d') @ ys"
    using assms(1) by (simp add: step_exact_def)
  also have "\<dots> = concat (map encode_frame (as @ bs)) @ fd_buffered d''"
    using assms(2) by (simp add: step_exact_def)
  finally show ?thesis using assms by (auto simp: step_exact_def)
qed

lemma frame_run_exact:
  "step_exact d (concat (map2 fed_bytes is (outputs frame_apply d is))) (final frame_apply d is)
     (observed delivered frame_apply d is)"
proof (induction "is" arbitrary: d)
  case Nil
  show ?case by (simp add: step_exact_def)
next
  case (Cons i js)
  from step_exact_trans [OF frame_step_exact [of d i] Cons.IH] show ?case by simp
qed

section \<open>Unique decoding\<close>

text \<open>A remainder that holds no complete frame.\<close>

definition incomplete :: "nat \<Rightarrow> bytes \<Rightarrow> bool" where
  "incomplete limit rest \<longleftrightarrow> (\<forall>body more. length body \<le> limit \<longrightarrow> rest \<noteq> encode_frame body @ more)"

lemma encode_frame_unique:
  assumes "encode_frame a @ xs = encode_frame b @ ys" "length a < 2 ^ 31" "length b < 2 ^ 31"
  shows "a = b \<and> xs = ys"
proof -
  have "be_bytes (length a) @ (a @ xs) = be_bytes (length b) @ (b @ ys)"
    using assms(1) by (simp only: encode_frame_def append_assoc)
  then have p: "be_bytes (length a) = be_bytes (length b)" and r: "a @ xs = b @ ys"
    by (simp_all only: append_eq_append_conv length_be_bytes simp_thms)
  have "length a < 2 ^ 32" "length b < 2 ^ 32" using assms(2,3) by simp_all
  then have "int (length a) = int (length b)"
    using p by (metis be_value_be_bytes)
  then show ?thesis using r by simp
qed

lemma frames_unique:
  assumes "concat (map encode_frame as) @ r = concat (map encode_frame bs) @ r'"
    and "\<forall>a\<in>set as. length a \<le> limit" "\<forall>b\<in>set bs. length b \<le> limit" "limit < 2 ^ 31"
    and "incomplete limit r" "incomplete limit r'"
  shows "as = bs"
  using assms
proof (induction as bs rule: list_induct2')
  case (4 a as b bs)
  have "a = b \<and> concat (map encode_frame as) @ r = concat (map encode_frame bs) @ r'"
    using "4.prems" by (intro encode_frame_unique) auto
  then show ?case using "4.IH" "4.prems" by simp
qed (auto simp: incomplete_def)

lemma frames_prefix:
  assumes "concat (map encode_frame as) @ r = concat (map encode_frame bs)"
    and "\<forall>a\<in>set as. length a < 2 ^ 31" "\<forall>b\<in>set bs. length b < 2 ^ 31"
  shows "\<exists>cs. bs = as @ cs"
  using assms
proof (induction as bs rule: list_induct2')
  case (2 a as)
  then show ?case by (simp add: encode_frame_def be_bytes_def)
next
  case (4 a as b bs)
  have "a = b \<and> concat (map encode_frame as) @ r = concat (map encode_frame bs)"
    using "4.prems" by (intro encode_frame_unique) auto
  then show ?case using "4.IH" "4.prems" by simp
qed auto

lemma next_frame_None_incomplete:
  assumes "snd (next_frame d) = Inr None" "fl_max_frame_bytes (fd_limits d) < 2 ^ 31"
  shows "incomplete (fl_max_frame_bytes (fd_limits d)) (fd_buffered d)"
  unfolding incomplete_def
proof (intro allI impI notI)
  fix body more
  assume "length body \<le> fl_max_frame_bytes (fd_limits d)" "fd_buffered d = encode_frame body @ more"
  moreover have "\<not> fd_failed d" using assms(1) by (auto simp: next_frame_def)
  ultimately show False using next_frame_accepts assms by fastforce
qed

lemma frame_limits_new_Inr:
  assumes "frame_limits_new max_frame max_buffered = Inr limits"
  shows "fl_max_frame_bytes limits < 2 ^ 31"
    "fl_max_frame_bytes limits + 4 \<le> fl_max_buffered_bytes limits"
    "fl_max_buffered_bytes limits = max_buffered"
  using assms
  by (auto simp: frame_limits_new_def usize_checked_add_def length_prefix_bytes_def Let_def
      split: if_splits)

section \<open>Properties\<close>

text \<open>
  The decoder conserves the byte stream: after any sequence of feeds and reads, the accepted
  bytes are exactly the encodings of the delivered frames, in order, followed by what is still
  buffered, and no delivered frame exceeds the limit.
\<close>

theorem frame_stream_conserved:
  "concat (map2 fed_bytes is (outputs frame_apply (frame_decoder_new limits) is)) =
     concat (map encode_frame (observed delivered frame_apply (frame_decoder_new limits) is)) @
     fd_buffered (final frame_apply (frame_decoder_new limits) is) \<and>
   list_all (\<lambda>body. length body \<le> fl_max_frame_bytes limits)
     (observed delivered frame_apply (frame_decoder_new limits) is)"
  using frame_run_exact [of "frame_decoder_new limits" "is"]
  by (auto simp: step_exact_def frame_decoder_new_def list_all_iff)

text \<open>
  C34. How the transport cuts the stream into chunks does not matter: two decoders with the same
  limits that accepted the same bytes, in whatever pieces and with reads in whatever places, and
  that have both been read until nothing is left, have delivered the same frames.
\<close>

theorem frame_chunking_irrelevant:
  assumes "frame_limits_new max_frame max_buffered = Inr limits"
    and "a = frame_decoder_new limits"
    and "concat (map2 fed_bytes is (outputs frame_apply a is)) =
      concat (map2 fed_bytes js (outputs frame_apply a js))"
    and "snd (next_frame (final frame_apply a is)) = Inr None"
    and "snd (next_frame (final frame_apply a js)) = Inr None"
  shows "observed delivered frame_apply a is = observed delivered frame_apply a js"
proof (rule frames_unique)
  note m = frame_limits_new_Inr(1) [OF assms(1)]
  have limits: "fd_limits a = limits" "fd_buffered a = []"
    using assms(2) by (simp_all add: frame_decoder_new_def)
  note runs = frame_run_exact [of a "is"] frame_run_exact [of a js]
  show "concat (map encode_frame (observed delivered frame_apply a is)) @ fd_buffered (final frame_apply a is) =
      concat (map encode_frame (observed delivered frame_apply a js)) @ fd_buffered (final frame_apply a js)"
    using runs assms(3) by (simp add: step_exact_def limits)
  show "\<forall>body\<in>set (observed delivered frame_apply a is). length body \<le> fl_max_frame_bytes limits"
    "\<forall>body\<in>set (observed delivered frame_apply a js). length body \<le> fl_max_frame_bytes limits"
    using runs by (simp_all add: step_exact_def limits)
  show "fl_max_frame_bytes limits < 2 ^ 31" by (rule m)
  show "incomplete (fl_max_frame_bytes limits) (fd_buffered (final frame_apply a is))"
    "incomplete (fl_max_frame_bytes limits) (fd_buffered (final frame_apply a js))"
    using next_frame_None_incomplete [OF assms(4)] next_frame_None_incomplete [OF assms(5)] runs m
    by (simp_all add: step_exact_def limits)
qed

definition sample_limits :: frame_limits where
  "sample_limits = \<lparr>fl_max_frame_bytes = 8, fl_max_buffered_bytes = 16\<rparr>"

lemma sample_limits_new: "frame_limits_new 8 16 = Inr sample_limits"
  by (simp add: frame_limits_new_def usize_checked_add_def length_prefix_bytes_def sample_limits_def)

definition sample_whole :: "frame_op list" where
  "sample_whole = [OpFeed [0, 0, 0, 2, 7, 9, 0], OpNext]"

definition sample_pieces :: "frame_op list" where
  "sample_pieces = [OpFeed [0, 0], OpNext, OpFeed [0, 2, 7], OpFeed [9, 0], OpNext]"

theorem frame_chunking_irrelevant_witness:
  "observed delivered frame_apply (frame_decoder_new sample_limits) sample_whole = [[7, 9]] \<and>
   observed delivered frame_apply (frame_decoder_new sample_limits) sample_whole =
   observed delivered frame_apply (frame_decoder_new sample_limits) sample_pieces"
proof (rule conjI)
  show "observed delivered frame_apply (frame_decoder_new sample_limits) sample_whole = [[7, 9]]"
    by code_simp
  show "observed delivered frame_apply (frame_decoder_new sample_limits) sample_whole =
    observed delivered frame_apply (frame_decoder_new sample_limits) sample_pieces"
    by (rule frame_chunking_irrelevant [OF sample_limits_new refl]) code_simp+
qed

text \<open>
  Validated limits never stall the decoder: whenever it has no complete frame to deliver and
  has not failed, it accepts any further input that fits the configured buffer, and there is room
  for at least one byte.
\<close>

theorem frame_decoder_never_stalls:
  assumes "frame_limits_new max_frame max_buffered = Inr (fd_limits d)" "max_buffered < 2 ^ 64"
    and "snd (next_frame d) = Inr None"
  shows "length (fd_buffered d) < max_buffered \<and>
    (length (fd_buffered d) + length input \<le> max_buffered \<longrightarrow> snd (feed d input) = Inr ())"
proof -
  note limits = frame_limits_new_Inr [OF assms(1)]
  have "\<not> fd_failed d" "length (fd_buffered d) < 4 + fl_max_frame_bytes (fd_limits d)"
    using assms(3)
    by (auto simp: next_frame_def decoder_fail_def length_prefix_bytes_def Let_def split: if_splits)
  then show ?thesis
    using limits assms(2) by (simp add: feed_def usize_checked_add_def)
qed

theorem frame_decoder_never_stalls_witness:
  "length ([0, 0, 0] :: bytes) < 16 \<and>
   snd (feed \<lparr>fd_limits = sample_limits, fd_buffered = [0, 0, 0], fd_failed = False\<rparr> [2, 7]) = Inr ()"
  using frame_decoder_never_stalls [of 8 16 "\<lparr>fd_limits = sample_limits, fd_buffered = [0, 0, 0], fd_failed = False\<rparr>" "[2, 7]"]
    sample_limits_new
  by (simp add: next_frame_def length_prefix_bytes_def)

text \<open>
  A framing error is permanent: after it every operation is refused with the same error and
  the decoder no longer changes, so nothing after a corrupt length is ever taken for a frame.
\<close>

theorem frame_failure_permanent:
  assumes "snd (next_frame d) = Inl e"
  shows "run frame_apply (fst (next_frame d)) is =
    (fst (next_frame d), replicate (length is) (Inl DecoderFailed))"
proof -
  have failed: "fd_failed (fst (next_frame d))"
    using assms by (auto simp: next_frame_def decoder_fail_def Let_def split: if_splits)
  have "fd_failed d' \<Longrightarrow> run frame_apply d' is = (d', replicate (length is) (Inl DecoderFailed))" for d'
  proof (induction "is")
    case (Cons i js)
    then have "frame_apply d' i = (d', Inl DecoderFailed)"
      by (cases i) (simp_all add: feed_def next_frame_def)
    with Cons show ?case by (simp add: run.simps(2))
  qed simp
  with failed show ?thesis by blast
qed

theorem frame_failure_permanent_witness:
  "outputs frame_apply (fst (next_frame \<lparr>fd_limits = sample_limits,
     fd_buffered = [255, 0, 0, 0], fd_failed = False\<rparr>)) [OpFeed [1], OpNext] =
   [Inl DecoderFailed, Inl DecoderFailed]"
proof -
  have "snd (next_frame \<lparr>fd_limits = sample_limits, fd_buffered = [255, 0, 0, 0], fd_failed = False\<rparr>) =
      Inl (NegativeFrameLength (- 16777216))"
    by code_simp
  from frame_failure_permanent [OF this, of "[OpFeed [1], OpNext]"] show ?thesis by simp
qed

end
