(* ===== verification/Write_Queue.thy ===== *)
theory Write_Queue
  imports Frame
begin

text \<open>
  The ordered write queue of \<open>kafka-driver-transport\<close> (\<open>write/\<close>): bounded admission of encoded
  frames, the slice to write next, progress by accepted bytes and discarding on close. The theory
  shows the accounting invariant, that bytes leave exactly in admission order, and, with the frame
  decoder, that a peer sees the admitted frames.
\<close>

section \<open>Limits, results and errors\<close>

record write_queue_limits =
  wl_max_queued_frames :: usize
  wl_max_buffered_bytes :: usize

definition write_queue_limits_default :: write_queue_limits where
  "write_queue_limits_default = \<lparr>wl_max_queued_frames = 256, wl_max_buffered_bytes = 128 * 1024 * 1024\<rparr>"

record write_accepted =
  wa_call_id :: call_id
  wa_effect_id :: effect_id
  wa_frame_bytes :: usize

definition write_accepted_delivery :: "write_accepted \<Rightarrow> delivery" where
  "write_accepted_delivery a = PossiblySent"

record write_slice =
  ws_call_id :: call_id
  ws_effect_id :: effect_id
  ws_bytes :: bytes

datatype write_progress =
    WriteProgressPending call_id effect_id usize
  | WriteProgressComplete call_id effect_id usize

record discarded_writes =
  dw_frames :: usize
  dw_bytes :: usize

datatype write_identity_kind = WriteIdentityCall | WriteIdentityEffect

datatype write_admission_failure =
    FrameTooShort usize usize
  | WriteIdentityInUse write_identity_kind
  | FrameCapacityReached usize
  | ByteCapacityReached usize usize usize

record write_admission_error =
  wae_failure :: write_admission_failure
  wae_frame :: bytes

definition write_admission_error_delivery :: "write_admission_error \<Rightarrow> delivery" where
  "write_admission_error_delivery e = NotSent"

datatype write_progress_error =
    NoPendingWrite
  | OutOfOrderEffect effect_id effect_id
  | ExceedsRemaining usize usize

section \<open>The queue\<close>

record queued_write =
  qw_call_id :: call_id
  qw_effect_id :: effect_id
  qw_frame :: bytes
  qw_written :: usize

record write_queue =
  wq_limits :: write_queue_limits
  wq_frames :: "queued_write list"
  wq_buffered_bytes :: usize

definition write_queue_new :: "write_queue_limits \<Rightarrow> write_queue" where
  "write_queue_new limits = \<lparr>wq_limits = limits, wq_frames = [], wq_buffered_bytes = 0\<rparr>"

definition write_reject ::
    "write_admission_failure \<Rightarrow> bytes \<Rightarrow> write_admission_error" where
  "write_reject failure frame = \<lparr>wae_failure = failure, wae_frame = frame\<rparr>"

definition write_admit ::
    "write_queue \<Rightarrow> call_id \<Rightarrow> effect_id \<Rightarrow> bytes \<Rightarrow>
     write_queue \<times> (write_admission_error + write_accepted)" where
  "write_admit q call_id effect_id frame =
     (if length frame < length_prefix_bytes
        then (q, Inl (write_reject (FrameTooShort (length frame) length_prefix_bytes) frame))
      else if list_ex (\<lambda>queued. qw_call_id queued = call_id) (wq_frames q)
        then (q, Inl (write_reject (WriteIdentityInUse WriteIdentityCall) frame))
      else if list_ex (\<lambda>queued. qw_effect_id queued = effect_id) (wq_frames q)
        then (q, Inl (write_reject (WriteIdentityInUse WriteIdentityEffect) frame))
      else if wl_max_queued_frames (wq_limits q) \<le> length (wq_frames q)
        then (q, Inl (write_reject (FrameCapacityReached (wl_max_queued_frames (wq_limits q))) frame))
      else let full = (q, Inl (write_reject (ByteCapacityReached (wq_buffered_bytes q) (length frame)
                                  (wl_max_buffered_bytes (wq_limits q))) frame))
        in case usize_checked_add (wq_buffered_bytes q) (length frame) of
             None \<Rightarrow> full
           | Some accepted_bytes \<Rightarrow>
               (if wl_max_buffered_bytes (wq_limits q) < accepted_bytes then full
                else (q\<lparr>wq_buffered_bytes := accepted_bytes,
                        wq_frames := wq_frames q @
                          [\<lparr>qw_call_id = call_id, qw_effect_id = effect_id,
                            qw_frame = frame, qw_written = 0\<rparr>]\<rparr>,
                      Inr \<lparr>wa_call_id = call_id, wa_effect_id = effect_id,
                           wa_frame_bytes = length frame\<rparr>)))"

definition write_front :: "write_queue \<Rightarrow> usize \<Rightarrow> write_slice option" where
  "write_front q max_bytes =
     (case wq_frames q of
        [] \<Rightarrow> None
      | queued # _ \<Rightarrow>
          (let remaining = drop (qw_written queued) (qw_frame queued);
               len = min (length remaining) max_bytes
           in Some \<lparr>ws_call_id = qw_call_id queued, ws_effect_id = qw_effect_id queued,
                    ws_bytes = take len remaining\<rparr>))"

definition write_advance ::
    "write_queue \<Rightarrow> effect_id \<Rightarrow> usize \<Rightarrow> write_queue \<times> (write_progress_error + write_progress)" where
  "write_advance q effect_id written =
     (case wq_frames q of
        [] \<Rightarrow> (q, Inl NoPendingWrite)
      | front # rest \<Rightarrow>
          (if qw_effect_id front \<noteq> effect_id
             then (q, Inl (OutOfOrderEffect (qw_effect_id front) effect_id))
           else let remaining = length (qw_frame front) - qw_written front in
             if remaining < written then (q, Inl (ExceedsRemaining written remaining))
             else let total = qw_written front + written in
               if total < length (qw_frame front)
                 then (q\<lparr>wq_frames := front\<lparr>qw_written := total\<rparr> # rest\<rparr>,
                       Inr (WriteProgressPending (qw_call_id front) effect_id
                              (length (qw_frame front) - total)))
               else (q\<lparr>wq_frames := rest,
                       wq_buffered_bytes := wq_buffered_bytes q - length (qw_frame front)\<rparr>,
                     Inr (WriteProgressComplete (qw_call_id front) effect_id
                            (length (qw_frame front))))))"

definition write_discard_all :: "write_queue \<Rightarrow> write_queue \<times> discarded_writes" where
  "write_discard_all q =
     (q\<lparr>wq_frames := [], wq_buffered_bytes := 0\<rparr>,
      \<lparr>dw_frames = length (wq_frames q), dw_bytes = wq_buffered_bytes q\<rparr>)"

section \<open>Runs of the queue\<close>

datatype write_op =
    WqAdmit call_id effect_id bytes
  | WqAdvance effect_id usize
  | WqDiscard

datatype write_result =
    WrAdmitted "write_admission_error + write_accepted"
  | WrAdvanced bytes "write_progress_error + write_progress"
  | WrDiscarded discarded_writes

text \<open>
  An advance is reported together with the bytes the caller has handed to the transport: the part
  of the front slice that \<open>written\<close> covers.
\<close>

fun write_apply :: "write_queue \<Rightarrow> write_op \<Rightarrow> write_queue \<times> write_result" where
  "write_apply q (WqAdmit call_id effect_id frame) =
     (let (q', r) = write_admit q call_id effect_id frame in (q', WrAdmitted r))"
| "write_apply q (WqAdvance effect_id written) =
     (let handed = (case write_front q written of None \<Rightarrow> [] | Some s \<Rightarrow> ws_bytes s);
          (q', r) = write_advance q effect_id written
      in (q', WrAdvanced handed r))"
| "write_apply q WqDiscard = (let (q', r) = write_discard_all q in (q', WrDiscarded r))"

fun admitted_frames :: "write_op \<Rightarrow> write_result \<Rightarrow> bytes list" where
  "admitted_frames (WqAdmit call_id effect_id frame) (WrAdmitted (Inr accepted)) = [frame]"
| "admitted_frames _ _ = []"

fun sent_bytes :: "write_result \<Rightarrow> bytes" where
  "sent_bytes (WrAdvanced handed (Inr progress)) = handed"
| "sent_bytes _ = []"

definition pending_bytes :: "write_queue \<Rightarrow> bytes" where
  "pending_bytes q = concat (map (\<lambda>w. drop (qw_written w) (qw_frame w)) (wq_frames q))"

definition write_queue_wf :: "write_queue \<Rightarrow> bool" where
  "write_queue_wf q \<longleftrightarrow>
     wq_buffered_bytes q = sum_list (map (\<lambda>w. length (qw_frame w)) (wq_frames q)) \<and>
     wq_buffered_bytes q \<le> wl_max_buffered_bytes (wq_limits q) \<and>
     length (wq_frames q) \<le> wl_max_queued_frames (wq_limits q) \<and>
     distinct (map qw_call_id (wq_frames q)) \<and> distinct (map qw_effect_id (wq_frames q)) \<and>
     list_all (\<lambda>w. qw_written w < length (qw_frame w)) (wq_frames q)"

lemma write_queue_new_wf: "write_queue_wf (write_queue_new limits)"
  by (simp add: write_queue_wf_def write_queue_new_def)

lemma write_admit_wf: "write_queue_wf q \<Longrightarrow> write_queue_wf (fst (write_admit q c e frame))"
  by (cases "usize_checked_add (wq_buffered_bytes q) (length frame)")
     (auto simp: write_admit_def write_queue_wf_def usize_checked_add_def list_ex_iff
       length_prefix_bytes_def Let_def split: if_splits)

lemma write_advance_wf: "write_queue_wf q \<Longrightarrow> write_queue_wf (fst (write_advance q e n))"
  by (cases "wq_frames q") (auto simp: write_advance_def write_queue_wf_def Let_def)

lemma write_discard_wf: "write_queue_wf q \<Longrightarrow> write_queue_wf (fst (write_discard_all q))"
  by (simp add: write_discard_all_def write_queue_wf_def)

interpretation write_inv: machine_invariant write_apply write_queue_wf
proof
  show "write_queue_wf (fst (write_apply q i))" if "write_queue_wf q" for q i
    using write_admit_wf [OF that] write_advance_wf [OF that] write_discard_wf [OF that]
    by (cases i) (simp_all add: split_beta)
qed

section \<open>Bytes leave in admission order\<close>

lemma take_then_drop: "take n (drop k xs) @ drop (k + n) xs = drop k xs"
  by (metis add.commute append_take_drop_id drop_drop)

lemma write_step_stream:
  assumes "i \<noteq> WqDiscard"
  shows "pending_bytes q @ concat (admitted_frames i (snd (write_apply q i))) =
    sent_bytes (snd (write_apply q i)) @ pending_bytes (fst (write_apply q i))"
proof (cases i)
  case (WqAdmit c e frame)
  then show ?thesis
    by (cases "usize_checked_add (wq_buffered_bytes q) (length frame)")
       (auto simp: write_admit_def pending_bytes_def Let_def)
next
  case (WqAdvance e n)
  then show ?thesis
    by (cases "wq_frames q")
       (auto simp: write_advance_def write_front_def pending_bytes_def Let_def min_def
         take_then_drop)
qed (use assms in simp)

lemma write_run_stream:
  "WqDiscard \<notin> set is \<Longrightarrow>
   pending_bytes q @ concat (concat (map2 admitted_frames is (outputs write_apply q is))) =
   observed sent_bytes write_apply q is @ pending_bytes (final write_apply q is)"
proof (induction "is" arbitrary: q)
  case (Cons i js)
  let ?q' = "fst (write_apply q i)"
  have "pending_bytes q @ concat (concat (map2 admitted_frames (i # js) (outputs write_apply q (i # js)))) =
      (pending_bytes q @ concat (admitted_frames i (snd (write_apply q i)))) @
      concat (concat (map2 admitted_frames js (outputs write_apply ?q' js)))"
    by simp
  also have "\<dots> = sent_bytes (snd (write_apply q i)) @ pending_bytes ?q' @
      concat (concat (map2 admitted_frames js (outputs write_apply ?q' js)))"
    using Cons.prems write_step_stream [of i q] by auto
  also have "\<dots> = sent_bytes (snd (write_apply q i)) @ observed sent_bytes write_apply ?q' js @
      pending_bytes (final write_apply ?q' js)"
    using Cons.IH [of ?q'] Cons.prems by simp
  finally show ?case by simp
qed simp

section \<open>Properties\<close>

text \<open>
  Accounting of the write queue: over any run the retained bytes are the sum of the queued
  frame lengths, frames and bytes stay within the limits, call and effect identities are distinct,
  and no queued frame is fully written.
\<close>

theorem write_queue_accounting:
  "write_queue_wf (final write_apply (write_queue_new limits) is)"
  by (rule write_inv.run_keeps [OF write_queue_new_wf])

text \<open>
  C35. Until the queue is discarded, the bytes handed to the transport followed by the bytes still
  pending are exactly the admitted frames one after another: nothing is reordered, repeated,
  skipped or interleaved, however the transport splits its writes.
\<close>

theorem write_stream_in_order:
  assumes "WqDiscard \<notin> set is"
  shows "observed sent_bytes write_apply (write_queue_new limits) is @
      pending_bytes (final write_apply (write_queue_new limits) is) =
    concat (concat (map2 admitted_frames is (outputs write_apply (write_queue_new limits) is)))"
  using write_run_stream [OF assms, of "write_queue_new limits"]
  by (simp add: pending_bytes_def write_queue_new_def)

definition sample_write_limits :: write_queue_limits where
  "sample_write_limits = \<lparr>wl_max_queued_frames = 2, wl_max_buffered_bytes = 16\<rparr>"

definition sample_writes :: "write_op list" where
  "sample_writes =
     [WqAdmit 1 10 [0, 0, 0, 1, 5], WqAdmit 2 11 [0, 0, 0, 0], WqAdvance 10 3, WqAdvance 10 2,
      WqAdvance 11 1]"

theorem write_stream_in_order_witness:
  "observed sent_bytes write_apply (write_queue_new sample_write_limits) sample_writes @
     pending_bytes (final write_apply (write_queue_new sample_write_limits) sample_writes) =
   concat (concat (map2 admitted_frames sample_writes
     (outputs write_apply (write_queue_new sample_write_limits) sample_writes)))"
proof -
  have "WqDiscard \<notin> set sample_writes" by code_simp
  then show ?thesis by (rule write_stream_in_order)
qed

text \<open>
  C36. End to end: a peer that decodes the bytes this queue handed to the transport, in whatever
  chunks they arrive, receives a prefix of the admitted frame bodies, in admission order.
\<close>

theorem write_then_decode:
  assumes "WqDiscard \<notin> set is"
    and "concat (map2 admitted_frames is (outputs write_apply (write_queue_new wl) is)) =
      map encode_frame bodies"
    and "list_all (\<lambda>body. length body < 2 ^ 31) bodies" "fl_max_frame_bytes fl < 2 ^ 31"
    and "concat (map2 fed_bytes js (outputs frame_apply (frame_decoder_new fl) js)) =
      observed sent_bytes write_apply (write_queue_new wl) is"
  shows "\<exists>rest. bodies = observed delivered frame_apply (frame_decoder_new fl) js @ rest"
proof (rule frames_prefix)
  let ?d = "final frame_apply (frame_decoder_new fl) js"
    and ?pending = "pending_bytes (final write_apply (write_queue_new wl) is)"
  note exact = frame_run_exact [of "frame_decoder_new fl" js, unfolded step_exact_def]
  have "concat (map encode_frame (observed delivered frame_apply (frame_decoder_new fl) js)) @ fd_buffered ?d =
      observed sent_bytes write_apply (write_queue_new wl) is"
    using exact assms(5) by (simp add: frame_decoder_new_def)
  then have "concat (map encode_frame (observed delivered frame_apply (frame_decoder_new fl) js)) @
      fd_buffered ?d @ ?pending = observed sent_bytes write_apply (write_queue_new wl) is @ ?pending"
    by (metis append_assoc)
  also have "\<dots> = concat (map encode_frame bodies)"
    using write_run_stream [OF assms(1), of "write_queue_new wl"] assms(2)
    by (simp add: pending_bytes_def write_queue_new_def)
  finally show "concat (map encode_frame (observed delivered frame_apply (frame_decoder_new fl) js)) @
      fd_buffered ?d @ ?pending = concat (map encode_frame bodies)" .
  show "\<forall>b\<in>set bodies. length b < 2 ^ 31" using assms(3) by (simp add: list_all_iff)
  have "\<forall>a\<in>set (observed delivered frame_apply (frame_decoder_new fl) js). length a \<le> fl_max_frame_bytes fl"
    using exact by (simp add: frame_decoder_new_def)
  then show "\<forall>a\<in>set (observed delivered frame_apply (frame_decoder_new fl) js). length a < 2 ^ 31"
    using assms(4) by (meson order.strict_trans1)
qed

definition sample_arrivals :: "frame_op list" where
  "sample_arrivals = [OpFeed [0, 0, 0], OpNext, OpFeed [1, 5, 0], OpNext]"

theorem write_then_decode_witness:
  "observed delivered frame_apply (frame_decoder_new sample_limits) sample_arrivals = [[5]] \<and>
   (\<exists>rest. [[5], []] = observed delivered frame_apply (frame_decoder_new sample_limits) sample_arrivals @ rest)"
proof (rule conjI)
  show "observed delivered frame_apply (frame_decoder_new sample_limits) sample_arrivals = [[5]]"
    by code_simp
  have 1: "WqDiscard \<notin> set sample_writes" by code_simp
  have 2: "concat (map2 admitted_frames sample_writes
      (outputs write_apply (write_queue_new sample_write_limits) sample_writes)) =
      map encode_frame [[5], []]"
  proof -
    have "concat (map2 admitted_frames sample_writes
        (outputs write_apply (write_queue_new sample_write_limits) sample_writes)) =
        [[0, 0, 0, 1, 5], [0, 0, 0, 0]]" by code_simp
    then show ?thesis by (simp add: encode_frame_def be_bytes_def)
  qed
  have 3: "concat (map2 fed_bytes sample_arrivals
      (outputs frame_apply (frame_decoder_new sample_limits) sample_arrivals)) =
      observed sent_bytes write_apply (write_queue_new sample_write_limits) sample_writes"
    by code_simp
  show "\<exists>rest. [[5], []] = observed delivered frame_apply (frame_decoder_new sample_limits) sample_arrivals @ rest"
    by (rule write_then_decode [OF 1 2 _ _ 3]) (simp_all add: sample_limits_def)
qed

end
