(* ===== verification/Request.thy ===== *)
theory Request
  imports Connection_Parts Resolution
begin

text \<open>
  Per-request policy of the driver: the errors a call can end with (\<open>src/response/outcome.rs\<close>,
  \<open>delivery.rs\<close>), deadlines (\<open>src/request/deadline.rs\<close>), version selection
  (\<open>src/request/version.rs\<close>) and the policy that combines them (\<open>src/request/policy.rs\<close>).
  The wire errors \<open>EncodeError\<close> and \<open>DecodeError\<close> and the accessors of \<open>VersionRange\<close> and
  \<open>ApiVersion\<close> belong to the \<open>kafka-wire\<close> package and are parameters.
\<close>

section \<open>Errors\<close>

datatype response_close_reason = ResponseTransportClosed | ResponseProtocolFault | ResponseShutdown

datatype ('k, 'v, 'en, 'de) request_error =
    ReqEncode 'en
  | ReqDecode 'de
  | ReqUnsupportedVersion string 'v
  | ReqApiUnavailable 'k
  | ReqVersionLimitUnavailable 'k 'v 'v
  | ReqVersionFloorUnavailable 'k 'v 'v
  | ReqVersionBoundsInvalid 'k 'v 'v
  | ReqResponseCapacityReached usize
  | ReqIdentityConflict
  | ReqDeadlineOverflow
  | ReqRouteUnavailable
  | ReqRouteCapacityReached usize usize
  | ReqMetadataQueryCapacityReached usize
  | ReqCoordinatorCapacityReached usize
  | ReqNameResolutionCapacityReached usize
  | ReqNameResolutionFailed dns_failure
  | ReqRejected call_failure delivery
  | ReqConnectionClosed response_close_reason

fun request_error_delivery :: "('k, 'v, 'en, 'de) request_error \<Rightarrow> delivery" where
  "request_error_delivery (ReqRejected failure d) = d"
| "request_error_delivery (ReqDecode e) = PossiblySent"
| "request_error_delivery (ReqConnectionClosed reason) = PossiblySent"
| "request_error_delivery _ = NotSent"

section \<open>Deadlines\<close>

text \<open>An \<open>Instant\<close> is a number of nanoseconds; \<open>saturating_duration_since\<close> is subtraction on \<open>nat\<close>.\<close>

type_synonym instant = nat

datatype deadline_basis = BasisRelative duration | BasisAbsolute instant instant

record request_deadline =
  rd_basis :: deadline_basis
  rd_absolute :: "moment option"

definition request_deadline_new :: "duration \<Rightarrow> request_deadline" where
  "request_deadline_new timeout = \<lparr>rd_basis = BasisRelative timeout, rd_absolute = None\<rparr>"

definition request_deadline_until :: "instant \<Rightarrow> instant \<Rightarrow> request_deadline" where
  "request_deadline_until deadline submitted_at =
     \<lparr>rd_basis = BasisAbsolute deadline submitted_at, rd_absolute = None\<rparr>"

fun basis_remaining :: "deadline_basis \<Rightarrow> duration" where
  "basis_remaining (BasisRelative timeout) = timeout"
| "basis_remaining (BasisAbsolute deadline submitted_at) = deadline - submitted_at"

definition deadline_establish ::
    "request_deadline \<Rightarrow> moment \<Rightarrow> request_deadline \<times> (('k, 'v, 'en, 'de) request_error + moment)" where
  "deadline_establish d start =
     (case rd_absolute d of
        Some deadline \<Rightarrow> (d, Inr deadline)
      | None \<Rightarrow>
          (case moment_checked_add start (basis_remaining (rd_basis d)) of
             None \<Rightarrow> (d, Inl ReqDeadlineOverflow)
           | Some deadline \<Rightarrow> (d\<lparr>rd_absolute := Some deadline\<rparr>, Inr deadline)))"

section \<open>Version selection\<close>

datatype 'v version_selection =
    SelectHighest
  | SelectAtLeast 'v
  | SelectAtMost 'v
  | SelectWithin 'v 'v

fun selection_from_bounds :: "'v option \<Rightarrow> 'v option \<Rightarrow> 'v version_selection" where
  "selection_from_bounds None None = SelectHighest"
| "selection_from_bounds (Some minimum) None = SelectAtLeast minimum"
| "selection_from_bounds None (Some maximum) = SelectAtMost maximum"
| "selection_from_bounds (Some minimum) (Some maximum) = SelectWithin minimum maximum"

definition limit_unavailable ::
    "('r \<Rightarrow> 'v) \<Rightarrow> ('k, 'r) negotiated_api \<Rightarrow> 'v \<Rightarrow> ('k, 'v, 'en, 'de) request_error" where
  "limit_unavailable range_min negotiated maximum =
     ReqVersionLimitUnavailable (na_api_key negotiated) maximum (range_min (na_versions negotiated))"

definition floor_unavailable ::
    "('r \<Rightarrow> 'v) \<Rightarrow> ('k, 'r) negotiated_api \<Rightarrow> 'v \<Rightarrow> ('k, 'v, 'en, 'de) request_error" where
  "floor_unavailable range_max negotiated minimum =
     ReqVersionFloorUnavailable (na_api_key negotiated) minimum (range_max (na_versions negotiated))"

definition select_minimum ::
    "('v \<Rightarrow> 'n::linorder) \<Rightarrow> ('r \<Rightarrow> 'v) \<Rightarrow> ('k, 'r) negotiated_api \<Rightarrow> 'v \<Rightarrow>
     ('k, 'v, 'en, 'de) request_error + 'v" where
  "select_minimum value range_max negotiated minimum =
     (if value (negotiated_api_version range_max negotiated) < value minimum
        then Inl (floor_unavailable range_max negotiated minimum)
      else Inr (negotiated_api_version range_max negotiated))"

definition select_maximum ::
    "('v \<Rightarrow> 'n::linorder) \<Rightarrow> ('r \<Rightarrow> 'v) \<Rightarrow> ('r \<Rightarrow> 'v) \<Rightarrow> ('k, 'r) negotiated_api \<Rightarrow> 'v \<Rightarrow>
     ('k, 'v, 'en, 'de) request_error + 'v" where
  "select_maximum value range_min range_max negotiated maximum =
     (case highest_at_most value range_min range_max negotiated maximum of
        Some version \<Rightarrow> Inr version
      | None \<Rightarrow> Inl (limit_unavailable range_min negotiated maximum))"

definition select_within ::
    "('v \<Rightarrow> 'n::linorder) \<Rightarrow> ('r \<Rightarrow> 'v) \<Rightarrow> ('r \<Rightarrow> 'v) \<Rightarrow> ('k, 'r) negotiated_api \<Rightarrow> 'v \<Rightarrow> 'v \<Rightarrow>
     ('k, 'v, 'en, 'de) request_error + 'v" where
  "select_within value range_min range_max negotiated minimum maximum =
     (if value maximum < value minimum
        then Inl (ReqVersionBoundsInvalid (na_api_key negotiated) minimum maximum)
      else case select_maximum value range_min range_max negotiated maximum of
        Inl failure \<Rightarrow> Inl failure
      | Inr selected \<Rightarrow>
          (if value selected < value minimum then Inl (floor_unavailable range_max negotiated minimum)
           else Inr selected))"

fun version_select ::
    "('v \<Rightarrow> 'n::linorder) \<Rightarrow> ('r \<Rightarrow> 'v) \<Rightarrow> ('r \<Rightarrow> 'v) \<Rightarrow> 'v version_selection \<Rightarrow>
     ('k, 'r) negotiated_api \<Rightarrow> ('k, 'v, 'en, 'de) request_error + 'v" where
  "version_select value range_min range_max SelectHighest negotiated =
     Inr (negotiated_api_version range_max negotiated)"
| "version_select value range_min range_max (SelectAtLeast minimum) negotiated =
     select_minimum value range_max negotiated minimum"
| "version_select value range_min range_max (SelectAtMost maximum) negotiated =
     select_maximum value range_min range_max negotiated maximum"
| "version_select value range_min range_max (SelectWithin minimum maximum) negotiated =
     select_within value range_min range_max negotiated minimum maximum"

section \<open>The request policy\<close>

record 'v request_policy =
  rp_deadline :: request_deadline
  rp_version :: "'v version_selection"
  rp_reject_after_route_failure :: bool

definition policy_for_timeout :: "duration \<Rightarrow> 'v request_policy" where
  "policy_for_timeout timeout =
     \<lparr>rp_deadline = request_deadline_new timeout, rp_version = SelectHighest,
      rp_reject_after_route_failure = False\<rparr>"

definition policy_until ::
    "instant \<Rightarrow> instant \<Rightarrow> 'v option \<Rightarrow> 'v option \<Rightarrow> bool \<Rightarrow> 'v request_policy" where
  "policy_until deadline submitted_at minimum_version maximum_version reject_after_route_failure =
     \<lparr>rp_deadline = request_deadline_until deadline submitted_at,
      rp_version = selection_from_bounds minimum_version maximum_version,
      rp_reject_after_route_failure = reject_after_route_failure\<rparr>"

definition policy_establish_deadline ::
    "'v request_policy \<Rightarrow> moment \<Rightarrow> 'v request_policy \<times> (('k, 'v, 'en, 'de) request_error + moment)" where
  "policy_establish_deadline p start =
     (let (d, r) = deadline_establish (rp_deadline p) start in (p\<lparr>rp_deadline := d\<rparr>, r))"

section \<open>Deadlines are fixed by the first success\<close>

lemma deadline_establish_once:
  assumes "deadline_establish d start = (d', Inr (deadline :: moment))"
  shows "deadline_establish d' later = (d', Inr deadline)" "rd_absolute d' = Some deadline"
  using assms by (auto simp: deadline_establish_def split: option.splits)

lemma deadline_establish_unat:
  assumes "rd_absolute d = None" "deadline_establish d start = (d', Inr deadline)"
  shows "unat deadline = unat start + basis_remaining (rd_basis d)"
  using assms by (auto simp: deadline_establish_def dest: moment_checked_add_unat split: option.splits)

section \<open>Properties\<close>

text \<open>The bounds a selection imposes on the value of a version.\<close>

fun selection_admits :: "('v \<Rightarrow> 'n::linorder) \<Rightarrow> 'v version_selection \<Rightarrow> 'n \<Rightarrow> bool" where
  "selection_admits value SelectHighest n \<longleftrightarrow> True"
| "selection_admits value (SelectAtLeast minimum) n \<longleftrightarrow> value minimum \<le> n"
| "selection_admits value (SelectAtMost maximum) n \<longleftrightarrow> n \<le> value maximum"
| "selection_admits value (SelectWithin minimum maximum) n \<longleftrightarrow> value minimum \<le> n \<and> n \<le> value maximum"

text \<open>
  C39. Version selection is exact for any negotiated range whose minimum does not exceed its
  maximum: when it succeeds the version lies in the range, respects the bounds and is the highest
  that does; when it fails no version of the range respects the bounds.
\<close>

theorem version_selection_exact:
  assumes range: "value (range_min (na_versions api)) \<le> value (range_max (na_versions api))"
  shows "case version_select value range_min range_max selection api of
      Inr v \<Rightarrow>
        value (range_min (na_versions api)) \<le> value v \<and> value v \<le> value (range_max (na_versions api)) \<and>
        selection_admits value selection (value v) \<and>
        (\<forall>n. value (range_min (na_versions api)) \<le> n \<and> n \<le> value (range_max (na_versions api)) \<and>
             selection_admits value selection n \<longrightarrow> n \<le> value v)
    | Inl e \<Rightarrow>
        \<not> (\<exists>n. value (range_min (na_versions api)) \<le> n \<and> n \<le> value (range_max (na_versions api)) \<and>
             selection_admits value selection n)"
  using range
  by (cases selection)
     (auto simp: select_minimum_def select_maximum_def select_within_def highest_at_most_def
       negotiated_api_version_def not_less not_le intro: order.trans)

definition sample_api :: "(unit, int \<times> int) negotiated_api" where
  "sample_api = \<lparr>na_api_key = (), na_versions = (2, 7)\<rparr>"

theorem version_selection_exact_witness:
  "(version_select id fst snd (SelectWithin 3 5) sample_api ::
     (unit, int, unit, unit) request_error + int) = Inr 5 \<and>
   selection_admits id (SelectWithin 3 5) (5 :: int) \<and> \<not> selection_admits id (SelectWithin 3 5) (6 :: int)"
proof -
  have sel: "(version_select id fst snd (SelectWithin 3 5) sample_api ::
      (unit, int, unit, unit) request_error + int) = Inr 5"
    by code_simp
  have "case version_select id fst snd (SelectWithin 3 5) sample_api :: (unit, int, unit, unit) request_error + int of
      Inr v \<Rightarrow>
        id (fst (na_versions sample_api)) \<le> id v \<and> id v \<le> id (snd (na_versions sample_api)) \<and>
        selection_admits id (SelectWithin 3 5) (id v) \<and>
        (\<forall>n. id (fst (na_versions sample_api)) \<le> n \<and> n \<le> id (snd (na_versions sample_api)) \<and>
             selection_admits id (SelectWithin 3 5) n \<longrightarrow> n \<le> id v)
    | Inl e \<Rightarrow>
        \<not> (\<exists>n. id (fst (na_versions sample_api)) \<le> n \<and> n \<le> id (snd (na_versions sample_api)) \<and>
             selection_admits id (SelectWithin 3 5) n)"
    by (rule version_selection_exact) (simp add: sample_api_def)
  from this [unfolded sel sum.case]
  have "selection_admits id (SelectWithin 3 5) (5 :: int)"
    and highest: "\<forall>n. 2 \<le> n \<and> n \<le> 7 \<and> selection_admits id (SelectWithin 3 5) n \<longrightarrow> n \<le> (5 :: int)"
    by (simp_all add: sample_api_def)
  with sel spec [OF highest, of 6] show ?thesis by (simp del: selection_admits.simps version_select.simps)
qed

end
