(* ===== verification/Ordered_Map.thy ===== *)
theory Ordered_Map
  imports Contracts
begin

text \<open>
  The ordered map of the standard library as the reactor uses it: a \<open>BTreeMap\<close> is the list of its
  entries in key order. Insertion, removal, the first and the last entry and the first entry after
  a bound are the operations; the theory relates them to lookups and to each other.
\<close>

type_synonym ('k, 'v) btree = "('k \<times> 'v) list"

section \<open>Operations\<close>

fun btree_insert :: "'k::linorder \<Rightarrow> 'v \<Rightarrow> ('k, 'v) btree \<Rightarrow> ('k, 'v) btree" where
  "btree_insert k v [] = [(k, v)]"
| "btree_insert k v ((k', v') # t) =
     (if k < k' then (k, v) # (k', v') # t
      else if k = k' then (k, v) # t
      else (k', v') # btree_insert k v t)"

definition btree_remove :: "'k::linorder \<Rightarrow> ('k, 'v) btree \<Rightarrow> ('k, 'v) btree \<times> 'v option" where
  "btree_remove k t = (filter (\<lambda>e. fst e \<noteq> k) t, map_of t k)"

definition btree_first :: "('k, 'v) btree \<Rightarrow> ('k \<times> 'v) option" where
  "btree_first t = (case t of [] \<Rightarrow> None | e # _ \<Rightarrow> Some e)"

definition btree_last :: "('k, 'v) btree \<Rightarrow> ('k \<times> 'v) option" where
  "btree_last t = (if t = [] then None else Some (last t))"

definition btree_pop_first :: "('k, 'v) btree \<Rightarrow> ('k, 'v) btree \<times> ('k \<times> 'v) option" where
  "btree_pop_first t = (tl t, btree_first t)"

definition btree_pop_last :: "('k, 'v) btree \<Rightarrow> ('k, 'v) btree \<times> ('k \<times> 'v) option" where
  "btree_pop_last t = (butlast t, btree_last t)"

text \<open>\<open>range((bound, Unbounded)).next()\<close>, the bound excluded or absent.\<close>

definition btree_after :: "'k::linorder option \<Rightarrow> ('k, 'v) btree \<Rightarrow> ('k \<times> 'v) option" where
  "btree_after bound t =
     (case bound of None \<Rightarrow> btree_first t | Some b \<Rightarrow> List.find (\<lambda>e. b < fst e) t)"

section \<open>Laws\<close>

definition btree_wf :: "('k::linorder, 'v) btree \<Rightarrow> bool" where
  "btree_wf t \<longleftrightarrow> sorted_wrt (<) (map fst t)"

lemma btree_wf_Nil [simp]: "btree_wf []"
  by (simp add: btree_wf_def)

lemma btree_wf_Cons: "btree_wf (e # t) \<longleftrightarrow> (\<forall>x\<in>set t. fst e < fst x) \<and> btree_wf t"
  by (auto simp: btree_wf_def)

lemma btree_wf_distinct: "btree_wf t \<Longrightarrow> distinct (map fst t)"
  using btree_wf_def strict_sorted_iff by blast

lemma btree_insert_keys: "fst ` set (btree_insert k v t) = insert k (fst ` set t)"
  by (induction k v t rule: btree_insert.induct) auto

lemma btree_insert_wf: "btree_wf t \<Longrightarrow> btree_wf (btree_insert k v t)"
proof (induction k v t rule: btree_insert.induct)
  case (2 k v k' v' t)
  have "x \<in> set (btree_insert k v t) \<Longrightarrow> fst x = k \<or> fst x \<in> fst ` set t" for x
    using btree_insert_keys [of k v t] by (metis image_eqI insert_iff)
  with 2 show ?case by (fastforce simp: btree_wf_Cons)
qed (simp add: btree_wf_def)

lemma map_of_btree_insert: "map_of (btree_insert k v t) = (map_of t)(k \<mapsto> v)"
  by (induction k v t rule: btree_insert.induct) (auto simp: fun_eq_iff)

lemma btree_insert_fresh:
  "btree_wf t \<Longrightarrow> k \<notin> fst ` set t \<Longrightarrow> mset (btree_insert k v t) = add_mset (k, v) (mset t)"
  by (induction k v t rule: btree_insert.induct) (auto simp: btree_wf_Cons)

lemma btree_insert_last:
  "btree_wf t \<Longrightarrow> (\<forall>x\<in>set t. fst x < k) \<Longrightarrow> btree_insert k v t = t @ [(k, v)]"
  by (induction k v t rule: btree_insert.induct) (auto simp: btree_wf_Cons dest: less_asym)

lemma btree_filter_wf: "btree_wf t \<Longrightarrow> btree_wf (filter P t)"
  by (induction t) (auto simp: btree_wf_Cons)

lemma btree_remove_wf: "btree_wf t \<Longrightarrow> btree_wf (fst (btree_remove k t))"
  by (simp add: btree_remove_def btree_filter_wf)

lemma btree_tl_wf: "btree_wf t \<Longrightarrow> btree_wf (tl t)"
  by (cases t) (simp_all add: btree_wf_Cons)

lemma btree_butlast_wf: "btree_wf t \<Longrightarrow> btree_wf (butlast t)"
  by (simp add: btree_wf_def map_butlast) (metis append_butlast_last_id butlast.simps(1) map_butlast sorted_wrt_append)

lemma btree_remove_entry:
  "btree_wf t \<Longrightarrow> snd (btree_remove k t) = Some v \<longleftrightarrow> (k, v) \<in> set t"
  using btree_wf_distinct [of t] by (simp add: btree_remove_def)

text \<open>Two entries of a map with the same key are the same entry.\<close>

lemma btree_key_unique:
  "btree_wf t \<Longrightarrow> (k, v) \<in> set t \<Longrightarrow> (k, v') \<in> set t \<Longrightarrow> v = v'"
  using btree_wf_distinct [of t] by (metis eq_key_imp_eq_value)

lemma btree_first_min:
  "btree_wf t \<Longrightarrow> btree_first t = Some e \<Longrightarrow> e \<in> set t \<and> (\<forall>x\<in>set t. fst e \<le> fst x)"
  by (cases t) (auto simp: btree_first_def btree_wf_Cons order.strict_implies_order)

interpretation btree_table: keyed_table fst "\<lambda>t :: ('k::linorder, 'v) btree. t"
  "\<lambda>t k. map_option (Pair k) (map_of t k)" btree_wf
proof
  fix t :: "('k::linorder, 'v) btree" and k
  assume "btree_wf t"
  then show "sorted_wrt (<) (map fst t)" by (simp add: btree_wf_def)
  show "map_option (Pair k) (map_of t k) = List.find (\<lambda>e. fst e = k) t"
    by (induction t) auto
qed

end
