(* ===== verification/Wait_Queue.thy ===== *)
theory Wait_Queue
  imports Ordered_Map Identity
begin

text \<open>
  The reactor's bounded wait queue (\<open>src/reactor/wait_queue.rs\<close>): entries in arrival order and an
  index of their deadlines. \<open>remove_deadline\<close> removes an index entry inside \<open>debug_assert_eq!\<close>, whose
  argument is only evaluated when debug assertions are enabled, so the definitions take
  \<open>debug_assertions\<close> as an argument. \<open>None\<close> is a failed assertion, or the resequencing that does not
  return. The theory shows that with debug assertions the queue refines a plain queue, and what
  goes wrong without them.
\<close>

section \<open>The queue\<close>

record 'a wait_entry =
  we_value :: 'a
  we_deadline :: moment

text \<open>\<open>DeadlineKey\<close> is ordered by its deadline and then by its sequence.\<close>

type_synonym deadline_key = "moment \<times> u64"

record 'a wait_queue =
  wt_capacity :: usize
  wt_next_sequence :: u64
  wt_scan_cursor :: "u64 option"
  wt_entries :: "(u64, 'a wait_entry) btree"
  wt_deadlines :: "(deadline_key, u64) btree"

definition wait_queue_new :: "usize \<Rightarrow> 'a wait_queue" where
  "wait_queue_new capacity =
     \<lparr>wt_capacity = capacity, wt_next_sequence = 0, wt_scan_cursor = None,
      wt_entries = [], wt_deadlines = []\<rparr>"

fun resequence_loop :: "u64 \<Rightarrow> 'a wait_entry list \<Rightarrow> 'a wait_queue \<Rightarrow> 'a wait_queue" where
  "resequence_loop sequence [] q = q"
| "resequence_loop sequence (entry # entries) q =
     resequence_loop (sequence + 1) entries
       (q\<lparr>wt_deadlines := btree_insert (we_deadline entry, sequence) sequence (wt_deadlines q),
          wt_entries := btree_insert sequence entry (wt_entries q),
          wt_next_sequence := sequence + 1\<rparr>)"

definition resequence :: "'a wait_queue \<Rightarrow> 'a wait_queue" where
  "resequence q =
     resequence_loop 0 (map snd (wt_entries q))
       (q\<lparr>wt_entries := [], wt_scan_cursor := None, wt_deadlines := [], wt_next_sequence := 0\<rparr>)"

partial_function (option) reserve_sequence :: "'a wait_queue \<Rightarrow> ('a wait_queue \<times> u64) option" where
  "reserve_sequence q =
     (case checked_add (wt_next_sequence q) 1 of
        None \<Rightarrow> reserve_sequence (resequence q)
      | Some next \<Rightarrow> Some (q\<lparr>wt_next_sequence := next\<rparr>, wt_next_sequence q))"

declare reserve_sequence.simps [code]

definition insert_back :: "'a wait_queue \<Rightarrow> 'a \<Rightarrow> moment \<Rightarrow> ('a wait_queue \<times> ('a + unit)) option" where
  "insert_back q value deadline =
     (if length (wt_entries q) = wt_capacity q then Some (q, Inl value)
      else map_option (\<lambda>(q', sequence).
        (q'\<lparr>wt_entries := btree_insert sequence \<lparr>we_value = value, we_deadline = deadline\<rparr> (wt_entries q'),
            wt_deadlines := btree_insert (deadline, sequence) sequence (wt_deadlines q')\<rparr>,
         Inr ())) (reserve_sequence q))"

definition wait_push :: "'a wait_queue \<Rightarrow> 'a \<Rightarrow> moment \<Rightarrow> ('a wait_queue \<times> ('a + unit)) option" where
  "wait_push q value deadline = insert_back q value deadline"

definition rotate_back :: "'a wait_queue \<Rightarrow> 'a \<Rightarrow> moment \<Rightarrow> ('a wait_queue \<times> ('a + unit)) option" where
  "rotate_back q value deadline = insert_back q value deadline"

definition remove_deadline :: "bool \<Rightarrow> 'a wait_queue \<Rightarrow> u64 \<Rightarrow> moment \<Rightarrow> 'a wait_queue option" where
  "remove_deadline debug_assertions q sequence deadline =
     (if debug_assertions
        then let (deadlines, removed) = btree_remove (deadline, sequence) (wt_deadlines q) in
          if removed = Some sequence then Some (q\<lparr>wt_deadlines := deadlines\<rparr>) else None
      else Some q)"

definition wait_pop_front ::
    "bool \<Rightarrow> 'a wait_queue \<Rightarrow> ('a wait_queue \<times> ('a \<times> moment) option) option" where
  "wait_pop_front debug_assertions q =
     (let (entries, popped) = btree_pop_first (wt_entries q) in
      case popped of
        None \<Rightarrow> Some (q, None)
      | Some (sequence, entry) \<Rightarrow>
          map_option (\<lambda>q'. (q', Some (we_value entry, we_deadline entry)))
            (remove_deadline debug_assertions (q\<lparr>wt_entries := entries\<rparr>) sequence (we_deadline entry)))"

definition wait_pop_back ::
    "bool \<Rightarrow> 'a wait_queue \<Rightarrow> ('a wait_queue \<times> ('a \<times> moment) option) option" where
  "wait_pop_back debug_assertions q =
     (let (entries, popped) = btree_pop_last (wt_entries q) in
      case popped of
        None \<Rightarrow> Some (q, None)
      | Some (sequence, entry) \<Rightarrow>
          map_option (\<lambda>q'. (q', Some (we_value entry, we_deadline entry)))
            (remove_deadline debug_assertions (q\<lparr>wt_entries := entries\<rparr>) sequence (we_deadline entry)))"

definition scan_target :: "'a wait_queue \<Rightarrow> (u64 \<times> 'a wait_entry) option" where
  "scan_target q =
     (case btree_after (wt_scan_cursor q) (wt_entries q) of
        Some e \<Rightarrow> Some e
      | None \<Rightarrow> btree_first (wt_entries q))"

definition scan_one ::
    "bool \<Rightarrow> 'a wait_queue \<Rightarrow> ('a \<Rightarrow> bool) \<Rightarrow> ('a wait_queue \<times> ('a \<times> moment) option) option" where
  "scan_one debug_assertions q matches =
     (case scan_target q of
        None \<Rightarrow> Some (q, None)
      | Some (sequence, entry) \<Rightarrow>
          (let q' = q\<lparr>wt_scan_cursor := Some sequence\<rparr> in
           if \<not> matches (we_value entry) then Some (q', None)
           else let (entries, removed) = btree_remove sequence (wt_entries q') in
             case removed of
               None \<Rightarrow> Some (q'\<lparr>wt_entries := entries\<rparr>, None)
             | Some entry \<Rightarrow>
                 map_option (\<lambda>q''. (q'', Some (we_value entry, we_deadline entry)))
                   (remove_deadline debug_assertions (q'\<lparr>wt_entries := entries\<rparr>) sequence
                      (we_deadline entry))))"

definition wait_back :: "'a wait_queue \<Rightarrow> 'a option" where
  "wait_back q = map_option (\<lambda>(sequence, entry). we_value entry) (btree_last (wt_entries q))"

definition take_due ::
    "bool \<Rightarrow> 'a wait_queue \<Rightarrow> moment \<Rightarrow> ('a wait_queue \<times> ('a \<times> moment) option) option" where
  "take_due debug_assertions q now =
     (case btree_first (wt_deadlines q) of
        None \<Rightarrow> Some (q, None)
      | Some (key, _) \<Rightarrow>
          (if now < fst key then Some (q, None)
           else let (deadlines, popped) = btree_pop_first (wt_deadlines q) in
             case popped of
               None \<Rightarrow> Some (q\<lparr>wt_deadlines := deadlines\<rparr>, None)
             | Some (_, sequence) \<Rightarrow>
                 (let (entries, removed) = btree_remove sequence (wt_entries q);
                      q' = q\<lparr>wt_deadlines := deadlines, wt_entries := entries\<rparr>
                  in case removed of
                       None \<Rightarrow> Some (q', None)
                     | Some entry \<Rightarrow>
                         (if debug_assertions \<and> we_deadline entry \<noteq> fst key then None
                          else Some (q', Some (we_value entry, we_deadline entry))))))"

definition wait_next_deadline :: "'a wait_queue \<Rightarrow> moment option" where
  "wait_next_deadline q = map_option (\<lambda>(key, _). fst key) (btree_first (wt_deadlines q))"

definition wait_drain :: "'a wait_queue \<Rightarrow> 'a wait_queue \<times> 'a list" where
  "wait_drain q =
     (q\<lparr>wt_deadlines := [], wt_next_sequence := 0, wt_scan_cursor := None, wt_entries := []\<rparr>,
      map (\<lambda>(sequence, entry). we_value entry) (wt_entries q))"

definition wait_iter :: "'a wait_queue \<Rightarrow> ('a \<times> moment) list" where
  "wait_iter q = map (\<lambda>(sequence, entry). (we_value entry, we_deadline entry)) (wt_entries q)"

section \<open>The index agrees with the entries\<close>

fun index_entry :: "u64 \<times> 'a wait_entry \<Rightarrow> deadline_key \<times> u64" where
  "index_entry (sequence, entry) = ((we_deadline entry, sequence), sequence)"

text \<open>\<open>wait_index q bound\<close>: the index matches the entries, whose sequences are below \<open>bound\<close>.\<close>

definition wait_index :: "'a wait_queue \<Rightarrow> u64 \<Rightarrow> bool" where
  "wait_index q bound \<longleftrightarrow>
     btree_wf (wt_entries q) \<and> btree_wf (wt_deadlines q) \<and>
     set (wt_deadlines q) = index_entry ` set (wt_entries q) \<and>
     (\<forall>x\<in>set (wt_entries q). fst x < bound)"

definition entries_wf :: "'a wait_queue \<Rightarrow> bool" where
  "entries_wf q \<longleftrightarrow>
     btree_wf (wt_entries q) \<and> (\<forall>x\<in>set (wt_entries q). fst x < wt_next_sequence q) \<and>
     length (wt_entries q) \<le> wt_capacity q \<and> wt_capacity q < 2 ^ 64"

definition wait_wf :: "'a wait_queue \<Rightarrow> bool" where
  "wait_wf q \<longleftrightarrow>
     wait_index q (wt_next_sequence q) \<and>
     length (wt_entries q) \<le> wt_capacity q \<and> wt_capacity q < 2 ^ 64"

lemma wait_wf_entries: "wait_wf q \<Longrightarrow> entries_wf q"
  by (simp add: wait_wf_def wait_index_def entries_wf_def)

lemma wait_queue_new_wf: "capacity < 2 ^ 64 \<Longrightarrow> wait_wf (wait_queue_new capacity)"
  by (simp add: wait_wf_def wait_index_def wait_queue_new_def)

text \<open>What an operation leaves of the entries, the index being taken along.\<close>

lemma index_removed:
  assumes "wait_wf q" "(s, e) \<in> set (wt_entries q)"
  shows "index_entry ` {x \<in> set (wt_entries q). fst x \<noteq> s} =
    {y \<in> set (wt_deadlines q). fst y \<noteq> (we_deadline e, s)}"
proof -
  have wf: "btree_wf (wt_entries q)" using assms(1) by (simp add: wait_wf_def wait_index_def)
  have "fst (index_entry x) = (we_deadline e, s) \<longleftrightarrow> fst x = s" if "x \<in> set (wt_entries q)" for x
    using that btree_key_unique [OF wf _ assms(2)] by (metis fst_conv index_entry.simps prod.collapse snd_conv)
  then have "{x \<in> set (wt_entries q). fst x \<noteq> s} =
      {x \<in> set (wt_entries q). fst (index_entry x) \<noteq> (we_deadline e, s)}" by blast
  moreover have "{y \<in> f ` S. fst y \<noteq> k} = f ` {x \<in> S. fst (f x) \<noteq> k}"
    for f :: "u64 \<times> 'a wait_entry \<Rightarrow> deadline_key \<times> u64" and S k
    by auto
  moreover have "set (wt_deadlines q) = index_entry ` set (wt_entries q)"
    using assms(1) by (simp add: wait_wf_def wait_index_def)
  ultimately show ?thesis by (simp only:)
qed

lemma remove_deadline_debug:
  assumes "wait_wf q" "(s, e) \<in> set (wt_entries q)" "wt_deadlines q' = wt_deadlines q"
  shows "remove_deadline True q' s (we_deadline e) =
    Some (q'\<lparr>wt_deadlines := filter (\<lambda>y. fst y \<noteq> (we_deadline e, s)) (wt_deadlines q)\<rparr>)"
proof -
  have "((we_deadline e, s), s) \<in> set (wt_deadlines q)"
    using imageI [OF assms(2), of index_entry] assms(1) by (simp add: wait_wf_def wait_index_def)
  moreover have "distinct (map fst (wt_deadlines q))"
    using assms(1) by (simp add: wait_wf_def wait_index_def btree_wf_distinct)
  ultimately have "map_of (wt_deadlines q) (we_deadline e, s) = Some s" by simp
  then show ?thesis
    using assms(3) by (simp add: remove_deadline_def btree_remove_def)
qed

lemma removed_wf:
  assumes "wait_wf q" "(s, e) \<in> set (wt_entries q)"
    and "wt_entries q' = filter (\<lambda>x. fst x \<noteq> s) (wt_entries q)"
    and "wt_deadlines q' = filter (\<lambda>y. fst y \<noteq> (we_deadline e, s)) (wt_deadlines q)"
    and "wt_next_sequence q' = wt_next_sequence q" "wt_capacity q' = wt_capacity q"
  shows "wait_wf q'"
  using assms index_removed [OF assms(1,2)] le_trans [OF length_filter_le]
  by (auto simp: wait_wf_def wait_index_def btree_filter_wf)

section \<open>Reserving a sequence\<close>

lemma index_append:
  assumes "wait_index q s" "s < s'"
    and "wt_deadlines q' = btree_insert (we_deadline e, s) s (wt_deadlines q)"
    and "wt_entries q' = btree_insert s e (wt_entries q)"
  shows "wait_index q' s'" "wt_entries q' = wt_entries q @ [(s, e)]"
proof -
  have below: "\<forall>x\<in>set (wt_entries q). fst x < s" and wf: "btree_wf (wt_entries q)"
    using assms(1) by (simp_all add: wait_index_def)
  show entries: "wt_entries q' = wt_entries q @ [(s, e)]"
    unfolding assms(4) using wf below by (rule btree_insert_last)
  have "(we_deadline e, s) \<notin> fst ` set (wt_deadlines q)"
    using assms(1) below by (auto simp: wait_index_def)
  then have "mset (wt_deadlines q') = add_mset ((we_deadline e, s), s) (mset (wt_deadlines q))"
    unfolding assms(3) using assms(1) by (intro btree_insert_fresh) (auto simp: wait_index_def)
  then have "set (wt_deadlines q') = insert ((we_deadline e, s), s) (set (wt_deadlines q))"
    by (metis set_mset_add_mset_insert set_mset_mset)
  then have "set (wt_deadlines q') = index_entry ` set (wt_entries q')"
    using assms(1) by (simp add: wait_index_def entries)
  moreover have "btree_wf (wt_entries q')"
    unfolding assms(4) using wf by (rule btree_insert_wf)
  moreover have "btree_wf (wt_deadlines q')"
    unfolding assms(3) using assms(1) by (intro btree_insert_wf) (simp add: wait_index_def)
  moreover have "\<forall>x\<in>set (wt_entries q'). fst x < s'"
    using below assms(2) less_trans by (simp add: entries) blast
  ultimately show "wait_index q' s'" by (simp add: wait_index_def)
qed

lemma word_less_suc:
  assumes "unat s + 1 < 2 ^ 64"
  shows "s < s + 1 \<and> unat (s + 1) = unat (s :: u64) + 1"
proof -
  have "checked_add s 1 = Some (s + 1)" using assms by (simp add: checked_add_def)
  then show ?thesis using checked_add_one_less checked_add_unat by fastforce
qed

definition resequenced :: "'a wait_queue \<Rightarrow> 'a wait_entry list \<Rightarrow> nat \<Rightarrow> 'a wait_queue \<Rightarrow> bool" where
  "resequenced q es n r \<longleftrightarrow>
     wait_index r (wt_next_sequence r) \<and> map snd (wt_entries r) = map snd (wt_entries q) @ es \<and>
     unat (wt_next_sequence r) = n \<and> wt_capacity r = wt_capacity q"

lemma resequence_loop_index:
  "wait_index q s \<Longrightarrow> unat s + length es < 2 ^ 64 \<Longrightarrow> wt_next_sequence q = s \<Longrightarrow>
   resequenced q es (unat s + length es) (resequence_loop s es q)"
proof (induction s es q rule: resequence_loop.induct)
  case (1 s q)
  then show ?case by (simp add: resequenced_def)
next
  case (2 s e es q)
  define q' where "q' = q\<lparr>wt_deadlines := btree_insert (we_deadline e, s) s (wt_deadlines q),
      wt_entries := btree_insert s e (wt_entries q), wt_next_sequence := s + 1\<rparr>"
  have "unat s + 1 < 2 ^ 64" using "2.prems"(2) by simp
  from word_less_suc [OF this] have s: "s < s + 1" "unat (s + 1) = unat s + 1" by blast+
  have i: "wait_index q' (s + 1)" "wt_entries q' = wt_entries q @ [(s, e)]"
    by (rule index_append [OF "2.prems"(1) s(1)]; simp add: q'_def)+
  have "resequenced q' es (unat (s + 1) + length es) (resequence_loop (s + 1) es q')"
    unfolding q'_def by (rule "2.IH") (use i(1) s(2) "2.prems"(2) in \<open>simp_all add: q'_def\<close>)
  moreover have "resequence_loop s (e # es) q = resequence_loop (s + 1) es q'"
    by (simp only: resequence_loop.simps q'_def)
  moreover have "wt_capacity q' = wt_capacity q" by (simp add: q'_def)
  ultimately show ?case by (simp add: resequenced_def i(2) s(2))
qed

lemma resequence_index:
  assumes "length (wt_entries q) < 2 ^ 64"
  shows "resequenced (q\<lparr>wt_entries := []\<rparr>) (map snd (wt_entries q)) (length (wt_entries q)) (resequence q)"
proof -
  let ?q = "q\<lparr>wt_entries := [], wt_scan_cursor := None, wt_deadlines := [], wt_next_sequence := 0\<rparr>"
  have "wait_index ?q 0" by (simp add: wait_index_def)
  then show ?thesis
    using resequence_loop_index [of ?q 0 "map snd (wt_entries q)"] assms
    by (simp add: resequence_def resequenced_def)
qed

lemma reserve_sequence_below:
  "checked_add (wt_next_sequence q) 1 = Some next \<Longrightarrow>
   reserve_sequence q = Some (q\<lparr>wt_next_sequence := next\<rparr>, wt_next_sequence q)"
  by (simp add: reserve_sequence.simps [of q])

text \<open>Reservation always returns: below capacity, resequencing leaves room for one more.\<close>

definition reserved :: "'a wait_queue \<Rightarrow> 'a wait_queue \<Rightarrow> u64 \<Rightarrow> bool" where
  "reserved q q' s \<longleftrightarrow>
     btree_wf (wt_entries q') \<and> (\<forall>x\<in>set (wt_entries q'). fst x < s) \<and> s < wt_next_sequence q' \<and>
     map snd (wt_entries q') = map snd (wt_entries q) \<and> wt_capacity q' = wt_capacity q \<and>
     (wait_index q (wt_next_sequence q) \<longrightarrow> wait_index q' s)"

lemma reserve_sequence_returns:
  assumes "entries_wf q" "length (wt_entries q) < wt_capacity q"
  shows "\<exists>q' s. reserve_sequence q = Some (q', s) \<and> reserved q q' s"
proof (cases "checked_add (wt_next_sequence q) 1")
  case (Some n)
  then have "reserve_sequence q = Some (q\<lparr>wt_next_sequence := n\<rparr>, wt_next_sequence q)"
    by (rule reserve_sequence_below)
  moreover have "reserved q (q\<lparr>wt_next_sequence := n\<rparr>) (wt_next_sequence q)"
    using assms(1) checked_add_one_less [OF Some]
    by (simp add: reserved_def entries_wf_def wait_index_def)
  ultimately show ?thesis by blast
next
  case None
  let ?q = "resequence q"
  have "length (wt_entries q) < 2 ^ 64" using assms(1) by (simp add: entries_wf_def)
  note r = resequence_index [OF this, unfolded resequenced_def]
  have "unat (wt_next_sequence ?q) + 1 < 2 ^ 64"
    using r assms by (simp add: entries_wf_def)
  note step = word_less_suc [OF this]
  then have "checked_add (wt_next_sequence ?q) 1 = Some (wt_next_sequence ?q + 1)"
    using \<open>unat (wt_next_sequence ?q) + 1 < 2 ^ 64\<close> by (simp add: checked_add_def)
  then have "reserve_sequence ?q = Some (?q\<lparr>wt_next_sequence := wt_next_sequence ?q + 1\<rparr>, wt_next_sequence ?q)"
    by (rule reserve_sequence_below)
  moreover have "reserve_sequence q = reserve_sequence ?q"
    using None by (simp add: reserve_sequence.simps [of q])
  moreover have "reserved q (?q\<lparr>wt_next_sequence := wt_next_sequence ?q + 1\<rparr>) (wt_next_sequence ?q)"
    using r step by (simp add: reserved_def wait_index_def)
  ultimately show ?thesis by metis
qed

section \<open>The plain queue it implements\<close>

datatype 'a wait_op =
    WtPush 'a moment
  | WtPopFront
  | WtPopBack
  | WtScan "'a \<Rightarrow> bool"
  | WtTakeDue moment

datatype 'a wait_result = WtPushed "'a + unit" | WtPopped "('a \<times> moment) option" | WtPanicked

definition wait_returned ::
    "'a wait_queue \<Rightarrow> ('r \<Rightarrow> 'a wait_result) \<Rightarrow> ('a wait_queue \<times> 'r) option \<Rightarrow>
     'a wait_queue \<times> 'a wait_result" where
  "wait_returned q f r = (case r of None \<Rightarrow> (q, WtPanicked) | Some (q', x) \<Rightarrow> (q', f x))"

fun wait_apply :: "bool \<Rightarrow> 'a wait_queue \<Rightarrow> 'a wait_op \<Rightarrow> 'a wait_queue \<times> 'a wait_result" where
  "wait_apply dbg q (WtPush value deadline) = wait_returned q WtPushed (wait_push q value deadline)"
| "wait_apply dbg q WtPopFront = wait_returned q WtPopped (wait_pop_front dbg q)"
| "wait_apply dbg q WtPopBack = wait_returned q WtPopped (wait_pop_back dbg q)"
| "wait_apply dbg q (WtScan matches) = wait_returned q WtPopped (scan_one dbg q matches)"
| "wait_apply dbg q (WtTakeDue now) = wait_returned q WtPopped (take_due dbg q now)"

text \<open>
  The specification: waiting items with their deadlines in arrival order. A scan may decline or
  remove any one matching item; an expiry removes the item with the earliest deadline, the oldest
  of those that share it, and declines only when no item is due.
\<close>

inductive plain_queue :: "usize \<Rightarrow> 'a wait_op \<Rightarrow> 'a wait_result \<Rightarrow>
    ('a \<times> moment) list \<Rightarrow> ('a \<times> moment) list \<Rightarrow> bool" for capacity where
  push_full: "length xs = capacity \<Longrightarrow> plain_queue capacity (WtPush v d) (WtPushed (Inl v)) xs xs"
| push_room: "length xs < capacity \<Longrightarrow>
    plain_queue capacity (WtPush v d) (WtPushed (Inr ())) xs (xs @ [(v, d)])"
| front_empty: "plain_queue capacity WtPopFront (WtPopped None) [] []"
| front_item: "plain_queue capacity WtPopFront (WtPopped (Some x)) (x # xs) xs"
| back_empty: "plain_queue capacity WtPopBack (WtPopped None) [] []"
| back_item: "plain_queue capacity WtPopBack (WtPopped (Some x)) (xs @ [x]) xs"
| scan_declined: "plain_queue capacity (WtScan P) (WtPopped None) xs xs"
| scan_item: "P (fst x) \<Longrightarrow> plain_queue capacity (WtScan P) (WtPopped (Some x)) (xs @ x # ys) (xs @ ys)"
| none_due: "(\<forall>x\<in>set xs. now < snd x) \<Longrightarrow> plain_queue capacity (WtTakeDue now) (WtPopped None) xs xs"
| due_item: "snd x \<le> now \<Longrightarrow> (\<forall>y\<in>set xs. snd x < snd y) \<Longrightarrow> (\<forall>y\<in>set ys. snd x \<le> snd y) \<Longrightarrow>
    plain_queue capacity (WtTakeDue now) (WtPopped (Some x)) (xs @ x # ys) (xs @ ys)"

definition item :: "u64 \<times> 'a wait_entry \<Rightarrow> 'a \<times> moment" where
  "item e = (we_value (snd e), we_deadline (snd e))"

lemma same_items: "map snd xs = map snd ys \<Longrightarrow> map item xs = map item ys"
  by (simp add: item_def [abs_def] flip: map_map [of "\<lambda>e. (we_value e, we_deadline e)" snd, unfolded o_def])

lemma wait_iter_items: "wait_iter q = map item (wt_entries q)"
  by (simp add: wait_iter_def item_def split_beta)

text \<open>Removing an entry by its sequence removes one item of the plain queue.\<close>

lemma filter_key_split:
  assumes "btree_wf (xs @ (s, e) # ys)"
  shows "filter (\<lambda>x. fst x \<noteq> s) (xs @ (s, e) # ys) = xs @ ys"
proof -
  have "s \<notin> fst ` set xs" "s \<notin> fst ` set ys"
    using btree_wf_distinct [OF assms] by auto
  then have "filter (\<lambda>x. fst x \<noteq> s) xs = xs" "filter (\<lambda>x. fst x \<noteq> s) ys = ys"
    by (auto intro!: filter_True)
  then show ?thesis by simp
qed

lemma entry_split:
  assumes "(s, e) \<in> set (wt_entries q)"
  obtains xs ys where "wt_entries q = xs @ (s, e) # ys"
  using split_list [OF assms] by blast

lemma removed_split:
  assumes "wait_wf q" "wt_entries q = xs @ (s, e) # ys"
  shows "filter (\<lambda>x. fst x \<noteq> s) (wt_entries q) = xs @ ys"
  using assms filter_key_split [of xs s e ys] by (simp add: wait_wf_def wait_index_def)

text \<open>With debug assertions, taking an entry out keeps the invariant.\<close>

lemma taken_out:
  assumes "wait_wf q" "wt_entries q = xs @ (s, e) # ys"
    and "wt_entries q1 = xs @ ys" "wt_deadlines q1 = wt_deadlines q"
    and "wt_next_sequence q1 = wt_next_sequence q" "wt_capacity q1 = wt_capacity q"
  shows "\<exists>q2. remove_deadline True q1 s (we_deadline e) = Some q2 \<and> wait_wf q2 \<and>
    wt_capacity q2 = wt_capacity q \<and> wait_iter q2 = map item xs @ map item ys"
proof -
  have e: "(s, e) \<in> set (wt_entries q)" using assms(2) by simp
  let ?q2 = "q1\<lparr>wt_deadlines := filter (\<lambda>y. fst y \<noteq> (we_deadline e, s)) (wt_deadlines q)\<rparr>"
  have "remove_deadline True q1 s (we_deadline e) = Some ?q2"
    by (rule remove_deadline_debug [OF assms(1) e assms(4)])
  moreover have "wait_wf ?q2"
    using removed_split [OF assms(1,2)] assms(3,5,6) by (intro removed_wf [OF assms(1) e]) simp_all
  ultimately show ?thesis using assms(3,6) by (simp add: wait_iter_items)
qed

abbreviation simulates_plain :: "'a wait_queue \<Rightarrow> 'a wait_op \<Rightarrow> bool" where
  "simulates_plain q i \<equiv>
     wait_wf (fst (wait_apply True q i)) \<and>
     wt_capacity (fst (wait_apply True q i)) = wt_capacity q \<and>
     plain_queue (wt_capacity q) i (snd (wait_apply True q i)) (wait_iter q)
       (wait_iter (fst (wait_apply True q i)))"

lemma push_simulates:
  assumes "wait_wf q"
  shows "simulates_plain q (WtPush value deadline)"
proof (cases "length (wt_entries q) = wt_capacity q")
  case True
  then show ?thesis
    using assms by (simp add: wait_push_def insert_back_def wait_returned_def wait_iter_items push_full)
next
  case False
  then have room: "length (wt_entries q) < wt_capacity q" using assms by (simp add: wait_wf_def)
  from reserve_sequence_returns [OF wait_wf_entries [OF assms] this] obtain q' s where
    r: "reserve_sequence q = Some (q', s)"
    "wait_index q' s" "s < wt_next_sequence q'"
    "map snd (wt_entries q') = map snd (wt_entries q)" "wt_capacity q' = wt_capacity q"
    using assms by (auto simp: reserved_def wait_wf_def)
  define e where "e = \<lparr>we_value = value, we_deadline = deadline\<rparr>"
  define q'' where "q'' = q'\<lparr>wt_entries := btree_insert s e (wt_entries q'),
      wt_deadlines := btree_insert (deadline, s) s (wt_deadlines q')\<rparr>"
  have push: "wait_apply True q (WtPush value deadline) = (q'', WtPushed (Inr ()))"
    using False by (simp add: wait_push_def insert_back_def wait_returned_def r(1) q''_def e_def)
  have i: "wait_index q'' (wt_next_sequence q')" "wt_entries q'' = wt_entries q' @ [(s, e)]"
    by (rule index_append [OF r(2,3)]; simp add: q''_def e_def)+
  have len: "length (wt_entries q') = length (wt_entries q)"
    using r(4) by (metis length_map)
  have iter: "map item (wt_entries q') = map item (wt_entries q)"
    using r(4) by (rule same_items)
  have "wait_wf q''"
    using i room assms r(5) by (simp add: wait_wf_def len q''_def)
  moreover have "wait_iter q'' = wait_iter q @ [(value, deadline)]"
    using i(2) iter by (simp add: wait_iter_items item_def e_def)
  moreover have "plain_queue (wt_capacity q) (WtPush value deadline) (WtPushed (Inr ()))
      (wait_iter q) (wait_iter q @ [(value, deadline)])"
    using room by (intro push_room) (simp add: wait_iter_items)
  moreover have "wt_capacity q'' = wt_capacity q" by (simp add: q''_def r(5))
  ultimately show ?thesis unfolding push by simp
qed

lemma pop_front_simulates:
  assumes "wait_wf q"
  shows "simulates_plain q WtPopFront"
proof (cases "wt_entries q")
  case Nil
  then show ?thesis
    using assms by (simp add: wait_pop_front_def btree_pop_first_def btree_first_def wait_returned_def
        wait_iter_items front_empty)
next
  case (Cons x ys)
  obtain s e where x: "x = (s, e)" by (cases x)
  obtain q2 where "remove_deadline True (q\<lparr>wt_entries := ys\<rparr>) s (we_deadline e) = Some q2" "wait_wf q2"
    "wt_capacity q2 = wt_capacity q" "wait_iter q2 = map item ys"
    using taken_out [OF assms, of "[]" s e ys "q\<lparr>wt_entries := ys\<rparr>"] Cons x by auto
  then show ?thesis
    using front_item [of "wt_capacity q" "item x" "map item ys"]
    by (simp add: wait_pop_front_def btree_pop_first_def btree_first_def wait_returned_def
        wait_iter_items Cons x item_def)
qed

lemma pop_back_simulates:
  assumes "wait_wf q"
  shows "simulates_plain q WtPopBack"
proof (cases "wt_entries q" rule: rev_cases)
  case Nil
  then show ?thesis
    using assms by (simp add: wait_pop_back_def btree_pop_last_def btree_last_def wait_returned_def
        wait_iter_items back_empty)
next
  case (snoc xs x)
  obtain s e where x: "x = (s, e)" by (cases x)
  obtain q2 where "remove_deadline True (q\<lparr>wt_entries := xs\<rparr>) s (we_deadline e) = Some q2" "wait_wf q2"
    "wt_capacity q2 = wt_capacity q" "wait_iter q2 = map item xs"
    using taken_out [OF assms, of xs s e "[]" "q\<lparr>wt_entries := xs\<rparr>"] snoc x by auto
  then show ?thesis
    using back_item [of "wt_capacity q" "item x" "map item xs"]
    by (simp add: wait_pop_back_def btree_pop_last_def btree_last_def wait_returned_def
        wait_iter_items snoc x item_def)
qed

lemma scan_target_in: "scan_target q = Some x \<Longrightarrow> x \<in> set (wt_entries q)"
  by (auto simp: scan_target_def btree_after_def btree_first_def find_Some_iff
      split: option.splits list.splits)

lemma scan_simulates:
  assumes "wait_wf q"
  shows "simulates_plain q (WtScan P)"
proof (cases "scan_target q")
  case None
  then show ?thesis
    using assms scan_declined
    by (simp add: scan_one_def wait_returned_def wait_iter_items)
next
  case (Some x)
  obtain s e where x: "x = (s, e)" by (cases x)
  let ?q = "q\<lparr>wt_scan_cursor := Some s\<rparr>"
  have wf: "wait_wf ?q" using assms by (simp add: wait_wf_def wait_index_def)
  show ?thesis
  proof (cases "P (we_value e)")
    case False
    then show ?thesis
      using wf scan_declined
      by (simp add: scan_one_def wait_returned_def wait_iter_items Some x Let_def)
  next
    case True
    obtain xs ys where split: "wt_entries q = xs @ (s, e) # ys"
      using entry_split scan_target_in [OF Some] unfolding x by blast
    have removed: "btree_remove s (wt_entries q) = (xs @ ys, Some e)"
      using removed_split [OF assms split] btree_remove_entry [of "wt_entries q" s e] assms split
      by (simp add: btree_remove_def wait_wf_def wait_index_def)
    obtain q2 where "remove_deadline True (?q\<lparr>wt_entries := xs @ ys\<rparr>) s (we_deadline e) = Some q2"
      "wait_wf q2" "wt_capacity q2 = wt_capacity q" "wait_iter q2 = map item xs @ map item ys"
      using taken_out [OF wf, of xs s e ys "?q\<lparr>wt_entries := xs @ ys\<rparr>"] split by auto
    then show ?thesis
      using True scan_item [of P "item x" "wt_capacity q" "map item xs" "map item ys"]
      by (simp add: scan_one_def wait_returned_def wait_iter_items Some x Let_def removed [unfolded split] split item_def)
  qed
qed

lemma earliest_split:
  assumes "wait_wf q" "btree_first (wt_deadlines q) = Some ((d, s'), s)"
  obtains e xs ys where "wt_entries q = xs @ (s, e) # ys" "we_deadline e = d" "s' = s"
    "\<forall>y\<in>set (map item xs). d < snd y" "\<forall>y\<in>set (map item ys). d \<le> snd y"
proof -
  have wf: "btree_wf (wt_deadlines q)" "btree_wf (wt_entries q)"
    and set_eq: "set (wt_deadlines q) = index_entry ` set (wt_entries q)"
    using assms(1) by (simp_all add: wait_wf_def wait_index_def)
  note first = btree_first_min [OF wf(1) assms(2)]
  then obtain x where x: "x \<in> set (wt_entries q)" "index_entry x = ((d, s'), s)"
    using set_eq by auto
  from x(2) have "fst x = s" "we_deadline (snd x) = d" "s' = s" by (cases x, simp)+
  with x(1) obtain e where e: "(s, e) \<in> set (wt_entries q)" "we_deadline e = d" "s' = s"
    by (metis prod.collapse)
  then obtain xs ys where split: "wt_entries q = xs @ (s, e) # ys"
    using entry_split by blast
  have least: "d < we_deadline e' \<or> d = we_deadline e' \<and> s \<le> t" if "(t, e') \<in> set (wt_entries q)" for t e'
    using that set_eq first e(3) by (force simp: less_eq_prod_def)
  have "t < s" if "(t, e') \<in> set xs" for t e'
    using wf(2) that by (auto simp: split btree_wf_def sorted_wrt_append)
  then have "\<forall>y\<in>set (map item xs). d < snd y"
    using least split by (fastforce simp: item_def)
  moreover have "\<forall>y\<in>set (map item ys). d \<le> snd y"
    using least split by (fastforce simp: item_def)
  ultimately show thesis using that split e by blast
qed

lemma nothing_due:
  assumes "wait_wf q" "\<And>k s. btree_first (wt_deadlines q) = Some (k, s) \<Longrightarrow> now < fst k"
  shows "\<forall>x\<in>set (wait_iter q). now < snd x"
proof
  fix x
  assume "x \<in> set (wait_iter q)"
  then obtain y where y: "y \<in> set (wt_entries q)" "x = item y" by (auto simp: wait_iter_items)
  then have i: "index_entry y \<in> set (wt_deadlines q)"
    using assms(1) by (simp add: wait_wf_def wait_index_def)
  then obtain k s where first: "btree_first (wt_deadlines q) = Some (k, s)"
    by (cases "wt_deadlines q") (auto simp: btree_first_def)
  have "btree_wf (wt_deadlines q)" using assms(1) by (simp add: wait_wf_def wait_index_def)
  from btree_first_min [OF this first] i have "k \<le> fst (index_entry y)" by auto
  then have "fst k \<le> snd x"
    by (cases y; cases k) (auto simp: y(2) item_def less_eq_prod_def)
  with assms(2) [OF first] show "now < snd x" by simp
qed

lemma take_due_simulates:
  assumes "wait_wf q"
  shows "simulates_plain q (WtTakeDue now)"
proof (cases "\<exists>k s. btree_first (wt_deadlines q) = Some (k, s) \<and> fst k \<le> now")
  case False
  then have declined: "take_due True q now = Some (q, None)"
    by (auto simp: take_due_def not_le split: option.split)
  have "\<forall>x\<in>set (wait_iter q). now < snd x"
    using False by (intro nothing_due [OF assms]) force
  with assms declined none_due show ?thesis by (simp add: wait_returned_def)
next
  case True
  then obtain d s' s where first: "btree_first (wt_deadlines q) = Some ((d, s'), s)" and due: "d \<le> now"
    by auto
  from earliest_split [OF assms first] obtain e xs ys where split: "wt_entries q = xs @ (s, e) # ys"
    "we_deadline e = d" "s' = s"
    "\<forall>y\<in>set (map item xs). d < snd y" "\<forall>y\<in>set (map item ys). d \<le> snd y" .
  have rest: "tl (wt_deadlines q) = filter (\<lambda>y. fst y \<noteq> (d, s)) (wt_deadlines q)"
  proof (cases "wt_deadlines q")
    case (Cons y rest)
    then have "y = ((d, s), s)" using first split(3) by (simp add: btree_first_def)
    moreover have "btree_wf (y # rest)" using assms Cons by (simp add: wait_wf_def wait_index_def)
    ultimately show ?thesis using Cons filter_key_split [of "[]" "(d, s)" s rest] by simp
  qed simp
  let ?q' = "q\<lparr>wt_deadlines := tl (wt_deadlines q), wt_entries := xs @ ys\<rparr>"
  have wf: "wait_wf ?q'"
    using removed_split [OF assms split(1)] rest split(1,2)
    by (intro removed_wf [OF assms, of s e]) simp_all
  have removed: "btree_remove s (wt_entries q) = (xs @ ys, Some e)"
    using removed_split [OF assms split(1)] btree_remove_entry [of "wt_entries q" s e] assms split(1)
    by (simp add: btree_remove_def wait_wf_def wait_index_def)
  have "take_due True q now = Some (?q', Some (item (s, e)))"
    using first due split(2)
    by (simp add: take_due_def btree_pop_first_def removed item_def not_less)
  moreover have "plain_queue (wt_capacity q) (WtTakeDue now) (WtPopped (Some (item (s, e))))
      (map item xs @ item (s, e) # map item ys) (map item xs @ map item ys)"
    using due split(2,4,5) by (intro due_item) (simp_all add: item_def)
  ultimately show ?thesis
    using wf by (simp add: wait_returned_def wait_iter_items split(1))
qed

lemma wait_simulates: "wait_wf q \<Longrightarrow> simulates_plain q i"
  by (cases i)
     (simp_all only: push_simulates pop_front_simulates pop_back_simulates scan_simulates
       take_due_simulates)

interpretation wait_simulation: simulating_machine "wait_apply True"
  "\<lambda>q. wait_wf q \<and> wt_capacity q = capacity" wait_iter "plain_queue capacity" for capacity
proof
  fix q :: "'a wait_queue" and i
  assume q: "wait_wf q \<and> wt_capacity q = capacity"
  from wait_simulates [of q i] q
  show "wait_wf (fst (wait_apply True q i)) \<and> wt_capacity (fst (wait_apply True q i)) = capacity"
    by (simp del: wait_apply.simps)
  from wait_simulates [of q i] q
  show "plain_queue capacity i (snd (wait_apply True q i)) (wait_iter q) (wait_iter (fst (wait_apply True q i)))"
    by (simp del: wait_apply.simps)
qed

section \<open>No item is lost or duplicated, with or without assertions\<close>

lemma remove_deadline_entries:
  "remove_deadline dbg q s d = Some q' \<Longrightarrow>
   wt_entries q' = wt_entries q \<and> wt_next_sequence q' = wt_next_sequence q \<and> wt_capacity q' = wt_capacity q"
  by (auto simp: remove_deadline_def split: if_splits prod.splits)

definition takes_entry :: "'a wait_queue \<Rightarrow> 'a wait_queue \<Rightarrow> ('a \<times> moment) option \<Rightarrow> bool" where
  "takes_entry q q' r \<longleftrightarrow>
     entries_wf q' \<and> wt_capacity q' = wt_capacity q \<and>
     mset (wait_iter q) = mset (wait_iter q') + (case r of None \<Rightarrow> {#} | Some x \<Rightarrow> {#x#})"

lemma takes_nothing:
  "entries_wf q \<Longrightarrow> wt_entries q' = wt_entries q \<Longrightarrow> wt_next_sequence q' = wt_next_sequence q \<Longrightarrow>
   wt_capacity q' = wt_capacity q \<Longrightarrow> takes_entry q q' None"
  by (simp add: takes_entry_def entries_wf_def wait_iter_items)

lemma takes_one:
  assumes "entries_wf q" "wt_entries q = xs @ (s, e) # ys"
    and "wt_entries q' = xs @ ys" "wt_next_sequence q' = wt_next_sequence q" "wt_capacity q' = wt_capacity q"
  shows "takes_entry q q' (Some (we_value e, we_deadline e))"
proof -
  have "btree_wf (xs @ ys)"
    using assms(1,2) by (auto simp: entries_wf_def btree_wf_def sorted_wrt_append)
  then show ?thesis
    using assms by (auto simp: takes_entry_def entries_wf_def wait_iter_items item_def)
qed

lemma takes_removed:
  assumes "entries_wf q" "btree_remove s (wt_entries q) = (entries, Some e)"
    and "wt_entries q' = entries" "wt_next_sequence q' = wt_next_sequence q" "wt_capacity q' = wt_capacity q"
  shows "takes_entry q q' (Some (we_value e, we_deadline e))"
proof -
  have wf: "btree_wf (wt_entries q)" using assms(1) by (simp add: entries_wf_def)
  then have "(s, e) \<in> set (wt_entries q)"
    using assms(2) btree_remove_entry [of "wt_entries q" s e] by simp
  then obtain xs ys where split: "wt_entries q = xs @ (s, e) # ys" by (rule entry_split)
  then have "entries = xs @ ys"
    using assms(2) wf filter_key_split [of xs s e ys] by (simp add: btree_remove_def)
  with assms split show ?thesis by (intro takes_one) simp_all
qed

lemma takes_and_forgets:
  assumes "takes_entry q q1 r" "remove_deadline dbg q1 s d = Some q2"
  shows "takes_entry q q2 r"
  using assms remove_deadline_entries [OF assms(2)]
  by (simp add: takes_entry_def entries_wf_def wait_iter_items)

lemma pop_front_takes:
  assumes "entries_wf q" "wait_pop_front dbg q = Some (q', r)"
  shows "takes_entry q q' r"
proof (cases "wt_entries q")
  case Nil
  then show ?thesis
    using assms by (auto simp: wait_pop_front_def btree_pop_first_def btree_first_def intro: takes_nothing)
next
  case (Cons x ys)
  obtain s e where x: "x = (s, e)" by (cases x)
  have "takes_entry q (q\<lparr>wt_entries := ys\<rparr>) (Some (we_value e, we_deadline e))"
    by (rule takes_one [OF assms(1), of "[]" s e ys]) (simp_all add: Cons x)
  then show ?thesis
    using assms(2) takes_and_forgets
    by (auto simp: wait_pop_front_def btree_pop_first_def btree_first_def Cons x)
qed

lemma pop_back_takes:
  assumes "entries_wf q" "wait_pop_back dbg q = Some (q', r)"
  shows "takes_entry q q' r"
proof (cases "wt_entries q" rule: rev_cases)
  case Nil
  then show ?thesis
    using assms by (auto simp: wait_pop_back_def btree_pop_last_def btree_last_def intro: takes_nothing)
next
  case (snoc xs x)
  obtain s e where x: "x = (s, e)" by (cases x)
  have "takes_entry q (q\<lparr>wt_entries := xs\<rparr>) (Some (we_value e, we_deadline e))"
    by (rule takes_one [OF assms(1), of xs s e "[]"]) (simp_all add: snoc x)
  then show ?thesis
    using assms(2) takes_and_forgets
    by (auto simp: wait_pop_back_def btree_pop_last_def btree_last_def snoc x)
qed

lemma scan_one_takes:
  assumes "entries_wf q" "scan_one dbg q P = Some (q', r)"
  shows "takes_entry q q' r"
proof (cases "scan_target q")
  case None
  then show ?thesis using assms by (auto simp: scan_one_def intro: takes_nothing)
next
  case (Some x)
  obtain s e where x: "x = (s, e)" by (cases x)
  obtain entries removed where b: "btree_remove s (wt_entries q) = (entries, removed)" by fastforce
  show ?thesis
  proof (cases "P (we_value e) \<and> removed \<noteq> None")
    case True
    then obtain e' where e': "removed = Some e'" by auto
    have "takes_entry q (q\<lparr>wt_scan_cursor := Some s, wt_entries := entries\<rparr>)
        (Some (we_value e', we_deadline e'))"
      by (rule takes_removed [OF assms(1) b [unfolded e']]) simp_all
    then show ?thesis
      using assms(2) True takes_and_forgets by (auto simp: scan_one_def Some x b e' Let_def)
  next
    case False
    have "removed = Some e"
      using b scan_target_in [OF Some] btree_remove_entry [of "wt_entries q" s e] assms(1)
      by (simp add: x entries_wf_def)
    with False show ?thesis
      using assms by (auto simp: scan_one_def Some x Let_def intro: takes_nothing)
  qed
qed

lemma take_due_takes:
  assumes "entries_wf q" "take_due dbg q now = Some (q', r)"
  shows "takes_entry q q' r"
proof (cases "wt_deadlines q")
  case Nil
  then show ?thesis using assms by (auto simp: take_due_def btree_first_def intro: takes_nothing)
next
  case (Cons y deadlines)
  obtain k s where y: "y = (k, s)" by (cases y)
  obtain entries removed where b: "btree_remove s (wt_entries q) = (entries, removed)" by fastforce
  let ?q = "q\<lparr>wt_deadlines := deadlines, wt_entries := entries\<rparr>"
  show ?thesis
  proof (cases removed)
    case None
    then have "entries = wt_entries q"
      using b by (auto simp: btree_remove_def map_of_eq_None_iff intro!: filter_True)
    then show ?thesis
      using assms None
      by (auto simp: take_due_def btree_pop_first_def btree_first_def Cons y b intro: takes_nothing
          split: if_splits)
  next
    case (Some e)
    have "takes_entry q ?q (Some (we_value e, we_deadline e))"
      by (rule takes_removed [OF assms(1) b [unfolded Some]]) simp_all
    then show ?thesis
      using assms Some
      by (auto simp: take_due_def btree_pop_first_def btree_first_def Cons y b intro: takes_nothing
          split: if_splits)
  qed
qed

lemma wait_push_adds:
  assumes "entries_wf q"
  shows "\<exists>q'. wait_push q value deadline = Some (q',
      if length (wt_entries q) = wt_capacity q then Inl value else Inr ()) \<and>
    entries_wf q' \<and> wt_capacity q' = wt_capacity q \<and>
    wait_iter q' = wait_iter q @ (if length (wt_entries q) = wt_capacity q then [] else [(value, deadline)])"
proof (cases "length (wt_entries q) = wt_capacity q")
  case True
  then show ?thesis using assms by (simp add: wait_push_def insert_back_def)
next
  case False
  then have room: "length (wt_entries q) < wt_capacity q" using assms by (simp add: entries_wf_def)
  from reserve_sequence_returns [OF assms this] obtain q' s where
    r: "reserve_sequence q = Some (q', s)" "reserved q q' s" by blast
  let ?e = "\<lparr>we_value = value, we_deadline = deadline\<rparr>"
  let ?q = "q'\<lparr>wt_entries := btree_insert s ?e (wt_entries q'),
      wt_deadlines := btree_insert (deadline, s) s (wt_deadlines q')\<rparr>"
  have entries: "btree_insert s ?e (wt_entries q') = wt_entries q' @ [(s, ?e)]"
    using r(2) by (intro btree_insert_last) (simp_all add: reserved_def)
  have same: "map snd (wt_entries q') = map snd (wt_entries q)" using r(2) by (simp add: reserved_def)
  have iter: "map item (wt_entries q') = map item (wt_entries q)"
    using same by (rule same_items)
  have "length (wt_entries q') = length (wt_entries q)" using same by (metis length_map)
  then have "entries_wf ?q"
    using r(2) assms room btree_insert_wf [of "wt_entries q'" s ?e]
    by (auto simp: entries_wf_def reserved_def entries dest: less_trans)
  moreover have "wait_push q value deadline = Some (?q, Inr ())"
    using False by (simp add: wait_push_def insert_back_def r(1))
  moreover have "wait_iter ?q = wait_iter q @ [(value, deadline)]"
    using iter by (simp add: wait_iter_items entries item_def)
  ultimately show ?thesis
    using False r(2) by (auto simp: reserved_def)
qed

section \<open>Properties\<close>

text \<open>
  C37. With debug assertions enabled the wait queue refines a plain bounded queue: items are popped
  in arrival order, an expiry takes the earliest due item and declines only when none is due, a
  rejected push returns its value, resequencing always returns and no assertion fails.
\<close>

theorem wait_queue_refines_plain:
  assumes "capacity < 2 ^ 64"
  shows "spec_path (plain_queue capacity) []
    (zip is (outputs (wait_apply True) (wait_queue_new capacity) is))
    (wait_iter (final (wait_apply True) (wait_queue_new capacity) is))"
  using wait_simulation.run_simulates [of "wait_queue_new capacity" capacity "is"]
    wait_queue_new_wf [OF assms]
  by (simp add: wait_queue_new_def wait_iter_def)

definition sample_waits :: "nat wait_op list" where
  "sample_waits = [WtPush 1 5, WtPush 2 7, WtPopFront, WtTakeDue 10]"

theorem wait_queue_refines_plain_witness:
  "spec_path (plain_queue 4) []
     [(WtPush (1 :: nat) 5, WtPushed (Inr ())), (WtPush 2 7, WtPushed (Inr ())),
      (WtPopFront, WtPopped (Some (1, 5))), (WtTakeDue 10, WtPopped (Some (2, 7)))] []"
proof -
  have "outputs (wait_apply True) (wait_queue_new 4) sample_waits =
      [WtPushed (Inr ()), WtPushed (Inr ()), WtPopped (Some (1, 5)), WtPopped (Some (2, 7))]"
    and "wait_iter (final (wait_apply True) (wait_queue_new 4) sample_waits) = []"
    by code_simp+
  then show ?thesis
    using wait_queue_refines_plain [of 4 sample_waits] by (simp add: sample_waits_def)
qed

text \<open>
  Without debug assertions the index entry of a popped item is never removed. After two pushes
  and a pop, the expired index entry of the popped item is reported as the next deadline and makes
  the expiry of the remaining, due item come back empty-handed.
\<close>

theorem wait_queue_release_misses_due:
  "let q = final (wait_apply False) (wait_queue_new 4) [WtPush (1 :: nat) 5, WtPush 2 7, WtPopFront] in
   wait_iter q = [(2, 7)] \<and> wait_next_deadline q = Some 5 \<and>
   snd (wait_apply False q (WtTakeDue 10)) = WtPopped None"
  by code_simp

end
