(* ===== verification/Route_Waiting.thy ===== *)
theory Route_Waiting
  imports Request Wait_Queue
begin

text \<open>
  Calls waiting for a route (\<open>src/reactor/route_waiting.rs\<close>): admission under a call and a byte
  limit, release to a ready route, expiry and failure in bounded turns, and rejection after a
  failed route. A request is seen through the part of \<open>ErasedRequest\<close> that the code reads: its
  call, its policy and its retained size. Failing a request is reported as a settlement. \<open>None\<close> is
  a failed assertion of the wait queue or, in a debug build, an underflow of the accounting.
\<close>

section \<open>Requests and settlements\<close>

record 'v erased_request =
  er_call_id :: call_id
  er_policy :: "'v request_policy"
  er_retained_bytes :: usize

type_synonym ('k, 'v, 'en, 'de) settlement =
  "call_id \<times> ('k, 'v, 'en, 'de) request_error \<times> outcome_stamp option"

record 'v waiting_call =
  wc_request :: "'v erased_request"
  wc_bytes :: usize

definition rejects_after_route_failure :: "'v erased_request \<Rightarrow> bool" where
  "rejects_after_route_failure r = rp_reject_after_route_failure (er_policy r)"

definition deadline_exceeded :: "('k, 'v, 'en, 'de) request_error" where
  "deadline_exceeded = ReqRejected CallDeadlineExceeded NotSent"

definition fail_request ::
    "'v erased_request \<Rightarrow> ('k, 'v, 'en, 'de) request_error \<Rightarrow> outcome_stamp option \<Rightarrow>
     ('k, 'v, 'en, 'de) settlement" where
  "fail_request request failure observed_at = (er_call_id request, failure, observed_at)"

section \<open>The waiting room\<close>

record 'v route_waiting =
  rw_calls :: "'v waiting_call wait_queue"
  rw_retained_bytes :: usize
  rw_rejecting_calls :: usize
  rw_call_limit :: usize
  rw_byte_limit :: usize
  rw_turn_budget :: usize

definition route_waiting_new :: "usize \<Rightarrow> usize \<Rightarrow> usize \<Rightarrow> 'v route_waiting" where
  "route_waiting_new call_limit byte_limit turn_budget =
     \<lparr>rw_calls = wait_queue_new call_limit, rw_retained_bytes = 0, rw_rejecting_calls = 0,
      rw_call_limit = call_limit, rw_byte_limit = byte_limit, rw_turn_budget = turn_budget\<rparr>"

definition reject_capacity ::
    "'v route_waiting \<Rightarrow> 'v erased_request \<Rightarrow> ('k, 'v, 'en, 'de) settlement" where
  "reject_capacity w request =
     fail_request request (ReqRouteCapacityReached (rw_call_limit w) (rw_byte_limit w)) None"

definition rw_admit ::
    "'v route_waiting \<Rightarrow> 'v erased_request \<Rightarrow> moment \<Rightarrow>
     ('v route_waiting \<times> ('k, 'v, 'en, 'de) settlement list \<times> bool) option" where
  "rw_admit w request now =
     (let (policy, established) = policy_establish_deadline (er_policy request) now;
          request = request\<lparr>er_policy := policy\<rparr>
      in case established of
        Inl failure \<Rightarrow> Some (w, [fail_request request failure None], False)
      | Inr deadline \<Rightarrow>
          (if deadline \<le> now then Some (w, [fail_request request deadline_exceeded None], False)
           else let bytes = er_retained_bytes request in
             case usize_checked_add (rw_retained_bytes w) bytes of
               None \<Rightarrow> Some (w, [reject_capacity w request], False)
             | Some retained_bytes \<Rightarrow>
                 (if length (wt_entries (rw_calls w)) = rw_call_limit w \<or> rw_byte_limit w < retained_bytes
                    then Some (w, [reject_capacity w request], False)
                  else let rejecting = (if rejects_after_route_failure request then 1 else 0) in
                    case wait_push (rw_calls w) \<lparr>wc_request = request, wc_bytes = bytes\<rparr> deadline of
                      None \<Rightarrow> None
                    | Some (calls, Inl waiting) \<Rightarrow>
                        Some (w\<lparr>rw_calls := calls\<rparr>, [reject_capacity w (wc_request waiting)], False)
                    | Some (calls, Inr _) \<Rightarrow>
                        Some (w\<lparr>rw_calls := calls, rw_retained_bytes := retained_bytes,
                                rw_rejecting_calls := rw_rejecting_calls w + rejecting\<rparr>, [], True))))"

definition rw_release ::
    "bool \<Rightarrow> 'v route_waiting \<Rightarrow> 'v waiting_call \<Rightarrow> ('v route_waiting \<times> 'v erased_request) option" where
  "rw_release dbg w waiting =
     (case usize_sub dbg (rw_retained_bytes w) (wc_bytes waiting) of
        None \<Rightarrow> None
      | Some retained_bytes \<Rightarrow>
          map_option
            (\<lambda>rejecting_calls.
               (w\<lparr>rw_retained_bytes := retained_bytes, rw_rejecting_calls := rejecting_calls\<rparr>, wc_request waiting))
            (usize_sub dbg (rw_rejecting_calls w)
               (if rejects_after_route_failure (wc_request waiting) then 1 else 0)))"

datatype 'v route_waiting_outcome = RwEmpty | RwSettled | RwReady "'v erased_request"

definition rw_pop ::
    "bool \<Rightarrow> 'v route_waiting \<Rightarrow> moment \<Rightarrow> outcome_stamp option \<Rightarrow>
     ('v route_waiting \<times> ('k, 'v, 'en, 'de) settlement list \<times> 'v route_waiting_outcome) option" where
  "rw_pop dbg w now observed_at =
     (case wait_pop_front dbg (rw_calls w) of
        None \<Rightarrow> None
      | Some (calls, None) \<Rightarrow> Some (w\<lparr>rw_calls := calls\<rparr>, [], RwEmpty)
      | Some (calls, Some (waiting, deadline)) \<Rightarrow>
          (case rw_release dbg (w\<lparr>rw_calls := calls\<rparr>) waiting of
             None \<Rightarrow> None
           | Some (w', request) \<Rightarrow>
               (case moment_duration_since deadline now of
                  None \<Rightarrow> Some (w', [fail_request request deadline_exceeded observed_at], RwSettled)
                | Some remaining \<Rightarrow>
                    (if remaining = 0
                       then Some (w', [fail_request request deadline_exceeded observed_at], RwSettled)
                     else Some (w', [], RwReady request)))))"

function expire_loop ::
    "bool \<Rightarrow> 'v route_waiting \<Rightarrow> moment \<Rightarrow> outcome_stamp option \<Rightarrow> usize \<Rightarrow> usize \<Rightarrow>
     ('k, 'v, 'en, 'de) settlement list \<Rightarrow>
     ('v route_waiting \<times> ('k, 'v, 'en, 'de) settlement list \<times> usize) option" where
  "expire_loop dbg w now observed_at settled budget out =
     (if settled < budget
      then case take_due dbg (rw_calls w) now of
             None \<Rightarrow> None
           | Some (calls, None) \<Rightarrow> Some (w\<lparr>rw_calls := calls\<rparr>, out, settled)
           | Some (calls, Some (waiting, _)) \<Rightarrow>
               (case rw_release dbg (w\<lparr>rw_calls := calls\<rparr>) waiting of
                  None \<Rightarrow> None
                | Some (w', request) \<Rightarrow>
                    expire_loop dbg w' now observed_at (settled + 1) budget
                      (out @ [fail_request request deadline_exceeded observed_at]))
      else Some (w, out, settled))"
  by pat_completeness auto
termination
  by (relation "measure (\<lambda>(dbg, w, now, observed_at, settled, budget, out). budget - settled)") auto

declare expire_loop.simps [simp del]

definition rw_expire_due_bounded ::
    "bool \<Rightarrow> 'v route_waiting \<Rightarrow> moment \<Rightarrow> outcome_stamp option \<Rightarrow> usize \<Rightarrow>
     ('v route_waiting \<times> ('k, 'v, 'en, 'de) settlement list \<times> usize) option" where
  "rw_expire_due_bounded dbg w now observed_at budget =
     expire_loop dbg w now observed_at 0 (min budget (rw_turn_budget w)) []"

definition rw_next_deadline :: "'v route_waiting \<Rightarrow> moment option" where
  "rw_next_deadline w = wait_next_deadline (rw_calls w)"

function fail_loop ::
    "bool \<Rightarrow> 'v route_waiting \<Rightarrow> ('k, 'v, 'en, 'de) request_error \<Rightarrow> outcome_stamp option \<Rightarrow>
     usize \<Rightarrow> usize \<Rightarrow> ('k, 'v, 'en, 'de) settlement list \<Rightarrow>
     ('v route_waiting \<times> ('k, 'v, 'en, 'de) settlement list \<times> usize) option" where
  "fail_loop dbg w failure observed_at settled budget out =
     (if settled < budget
      then case wait_pop_front dbg (rw_calls w) of
             None \<Rightarrow> None
           | Some (calls, None) \<Rightarrow> Some (w\<lparr>rw_calls := calls\<rparr>, out, settled)
           | Some (calls, Some (waiting, _)) \<Rightarrow>
               (case rw_release dbg (w\<lparr>rw_calls := calls\<rparr>) waiting of
                  None \<Rightarrow> None
                | Some (w', request) \<Rightarrow>
                    fail_loop dbg w' failure observed_at (settled + 1) budget
                      (out @ [fail_request request failure observed_at]))
      else Some (w, out, settled))"
  by pat_completeness auto
termination
  by (relation "measure (\<lambda>(dbg, w, failure, observed_at, settled, budget, out). budget - settled)") auto

declare fail_loop.simps [simp del]

definition rw_fail_bounded ::
    "bool \<Rightarrow> 'v route_waiting \<Rightarrow> ('k, 'v, 'en, 'de) request_error \<Rightarrow> outcome_stamp option \<Rightarrow> usize \<Rightarrow>
     ('v route_waiting \<times> ('k, 'v, 'en, 'de) settlement list \<times> usize) option" where
  "rw_fail_bounded dbg w failure observed_at budget = fail_loop dbg w failure observed_at 0 budget []"

definition rw_fail_all ::
    "bool \<Rightarrow> 'v route_waiting \<Rightarrow> ('k, 'v, 'en, 'de) request_error \<Rightarrow> outcome_stamp option \<Rightarrow>
     ('v route_waiting \<times> ('k, 'v, 'en, 'de) settlement list) option" where
  "rw_fail_all dbg w failure observed_at =
     map_option (\<lambda>(w', out, settled). (w', out)) (rw_fail_bounded dbg w failure observed_at (2 ^ 64 - 1))"

definition rw_has_failure_rejections :: "'v route_waiting \<Rightarrow> bool" where
  "rw_has_failure_rejections w \<longleftrightarrow> rw_rejecting_calls w \<noteq> 0"

definition rw_reject_failed_route_one ::
    "bool \<Rightarrow> 'v route_waiting \<Rightarrow> moment \<Rightarrow> outcome_stamp \<Rightarrow>
     ('v route_waiting \<times> ('k, 'v, 'en, 'de) settlement list \<times> bool) option" where
  "rw_reject_failed_route_one dbg w now observed_at =
     (if \<not> rw_has_failure_rejections w then Some (w, [], False)
      else case scan_one dbg (rw_calls w) (\<lambda>waiting. rejects_after_route_failure (wc_request waiting)) of
        None \<Rightarrow> None
      | Some (calls, None) \<Rightarrow> Some (w\<lparr>rw_calls := calls\<rparr>, [], True)
      | Some (calls, Some (waiting, deadline)) \<Rightarrow>
          (let failure = (if deadline \<le> now then deadline_exceeded else ReqRejected CallNotReady NotSent) in
           case rw_release dbg (w\<lparr>rw_calls := calls\<rparr>) waiting of
             None \<Rightarrow> None
           | Some (w', request) \<Rightarrow> Some (w', [fail_request request failure (Some observed_at)], True)))"

definition rw_has_live_after :: "'v route_waiting \<Rightarrow> moment \<Rightarrow> bool" where
  "rw_has_live_after w now \<longleftrightarrow> list_ex (\<lambda>(waiting, deadline). now < deadline) (wait_iter (rw_calls w))"

section \<open>The wait queue never fails an assertion\<close>

text \<open>
  With debug assertions the queue keeps its full invariant; without them only the entries stay
  ordered, because index entries of popped items are left behind. Either is enough for every
  operation to return.
\<close>

definition wait_sound :: "bool \<Rightarrow> 'a wait_queue \<Rightarrow> bool" where
  "wait_sound dbg q \<longleftrightarrow> (if dbg then wait_wf q else entries_wf q)"

lemma wait_sound_entries: "wait_sound dbg q \<Longrightarrow> entries_wf q"
  by (simp add: wait_sound_def wait_wf_entries split: if_splits)

definition takes_sound ::
    "bool \<Rightarrow> 'a wait_queue \<Rightarrow> ('a wait_queue \<times> ('a \<times> moment) option) option \<Rightarrow> bool" where
  "takes_sound dbg q res \<longleftrightarrow> (\<exists>q' r. res = Some (q', r) \<and> takes_entry q q' r \<and> wait_sound dbg q')"

lemma plain_queue_returns: "\<not> plain_queue capacity i WtPanicked xs ys"
  by (auto elim: plain_queue.cases)

lemma popped_sound:
  assumes "wait_sound dbg q"
    and "\<And>q' r. res = Some (q', r) \<Longrightarrow> takes_entry q q' r"
    and "\<not> dbg \<Longrightarrow> res \<noteq> None"
    and "dbg \<Longrightarrow> wait_apply True q i = wait_returned q WtPopped res"
  shows "takes_sound dbg q res"
proof (cases dbg)
  case True
  then have "simulates_plain q i" using assms(1) wait_simulates by (simp add: wait_sound_def del: wait_apply.simps)
  then have sim: "wait_wf (fst (wait_returned q WtPopped res))"
      "plain_queue (wt_capacity q) i (snd (wait_returned q WtPopped res)) (wait_iter q)
         (wait_iter (fst (wait_returned q WtPopped res)))"
    using assms(4) True by simp_all
  then obtain q' r where "res = Some (q', r)"
    using plain_queue_returns by (cases res) (auto simp: wait_returned_def)
  then show ?thesis using sim(1) assms(2) True by (simp add: takes_sound_def wait_sound_def wait_returned_def)
next
  case False
  then obtain q' r where "res = Some (q', r)" using assms(3) by (cases res) auto
  then show ?thesis using assms(2) False by (simp add: takes_sound_def wait_sound_def takes_entry_def)
qed

lemma pop_front_sound: "wait_sound dbg q \<Longrightarrow> takes_sound dbg q (wait_pop_front dbg q)"
  by (rule popped_sound [where i = WtPopFront])
     (auto intro: pop_front_takes wait_sound_entries
       simp: wait_pop_front_def remove_deadline_def split: prod.splits option.splits)

lemma take_due_sound: "wait_sound dbg q \<Longrightarrow> takes_sound dbg q (take_due dbg q now)"
  by (rule popped_sound [where i = "WtTakeDue now"])
     (auto intro: take_due_takes wait_sound_entries
       simp: take_due_def Let_def split: prod.splits option.splits if_splits)

lemma scan_one_sound: "wait_sound dbg q \<Longrightarrow> takes_sound dbg q (scan_one dbg q P)"
  by (rule popped_sound [where i = "WtScan P"])
     (auto intro: scan_one_takes wait_sound_entries
       simp: scan_one_def remove_deadline_def Let_def split: prod.splits option.splits if_splits)

lemma push_sound:
  assumes "wait_sound dbg q" "length (wt_entries q) \<noteq> wt_capacity q"
  obtains q' where "wait_push q v deadline = Some (q', Inr ())" "wait_sound dbg q'"
    "wt_capacity q' = wt_capacity q" "wait_iter q' = wait_iter q @ [(v, deadline)]"
proof -
  obtain q' where q': "wait_push q v deadline = Some (q', Inr ())" "entries_wf q'"
    "wt_capacity q' = wt_capacity q" "wait_iter q' = wait_iter q @ [(v, deadline)]"
    using wait_push_adds [OF wait_sound_entries [OF assms(1)], of v deadline] assms(2) by auto
  have "wait_sound dbg q'"
  proof (cases dbg)
    case True
    then show ?thesis
      using wait_simulates [of q "WtPush v deadline"] assms(1) q'(1)
      by (simp add: wait_sound_def wait_returned_def)
  qed (simp add: wait_sound_def q'(2))
  with that q' show ?thesis by blast
qed

section \<open>Accounting\<close>

definition waiting_items :: "'v route_waiting \<Rightarrow> ('v waiting_call \<times> moment) multiset" where
  "waiting_items w = mset (wait_iter (rw_calls w))"

definition waiting_ids :: "'v route_waiting \<Rightarrow> call_id multiset" where
  "waiting_ids w = image_mset (\<lambda>c. er_call_id (wc_request (fst c))) (waiting_items w)"

definition rw_wf :: "bool \<Rightarrow> 'v route_waiting \<Rightarrow> bool" where
  "rw_wf dbg w \<longleftrightarrow>
     wait_sound dbg (rw_calls w) \<and> wt_capacity (rw_calls w) = rw_call_limit w \<and>
     rw_retained_bytes w = sum_mset (image_mset (\<lambda>c. wc_bytes (fst c)) (waiting_items w)) \<and>
     rw_retained_bytes w \<le> rw_byte_limit w \<and>
     rw_rejecting_calls w =
       size (filter_mset (\<lambda>c. rejects_after_route_failure (wc_request (fst c))) (waiting_items w))"

lemma route_waiting_new_wf:
  assumes "call_limit < 2 ^ 64"
  shows "rw_wf dbg (route_waiting_new call_limit byte_limit turn_budget)"
proof -
  have "wait_sound dbg (wait_queue_new call_limit :: 'v waiting_call wait_queue)"
    by (simp add: wait_sound_def wait_wf_entries wait_queue_new_wf [OF assms])
  then show ?thesis
    by (simp add: rw_wf_def route_waiting_new_def waiting_items_def wait_iter_def)
       (simp add: wait_queue_new_def)
qed

text \<open>A step that keeps the accounting and settles or hands out exactly \<open>ids\<close>.\<close>

definition balanced :: "bool \<Rightarrow> 'v route_waiting \<Rightarrow> 'v route_waiting \<Rightarrow> call_id multiset \<Rightarrow> bool" where
  "balanced dbg w w' ids \<longleftrightarrow> rw_wf dbg w' \<and> waiting_ids w = waiting_ids w' + ids"

abbreviation settled_ids :: "('k, 'v, 'en, 'de) settlement list \<Rightarrow> call_id multiset" where
  "settled_ids out \<equiv> mset (map fst out)"

lemma balanced_refl: "rw_wf dbg w \<Longrightarrow> balanced dbg w w {#}"
  by (simp add: balanced_def)

lemma balanced_trans: "balanced dbg w w' a \<Longrightarrow> balanced dbg w' w'' b \<Longrightarrow> balanced dbg w w'' (a + b)"
  by (simp add: balanced_def)

lemma taken_cases:
  assumes "rw_wf dbg w" "takes_sound dbg (rw_calls w) res"
  obtains (declined) calls where "res = Some (calls, None)" "balanced dbg w (w\<lparr>rw_calls := calls\<rparr>) {#}"
  | (released) calls waiting d w1 request where "res = Some (calls, Some (waiting, d))"
      "rw_release dbg (w\<lparr>rw_calls := calls\<rparr>) waiting = Some (w1, request)" "request = wc_request waiting"
      "balanced dbg w w1 {#er_call_id request#}"
proof -
  obtain calls r where r: "res = Some (calls, r)" "takes_entry (rw_calls w) calls r" "wait_sound dbg calls"
    using assms(2) by (auto simp: takes_sound_def)
  show ?thesis
  proof (cases r)
    case None
    then have "balanced dbg w (w\<lparr>rw_calls := calls\<rparr>) {#}"
      using assms(1) r by (simp add: balanced_def rw_wf_def takes_entry_def waiting_ids_def waiting_items_def)
    with that(1) r(1) None show ?thesis by simp
  next
    case (Some x)
    obtain waiting d where x: "x = (waiting, d)" by (cases x)
    have items: "waiting_items w = add_mset (waiting, d) (mset (wait_iter calls))"
      using r(2) Some x by (simp add: takes_entry_def waiting_items_def)
    then obtain w1 request where rel: "rw_release dbg (w\<lparr>rw_calls := calls\<rparr>) waiting = Some (w1, request)"
      using assms(1) by (auto simp: rw_release_def rw_wf_def)
    have "wt_capacity calls = wt_capacity (rw_calls w)"
      using r(2) by (simp add: takes_entry_def)
    with items have "balanced dbg w w1 {#er_call_id request#}" "request = wc_request waiting"
      using assms(1) r(3) rel items unfolding rw_release_def
      by (auto simp: balanced_def rw_wf_def waiting_ids_def waiting_items_def)
    with that(2) r(1) Some x rel show ?thesis by blast
  qed
qed

lemma rw_wf_sound: "rw_wf dbg w \<Longrightarrow> wait_sound dbg (rw_calls w)"
  by (simp add: rw_wf_def)

lemma rw_admit_balanced:
  fixes res :: "('v route_waiting \<times> ('k, 'v, 'en, 'de) settlement list \<times> bool) option"
  assumes "rw_wf dbg w" "res = rw_admit w request now"
  obtains w' out admitted where "res = Some (w', out, admitted)" "rw_wf dbg w'"
    "waiting_ids w + {#er_call_id request#} = waiting_ids w' + settled_ids out"
proof -
  obtain policy and established :: "('k, 'v, 'en, 'de) request_error + moment" where
    e: "policy_establish_deadline (er_policy request) now = (policy, established)"
    by fastforce
  let ?request = "request\<lparr>er_policy := policy\<rparr>"
  show ?thesis
  proof (cases "\<exists>failure. res = Some (w, [fail_request ?request failure None], False)")
    case True
    then obtain failure where f: "res = Some (w, [fail_request ?request failure None], False)" ..
    show ?thesis using assms(1) by (intro that [OF f]) (simp_all add: fail_request_def)
  next
    case False
    then obtain deadline retained where d: "established = Inr deadline" "\<not> deadline \<le> now"
      "usize_checked_add (rw_retained_bytes w) (er_retained_bytes ?request) = Some retained"
      "\<not> (length (wt_entries (rw_calls w)) = rw_call_limit w \<or> rw_byte_limit w < retained)"
      using assms(2)
      by (auto simp: rw_admit_def e Let_def reject_capacity_def split: sum.splits option.splits if_splits)
    define waiting where "waiting = \<lparr>wc_request = ?request, wc_bytes = er_retained_bytes ?request\<rparr>"
    have room: "length (wt_entries (rw_calls w)) \<noteq> wt_capacity (rw_calls w)"
      using d(4) assms(1) by (simp add: rw_wf_def)
    obtain calls where push: "wait_push (rw_calls w) waiting deadline = Some (calls, Inr ())"
      "wait_sound dbg calls" "wt_capacity calls = wt_capacity (rw_calls w)"
      "wait_iter calls = wait_iter (rw_calls w) @ [(waiting, deadline)]"
      using push_sound [OF rw_wf_sound [OF assms(1)] room] by blast
    let ?w = "w\<lparr>rw_calls := calls, rw_retained_bytes := retained,
        rw_rejecting_calls := rw_rejecting_calls w +
          (if rejects_after_route_failure ?request then 1 else 0)\<rparr>"
    have admitted: "res = Some (?w, [], True)"
      using assms(2) d push(1) unfolding waiting_def by (simp add: rw_admit_def e Let_def)
    have "retained = rw_retained_bytes w + er_retained_bytes request"
      using d(3) by (simp add: usize_checked_add_def split: if_splits)
    then have "rw_wf dbg ?w" "waiting_ids w + {#er_call_id request#} = waiting_ids ?w"
      using assms(1) push d(4) by (simp_all add: rw_wf_def waiting_ids_def waiting_items_def waiting_def)
    with that [OF admitted] show ?thesis by simp
  qed
qed

fun handed_ids :: "'v route_waiting_outcome \<Rightarrow> call_id multiset" where
  "handed_ids (RwReady request) = {#er_call_id request#}"
| "handed_ids _ = {#}"

lemma rw_pop_balanced:
  assumes "rw_wf dbg w"
  shows "\<exists>w' out outcome. rw_pop dbg w now observed_at = Some (w', out, outcome) \<and>
    balanced dbg w w' (settled_ids out + handed_ids outcome)"
  using pop_front_sound [OF rw_wf_sound [OF assms]]
  by (cases rule: taken_cases [OF assms, consumes 1, case_names declined released])
     (auto simp: rw_pop_def fail_request_def split: option.splits)

text \<open>
  Both bounded loops settle one released call per turn. They stop when the budget is used up or
  when nothing is left for them to do, which \<open>idle\<close> describes.
\<close>

definition loop_balanced ::
    "bool \<Rightarrow> ('v route_waiting \<Rightarrow> bool) \<Rightarrow> 'v route_waiting \<Rightarrow> ('k, 'v, 'en, 'de) settlement list \<Rightarrow>
     usize \<Rightarrow> usize \<Rightarrow> ('v route_waiting \<times> ('k, 'v, 'en, 'de) settlement list \<times> usize) option \<Rightarrow> bool" where
  "loop_balanced dbg idle w out settled budget r \<longleftrightarrow>
     (\<exists>w' more. r = Some (w', out @ more, settled + length more) \<and>
        balanced dbg w w' (settled_ids more) \<and> length more \<le> budget - settled \<and>
        (length more = budget - settled \<or> idle w'))"

lemma loop_balanced_stop:
  "balanced dbg w w' {#} \<Longrightarrow> \<not> settled < budget \<or> idle w' \<Longrightarrow>
   loop_balanced dbg idle w out settled budget (Some (w', out, settled))"
  by (auto simp: loop_balanced_def)

lemma loop_balanced_step:
  assumes "balanced dbg w w1 {#fst s#}" "settled < budget"
    and "loop_balanced dbg idle w1 (out @ [s]) (settled + 1) budget r"
  shows "loop_balanced dbg idle w out settled budget r"
proof -
  from assms(3) obtain w' more where m: "r = Some (w', (out @ [s]) @ more, settled + 1 + length more)"
    "balanced dbg w1 w' (settled_ids more)" "length more \<le> budget - (settled + 1)"
    "length more = budget - (settled + 1) \<or> idle w'"
    unfolding loop_balanced_def by blast
  have "balanced dbg w w' (settled_ids (s # more))"
    using balanced_trans [OF assms(1) m(2)] by simp
  with m assms(2) show ?thesis
    unfolding loop_balanced_def by (intro exI [of _ w'] exI [of _ "s # more"]) auto
qed

text \<open>With debug assertions an expiry that declines has left no due call behind.\<close>

definition none_due_left :: "bool \<Rightarrow> moment \<Rightarrow> 'v route_waiting \<Rightarrow> bool" where
  "none_due_left dbg now w \<longleftrightarrow> (dbg \<longrightarrow> list_all (\<lambda>c. now < snd c) (wait_iter (rw_calls w)))"

lemma take_due_declines:
  assumes "wait_sound dbg (rw_calls w)" "take_due dbg (rw_calls w) now = Some (calls, None)"
  shows "none_due_left dbg now (w\<lparr>rw_calls := calls\<rparr>)"
proof (cases dbg)
  case True
  have "plain_queue (wt_capacity (rw_calls w)) (WtTakeDue now) (WtPopped None) (wait_iter (rw_calls w)) (wait_iter calls)"
    using wait_simulates [of "rw_calls w" "WtTakeDue now"] assms True
    by (simp add: wait_sound_def wait_returned_def)
  then have "\<forall>c\<in>set (wait_iter calls). now < snd c" by cases auto
  then show ?thesis by (simp add: none_due_left_def list_all_iff)
qed (simp add: none_due_left_def)

lemma expire_loop_balanced:
  "rw_wf dbg w \<Longrightarrow> loop_balanced dbg (none_due_left dbg now) w out settled budget
     (expire_loop dbg w now observed_at settled budget out)"
proof (induction dbg w now observed_at settled budget out rule: expire_loop.induct)
  case (1 dbg w now observed_at settled budget out)
  show ?case
  proof (cases "settled < budget")
    case True
    from take_due_sound [OF rw_wf_sound [OF "1.prems"], of now] show ?thesis
    proof (cases rule: taken_cases [OF "1.prems", consumes 1, case_names declined released])
      case (declined calls)
      then show ?thesis
        using True take_due_declines [OF rw_wf_sound [OF "1.prems"] declined(1)]
        by (simp add: expire_loop.simps [of dbg w] loop_balanced_stop)
    next
      case (released calls waiting d w1 request)
      from "1.IH" [OF True released(1) refl refl refl released(2) refl] released(4) True
      show ?thesis
        by (simp add: expire_loop.simps [of dbg w] released(1,2) fail_request_def balanced_def)
           (rule loop_balanced_step; simp add: balanced_def)
    qed
  qed (simp add: expire_loop.simps loop_balanced_stop balanced_refl "1.prems")
qed

lemma pop_front_declines:
  "wait_pop_front dbg q = Some (q', None) \<Longrightarrow> wait_iter q' = []"
  by (auto simp: wait_pop_front_def btree_pop_first_def btree_first_def wait_iter_def
      split: option.splits list.splits)

lemma fail_loop_balanced:
  "rw_wf dbg w \<Longrightarrow> loop_balanced dbg (\<lambda>w'. waiting_ids w' = {#}) w out settled budget
     (fail_loop dbg w failure observed_at settled budget out)"
proof (induction dbg w failure observed_at settled budget out rule: fail_loop.induct)
  case (1 dbg w failure observed_at settled budget out)
  show ?case
  proof (cases "settled < budget")
    case True
    from pop_front_sound [OF rw_wf_sound [OF "1.prems"]] show ?thesis
    proof (cases rule: taken_cases [OF "1.prems", consumes 1, case_names declined released])
      case (declined calls)
      then show ?thesis
        using True pop_front_declines [OF declined(1)]
        by (simp add: fail_loop.simps [of dbg w] loop_balanced_stop waiting_ids_def waiting_items_def)
    next
      case (released calls waiting d w1 request)
      from "1.IH" [OF True released(1) refl refl refl released(2) refl] released(4) True
      show ?thesis
        by (simp add: fail_loop.simps [of dbg w] released(1,2) fail_request_def balanced_def)
           (rule loop_balanced_step; simp add: balanced_def)
    qed
  qed (simp add: fail_loop.simps loop_balanced_stop balanced_refl "1.prems")
qed

lemma rw_reject_balanced:
  assumes "rw_wf dbg w"
  shows "\<exists>w' out b. rw_reject_failed_route_one dbg w now observed_at = Some (w', out, b) \<and>
    balanced dbg w w' (settled_ids out)"
proof (cases "rw_has_failure_rejections w")
  case True
  from scan_one_sound [OF rw_wf_sound [OF assms], of "\<lambda>waiting. rejects_after_route_failure (wc_request waiting)"]
  show ?thesis
    by (cases rule: taken_cases [OF assms, consumes 1, case_names declined released])
       (use True in \<open>auto simp: rw_reject_failed_route_one_def fail_request_def Let_def\<close>)
qed (use balanced_refl [OF assms] in \<open>auto simp: rw_reject_failed_route_one_def\<close>)

section \<open>The waiting room as a machine\<close>

datatype ('k, 'v, 'en, 'de) rw_op =
    RwAdmit "'v erased_request" moment
  | RwPop moment "outcome_stamp option"
  | RwExpire moment "outcome_stamp option" usize
  | RwFail "('k, 'v, 'en, 'de) request_error" "outcome_stamp option" usize
  | RwFailAll "('k, 'v, 'en, 'de) request_error" "outcome_stamp option"
  | RwReject moment outcome_stamp

text \<open>What an operation settles and what it hands to a ready route; \<open>None\<close> is a failed assertion.\<close>

type_synonym ('k, 'v, 'en, 'de) rw_result =
  "(('k, 'v, 'en, 'de) settlement list \<times> 'v route_waiting_outcome) option"

fun rw_call ::
    "bool \<Rightarrow> 'v route_waiting \<Rightarrow> ('k, 'v, 'en, 'de) rw_op \<Rightarrow>
     ('v route_waiting \<times> ('k, 'v, 'en, 'de) settlement list \<times> 'v route_waiting_outcome) option" where
  "rw_call dbg w (RwAdmit request now) =
     map_option (\<lambda>(w', out, _). (w', out, RwEmpty)) (rw_admit w request now)"
| "rw_call dbg w (RwPop now observed_at) = rw_pop dbg w now observed_at"
| "rw_call dbg w (RwExpire now observed_at budget) =
     map_option (\<lambda>(w', out, _). (w', out, RwEmpty)) (rw_expire_due_bounded dbg w now observed_at budget)"
| "rw_call dbg w (RwFail failure observed_at budget) =
     map_option (\<lambda>(w', out, _). (w', out, RwEmpty)) (rw_fail_bounded dbg w failure observed_at budget)"
| "rw_call dbg w (RwFailAll failure observed_at) =
     map_option (\<lambda>(w', out). (w', out, RwEmpty)) (rw_fail_all dbg w failure observed_at)"
| "rw_call dbg w (RwReject now observed_at) =
     map_option (\<lambda>(w', out, _). (w', out, RwEmpty)) (rw_reject_failed_route_one dbg w now observed_at)"

definition rw_apply ::
    "bool \<Rightarrow> 'v route_waiting \<Rightarrow> ('k, 'v, 'en, 'de) rw_op \<Rightarrow>
     'v route_waiting \<times> ('k, 'v, 'en, 'de) rw_result" where
  "rw_apply dbg w i = (case rw_call dbg w i of None \<Rightarrow> (w, None) | Some (w', r) \<Rightarrow> (w', Some r))"

fun rw_submitted :: "('k, 'v, 'en, 'de) rw_op \<Rightarrow> call_id multiset" where
  "rw_submitted (RwAdmit request now) = {#er_call_id request#}"
| "rw_submitted _ = {#}"

fun rw_resolved :: "('k, 'v, 'en, 'de) rw_result \<Rightarrow> call_id multiset" where
  "rw_resolved None = {#}"
| "rw_resolved (Some (out, outcome)) = settled_ids out + handed_ids outcome"

lemma rw_call_balanced:
  fixes i :: "('k, 'v, 'en, 'de) rw_op"
  assumes "rw_wf dbg w"
  shows "\<exists>w' out outcome. rw_call dbg w i = Some (w', out, outcome) \<and> rw_wf dbg w' \<and>
    waiting_ids w + rw_submitted i = waiting_ids w' + rw_resolved (Some (out, outcome))"
proof (cases i)
  case (RwAdmit request now)
  obtain w' admitted and out :: "('k, 'v, 'en, 'de) settlement list" where
    "rw_admit w request now = Some (w', out, admitted)" "rw_wf dbg w'"
    "waiting_ids w + {#er_call_id request#} = waiting_ids w' + settled_ids out"
    using rw_admit_balanced [OF assms refl, of request now] by blast
  then show ?thesis by (simp add: RwAdmit)
next
  case (RwPop now observed_at)
  then show ?thesis using rw_pop_balanced [OF assms, of now observed_at] by (auto simp: balanced_def)
next
  case (RwExpire now observed_at budget)
  then show ?thesis
    using expire_loop_balanced [OF assms, of now "[]" 0 "min budget (rw_turn_budget w)" observed_at]
    by (auto simp: loop_balanced_def balanced_def rw_expire_due_bounded_def)
next
  case (RwFail failure observed_at budget)
  then show ?thesis
    using fail_loop_balanced [OF assms, of "[]" 0 budget failure observed_at]
    by (auto simp: loop_balanced_def balanced_def rw_fail_bounded_def)
next
  case (RwFailAll failure observed_at)
  then show ?thesis
    using fail_loop_balanced [OF assms, of "[]" 0 "2 ^ 64 - 1" failure observed_at]
    by (auto simp: loop_balanced_def balanced_def rw_fail_all_def rw_fail_bounded_def)
next
  case (RwReject now observed_at)
  then show ?thesis using rw_reject_balanced [OF assms, of now observed_at] by (auto simp: balanced_def)
qed

lemma rw_apply_balanced:
  assumes "rw_wf dbg w"
  shows "rw_wf dbg (fst (rw_apply dbg w i)) \<and> snd (rw_apply dbg w i) \<noteq> None \<and>
    waiting_ids w + rw_submitted i = waiting_ids (fst (rw_apply dbg w i)) + rw_resolved (snd (rw_apply dbg w i))"
  using rw_call_balanced [OF assms, of i] by (auto simp: rw_apply_def)

interpretation route_room: conserving_machine "rw_apply dbg" "rw_wf dbg" waiting_ids
  "\<lambda>i _. rw_submitted i" rw_resolved for dbg
  by unfold_locales (simp_all add: rw_apply_balanced)

lemma waiting_ids_bound: "rw_wf dbg w \<Longrightarrow> size (waiting_ids w) < 2 ^ 64"
  using wait_sound_entries [of dbg "rw_calls w"]
  by (simp add: rw_wf_def entries_wf_def waiting_ids_def waiting_items_def wait_iter_def)

lemma rw_fail_all_empties:
  fixes failure :: "('k, 'v, 'en, 'de) request_error"
  assumes "rw_wf dbg w"
  shows "\<exists>w' out. rw_fail_all dbg w failure observed_at = Some (w', out) \<and>
    waiting_ids w' = {#} \<and> waiting_ids w = settled_ids out"
proof -
  obtain w' more n where r: "fail_loop dbg w failure observed_at 0 (2 ^ 64 - 1) [] = Some (w', more, n)"
    "balanced dbg w w' (settled_ids more)" "length more = 2 ^ 64 - 1 \<or> waiting_ids w' = {#}"
    using fail_loop_balanced [OF assms, of "[]" 0 "2 ^ 64 - 1" failure observed_at]
    by (auto simp: loop_balanced_def)
  have "size (waiting_ids w) = size (waiting_ids w') + length more"
    using r(2) by (simp add: balanced_def)
  then have "waiting_ids w' = {#}"
    using r(3) waiting_ids_bound [OF assms] by (auto simp: nonempty_has_size)
  then show ?thesis
    using r by (auto simp: rw_fail_all_def rw_fail_bounded_def balanced_def)
qed

lemma rw_run_returns: "rw_wf dbg w \<Longrightarrow> None \<notin> set (outputs (rw_apply dbg) w is)"
proof (induction "is" arbitrary: w)
  case (Cons i js)
  then show ?case using rw_apply_balanced [of dbg w i] by auto
qed simp

section \<open>Properties\<close>

text \<open>
  C38. Whatever sequence of admissions, releases, expiries, failures and rejections the waiting room
  goes through, in a debug and in a release build, no operation panics, every submitted call is
  settled once, handed out once or still waiting, and the retained bytes are the sum over the
  waiting calls and within the limit.
\<close>

theorem route_waiting_conserves:
  fixes w :: "'v route_waiting" and ops :: "('k, 'v, 'en, 'de) rw_op list"
  assumes "call_limit < 2 ^ 64" "w = route_waiting_new call_limit byte_limit turn_budget"
  shows "None \<notin> set (outputs (rw_apply dbg) w ops) \<and>
    sum_list (map rw_submitted ops) =
      waiting_ids (final (rw_apply dbg) w ops) + sum_list (map rw_resolved (outputs (rw_apply dbg) w ops)) \<and>
    rw_wf dbg (final (rw_apply dbg) w ops)"
proof -
  have wf: "rw_wf dbg w" using route_waiting_new_wf [OF assms(1)] assms(2) by simp
  have new: "waiting_ids w = {#}"
    by (simp add: assms(2) waiting_ids_def waiting_items_def wait_iter_def route_waiting_new_def wait_queue_new_def)
  have len: "length ops = length (outputs (rw_apply dbg) w ops)" by simp
  show ?thesis
    using rw_run_returns [OF wf, of ops] route_room.run_conserves [OF wf, of ops] route_room.run_keeps [OF wf, of ops]
    by (simp add: new case_prod_beta' map_fst_zip_comp [OF len])
qed

definition sample_request :: "call_id \<Rightarrow> duration \<Rightarrow> int erased_request" where
  "sample_request c timeout =
     \<lparr>er_call_id = c, er_policy = policy_for_timeout timeout, er_retained_bytes = 10\<rparr>"

definition sample_room :: "int route_waiting" where
  "sample_room = route_waiting_new 2 100 4"

definition sample_room_ops :: "(unit, int, unit, unit) rw_op list" where
  "sample_room_ops =
     [RwAdmit (sample_request 1 5) 0, RwAdmit (sample_request 2 9) 0, RwAdmit (sample_request 3 9) 0,
      RwExpire 6 None 8, RwPop 6 None, RwAdmit (sample_request 4 7) 6]"

theorem route_waiting_conserves_witness:
  "{#1, 2, 3, 4#} = waiting_ids (final (rw_apply True) sample_room sample_room_ops) +
     {#3#} + {#1#} + {#2#} \<and>
   rw_wf True (final (rw_apply True) sample_room sample_room_ops)"
proof -
  have outs: "sum_list (map rw_resolved (outputs (rw_apply True) sample_room sample_room_ops)) = {#3#} + {#1#} + {#2#}"
    by code_simp
  show ?thesis
    using route_waiting_conserves [of 2 sample_room 100 4 True sample_room_ops]
    by (simp add: sample_room_def outs [unfolded sample_room_def])
       (simp add: sample_room_ops_def sample_request_def)
qed

text \<open>
  Failing all waiting calls settles each of them exactly once and leaves the room empty: the
  word-sized budget never runs out first.
\<close>

theorem route_waiting_fail_all_settles:
  fixes failure :: "('k, 'v, 'en, 'de) request_error"
  assumes "rw_wf dbg w"
  shows "\<exists>w' out. rw_fail_all dbg w failure observed_at = Some (w', out) \<and>
    waiting_ids w' = {#} \<and> waiting_ids w = settled_ids out"
  by (rule rw_fail_all_empties [OF assms])

theorem route_waiting_fail_all_settles_witness:
  "\<exists>w' out. rw_fail_all False (final (rw_apply False) sample_room sample_room_ops)
       (ReqDeadlineOverflow :: (unit, int, unit, unit) request_error) None = Some (w', out) \<and>
     waiting_ids w' = {#} \<and> settled_ids out = {#4#}"
proof -
  have ids: "waiting_ids (final (rw_apply False) sample_room sample_room_ops) = {#4#}"
    by code_simp
  have "rw_wf False (final (rw_apply False) sample_room sample_room_ops)"
    unfolding sample_room_def by (rule route_room.run_keeps [OF route_waiting_new_wf]) simp
  from route_waiting_fail_all_settles [OF this, of ReqDeadlineOverflow None] show ?thesis
    unfolding ids by metis
qed

end
