(* ===== verification/Scan_Room.thy ===== *)
theory Scan_Room
  imports Route_Waiting
begin

text \<open>
  The waiting room that the metadata owner uses three times, for partition calls
  (\<open>src/reactor/metadata/waiting.rs\<close>), cluster-route calls (\<open>controller_waiting.rs\<close>) and topic views
  (\<open>topic_waiting.rs\<close>): admission under a call and a byte limit, retraction of the newest item, and
  a bounded scan that expires, decides or keeps each item. The three files differ in what they store
  and in the decision; both are arguments here. \<open>None\<close> is a failed assertion of the wait queue or, in
  a debug build, an arithmetic underflow.
\<close>

section \<open>The room\<close>

record 'a room_item =
  ri_item :: 'a
  ri_bytes :: usize

record 'a scan_room =
  sr_calls :: "'a room_item wait_queue"
  sr_retained_bytes :: usize
  sr_call_limit :: usize
  sr_byte_limit :: usize
  sr_scan_remaining :: usize
  sr_due_pending :: bool

definition room_new :: "usize \<Rightarrow> usize \<Rightarrow> 'a scan_room" where
  "room_new call_limit byte_limit =
     \<lparr>sr_calls = wait_queue_new call_limit, sr_retained_bytes = 0, sr_call_limit = call_limit,
      sr_byte_limit = byte_limit, sr_scan_remaining = 0, sr_due_pending = False\<rparr>"

text \<open>\<open>False\<close> is a rejection for capacity.\<close>

definition room_admit ::
    "'a scan_room \<Rightarrow> 'a \<Rightarrow> usize \<Rightarrow> moment \<Rightarrow> ('a scan_room \<times> bool) option" where
  "room_admit w x bytes deadline =
     (case usize_checked_add (sr_retained_bytes w) bytes of
        None \<Rightarrow> Some (w, False)
      | Some retained_bytes \<Rightarrow>
          (if length (wt_entries (sr_calls w)) = sr_call_limit w \<or> sr_byte_limit w < retained_bytes
             then Some (w, False)
           else case wait_push (sr_calls w) \<lparr>ri_item = x, ri_bytes = bytes\<rparr> deadline of
             None \<Rightarrow> None
           | Some (calls, Inl _) \<Rightarrow> Some (w\<lparr>sr_calls := calls\<rparr>, False)
           | Some (calls, Inr _) \<Rightarrow>
               Some (w\<lparr>sr_calls := calls, sr_retained_bytes := retained_bytes\<rparr>, True)))"

definition room_release :: "bool \<Rightarrow> 'a scan_room \<Rightarrow> 'a room_item \<Rightarrow> 'a scan_room option" where
  "room_release dbg w waiting =
     map_option (\<lambda>retained_bytes. w\<lparr>sr_retained_bytes := retained_bytes\<rparr>)
       (usize_sub dbg (sr_retained_bytes w) (ri_bytes waiting))"

definition room_retract_last ::
    "bool \<Rightarrow> ('a \<Rightarrow> bool) \<Rightarrow> 'a scan_room \<Rightarrow> ('a scan_room \<times> 'a option) option" where
  "room_retract_last dbg matches w =
     (case wait_back (sr_calls w) of
        None \<Rightarrow> Some (w, None)
      | Some back \<Rightarrow>
          (if \<not> matches (ri_item back) then Some (w, None)
           else case wait_pop_back dbg (sr_calls w) of
             None \<Rightarrow> None
           | Some (calls, None) \<Rightarrow> Some (w\<lparr>sr_calls := calls\<rparr>, None)
           | Some (calls, Some (waiting, _)) \<Rightarrow>
               map_option (\<lambda>w'. (w', Some (ri_item waiting))) (room_release dbg (w\<lparr>sr_calls := calls\<rparr>) waiting)))"

definition room_begin_scan :: "'a scan_room \<Rightarrow> 'a scan_room" where
  "room_begin_scan w = w\<lparr>sr_scan_remaining := length (wt_entries (sr_calls w))\<rparr>"

text \<open>Expiry outside a scan: at most \<open>remaining\<close> due items leave.\<close>

fun room_due_loop ::
    "bool \<Rightarrow> 'a scan_room \<Rightarrow> moment \<Rightarrow> usize \<Rightarrow> 'a list \<Rightarrow> ('a scan_room \<times> 'a list \<times> usize) option" where
  "room_due_loop dbg w now 0 due = Some (w, due, 0)"
| "room_due_loop dbg w now (Suc remaining) due =
     (case take_due dbg (sr_calls w) now of
        None \<Rightarrow> None
      | Some (calls, None) \<Rightarrow> Some (w\<lparr>sr_calls := calls\<rparr>, due, Suc remaining)
      | Some (calls, Some (waiting, _)) \<Rightarrow>
          (case room_release dbg (w\<lparr>sr_calls := calls\<rparr>) waiting of
             None \<Rightarrow> None
           | Some w' \<Rightarrow> room_due_loop dbg w' now remaining (due @ [ri_item waiting])))"

text \<open>The scan proper: \<open>decide\<close> gives the outcome of an item in time, or keeps it.\<close>

fun room_scan_loop ::
    "bool \<Rightarrow> ('a \<Rightarrow> 'o option) \<Rightarrow> 'o \<Rightarrow> 'o \<Rightarrow> 'a scan_room \<Rightarrow> moment \<Rightarrow> usize \<Rightarrow> ('a \<times> 'o) list \<Rightarrow>
     ('a scan_room \<times> ('a \<times> 'o) list) option" where
  "room_scan_loop dbg decide expired rejected w now 0 left = Some (w, left)"
| "room_scan_loop dbg decide expired rejected w now (Suc examined) left =
     (case wait_pop_front dbg (sr_calls w) of
        None \<Rightarrow> None
      | Some (calls, None) \<Rightarrow> Some (w\<lparr>sr_calls := calls, sr_scan_remaining := 0\<rparr>, left)
      | Some (calls, Some (waiting, deadline)) \<Rightarrow>
          (case room_release dbg (w\<lparr>sr_calls := calls, sr_scan_remaining := sr_scan_remaining w - 1\<rparr>) waiting of
             None \<Rightarrow> None
           | Some w' \<Rightarrow>
               (let x = ri_item waiting in
                if deadline \<le> now
                  then room_scan_loop dbg decide expired rejected w' now examined (left @ [(x, expired)])
                else case decide x of
                  Some outcome \<Rightarrow>
                    room_scan_loop dbg decide expired rejected w' now examined (left @ [(x, outcome)])
                | None \<Rightarrow>
                    (case rotate_back calls waiting deadline of
                       None \<Rightarrow> None
                     | Some (calls', Inl waiting') \<Rightarrow>
                         room_scan_loop dbg decide expired rejected (w'\<lparr>sr_calls := calls'\<rparr>) now examined
                           (left @ [(ri_item waiting', rejected)])
                     | Some (calls', Inr _) \<Rightarrow>
                         room_scan_loop dbg decide expired rejected
                           (w'\<lparr>sr_calls := calls',
                              sr_retained_bytes := sr_retained_bytes w' + ri_bytes waiting\<rparr>)
                           now examined left))))"

definition room_has_pending_scan :: "'a scan_room \<Rightarrow> bool" where
  "room_has_pending_scan w \<longleftrightarrow> sr_scan_remaining w \<noteq> 0 \<or> sr_due_pending w"

text \<open>A turn returns the items expired outside a scan, those the scan settled and how many it examined.\<close>

definition room_scan ::
    "bool \<Rightarrow> ('a \<Rightarrow> 'o option) \<Rightarrow> 'o \<Rightarrow> 'o \<Rightarrow> 'a scan_room \<Rightarrow> moment \<Rightarrow> usize \<Rightarrow>
     ('a scan_room \<times> 'a list \<times> ('a \<times> 'o) list \<times> usize) option" where
  "room_scan dbg decide expired rejected w now budget =
     (case (if sr_scan_remaining w = 0 then room_due_loop dbg w now budget [] else Some (w, [], budget)) of
        None \<Rightarrow> None
      | Some (w', due, remaining) \<Rightarrow>
          (let examined = min (sr_scan_remaining w') remaining in
           case room_scan_loop dbg decide expired rejected w' now examined [] of
             None \<Rightarrow> None
           | Some (w'', left) \<Rightarrow>
               Some (w''\<lparr>sr_due_pending :=
                        (case wait_next_deadline (sr_calls w'') of None \<Rightarrow> False | Some d \<Rightarrow> d \<le> now)\<rparr>,
                     due, left, examined)))"

definition room_fail_all :: "'a scan_room \<Rightarrow> 'a scan_room \<times> 'a list" where
  "room_fail_all w =
     (let (calls, drained) = wait_drain (sr_calls w) in
      (w\<lparr>sr_calls := calls, sr_retained_bytes := 0, sr_scan_remaining := 0, sr_due_pending := False\<rparr>,
       map ri_item drained))"

section \<open>Accounting\<close>

definition room_content :: "'a scan_room \<Rightarrow> ('a \<times> moment) list" where
  "room_content w = map (\<lambda>(waiting, deadline). (ri_item waiting, deadline)) (wait_iter (sr_calls w))"

abbreviation room_items :: "'a scan_room \<Rightarrow> 'a multiset" where
  "room_items w \<equiv> mset (map fst (room_content w))"

definition room_wf :: "bool \<Rightarrow> 'a scan_room \<Rightarrow> bool" where
  "room_wf dbg w \<longleftrightarrow>
     wait_sound dbg (sr_calls w) \<and> wt_capacity (sr_calls w) = sr_call_limit w \<and>
     sr_retained_bytes w = sum_list (map (\<lambda>e. ri_bytes (fst e)) (wait_iter (sr_calls w))) \<and>
     sr_retained_bytes w \<le> sr_byte_limit w"

text \<open>The limits never change; neither does what they bound except through \<open>room_content\<close>.\<close>

definition room_step :: "bool \<Rightarrow> 'a scan_room \<Rightarrow> 'a scan_room \<Rightarrow> bool" where
  "room_step dbg w w' \<longleftrightarrow>
     room_wf dbg w' \<and> sr_call_limit w' = sr_call_limit w \<and> sr_byte_limit w' = sr_byte_limit w"

lemma room_step_refl: "room_wf dbg w \<Longrightarrow> room_step dbg w w"
  by (simp add: room_step_def)

lemma room_step_trans: "room_step dbg w w' \<Longrightarrow> room_step dbg w' w'' \<Longrightarrow> room_step dbg w w''"
  by (simp add: room_step_def)

lemma room_new_wf:
  assumes "call_limit < 2 ^ 64"
  shows "room_wf dbg (room_new call_limit byte_limit)"
proof -
  have "wait_sound dbg (wait_queue_new call_limit :: 'a room_item wait_queue)"
    by (simp add: wait_sound_def wait_wf_entries wait_queue_new_wf [OF assms])
  then show ?thesis
    by (simp add: room_wf_def room_new_def wait_iter_def) (simp add: wait_queue_new_def)
qed

lemma room_new_content [simp]: "room_content (room_new call_limit byte_limit) = []"
  by (simp add: room_content_def room_new_def wait_iter_def wait_queue_new_def)

lemma room_flags_wf [simp]:
  "room_wf dbg (w\<lparr>sr_due_pending := b\<rparr>) = room_wf dbg w" "room_wf dbg (w\<lparr>sr_scan_remaining := n\<rparr>) = room_wf dbg w"
  "room_content (w\<lparr>sr_due_pending := b\<rparr>) = room_content w"
  "room_content (w\<lparr>sr_scan_remaining := n\<rparr>) = room_content w"
  by (simp_all add: room_wf_def room_content_def)

text \<open>The front and the back of the queue, with or without assertions.\<close>

lemma pop_front_iter:
  assumes "wait_pop_front dbg q = Some (q', r)"
  shows "(r = None \<and> wait_iter q = [] \<and> wait_iter q' = []) \<or>
    (\<exists>e. r = Some e \<and> wait_iter q = e # wait_iter q')"
proof (cases "wt_entries q")
  case Nil
  then show ?thesis
    using assms by (simp add: wait_pop_front_def btree_pop_first_def btree_first_def wait_iter_def)
next
  case (Cons e es)
  then show ?thesis
    using assms
    by (auto simp: wait_pop_front_def btree_pop_first_def btree_first_def wait_iter_def
        dest: remove_deadline_entries split: prod.splits)
qed

lemma pop_back_iter:
  assumes "wait_pop_back dbg q = Some (q', r)"
  shows "(r = None \<and> wait_iter q = [] \<and> wait_iter q' = []) \<or>
    (\<exists>e. r = Some e \<and> wait_iter q = wait_iter q' @ [e])"
proof (cases "wt_entries q" rule: rev_cases)
  case Nil
  then show ?thesis
    using assms by (simp add: wait_pop_back_def btree_pop_last_def btree_last_def wait_iter_def)
next
  case (snoc es e)
  then show ?thesis
    using assms
    by (auto simp: wait_pop_back_def btree_pop_last_def btree_last_def wait_iter_def
        dest: remove_deadline_entries split: prod.splits)
qed

lemma pop_back_sound: "wait_sound dbg q \<Longrightarrow> takes_sound dbg q (wait_pop_back dbg q)"
  by (rule popped_sound [where i = WtPopBack])
     (auto intro: pop_back_takes wait_sound_entries
       simp: wait_pop_back_def remove_deadline_def split: prod.splits option.splits)

lemma room_wf_sound: "room_wf dbg w \<Longrightarrow> wait_sound dbg (sr_calls w)"
  by (simp add: room_wf_def)

lemma retained_bytes_mset:
  "sum_list (map (\<lambda>e. ri_bytes (fst e)) xs) = sum_mset (image_mset (\<lambda>e. ri_bytes (fst e)) (mset xs))"
  by (simp add: sum_mset_sum_list flip: mset_map)

text \<open>What a release leaves when nothing underflows.\<close>

definition room_without :: "'a scan_room \<Rightarrow> 'a room_item \<Rightarrow> 'a scan_room" where
  "room_without w waiting = w\<lparr>sr_retained_bytes := sr_retained_bytes w - ri_bytes waiting\<rparr>"

text \<open>Taking one item out of the queue and releasing its bytes keeps the accounting.\<close>

lemma room_released:
  assumes "room_wf dbg w" "takes_entry (sr_calls w) calls (Some (waiting, deadline))" "wait_sound dbg calls"
  shows "room_step dbg w (room_without (w\<lparr>sr_calls := calls\<rparr>) waiting)"
    "mset (room_content w) =
       add_mset (ri_item waiting, deadline) (mset (room_content (room_without (w\<lparr>sr_calls := calls\<rparr>) waiting)))"
    "ri_bytes waiting \<le> sr_retained_bytes w"
proof -
  have m: "mset (wait_iter (sr_calls w)) = add_mset (waiting, deadline) (mset (wait_iter calls))"
    "wt_capacity calls = wt_capacity (sr_calls w)"
    using assms(2) by (simp_all add: takes_entry_def)
  then show "room_step dbg w (room_without (w\<lparr>sr_calls := calls\<rparr>) waiting)"
    using assms(1,3) by (simp add: room_step_def room_wf_def room_without_def retained_bytes_mset)
  show "mset (room_content w) =
       add_mset (ri_item waiting, deadline) (mset (room_content (room_without (w\<lparr>sr_calls := calls\<rparr>) waiting)))"
    by (simp add: room_content_def room_without_def m(1))
  show "ri_bytes waiting \<le> sr_retained_bytes w"
    using assms(1) m(1) by (simp add: room_wf_def retained_bytes_mset)
qed

lemma room_release_Some: "ri_bytes waiting \<le> sr_retained_bytes w \<Longrightarrow> room_release dbg w waiting = Some (room_without w waiting)"
  by (simp add: room_release_def room_without_def)

lemma room_declined:
  assumes "room_wf dbg w" "takes_entry (sr_calls w) calls None" "wait_sound dbg calls"
  shows "room_step dbg w (w\<lparr>sr_calls := calls\<rparr>)"
    "mset (room_content (w\<lparr>sr_calls := calls\<rparr>)) = mset (room_content w)"
  using assms by (simp_all add: room_step_def room_wf_def room_content_def takes_entry_def retained_bytes_mset)

lemma room_admit_result:
  assumes "room_wf dbg w"
  shows "\<exists>w' ok. room_admit w x bytes deadline = Some (w', ok) \<and> room_step dbg w w' \<and>
    room_content w' = room_content w @ (if ok then [(x, deadline)] else [])"
proof (cases "\<exists>retained. usize_checked_add (sr_retained_bytes w) bytes = Some retained \<and>
    length (wt_entries (sr_calls w)) \<noteq> sr_call_limit w \<and> retained \<le> sr_byte_limit w")
  case True
  then obtain retained where r: "usize_checked_add (sr_retained_bytes w) bytes = Some retained"
    "length (wt_entries (sr_calls w)) \<noteq> wt_capacity (sr_calls w)" "retained \<le> sr_byte_limit w"
    using assms by (auto simp: room_wf_def)
  obtain calls where push:
    "wait_push (sr_calls w) \<lparr>ri_item = x, ri_bytes = bytes\<rparr> deadline = Some (calls, Inr ())"
    "wait_sound dbg calls" "wt_capacity calls = wt_capacity (sr_calls w)"
    "wait_iter calls = wait_iter (sr_calls w) @ [(\<lparr>ri_item = x, ri_bytes = bytes\<rparr>, deadline)]"
    using push_sound [OF room_wf_sound [OF assms] r(2)] by blast
  have "retained = sr_retained_bytes w + bytes"
    using r(1) by (simp add: usize_checked_add_def split: if_splits)
  then show ?thesis
    using assms r push
    by (intro exI [of _ "w\<lparr>sr_calls := calls, sr_retained_bytes := retained\<rparr>"] exI [of _ True])
       (simp add: room_admit_def room_step_def room_wf_def room_content_def)
next
  case False
  then have "room_admit w x bytes deadline = Some (w, False)"
    by (auto simp: room_admit_def split: option.split)
  then show ?thesis using room_step_refl [OF assms] by (intro exI [of _ w] exI [of _ False]) simp
qed

lemma room_retract_result:
  assumes "room_wf dbg w"
  shows "\<exists>w' r. room_retract_last dbg matches w = Some (w', r) \<and> room_step dbg w w' \<and>
    (case r of
       None \<Rightarrow> mset (room_content w') = mset (room_content w) \<and>
         (room_content w = [] \<or> \<not> matches (fst (last (room_content w))))
     | Some x \<Rightarrow> matches x \<and> (\<exists>d. room_content w = room_content w' @ [(x, d)]))"
proof (cases "wait_iter (sr_calls w)" rule: rev_cases)
  case Nil
  then have "wait_back (sr_calls w) = None"
    by (simp add: wait_back_def btree_last_def wait_iter_def)
  then show ?thesis
    using Nil room_step_refl [OF assms] by (simp add: room_retract_last_def room_content_def)
next
  case (snoc es e)
  then have front: "wait_back (sr_calls w) = Some (fst e)"
    by (auto simp: wait_back_def btree_last_def wait_iter_def map_eq_append_conv)
  obtain calls r where pop: "wait_pop_back dbg (sr_calls w) = Some (calls, r)"
    "takes_entry (sr_calls w) calls r" "wait_sound dbg calls"
    using pop_back_sound [OF room_wf_sound [OF assms]] by (auto simp: takes_sound_def)
  then have r: "r = Some e" "wait_iter calls = es" using pop_back_iter [OF pop(1)] snoc by auto
  obtain waiting deadline where e: "e = (waiting, deadline)" by (cases e)
  note released = room_released [OF assms pop(2) [unfolded r e] pop(3)]
  show ?thesis
    using front pop(1) r e snoc released room_step_refl [OF assms]
    by (auto simp: room_retract_last_def room_content_def room_release_Some room_without_def)
qed

section \<open>What a scan decides\<close>

text \<open>
  An examined item leaves when it is overdue or decided; the capacity branch of \<open>rotate_back\<close> is
  never taken, because the item's own place is free.
\<close>

definition scan_departs :: "('a \<Rightarrow> 'o option) \<Rightarrow> moment \<Rightarrow> 'a \<times> moment \<Rightarrow> bool" where
  "scan_departs decide now e \<longleftrightarrow> snd e \<le> now \<or> decide (fst e) \<noteq> None"

definition scan_outcome :: "('a \<Rightarrow> 'o option) \<Rightarrow> 'o \<Rightarrow> moment \<Rightarrow> 'a \<times> moment \<Rightarrow> 'a \<times> 'o" where
  "scan_outcome decide expired now e = (fst e, if snd e \<le> now then expired else the (decide (fst e)))"

lemma rotate_sound:
  assumes "wait_sound dbg q" "length (wait_iter q) < wt_capacity q"
  obtains q' where "rotate_back q v deadline = Some (q', Inr ())" "wait_sound dbg q'"
    "wt_capacity q' = wt_capacity q" "wait_iter q' = wait_iter q @ [(v, deadline)]"
  using push_sound [OF assms(1), of v deadline] assms(2)
  by (auto simp: wait_push_def rotate_back_def wait_iter_def)

lemma content_below_capacity:
  "wait_sound dbg q \<Longrightarrow> length (wait_iter q) \<le> wt_capacity q"
  using wait_sound_entries [of dbg q] by (simp add: entries_wf_def wait_iter_def)

lemma scan_one_item:
  assumes "room_wf dbg w" "room_content w = e # es"
  obtains (leaves) w' where "scan_departs decide now e" "room_step dbg w w'" "room_content w' = es"
      "sr_scan_remaining w' = sr_scan_remaining w - 1"
      "\<And>n left. room_scan_loop dbg decide expired rejected w now (Suc n) left =
         room_scan_loop dbg decide expired rejected w' now n (left @ [scan_outcome decide expired now e])"
  | (stays) w' where "\<not> scan_departs decide now e" "room_step dbg w w'" "room_content w' = es @ [e]"
      "sr_scan_remaining w' = sr_scan_remaining w - 1"
      "\<And>n left. room_scan_loop dbg decide expired rejected w now (Suc n) left =
         room_scan_loop dbg decide expired rejected w' now n left"
proof -
  obtain calls r where pop: "wait_pop_front dbg (sr_calls w) = Some (calls, r)"
    "takes_entry (sr_calls w) calls r" "wait_sound dbg calls"
    using pop_front_sound [OF room_wf_sound [OF assms(1)]] by (auto simp: takes_sound_def)
  obtain waiting deadline where r: "r = Some (waiting, deadline)"
    "wait_iter (sr_calls w) = (waiting, deadline) # wait_iter calls" "e = (ri_item waiting, deadline)"
    using pop_front_iter [OF pop(1)] assms(2) by (auto simp: room_content_def)
  define w1 where "w1 = room_without (w\<lparr>sr_calls := calls\<rparr>) waiting"
  let ?w = "w1\<lparr>sr_scan_remaining := sr_scan_remaining w - 1\<rparr>"
  have w1: "room_step dbg w w1" using room_released(1) [OF assms(1) pop(2) [unfolded r(1)] pop(3)] by (simp add: w1_def)
  have content: "room_content ?w = es" "sr_calls w1 = calls"
    using assms(2) r(2) by (simp_all add: w1_def room_without_def room_content_def)
  have next_room: "room_release dbg (w\<lparr>sr_calls := calls, sr_scan_remaining := sr_scan_remaining w - 1\<rparr>) waiting = Some ?w"
    using room_released(3) [OF assms(1) pop(2) [unfolded r(1)] pop(3)]
    by (simp add: room_release_Some w1_def room_without_def)
  show ?thesis
  proof (cases "scan_departs decide now e")
    case True
    show ?thesis
      by (rule leaves [of ?w])
         (use True w1 content pop(1) r next_room in
           \<open>auto simp: room_step_def scan_departs_def scan_outcome_def Let_def\<close>)
  next
    case False
    have cap: "wt_capacity calls = wt_capacity (sr_calls w)" using pop(2) by (simp add: takes_entry_def)
    moreover have "length (wait_iter calls) < wt_capacity (sr_calls w)"
      using content_below_capacity [OF room_wf_sound [OF assms(1)]] r(2) by simp
    ultimately obtain calls' where rot: "rotate_back calls waiting deadline = Some (calls', Inr ())"
      "wait_sound dbg calls'" "wt_capacity calls' = wt_capacity calls"
      "wait_iter calls' = wait_iter calls @ [(waiting, deadline)]"
      using rotate_sound [OF pop(3)] by metis
    let ?w' = "?w\<lparr>sr_calls := calls', sr_retained_bytes := sr_retained_bytes w1 + ri_bytes waiting\<rparr>"
    have bytes: "sr_retained_bytes w1 + ri_bytes waiting = sr_retained_bytes w"
      using assms(1) r(2) by (simp add: w1_def room_without_def room_wf_def)
    have "room_wf dbg ?w'"
      using assms(1) rot cap r(2) unfolding bytes by (simp add: room_wf_def w1_def room_without_def)
    moreover have "room_content ?w' = es @ [e]"
      using rot(4) r(3) content by (simp add: room_content_def)
    ultimately show ?thesis
      by (intro stays [of ?w'])
         (use False w1 pop(1) r next_room rot(1) in
           \<open>auto simp: room_step_def scan_departs_def Let_def\<close>)
  qed
qed

declare room_scan_loop.simps(2) [simp del]

text \<open>
  A scan of \<open>n\<close> items examines the first \<open>n\<close> of those it has not kept before; here \<open>xs\<close> are the items
  still to be examined and \<open>ys\<close> those it kept.
\<close>

lemma room_scan_loop_result:
  assumes "room_wf dbg w" "room_content w = xs @ ys" "list_all (\<lambda>e. \<not> scan_departs decide now e) ys"
  shows "\<exists>w'. room_scan_loop dbg decide expired rejected w now n left =
      Some (w', left @ map (scan_outcome decide expired now) (filter (scan_departs decide now) (take n xs))) \<and>
    room_step dbg w w' \<and>
    (n \<le> length xs \<longrightarrow> sr_scan_remaining w' = sr_scan_remaining w - n \<and>
       room_content w' = drop n xs @ ys @ filter (\<lambda>e. \<not> scan_departs decide now e) (take n xs)) \<and>
    mset (room_content w) = mset (room_content w') + mset (filter (scan_departs decide now) (take n xs))"
  using assms
proof (induction n arbitrary: w xs ys left)
  case 0
  then show ?case by (simp add: room_step_refl)
next
  case (Suc n)
  show ?case
  proof (cases "room_content w")
    case Nil
    then have pop: "\<exists>calls. wait_pop_front dbg (sr_calls w) = Some (calls, None) \<and>
        takes_entry (sr_calls w) calls None \<and> wait_sound dbg calls"
      using pop_front_sound [OF room_wf_sound [OF Suc.prems(1)]] pop_front_iter [of dbg "sr_calls w"]
      by (fastforce simp: takes_sound_def room_content_def)
    then obtain calls where c: "wait_pop_front dbg (sr_calls w) = Some (calls, None)"
      "takes_entry (sr_calls w) calls None" "wait_sound dbg calls"
      by blast
    from Nil Suc.prems(2) room_declined [OF Suc.prems(1) c(2,3)] c(1) show ?thesis
      by (simp add: room_scan_loop.simps room_step_def room_content_def)
  next
    case (Cons e es)
    obtain xs' ys' where tail: "es = xs' @ ys'" "xs = e # xs' \<and> ys = ys' \<or> xs = [] \<and> xs' = [] \<and> ys = e # ys'"
      using Cons Suc.prems(2) by (cases xs) auto
    from Suc.prems(1) Cons show ?thesis
    proof (cases rule: scan_one_item [where decide = decide and now = now and expired = expired and rejected = rejected])
      case (leaves w')
      then have xs: "xs = e # xs'" "ys = ys'" using tail Suc.prems(3) by auto
      have "list_all (\<lambda>e. \<not> scan_departs decide now e) ys'" "room_wf dbg w'" "room_content w' = xs' @ ys'"
        using leaves tail(1) xs(2) Suc.prems(3) by (auto simp: room_step_def)
      from Suc.IH [OF this(2,3,1), of "left @ [scan_outcome decide expired now e]"] show ?thesis
        using leaves xs Cons by (auto simp: tail(1) intro: room_step_trans)
    next
      case (stays w')
      have kept: "room_content w' = xs' @ (ys' @ [e])" "list_all (\<lambda>e. \<not> scan_departs decide now e) (ys' @ [e])"
        "room_wf dbg w'"
        using stays tail Suc.prems(3) by (auto simp: room_step_def)
      have gone: "filter (scan_departs decide now) (take (Suc n) xs) =
          filter (scan_departs decide now) (take n xs')"
        using stays(1) tail(2) by auto
      from Suc.IH [OF kept(3,1,2), of left] show ?thesis
        using stays tail Cons unfolding gone by (auto intro: room_step_trans)
    qed
  qed
qed

lemma room_due_loop_result:
  assumes "room_wf dbg w"
  shows "\<exists>w' more. room_due_loop dbg w now n due = Some (w', due @ more, n - length more) \<and>
    room_step dbg w w' \<and> room_items w = room_items w' + mset more \<and> length more \<le> n \<and>
    sr_scan_remaining w' = sr_scan_remaining w \<and> mset (room_content w') \<subseteq># mset (room_content w)"
  using assms
proof (induction n arbitrary: w due)
  case 0
  then show ?case by (simp add: room_step_refl)
next
  case (Suc n)
  obtain calls r where t: "take_due dbg (sr_calls w) now = Some (calls, r)"
    "takes_entry (sr_calls w) calls r" "wait_sound dbg calls"
    using take_due_sound [OF room_wf_sound [OF Suc.prems], of now] by (auto simp: takes_sound_def)
  show ?case
  proof (cases r)
    case None
    then show ?thesis
      using room_declined [OF Suc.prems t(2) [unfolded None] t(3)] t(1) by auto
  next
    case (Some e)
    obtain waiting deadline where e: "e = (waiting, deadline)" by (cases e)
    let ?w = "room_without (w\<lparr>sr_calls := calls\<rparr>) waiting"
    note released = room_released [OF Suc.prems t(2) [unfolded Some e] t(3)]
    obtain w' more where m:
      "room_due_loop dbg ?w now n (due @ [ri_item waiting]) = Some (w', (due @ [ri_item waiting]) @ more, n - length more)"
      "room_step dbg ?w w'" "room_items ?w = room_items w' + mset more" "length more \<le> n"
      "sr_scan_remaining w' = sr_scan_remaining ?w" "mset (room_content w') \<subseteq># mset (room_content ?w)"
      using Suc.IH [of ?w "due @ [ri_item waiting]"] released(1) by (auto simp: room_step_def)
    then show ?thesis
      using t(1) Some e released room_step_trans [OF released(1) m(2)]
        room_release_Some [of waiting "w\<lparr>sr_calls := calls\<rparr>" dbg]
      by (intro exI [of _ w'] exI [of _ "ri_item waiting # more"])
         (auto simp: room_without_def intro: subset_mset.order_trans)
  qed
qed

text \<open>A turn, either of a running scan or of expiry between scans.\<close>

lemma room_scan_result:
  assumes "room_wf dbg w"
  shows "\<exists>w' due gone.
    room_scan dbg decide expired rejected w now budget =
      Some (w', due, map (scan_outcome decide expired now) gone, min (sr_scan_remaining w) budget) \<and>
    room_step dbg w w' \<and> room_items w = room_items w' + mset due + mset (map fst gone) \<and>
    list_all (scan_departs decide now) gone \<and>
    (if sr_scan_remaining w = 0 then gone = []
     else due = [] \<and>
       gone = filter (scan_departs decide now) (take (min (sr_scan_remaining w) budget) (room_content w)) \<and>
       mset (room_content w) = mset (room_content w') + mset gone)"
proof (cases "sr_scan_remaining w = 0")
  case True
  obtain w' more where due: "room_due_loop dbg w now budget [] = Some (w', more, budget - length more)"
    "room_step dbg w w'" "room_items w = room_items w' + mset more" "sr_scan_remaining w' = 0"
    using room_due_loop_result [OF assms, of now budget "[]"] True by auto
  then show ?thesis using True by (simp add: room_scan_def room_step_def)
next
  case False
  let ?n = "min (sr_scan_remaining w) budget"
  let ?gone = "filter (scan_departs decide now) (take ?n (room_content w))"
  obtain w' where scan: "room_scan_loop dbg decide expired rejected w now ?n [] =
      Some (w', map (scan_outcome decide expired now) ?gone)"
    "room_step dbg w w'" "mset (room_content w) = mset (room_content w') + mset ?gone"
    using room_scan_loop_result [OF assms, of "room_content w" "[]" decide now expired rejected ?n "[]"] by auto
  have "room_items w = room_items w' + mset (map fst ?gone)"
    using arg_cong [OF scan(3), of "image_mset fst"] by simp
  then show ?thesis
    using False scan
    by (intro exI [of _ "w'\<lparr>sr_due_pending :=
          (case wait_next_deadline (sr_calls w') of None \<Rightarrow> False | Some d \<Rightarrow> d \<le> now)\<rparr>"]
        exI [of _ "[]"] exI [of _ ?gone])
       (simp add: room_scan_def room_step_def Let_def list_all_iff del: take_Suc)
qed

text \<open>
  The items behind the scan position are those a scan would keep: whatever holds of every kept item
  goes on holding of them.
\<close>

definition behind_scan :: "'a scan_room \<Rightarrow> ('a \<times> moment) list" where
  "behind_scan w = drop (sr_scan_remaining w) (room_content w)"

lemma room_scan_behind:
  assumes "room_wf dbg w" "room_scan dbg decide expired rejected w now budget = Some (w', due, left, n)"
    and "sr_scan_remaining w \<le> length (room_content w)"
  shows "sr_scan_remaining w' \<le> length (room_content w')"
    and "e \<in> set (behind_scan w') \<Longrightarrow> e \<in> set (behind_scan w) \<or> \<not> scan_departs decide now e"
proof -
  have "sr_scan_remaining w' \<le> length (room_content w') \<and>
    (e \<in> set (behind_scan w') \<longrightarrow> e \<in> set (behind_scan w) \<or> \<not> scan_departs decide now e)"
  proof (cases "sr_scan_remaining w = 0")
    case True
    obtain w1 more where due: "room_due_loop dbg w now budget [] = Some (w1, more, budget - length more)"
      "room_items w = room_items w1 + mset more" "sr_scan_remaining w1 = 0"
      "mset (room_content w1) \<subseteq># mset (room_content w)"
      using room_due_loop_result [OF assms(1), of now budget "[]"] True by auto
    then have "sr_scan_remaining w' = 0" "room_content w' = room_content w1"
      using assms(2) True by (auto simp: room_scan_def)
    then show ?thesis using due(4) True by (auto simp: behind_scan_def dest!: set_mset_mono)
  next
    case False
    let ?n = "min (sr_scan_remaining w) budget"
    have n: "?n \<le> length (room_content w)" using assms(3) by simp
    obtain w1 where scan: "room_scan_loop dbg decide expired rejected w now ?n [] =
        Some (w1, map (scan_outcome decide expired now) (filter (scan_departs decide now) (take ?n (room_content w))))"
      "sr_scan_remaining w1 = sr_scan_remaining w - ?n"
      "room_content w1 = drop ?n (room_content w) @
         filter (\<lambda>e. \<not> scan_departs decide now e) (take ?n (room_content w))"
      using room_scan_loop_result [OF assms(1), of "room_content w" "[]" decide now expired rejected ?n "[]"] n
      by auto
    have w': "sr_scan_remaining w' = sr_scan_remaining w1" "room_content w' = room_content w1"
      using assms(2) False scan(1) by (auto simp: room_scan_def Let_def)
    have "behind_scan w' = behind_scan w @ filter (\<lambda>e. \<not> scan_departs decide now e) (take ?n (room_content w))"
      using assms(3) unfolding behind_scan_def w' scan(2,3) by simp
    then show ?thesis using assms(3) unfolding w' scan(2,3) by auto
  qed
  then show "sr_scan_remaining w' \<le> length (room_content w')"
    "e \<in> set (behind_scan w') \<Longrightarrow> e \<in> set (behind_scan w) \<or> \<not> scan_departs decide now e"
    by blast+
qed

text \<open>A scan that reaches every item leaves only items that are in time and undecided.\<close>

lemma room_scan_complete:
  assumes "room_wf dbg w" "room_scan dbg decide expired rejected w now budget = Some (w', due, left, n)"
    and "length (room_content w) \<le> sr_scan_remaining w" "length (room_content w) \<le> budget"
    and "sr_scan_remaining w \<noteq> 0" "e \<in> set (room_content w')"
  shows "\<not> scan_departs decide now e \<and> e \<in> set (room_content w)"
proof -
  have "take (min (sr_scan_remaining w) budget) (room_content w) = room_content w" using assms(3,4) by simp
  then have "mset (room_content w) = mset (room_content w') +
      mset (filter (scan_departs decide now) (room_content w))"
    using room_scan_result [OF assms(1), of decide expired rejected now budget] assms(2,5) by auto
  moreover have "mset (room_content w) = mset (filter (\<lambda>e. \<not> scan_departs decide now e) (room_content w)) +
      mset (filter (scan_departs decide now) (room_content w))"
    unfolding mset_filter by (subst add.commute) (rule multiset_partition)
  ultimately have "mset (room_content w') = mset (filter (\<lambda>e. \<not> scan_departs decide now e) (room_content w))"
    by (metis add_right_cancel)
  from mset_eq_setD [OF this] assms(6) show ?thesis by auto
qed

lemma room_fail_all_result:
  assumes "room_wf dbg w"
  shows "room_step dbg w (fst (room_fail_all w))" "room_content (fst (room_fail_all w)) = []"
    "mset (snd (room_fail_all w)) = room_items w"
proof -
  have "wait_sound dbg (fst (wait_drain (sr_calls w)))"
    using wait_sound_entries [OF room_wf_sound [OF assms]]
    by (simp add: wait_drain_def wait_sound_def wait_wf_def wait_index_def entries_wf_def)
  then show "room_step dbg w (fst (room_fail_all w))"
    using assms
    by (simp add: room_fail_all_def room_step_def room_wf_def split_beta) (simp add: wait_drain_def wait_iter_def)
qed (simp_all add: room_fail_all_def room_content_def wait_drain_def wait_iter_def split_beta comp_def)

lemma room_begin_scan_result [simp]:
  "room_wf dbg (room_begin_scan w) = room_wf dbg w" "room_content (room_begin_scan w) = room_content w"
  "sr_scan_remaining (room_begin_scan w) = length (room_content w)"
  "sr_call_limit (room_begin_scan w) = sr_call_limit w" "sr_byte_limit (room_begin_scan w) = sr_byte_limit w"
  by (simp_all add: room_begin_scan_def room_content_def wait_iter_def)

end
