(* ===== verification/Snapshot.thy ===== *)
theory Snapshot
  imports Directory
begin

text \<open>
  One coherent view of the cluster: partition leaders and topic facts (\<open>metadata/topic.rs\<close>,
  \<open>metadata/partition/\<close>) and the metadata snapshot that joins them with the broker directory
  (\<open>metadata/snapshot.rs\<close>, \<open>metadata/error.rs\<close>).
\<close>

section \<open>Topic facts\<close>

type_synonym kafka_topic_id = "u8 list"

definition kafka_topic_id_from_bytes :: "u8 list \<Rightarrow> kafka_topic_id option" where
  "kafka_topic_id_from_bytes bytes = (if bytes = replicate 16 0 then None else Some bytes)"

record topic_partition_count =
  tpc_topic :: topic_name
  tpc_topic_id :: "kafka_topic_id option"
  tpc_count :: u32
  tpc_evidence :: evidence_stamp

definition topic_partition_count_new :: "topic_name \<Rightarrow> u32 \<Rightarrow> topic_partition_count" where
  "topic_partition_count_new topic partitions =
     \<lparr>tpc_topic = topic, tpc_topic_id = None, tpc_count = partitions, tpc_evidence = 0\<rparr>"

definition topic_partition_count_new_with_id ::
    "topic_name \<Rightarrow> kafka_topic_id \<Rightarrow> u32 \<Rightarrow> topic_partition_count" where
  "topic_partition_count_new_with_id topic topic_id partitions =
     \<lparr>tpc_topic = topic, tpc_topic_id = Some topic_id, tpc_count = partitions, tpc_evidence = 0\<rparr>"

definition topic_count_with_evidence ::
    "topic_partition_count \<Rightarrow> evidence_stamp \<Rightarrow> topic_partition_count" where
  "topic_count_with_evidence c evidence = c\<lparr>tpc_evidence := evidence\<rparr>"

record topic_partition_count_set =
  tpcs_entries :: "topic_partition_count list"

datatype topic_partition_count_set_error = TopicCountCapacity usize | TopicCountDuplicate

definition topic_counts_try_from_iter ::
    "topic_partition_count list \<Rightarrow> usize \<Rightarrow> topic_partition_count_set_error + topic_partition_count_set" where
  "topic_counts_try_from_iter source topic_limit =
     (case collect_bounded topic_limit [] source of
        None \<Rightarrow> Inl (TopicCountCapacity topic_limit)
      | Some entries \<Rightarrow>
          (let entries = sort_key tpc_topic entries in
           if find_adjacent (\<lambda>a b. tpc_topic a = tpc_topic b) entries \<noteq> None then Inl TopicCountDuplicate
           else Inr \<lparr>tpcs_entries = entries\<rparr>))"

definition topic_counts_empty :: topic_partition_count_set where
  "topic_counts_empty = \<lparr>tpcs_entries = []\<rparr>"

definition topic_counts_find ::
    "topic_partition_count_set \<Rightarrow> topic_name \<Rightarrow> topic_partition_count option" where
  "topic_counts_find s topic = table_find tpc_topic (tpcs_entries s) topic"

section \<open>Partition leaders\<close>

record partition_leader =
  pl_topic :: topic_name
  pl_partition :: partition_id
  pl_broker_id :: broker_id
  pl_leader_epoch :: "leader_epoch option"
  pl_revision :: metadata_revision
  pl_evidence :: evidence_stamp

definition partition_leader_new ::
    "topic_name \<Rightarrow> partition_id \<Rightarrow> broker_id \<Rightarrow> leader_epoch option \<Rightarrow> metadata_revision \<Rightarrow>
     partition_leader" where
  "partition_leader_new topic part broker_id leader_epoch revision =
     \<lparr>pl_topic = topic, pl_partition = part, pl_broker_id = broker_id,
      pl_leader_epoch = leader_epoch, pl_revision = revision, pl_evidence = 0\<rparr>"

datatype partition_leader_set_error =
    PartitionCapacity usize
  | TopicCapacity usize
  | DuplicatePartition partition_id

record partition_leader_limits =
  pll_max_topics :: usize
  pll_max_partitions :: usize

definition partition_leader_limits_default :: partition_leader_limits where
  "partition_leader_limits_default = \<lparr>pll_max_topics = 10000, pll_max_partitions = 100000\<rparr>"

record partition_leader_set =
  pls_entries :: "partition_leader list"

text \<open>\<open>compare_entries\<close> and \<open>compare_key\<close> order by topic, then by partition.\<close>

definition leader_key :: "partition_leader \<Rightarrow> topic_name \<times> partition_id" where
  "leader_key l = (pl_topic l, pl_partition l)"

definition same_partition :: "partition_leader \<Rightarrow> partition_leader \<Rightarrow> bool" where
  "same_partition a b \<longleftrightarrow> pl_topic a = pl_topic b \<and> pl_partition a = pl_partition b"

definition count_topics :: "partition_leader list \<Rightarrow> usize" where
  "count_topics entries =
     snd (fold (\<lambda>topic (previous, n). (Some topic, n + (if previous \<noteq> Some topic then 1 else 0)))
            (map pl_topic entries) (None, 0))"

definition leaders_try_from_iter ::
    "partition_leader list \<Rightarrow> partition_leader_limits \<Rightarrow> partition_leader_set_error + partition_leader_set" where
  "leaders_try_from_iter source limits =
     (case collect_bounded (pll_max_partitions limits) [] source of
        None \<Rightarrow> Inl (PartitionCapacity (pll_max_partitions limits))
      | Some entries \<Rightarrow>
          (let entries = sort_key leader_key entries in
           case find_adjacent same_partition entries of
             Some duplicate \<Rightarrow> Inl (DuplicatePartition (pl_partition duplicate))
           | None \<Rightarrow>
               (if pll_max_topics limits < count_topics entries
                  then Inl (TopicCapacity (pll_max_topics limits))
                else Inr \<lparr>pls_entries = entries\<rparr>)))"

definition leaders_empty :: partition_leader_set where
  "leaders_empty = \<lparr>pls_entries = []\<rparr>"

definition leaders_find ::
    "partition_leader_set \<Rightarrow> topic_name \<Rightarrow> partition_id \<Rightarrow> partition_leader option" where
  "leaders_find s topic part = table_find leader_key (pls_entries s) (topic, part)"

fun assignment_regresses :: "partition_leader \<Rightarrow> partition_leader \<Rightarrow> bool" where
  "assignment_regresses previous current =
     (case (pl_leader_epoch previous, pl_leader_epoch current) of
        (Some previous_epoch, Some current_epoch) \<Rightarrow>
          current_epoch < previous_epoch \<or>
          (current_epoch = previous_epoch \<and> pl_broker_id current \<noteq> pl_broker_id previous)
      | _ \<Rightarrow> False)"

definition regresses_from :: "partition_leader_set \<Rightarrow> partition_leader_set \<Rightarrow> bool" where
  "regresses_from s previous \<longleftrightarrow>
     list_ex (\<lambda>current.
       case leaders_find previous (pl_topic current) (pl_partition current) of
         None \<Rightarrow> False
       | Some previous \<Rightarrow> assignment_regresses previous current) (pls_entries s)"

definition leaders_remove ::
    "partition_leader_set \<Rightarrow> topic_name \<Rightarrow> partition_id \<Rightarrow> partition_leader_set" where
  "leaders_remove s topic part =
     (case binary_search_by (\<lambda>e. compare (leader_key e) (topic, part)) (pls_entries s) of
        None \<Rightarrow> s
      | Some index \<Rightarrow> s\<lparr>pls_entries := remove_at index (pls_entries s)\<rparr>)"

section \<open>Partition routes\<close>

record partition_route =
  pr_broker :: broker_route
  pr_topic :: topic_name
  pr_partition :: partition_id
  pr_leader_epoch :: "leader_epoch option"
  pr_revision :: metadata_revision
  pr_evidence :: evidence_stamp

definition is_same_fact :: "partition_route \<Rightarrow> partition_route \<Rightarrow> bool" where
  "is_same_fact r other \<longleftrightarrow>
     pr_topic r = pr_topic other \<and> pr_partition r = pr_partition other \<and>
     br_broker_id (pr_broker r) = br_broker_id (pr_broker other) \<and>
     pr_leader_epoch r = pr_leader_epoch other \<and> pr_revision r = pr_revision other"

definition is_same_assignment :: "partition_route \<Rightarrow> partition_route \<Rightarrow> bool" where
  "is_same_assignment r other \<longleftrightarrow>
     pr_topic r = pr_topic other \<and> pr_partition r = pr_partition other \<and>
     br_broker_id (pr_broker r) = br_broker_id (pr_broker other) \<and>
     pr_leader_epoch r = pr_leader_epoch other"

section \<open>Snapshots\<close>

datatype metadata_snapshot_error =
    UnknownController broker_id
  | UnknownPartitionLeader broker_id partition_id

record metadata_snapshot =
  ms_brokers :: broker_directory
  ms_controller :: "broker_route option"
  ms_leaders :: partition_leader_set
  ms_topic_counts :: topic_partition_count_set

text \<open>The loop over the leaders stops at the first whose broker is not a member.\<close>

definition unknown_leader :: "broker_directory \<Rightarrow> partition_leader_set \<Rightarrow> partition_leader option" where
  "unknown_leader brokers leaders =
     List.find (\<lambda>l. route_to brokers (pl_broker_id l) = None) (pls_entries leaders)"

definition snapshot_try_with_topic_counts ::
    "broker_directory \<Rightarrow> broker_id option \<Rightarrow> partition_leader_set \<Rightarrow> topic_partition_count_set \<Rightarrow>
     metadata_snapshot_error + metadata_snapshot" where
  "snapshot_try_with_topic_counts brokers controller_id leaders topic_counts =
     (case (case controller_id of
              None \<Rightarrow> Inr None
            | Some broker_id \<Rightarrow>
                (case route_to brokers broker_id of
                   None \<Rightarrow> Inl (UnknownController broker_id)
                 | Some route \<Rightarrow> Inr (Some route))) of
        Inl e \<Rightarrow> Inl e
      | Inr controller \<Rightarrow>
          (case unknown_leader brokers leaders of
             Some leader \<Rightarrow> Inl (UnknownPartitionLeader (pl_broker_id leader) (pl_partition leader))
           | None \<Rightarrow> Inr \<lparr>ms_brokers = brokers, ms_controller = controller, ms_leaders = leaders,
                          ms_topic_counts = topic_counts\<rparr>))"

definition snapshot_try_with_leaders ::
    "broker_directory \<Rightarrow> broker_id option \<Rightarrow> partition_leader_set \<Rightarrow>
     metadata_snapshot_error + metadata_snapshot" where
  "snapshot_try_with_leaders brokers controller_id leaders =
     snapshot_try_with_topic_counts brokers controller_id leaders topic_counts_empty"

definition snapshot_try_new ::
    "broker_directory \<Rightarrow> broker_id option \<Rightarrow> metadata_snapshot_error + metadata_snapshot" where
  "snapshot_try_new brokers controller_id = snapshot_try_with_leaders brokers controller_id leaders_empty"

definition snapshot_generation :: "metadata_snapshot \<Rightarrow> metadata_generation" where
  "snapshot_generation s = bd_generation (ms_brokers s)"

definition snapshot_partition_route ::
    "metadata_snapshot \<Rightarrow> topic_name \<Rightarrow> partition_id \<Rightarrow> partition_route option" where
  "snapshot_partition_route s topic part =
     (case leaders_find (ms_leaders s) topic part of
        None \<Rightarrow> None
      | Some leader \<Rightarrow>
          (case route_to (ms_brokers s) (pl_broker_id leader) of
             None \<Rightarrow> None
           | Some broker \<Rightarrow>
               Some \<lparr>pr_broker = broker, pr_topic = pl_topic leader, pr_partition = pl_partition leader,
                     pr_leader_epoch = pl_leader_epoch leader, pr_revision = pl_revision leader,
                     pr_evidence = pl_evidence leader\<rparr>))"

definition resolve_broker ::
    "metadata_snapshot \<Rightarrow> broker_route \<Rightarrow> broker_route_error + broker_directory_entry" where
  "resolve_broker s route = directory_resolve (ms_brokers s) route"

definition snapshot_revoke_controller :: "metadata_snapshot \<Rightarrow> metadata_snapshot" where
  "snapshot_revoke_controller s = s\<lparr>ms_controller := None\<rparr>"

definition snapshot_revoke_partition ::
    "metadata_snapshot \<Rightarrow> topic_name \<Rightarrow> partition_id \<Rightarrow> metadata_snapshot" where
  "snapshot_revoke_partition s topic part =
     s\<lparr>ms_leaders := leaders_remove (ms_leaders s) topic part\<rparr>"

section \<open>The sets are sorted tables\<close>

definition leaders_wf :: "partition_leader_set \<Rightarrow> bool" where
  "leaders_wf s \<longleftrightarrow> sorted_wrt (<) (map leader_key (pls_entries s))"

definition topic_counts_wf :: "topic_partition_count_set \<Rightarrow> bool" where
  "topic_counts_wf s \<longleftrightarrow> sorted_wrt (<) (map tpc_topic (tpcs_entries s))"

interpretation leader_table: keyed_table leader_key pls_entries
  "\<lambda>s k. leaders_find s (fst k) (snd k)" leaders_wf
  by unfold_locales (auto simp: leaders_wf_def leaders_find_def table_find_eq)

interpretation topic_count_table: keyed_table tpc_topic tpcs_entries topic_counts_find topic_counts_wf
  by unfold_locales (auto simp: topic_counts_wf_def topic_counts_find_def table_find_eq)

lemma same_partition_key: "same_partition = (\<lambda>a b. leader_key a = leader_key b)"
  by (auto simp: fun_eq_iff same_partition_def leader_key_def)

lemma leaders_find_Some:
  assumes "leaders_wf s"
  shows "leaders_find s topic part = Some l \<longleftrightarrow>
    l \<in> set (pls_entries s) \<and> pl_topic l = topic \<and> pl_partition l = part"
  using leader_table.lookup_Some [OF assms, of "(topic, part)"] by (simp add: leader_key_def)

lemma leaders_remove_entries:
  assumes "leaders_wf s"
  shows "pls_entries (leaders_remove s topic part) =
    filter (\<lambda>l. leader_key l \<noteq> (topic, part)) (pls_entries s)"
  using assms
  by (auto simp: leaders_remove_def leaders_wf_def binary_search_position position_None_iff
      remove_at_position intro: filter_True [symmetric] split: option.splits)

lemma leaders_remove_wf: "leaders_wf s \<Longrightarrow> leaders_wf (leaders_remove s topic part)"
  by (simp add: leaders_wf_def leaders_remove_entries sorted_wrt_filter sorted_wrt_map)

text \<open>After a removal the key is gone and every other key answers as before.\<close>

lemma leaders_find_remove:
  assumes "leaders_wf s"
  shows "leaders_find (leaders_remove s topic part) t p =
    (if (t, p) = (topic, part) then None else leaders_find s t p)"
proof -
  have "leaders_find (leaders_remove s topic part) t p =
      List.find (\<lambda>e. leader_key e = (t, p)) (filter (\<lambda>l. leader_key l \<noteq> (topic, part)) (pls_entries s))"
    using leaders_remove_wf [OF assms] leaders_remove_entries [OF assms]
    by (simp add: leaders_find_def leaders_wf_def table_find_eq)
  also have "\<dots> = (if (t, p) = (topic, part) then None else List.find (\<lambda>e. leader_key e = (t, p)) (pls_entries s))"
    by (rule find_filter_key)
  finally show ?thesis
    using assms by (simp add: leaders_find_def leaders_wf_def table_find_eq)
qed

text \<open>The fold over a sorted list counts the distinct topics.\<close>

lemma count_topics_fold:
  assumes "sorted (t # ts)"
  shows "snd (fold (\<lambda>topic (previous, n). (Some topic, n + (if previous \<noteq> Some topic then 1 else 0))) ts (Some t, n)) =
    n + card (set (t # ts)) - 1"
  using assms
proof (induction ts arbitrary: t n)
  case (Cons u us)
  have "finite (insert u (set us))" "card (insert u (set us)) \<noteq> 0" by simp_all
  moreover have "t = u \<or> t \<notin> insert u (set us)" using Cons.prems by auto
  ultimately show ?case using Cons.IH [of u] Cons.prems by (auto simp: insert_absorb)
qed simp

lemma count_topics_card:
  assumes "sorted (map pl_topic entries)"
  shows "count_topics entries = card (pl_topic ` set entries)"
proof (cases entries)
  case (Cons e es)
  then show ?thesis
    using assms count_topics_fold [of "pl_topic e" "map pl_topic es" 1] by (simp add: count_topics_def)
qed (simp add: count_topics_def)

lemma leader_key_topics: "sorted (map leader_key entries) \<Longrightarrow> sorted (map pl_topic entries)"
  by (induction entries) (auto simp: leader_key_def less_eq_prod_def)

lemma leaders_try_from_iter_eq:
  "leaders_try_from_iter source limits =
     (if pll_max_partitions limits < length source then Inl (PartitionCapacity (pll_max_partitions limits))
      else case find_adjacent same_partition (sort_key leader_key source) of
        Some duplicate \<Rightarrow> Inl (DuplicatePartition (pl_partition duplicate))
      | None \<Rightarrow> (if pll_max_topics limits < card (pl_topic ` set source)
                   then Inl (TopicCapacity (pll_max_topics limits))
                 else Inr \<lparr>pls_entries = sort_key leader_key source\<rparr>))"
proof -
  have "count_topics (sort_key leader_key source) = card (pl_topic ` set source)"
    using count_topics_card [OF leader_key_topics, of "sort_key leader_key source"] by simp
  then show ?thesis
    by (simp add: leaders_try_from_iter_def collect_bounded_eq Let_def split: option.split)
qed

lemma leaders_try_from_iter_Inr:
  assumes "leaders_try_from_iter source limits = Inr s"
  shows "leaders_wf s" "set (pls_entries s) = set source"
proof -
  have n: "find_adjacent same_partition (sort_key leader_key source) = None"
    "s = \<lparr>pls_entries = sort_key leader_key source\<rparr>"
    using assms by (simp_all add: leaders_try_from_iter_eq split: if_splits option.splits)
  then show "leaders_wf s" "set (pls_entries s) = set source"
    using find_adjacent_sorted [of leader_key "sort_key leader_key source"]
    by (simp_all add: leaders_wf_def same_partition_key)
qed

lemma topic_counts_try_from_iter_wf:
  "topic_counts_try_from_iter source limit = Inr s \<Longrightarrow> topic_counts_wf s"
  using find_adjacent_sorted [of tpc_topic "sort_key tpc_topic source"]
  by (auto simp: topic_counts_try_from_iter_def collect_bounded_eq topic_counts_wf_def Let_def split: if_splits)

lemma empty_sets_wf [simp]: "leaders_wf leaders_empty" "topic_counts_wf topic_counts_empty"
  by (simp_all add: leaders_wf_def leaders_empty_def topic_counts_wf_def topic_counts_empty_def)

section \<open>Well-formed snapshots\<close>

text \<open>
  What the constructors establish and every revocation keeps: sorted tables, and routes only to
  brokers that are members.
\<close>

definition snapshot_wf :: "metadata_snapshot \<Rightarrow> bool" where
  "snapshot_wf s \<longleftrightarrow>
     directory_wf (ms_brokers s) \<and> leaders_wf (ms_leaders s) \<and> topic_counts_wf (ms_topic_counts s) \<and>
     (\<forall>route. ms_controller s = Some route \<longrightarrow>
        route_to (ms_brokers s) (br_broker_id route) = Some route) \<and>
     (\<forall>l\<in>set (pls_entries (ms_leaders s)). route_to (ms_brokers s) (pl_broker_id l) \<noteq> None)"

lemma route_to_broker: "route_to d b = Some route \<Longrightarrow> br_broker_id route = b"
  by (auto simp: route_to_def)

lemma route_to_self: "route_to d b = Some route \<Longrightarrow> route_to d (br_broker_id route) = Some route"
  using route_to_broker by blast

lemma snapshot_try_wf:
  assumes "snapshot_try_with_topic_counts brokers controller leaders counts = Inr s"
    and "directory_wf brokers" "leaders_wf leaders" "topic_counts_wf counts"
  shows "snapshot_wf s" "ms_leaders s = leaders" "ms_brokers s = brokers"
  using assms
  by (auto simp: snapshot_try_with_topic_counts_def snapshot_wf_def unknown_leader_def find_None_iff
      dest: route_to_self split: option.splits)

lemma revoke_controller_wf: "snapshot_wf s \<Longrightarrow> snapshot_wf (snapshot_revoke_controller s)"
  by (simp add: snapshot_wf_def snapshot_revoke_controller_def)

lemma revoke_partition_wf: "snapshot_wf s \<Longrightarrow> snapshot_wf (snapshot_revoke_partition s topic part)"
  by (auto simp: snapshot_wf_def snapshot_revoke_partition_def leaders_remove_wf leaders_remove_entries)

lemma partition_route_iff:
  assumes "snapshot_wf s"
  shows "snapshot_partition_route s topic part = None \<longleftrightarrow> leaders_find (ms_leaders s) topic part = None"
  using assms leaders_find_Some [of "ms_leaders s" topic part]
  by (auto simp: snapshot_partition_route_def snapshot_wf_def split: option.splits)

lemma partition_route_revoked:
  assumes "snapshot_wf s"
  shows "snapshot_partition_route (snapshot_revoke_partition s topic part) t p =
    (if (t, p) = (topic, part) then None else snapshot_partition_route s t p)"
  using assms leaders_find_remove [of "ms_leaders s" topic part t p]
  by (simp add: snapshot_partition_route_def snapshot_revoke_partition_def snapshot_wf_def split: option.split)

lemma partition_route_fields:
  assumes "snapshot_partition_route s topic part = Some route" "snapshot_wf s"
  shows "pr_topic route = topic" "pr_partition route = part"
    "route_to (ms_brokers s) (br_broker_id (pr_broker route)) = Some (pr_broker route)"
  using assms
  by (auto simp: snapshot_partition_route_def snapshot_wf_def leaders_find_Some dest: route_to_self
      split: option.splits)

lemma route_to_resolves:
  assumes "directory_wf d" "route_to d (br_broker_id route) = Some route"
  shows "\<exists>entry. directory_resolve d route = Inr entry \<and> bde_broker_id entry = br_broker_id route"
proof -
  obtain entry where e: "directory_find d (br_broker_id route) = Some entry"
    "\<lparr>br_generation = bd_generation d, br_broker_id = br_broker_id route, br_evidence = bd_evidence d\<rparr> = route"
    using assms(2) by (auto simp: route_to_def)
  then have "br_generation route = bd_generation d" "br_evidence route = bd_evidence d"
    by (metis broker_route.select_convs(1), metis broker_route.select_convs(3))
  moreover have "bde_broker_id entry = br_broker_id route"
    using directory_table.lookup_Some [OF assms(1)] e(1) by simp
  ultimately show ?thesis using e(1) by (simp add: directory_resolve_def)
qed

section \<open>Properties\<close>

text \<open>
  Partition leaders are accepted exactly when they are few enough, name each partition once and
  span few enough topics, and the first limit broken is the one reported: capacity before
  duplicates before topics.
\<close>

theorem leader_set_construction:
  "case leaders_try_from_iter source limits of
     Inl (PartitionCapacity n) \<Rightarrow> n = pll_max_partitions limits \<and> n < length source
   | Inl (DuplicatePartition p) \<Rightarrow>
       length source \<le> pll_max_partitions limits \<and>
       (\<exists>l\<in>set source. pl_partition l = p) \<and> \<not> distinct (map leader_key source)
   | Inl (TopicCapacity n) \<Rightarrow>
       length source \<le> pll_max_partitions limits \<and> distinct (map leader_key source) \<and>
       n = pll_max_topics limits \<and> n < card (pl_topic ` set source)
   | Inr s \<Rightarrow>
       length source \<le> pll_max_partitions limits \<and> distinct (map leader_key source) \<and>
       card (pl_topic ` set source) \<le> pll_max_topics limits \<and>
       mset (pls_entries s) = mset source \<and> sorted (map leader_key (pls_entries s))"
proof (cases "find_adjacent same_partition (sort_key leader_key source)")
  case None
  then have "distinct (map leader_key source)"
    unfolding same_partition_key by (simp only: sort_key_no_duplicate)
  with None show ?thesis by (simp add: leaders_try_from_iter_eq)
next
  case (Some duplicate)
  then have "\<not> distinct (map leader_key source)"
    unfolding same_partition_key using sort_key_no_duplicate [of leader_key source] by simp
  moreover have "duplicate \<in> set source" using find_adjacent_Some [OF Some] by simp
  ultimately show ?thesis using Some by (auto simp: leaders_try_from_iter_eq)
qed

definition revoke_all :: "bool \<Rightarrow> (topic_name \<times> partition_id) list \<Rightarrow> metadata_snapshot \<Rightarrow> metadata_snapshot" where
  "revoke_all controller parts s =
     fold (\<lambda>(t, p) s. snapshot_revoke_partition s t p) parts
       (if controller then snapshot_revoke_controller s else s)"

lemma revoke_all_wf: "snapshot_wf s \<Longrightarrow> snapshot_wf (revoke_all controller parts s)"
  unfolding revoke_all_def
proof (induction parts rule: rev_induct)
  case (snoc p parts)
  then show ?case by (simp add: case_prod_beta revoke_partition_wf)
qed (simp add: revoke_controller_wf)

lemma revoke_all_brokers [simp]: "ms_brokers (revoke_all controller parts s) = ms_brokers s"
  unfolding revoke_all_def
proof (induction parts rule: rev_induct)
  case (snoc p parts)
  then show ?case by (simp add: case_prod_beta snapshot_revoke_partition_def)
qed (simp add: snapshot_revoke_controller_def)

lemma revoke_all_controller:
  "ms_controller (revoke_all controller parts s) = (if controller then None else ms_controller s)"
  unfolding revoke_all_def
proof (induction parts rule: rev_induct)
  case (snoc p parts)
  then show ?case by (simp add: case_prod_beta snapshot_revoke_partition_def)
qed (simp add: snapshot_revoke_controller_def)

lemma revoke_all_route:
  assumes "snapshot_wf s"
  shows "snapshot_partition_route (revoke_all controller parts s) topic part =
    (if (topic, part) \<in> set parts then None else snapshot_partition_route s topic part)"
proof (induction parts rule: rev_induct)
  case Nil
  have "snapshot_partition_route (snapshot_revoke_controller s) topic part = snapshot_partition_route s topic part"
    by (simp add: snapshot_partition_route_def snapshot_revoke_controller_def split: option.split)
  then show ?case by (simp add: revoke_all_def)
next
  case (snoc p parts)
  have "revoke_all controller (parts @ [p]) s = snapshot_revoke_partition (revoke_all controller parts s) (fst p) (snd p)"
    by (simp add: revoke_all_def case_prod_beta)
  with snoc show ?case
    using partition_route_revoked [OF revoke_all_wf [OF assms], of controller parts "fst p" "snd p" topic part]
    by (cases p) auto
qed

text \<open>The route to the leader of a partition, under the generation and evidence of the directory.\<close>

definition leader_route :: "metadata_generation \<Rightarrow> evidence_stamp \<Rightarrow> partition_leader \<Rightarrow> partition_route" where
  "leader_route generation evidence l =
     \<lparr>pr_broker = \<lparr>br_generation = generation, br_broker_id = pl_broker_id l, br_evidence = evidence\<rparr>,
      pr_topic = pl_topic l, pr_partition = pl_partition l, pr_leader_epoch = pl_leader_epoch l,
      pr_revision = pl_revision l, pr_evidence = pl_evidence l\<rparr>"

lemma partition_route_leader:
  assumes "snapshot_wf s"
  shows "snapshot_partition_route s topic part = Some route \<longleftrightarrow>
    (\<exists>l\<in>set (pls_entries (ms_leaders s)). leader_key l = (topic, part) \<and>
       route = leader_route (bd_generation (ms_brokers s)) (bd_evidence (ms_brokers s)) l)"
proof -
  have wf: "leaders_wf (ms_leaders s)" using assms by (simp add: snapshot_wf_def)
  have found: "leaders_find (ms_leaders s) topic part = Some l \<longleftrightarrow>
      l \<in> set (pls_entries (ms_leaders s)) \<and> leader_key l = (topic, part)" for l
    using leaders_find_Some [OF wf, of topic part l] by (simp add: leader_key_def)
  show ?thesis
  proof (cases "leaders_find (ms_leaders s) topic part")
    case None
    then show ?thesis using found by (auto simp: snapshot_partition_route_def)
  next
    case (Some l)
    then obtain entry where "directory_find (ms_brokers s) (pl_broker_id l) = Some entry"
      using assms found by (auto simp: snapshot_wf_def route_to_def)
    then have "snapshot_partition_route s topic part =
        Some (leader_route (bd_generation (ms_brokers s)) (bd_evidence (ms_brokers s)) l)"
      by (simp add: snapshot_partition_route_def Some route_to_def leader_route_def)
    moreover have "l' \<in> set (pls_entries (ms_leaders s)) \<and> leader_key l' = (topic, part) \<longleftrightarrow> l' = l" for l'
      using found [of l'] Some by auto
    ultimately show ?thesis by (metis option.inject)
  qed
qed


definition sample_leaders :: "partition_leader list" where
  "sample_leaders =
     [partition_leader_new ''orders'' 1 7 (Some 4) 1, partition_leader_new ''orders'' 0 2 (Some 3) 1]"

definition sample_leader_limits :: partition_leader_limits where
  "sample_leader_limits = \<lparr>pll_max_topics = 1, pll_max_partitions = 4\<rparr>"

definition sample_leader_set :: partition_leader_set where
  "sample_leader_set = \<lparr>pls_entries = rev sample_leaders\<rparr>"

definition sample_snapshot :: metadata_snapshot where
  "sample_snapshot =
     \<lparr>ms_brokers = sample_directory,
      ms_controller = Some \<lparr>br_generation = 3, br_broker_id = 7, br_evidence = 5\<rparr>,
      ms_leaders = sample_leader_set, ms_topic_counts = topic_counts_empty\<rparr>"

lemma sample_snapshot_built:
  "leaders_try_from_iter sample_leaders sample_leader_limits = Inr sample_leader_set"
  "topic_counts_try_from_iter [] 1 = Inr topic_counts_empty"
  "snapshot_try_with_topic_counts sample_directory (Some 7) sample_leader_set topic_counts_empty =
     Inr sample_snapshot"
  by code_simp+


end
