(* ===== verification/Metadata.thy ===== *)
theory Metadata
  imports Snapshot
begin

text \<open>
  The metadata machine of \<open>kafka-driver-core\<close> (\<open>metadata/\<close>): at most one fetch in flight, a bounded
  queue of further queries, and revocations that keep an invalidated controller or partition route
  out of every snapshot until evidence newer than the observed failure arrives.
\<close>

section \<open>Queries, inputs and transitions\<close>

datatype metadata_query = QueryCluster | QueryTopic topic_name

record metadata_query_limits =
  mql_pending_queries :: usize

definition metadata_query_limits_default :: metadata_query_limits where
  "metadata_query_limits_default = \<lparr>mql_pending_queries = 256\<rparr>"

datatype metadata_effect =
    MdFetch operation_id metadata_generation metadata_query
  | MdGenerationExhausted

datatype metadata_disposition =
    MdApplied | MdCoalesced | MdQueued | MdQueryCapacityReached
  | MdRejectedLeaderEpochRegression | MdIgnoredStale

record metadata_transition =
  mt_effects :: "metadata_effect list"
  mt_disposition :: metadata_disposition

datatype metadata_input =
    MdResolve metadata_query operation_id
  | MdRefresh metadata_query operation_id
  | MdInvalidateBrokerRoute broker_route outcome_stamp operation_id
  | MdInvalidatePartitionRoute partition_route outcome_stamp operation_id
  | MdRefreshSucceeded operation_id metadata_snapshot operation_id
  | MdRefreshFailed operation_id operation_id

definition md_fetch :: "operation_id \<Rightarrow> metadata_generation \<Rightarrow> metadata_query \<Rightarrow> metadata_transition" where
  "md_fetch operation_id generation query =
     \<lparr>mt_effects = [MdFetch operation_id generation query], mt_disposition = MdApplied\<rparr>"

definition md_applied :: metadata_transition where
  "md_applied = \<lparr>mt_effects = [], mt_disposition = MdApplied\<rparr>"

definition md_coalesced :: metadata_transition where
  "md_coalesced = \<lparr>mt_effects = [], mt_disposition = MdCoalesced\<rparr>"

definition md_query_queued :: metadata_transition where
  "md_query_queued = \<lparr>mt_effects = [], mt_disposition = MdQueued\<rparr>"

definition md_capacity_reached :: metadata_transition where
  "md_capacity_reached = \<lparr>mt_effects = [], mt_disposition = MdQueryCapacityReached\<rparr>"

definition md_stale :: metadata_transition where
  "md_stale = \<lparr>mt_effects = [], mt_disposition = MdIgnoredStale\<rparr>"

definition md_exhausted :: metadata_transition where
  "md_exhausted = \<lparr>mt_effects = [MdGenerationExhausted], mt_disposition = MdApplied\<rparr>"

section \<open>Revocations\<close>

record controller_revocation =
  cr_route :: broker_route
  cr_required_after :: outcome_stamp

definition controller_observe :: "controller_revocation \<Rightarrow> outcome_stamp \<Rightarrow> controller_revocation" where
  "controller_observe r observed_at = r\<lparr>cr_required_after := max (cr_required_after r) observed_at\<rparr>"

record partition_revocation =
  pv_route :: partition_route
  pv_required_after :: outcome_stamp

definition partition_observe :: "partition_revocation \<Rightarrow> outcome_stamp \<Rightarrow> partition_revocation" where
  "partition_observe r observed_at = r\<lparr>pv_required_after := max (pv_required_after r) observed_at\<rparr>"

record metadata_revocations =
  mr_controller :: "controller_revocation option"
  mr_partitions :: "partition_revocation list"

definition revocations_new :: metadata_revocations where
  "revocations_new = \<lparr>mr_controller = None, mr_partitions = []\<rparr>"

definition revoke_controller ::
    "metadata_revocations \<Rightarrow> broker_route \<Rightarrow> outcome_stamp \<Rightarrow> metadata_revocations" where
  "revoke_controller r route required_after =
     (case mr_controller r of
        Some revocation \<Rightarrow>
          (if is_same_broker (cr_route revocation) route
             then r\<lparr>mr_controller := Some (controller_observe revocation required_after)\<rparr>
           else r\<lparr>mr_controller := Some \<lparr>cr_route = route, cr_required_after = required_after\<rparr>\<rparr>)
      | None \<Rightarrow> r\<lparr>mr_controller := Some \<lparr>cr_route = route, cr_required_after = required_after\<rparr>\<rparr>)"

definition revoke_partition ::
    "metadata_revocations \<Rightarrow> partition_route \<Rightarrow> outcome_stamp \<Rightarrow> metadata_revocations" where
  "revoke_partition r route required_after =
     (if list_ex (\<lambda>v. is_same_assignment (pv_route v) route) (mr_partitions r)
        then r\<lparr>mr_partitions :=
               update_first (\<lambda>v. is_same_assignment (pv_route v) route)
                 (\<lambda>v. partition_observe v required_after) (mr_partitions r)\<rparr>
      else r\<lparr>mr_partitions :=
             mr_partitions r @ [\<lparr>pv_route = route, pv_required_after = required_after\<rparr>]\<rparr>)"

fun topic_satisfies :: "metadata_query \<Rightarrow> evidence_stamp \<Rightarrow> partition_revocation \<Rightarrow> bool" where
  "topic_satisfies (QueryTopic topic) evidence v \<longleftrightarrow>
     topic = pr_topic (pv_route v) \<and> evidence_is_after evidence (pv_required_after v)"
| "topic_satisfies QueryCluster evidence v \<longleftrightarrow> False"

fun retain_revocations ::
    "metadata_query \<Rightarrow> evidence_stamp \<Rightarrow> partition_revocation list \<Rightarrow> metadata_snapshot \<Rightarrow>
     partition_revocation list \<times> metadata_snapshot" where
  "retain_revocations query evidence [] snapshot = ([], snapshot)"
| "retain_revocations query evidence (v # vs) snapshot =
     (if topic_satisfies query evidence v then retain_revocations query evidence vs snapshot
      else let (kept, snapshot') =
             retain_revocations query evidence vs
               (snapshot_revoke_partition snapshot (pr_topic (pv_route v)) (pr_partition (pv_route v)))
           in (v # kept, snapshot'))"

definition revocations_apply ::
    "metadata_revocations \<Rightarrow> metadata_snapshot \<Rightarrow> metadata_query \<Rightarrow>
     metadata_revocations \<times> metadata_snapshot" where
  "revocations_apply r snapshot query =
     (let evidence = bd_evidence (ms_brokers snapshot);
          (controller, snapshot) =
            (case mr_controller r of
               None \<Rightarrow> (None, snapshot)
             | Some revocation \<Rightarrow>
                 (if query = QueryCluster \<and> evidence_is_after evidence (cr_required_after revocation)
                    then (None, snapshot)
                  else (Some revocation, snapshot_revoke_controller snapshot)));
          (partitions, snapshot) = retain_revocations query evidence (mr_partitions r) snapshot
      in (\<lparr>mr_controller = controller, mr_partitions = partitions\<rparr>, snapshot))"

definition controller_pending :: "metadata_revocations \<Rightarrow> broker_route \<Rightarrow> bool" where
  "controller_pending r route \<longleftrightarrow>
     (case mr_controller r of None \<Rightarrow> False | Some v \<Rightarrow> is_same_broker (cr_route v) route)"

definition controller_requires :: "metadata_revocations \<Rightarrow> broker_route \<Rightarrow> outcome_stamp \<Rightarrow> bool" where
  "controller_requires r route observed_at \<longleftrightarrow>
     (case mr_controller r of
        None \<Rightarrow> False
      | Some v \<Rightarrow> is_same_broker (cr_route v) route \<and> cr_required_after v < observed_at)"

definition partition_pending :: "metadata_revocations \<Rightarrow> partition_route \<Rightarrow> bool" where
  "partition_pending r route \<longleftrightarrow> list_ex (\<lambda>v. is_same_assignment (pv_route v) route) (mr_partitions r)"

definition partition_requires :: "metadata_revocations \<Rightarrow> partition_route \<Rightarrow> outcome_stamp \<Rightarrow> bool" where
  "partition_requires r route observed_at \<longleftrightarrow>
     list_ex (\<lambda>v. is_same_assignment (pv_route v) route \<and> pv_required_after v < observed_at)
       (mr_partitions r)"

section \<open>The machine\<close>

datatype metadata_state =
    MdEmpty metadata_generation
  | MdRefreshing "metadata_snapshot option" operation_id metadata_query metadata_generation
      "metadata_query list"
  | MdReady metadata_snapshot

record metadata_machine =
  mm_state :: metadata_state
  mm_query_limits :: metadata_query_limits
  mm_revocations :: metadata_revocations

definition metadata_with_query_limits ::
    "metadata_generation \<Rightarrow> metadata_query_limits \<Rightarrow> metadata_machine" where
  "metadata_with_query_limits initial_generation query_limits =
     \<lparr>mm_state = MdEmpty initial_generation, mm_query_limits = query_limits,
      mm_revocations = revocations_new\<rparr>"

definition metadata_new :: "metadata_generation \<Rightarrow> metadata_machine" where
  "metadata_new initial_generation =
     metadata_with_query_limits initial_generation metadata_query_limits_default"

fun state_current :: "metadata_state \<Rightarrow> metadata_snapshot option" where
  "state_current (MdEmpty next_generation) = None"
| "state_current (MdRefreshing current operation_id query target queued) = current"
| "state_current (MdReady snapshot) = Some snapshot"

definition metadata_current :: "metadata_machine \<Rightarrow> metadata_snapshot option" where
  "metadata_current m = state_current (mm_state m)"

fun map_state_current :: "(metadata_snapshot \<Rightarrow> metadata_snapshot) \<Rightarrow> metadata_state \<Rightarrow> metadata_state" where
  "map_state_current f (MdEmpty next_generation) = MdEmpty next_generation"
| "map_state_current f (MdRefreshing current operation_id query target queued) =
     MdRefreshing (map_option f current) operation_id query target queued"
| "map_state_current f (MdReady snapshot) = MdReady (f snapshot)"

definition update_current ::
    "(metadata_snapshot \<Rightarrow> metadata_snapshot) \<Rightarrow> metadata_machine \<Rightarrow> metadata_machine" where
  "update_current f m = m\<lparr>mm_state := map_state_current f (mm_state m)\<rparr>"

definition query_pending :: "metadata_machine \<Rightarrow> metadata_query \<Rightarrow> bool" where
  "query_pending m query \<longleftrightarrow>
     (case mm_state m of
        MdRefreshing current operation_id active target queued \<Rightarrow> active = query \<or> query \<in> set queued
      | _ \<Rightarrow> False)"

definition md_start ::
    "metadata_machine \<Rightarrow> metadata_snapshot option \<Rightarrow> operation_id \<Rightarrow> metadata_generation \<Rightarrow>
     metadata_query \<Rightarrow> metadata_machine \<times> metadata_transition" where
  "md_start m current operation_id target query =
     (m\<lparr>mm_state := MdRefreshing current operation_id query target []\<rparr>, md_fetch operation_id target query)"

datatype query_recency = CurrentMaySatisfy | MustFollowCurrent

definition md_admit ::
    "metadata_machine \<Rightarrow> metadata_query \<Rightarrow> operation_id \<Rightarrow> query_recency \<Rightarrow>
     metadata_machine \<times> metadata_transition" where
  "md_admit m query operation_id recency =
     (case mm_state m of
        MdRefreshing current active_operation active target queued \<Rightarrow>
          (if (active = query \<and> recency = CurrentMaySatisfy) \<or> query \<in> set queued then (m, md_coalesced)
           else if mql_pending_queries (mm_query_limits m) \<le> length queued then (m, md_capacity_reached)
           else (m\<lparr>mm_state := MdRefreshing current active_operation active target (queued @ [query])\<rparr>,
                 md_query_queued))
      | MdEmpty next_generation \<Rightarrow> md_start m None operation_id next_generation query
      | MdReady snapshot \<Rightarrow>
          (case metadata_generation_next (snapshot_generation snapshot) of
             None \<Rightarrow> (m, md_exhausted)
           | Some next_generation \<Rightarrow> md_start m (Some snapshot) operation_id next_generation query))"

definition md_resolve ::
    "metadata_machine \<Rightarrow> metadata_query \<Rightarrow> operation_id \<Rightarrow> metadata_machine \<times> metadata_transition" where
  "md_resolve m query operation_id = md_admit m query operation_id CurrentMaySatisfy"

definition md_refresh ::
    "metadata_machine \<Rightarrow> metadata_query \<Rightarrow> operation_id \<Rightarrow> metadata_machine \<times> metadata_transition" where
  "md_refresh m query operation_id = md_admit m query operation_id MustFollowCurrent"

definition continue_controller_revocation ::
    "metadata_machine \<Rightarrow> broker_route \<Rightarrow> outcome_stamp \<Rightarrow> operation_id \<Rightarrow>
     metadata_machine \<times> metadata_transition" where
  "continue_controller_revocation m route observed_at operation_id =
     (if \<not> controller_requires (mm_revocations m) route observed_at then (m, md_coalesced)
      else let (m', transition) = md_refresh m QueryCluster operation_id in
        if mt_disposition transition \<noteq> MdQueryCapacityReached
          then (update_current snapshot_revoke_controller
                  (m'\<lparr>mm_revocations := revoke_controller (mm_revocations m') route observed_at\<rparr>),
                transition)
        else (m', transition))"

definition md_invalidate ::
    "metadata_machine \<Rightarrow> broker_route \<Rightarrow> outcome_stamp \<Rightarrow> operation_id \<Rightarrow>
     metadata_machine \<times> metadata_transition" where
  "md_invalidate m route observed_at operation_id =
     (if controller_pending (mm_revocations m) route
        then continue_controller_revocation m route observed_at operation_id
      else case metadata_current m of
        None \<Rightarrow> (m, md_stale)
      | Some current \<Rightarrow>
          (case ms_controller current of
             None \<Rightarrow> (m, md_stale)
           | Some current_route \<Rightarrow>
               (if \<not> is_same_broker current_route route \<or>
                   evidence_is_after (br_evidence current_route) observed_at
                  then (m, md_stale)
                else let (m', transition) = md_refresh m QueryCluster operation_id in
                  if mt_disposition transition = MdQueryCapacityReached then (m', transition)
                  else let m'' = update_current snapshot_revoke_controller m' in
                    (m''\<lparr>mm_revocations := revoke_controller (mm_revocations m'') route observed_at\<rparr>,
                     transition))))"

definition continue_partition_revocation ::
    "metadata_machine \<Rightarrow> partition_route \<Rightarrow> outcome_stamp \<Rightarrow> operation_id \<Rightarrow>
     metadata_machine \<times> metadata_transition" where
  "continue_partition_revocation m route observed_at operation_id =
     (if \<not> partition_requires (mm_revocations m) route observed_at then (m, md_coalesced)
      else let (m', transition) = md_refresh m (QueryTopic (pr_topic route)) operation_id in
        if mt_disposition transition \<noteq> MdQueryCapacityReached
          then (update_current (\<lambda>s. snapshot_revoke_partition s (pr_topic route) (pr_partition route))
                  (m'\<lparr>mm_revocations := revoke_partition (mm_revocations m') route observed_at\<rparr>),
                transition)
        else (m', transition))"

definition md_invalidate_partition ::
    "metadata_machine \<Rightarrow> partition_route \<Rightarrow> outcome_stamp \<Rightarrow> operation_id \<Rightarrow>
     metadata_machine \<times> metadata_transition" where
  "md_invalidate_partition m route observed_at operation_id =
     (if partition_pending (mm_revocations m) route
        then continue_partition_revocation m route observed_at operation_id
      else case metadata_current m of
        None \<Rightarrow> (m, md_stale)
      | Some current \<Rightarrow>
          (if (case snapshot_partition_route current (pr_topic route) (pr_partition route) of
                 None \<Rightarrow> True
               | Some current_route \<Rightarrow>
                   \<not> is_same_assignment current_route route \<or>
                   evidence_is_after (pr_evidence current_route) observed_at)
             then (m, md_stale)
           else let (m', transition) = md_refresh m (QueryTopic (pr_topic route)) operation_id in
             if mt_disposition transition = MdQueryCapacityReached then (m', transition)
             else let m'' = update_current
                    (\<lambda>s. snapshot_revoke_partition s (pr_topic route) (pr_partition route)) m' in
               (m''\<lparr>mm_revocations := revoke_partition (mm_revocations m'') route observed_at\<rparr>,
                transition)))"

fun pop_query :: "metadata_state \<Rightarrow> metadata_state \<times> metadata_query option" where
  "pop_query (MdRefreshing current operation_id query target (q # queued)) =
     (MdRefreshing current operation_id query target queued, Some q)"
| "pop_query state = (state, None)"

definition md_restart ::
    "metadata_machine \<Rightarrow> metadata_snapshot option \<Rightarrow> operation_id \<Rightarrow> metadata_generation \<Rightarrow>
     metadata_query \<Rightarrow> metadata_machine \<times> metadata_transition" where
  "md_restart m current operation_id target query =
     (let queued = (case mm_state m of
                      MdRefreshing current active_operation active target queued \<Rightarrow> queued
                    | _ \<Rightarrow> [])
      in (m\<lparr>mm_state := MdRefreshing current operation_id query target queued\<rparr>,
          md_fetch operation_id target query))"

definition md_fail ::
    "metadata_machine \<Rightarrow> operation_id \<Rightarrow> operation_id \<Rightarrow> metadata_machine \<times> metadata_transition" where
  "md_fail m operation_id followup_operation_id =
     (case mm_state m of
        MdRefreshing current expected query target queued \<Rightarrow>
          (if operation_id \<noteq> expected then (m, md_stale)
           else let (state, next_query) = pop_query (mm_state m);
                    m = m\<lparr>mm_state := state\<rparr>
                in case next_query of
                  None \<Rightarrow>
                    (m\<lparr>mm_state := (case current of
                                      Some snapshot \<Rightarrow> MdReady snapshot
                                    | None \<Rightarrow> MdEmpty target)\<rparr>, md_applied)
                | Some query \<Rightarrow> md_restart m current followup_operation_id target query)
      | _ \<Rightarrow> (m, md_stale))"

fun is_topic_query :: "metadata_query \<Rightarrow> bool" where
  "is_topic_query (QueryTopic topic) \<longleftrightarrow> True"
| "is_topic_query QueryCluster \<longleftrightarrow> False"

definition md_succeed ::
    "metadata_machine \<Rightarrow> operation_id \<Rightarrow> metadata_snapshot \<Rightarrow> operation_id \<Rightarrow>
     metadata_machine \<times> metadata_transition" where
  "md_succeed m operation_id snapshot followup_operation_id =
     (case mm_state m of
        MdRefreshing current expected query target queued \<Rightarrow>
          (let regresses =
             (is_topic_query query \<and>
              (case current of
                 None \<Rightarrow> False
               | Some previous \<Rightarrow> regresses_from (ms_leaders snapshot) (ms_leaders previous)))
           in if operation_id \<noteq> expected \<or> snapshot_generation snapshot \<noteq> target then (m, md_stale)
           else if regresses
             then let (m', failed) = md_fail m operation_id followup_operation_id in
               (m', \<lparr>mt_effects = mt_effects failed, mt_disposition = MdRejectedLeaderEpochRegression\<rparr>)
           else let (revocations, snapshot) = revocations_apply (mm_revocations m) snapshot query;
                    (state, next_query) = pop_query (mm_state m);
                    m = m\<lparr>mm_revocations := revocations, mm_state := state\<rparr>
                in case next_query of
                  None \<Rightarrow> (m\<lparr>mm_state := MdReady snapshot\<rparr>, md_applied)
                | Some query \<Rightarrow>
                    (case metadata_generation_next (snapshot_generation snapshot) of
                       None \<Rightarrow> (m\<lparr>mm_state := MdReady snapshot\<rparr>, md_exhausted)
                     | Some next_generation \<Rightarrow>
                         md_restart m (Some snapshot) followup_operation_id next_generation query))
      | _ \<Rightarrow> (m, md_stale))"

fun metadata_apply :: "metadata_machine \<Rightarrow> metadata_input \<Rightarrow> metadata_machine \<times> metadata_transition" where
  "metadata_apply m (MdResolve query operation_id) = md_resolve m query operation_id"
| "metadata_apply m (MdRefresh query operation_id) = md_refresh m query operation_id"
| "metadata_apply m (MdInvalidateBrokerRoute route observed_at operation_id) =
     md_invalidate m route observed_at operation_id"
| "metadata_apply m (MdInvalidatePartitionRoute route observed_at operation_id) =
     md_invalidate_partition m route observed_at operation_id"
| "metadata_apply m (MdRefreshSucceeded operation_id snapshot followup_operation_id) =
     md_succeed m operation_id snapshot followup_operation_id"
| "metadata_apply m (MdRefreshFailed operation_id followup_operation_id) =
     md_fail m operation_id followup_operation_id"

end
