(* ===== verification/Metadata_Response.thy ===== *)
theory Metadata_Response
  imports Metadata
begin

text \<open>
  From a \<open>MetadataResponse\<close> to a snapshot (\<open>src/metadata/\<close>): the brokers, the controller and the
  partition facts a broker advertises are validated and joined with what the current snapshot knows
  of other topics. The records mirror the fields of the generated wire types that the code reads.
\<close>

section \<open>The response\<close>

record metadata_response_broker =
  mrb_node_id :: i32
  mrb_host :: string
  mrb_port :: i32

record metadata_response_partition =
  mrp_error_code :: int
  mrp_partition_index :: i32
  mrp_leader_id :: i32
  mrp_leader_epoch :: i32

record metadata_response_topic =
  mrt_error_code :: int
  mrt_name :: "string option"
  mrt_topic_id :: "u8 list"
  mrt_partitions :: "metadata_response_partition list"

record metadata_response =
  mre_error_code :: int
  mre_brokers :: "metadata_response_broker list"
  mre_controller_id :: i32
  mre_topics :: "metadata_response_topic list"

datatype metadata_build_error =
    MbResponse int
  | MbBrokerCapacity usize usize
  | MbTopicCapacity usize usize
  | MbPartitionCapacity usize usize
  | MbTopicResponseCount usize
  | MbBrokerId i32
  | MbBrokerHost broker_id host_name_error
  | MbBrokerPort broker_id i32
  | MbDirectory broker_directory_error
  | MbControllerId i32
  | MbTopicNameMissing
  | MbRequestedTopicMismatch
  | MbTopicName topic_name_error
  | MbTopicPartitionsEmpty
  | MbDuplicateTopicPartition partition_id
  | MbTopicPartitionMissing usize partition_id
  | MbPartitionIndexOverflow partition_id
  | MbPartitionId i32
  | MbLeaderId partition_id i32
  | MbLeaderEpoch partition_id i32
  | MbPartitionLeaders partition_leader_set_error
  | MbTopicCounts topic_partition_count_set_error
  | MbSnapshot metadata_snapshot_error

section \<open>Brokers\<close>

definition broker_entry ::
    "metadata_response_broker \<Rightarrow> metadata_build_error + broker_directory_entry" where
  "broker_entry broker =
     (case broker_id_new (mrb_node_id broker) of
        Inl e \<Rightarrow> Inl (MbBrokerId e)
      | Inr broker_id \<Rightarrow>
          (case host_name_new (mrb_host broker) of
             Inl source \<Rightarrow> Inl (MbBrokerHost broker_id source)
           | Inr host \<Rightarrow>
               (if 0 < mrb_port broker \<and> mrb_port broker < 2 ^ 16
                  then Inr \<lparr>bde_broker_id = broker_id,
                            bde_endpoint = \<lparr>be_host = host, be_port = of_int (mrb_port broker)\<rparr>\<rparr>
                else Inl (MbBrokerPort broker_id (mrb_port broker)))))"

definition broker_directory_from_response ::
    "metadata_response \<Rightarrow> metadata_generation \<Rightarrow> evidence_stamp \<Rightarrow> broker_directory_limits \<Rightarrow>
     metadata_build_error + broker_directory" where
  "broker_directory_from_response response generation evidence limits =
     (if bdl_max_brokers limits < length (mre_brokers response)
        then Inl (MbBrokerCapacity (length (mre_brokers response)) (bdl_max_brokers limits))
      else case collect_results (map broker_entry (mre_brokers response)) of
        Inl e \<Rightarrow> Inl e
      | Inr entries \<Rightarrow> map_sum MbDirectory id (directory_with_evidence generation evidence entries limits))"

definition controller_id :: "i32 \<Rightarrow> metadata_build_error + broker_id option" where
  "controller_id raw =
     (if raw = -1 then Inr None
      else case broker_id_new raw of Inl e \<Rightarrow> Inl (MbControllerId e) | Inr b \<Rightarrow> Inr (Some b))"

section \<open>Partitions of one topic\<close>

definition observed_partitions :: "metadata_response_topic list \<Rightarrow> usize" where
  "observed_partitions topics =
     (case fold (\<lambda>topic acc. Option.bind acc (\<lambda>n. usize_checked_add n (length (mrt_partitions topic))))
             topics (Some 0) of
        None \<Rightarrow> 2 ^ 64 - 1
      | Some n \<Rightarrow> n)"

definition enforce_input_bounds ::
    "metadata_response \<Rightarrow> partition_leader_limits \<Rightarrow> metadata_build_error + unit" where
  "enforce_input_bounds response limits =
     (if pll_max_topics limits < length (mre_topics response)
        then Inl (MbTopicCapacity (length (mre_topics response)) (pll_max_topics limits))
      else if pll_max_partitions limits < observed_partitions (mre_topics response)
        then Inl (MbPartitionCapacity (observed_partitions (mre_topics response)) (pll_max_partitions limits))
      else Inr ())"

fun check_indices :: "usize \<Rightarrow> partition_id list \<Rightarrow> metadata_build_error + unit" where
  "check_indices expected [] = Inr ()"
| "check_indices expected (actual # rest) =
     (if actual < 0 then Inl (MbPartitionIndexOverflow actual)
      else if nat actual \<noteq> expected then Inl (MbTopicPartitionMissing expected actual)
      else check_indices (expected + 1) rest)"

definition validate_logical_range :: "metadata_response_topic \<Rightarrow> metadata_build_error + unit" where
  "validate_logical_range topic =
     (if mrt_partitions topic = [] then Inl MbTopicPartitionsEmpty
      else case collect_results (map (\<lambda>p. partition_id_new (mrp_partition_index p)) (mrt_partitions topic)) of
        Inl e \<Rightarrow> Inl (MbPartitionId e)
      | Inr partitions \<Rightarrow>
          (let partitions = sort partitions in
           case find_adjacent (=) partitions of
             Some duplicate \<Rightarrow> Inl (MbDuplicateTopicPartition duplicate)
           | None \<Rightarrow> check_indices 0 partitions))"

definition response_leader ::
    "topic_name \<Rightarrow> metadata_response_partition \<Rightarrow> metadata_revision \<Rightarrow> evidence_stamp \<Rightarrow>
     metadata_build_error + partition_leader option" where
  "response_leader topic p revision evidence =
     (case partition_id_new (mrp_partition_index p) of
        Inl e \<Rightarrow> Inl (MbPartitionId e)
      | Inr partition_id \<Rightarrow>
          (case (if mrp_leader_epoch p = -1 then Inr None
                 else case leader_epoch_new (mrp_leader_epoch p) of
                   Inl e \<Rightarrow> Inl (MbLeaderEpoch partition_id e)
                 | Inr leader_epoch \<Rightarrow> Inr (Some leader_epoch)) of
             Inl e \<Rightarrow> Inl e
           | Inr leader_epoch \<Rightarrow>
               (if mrp_leader_id p = -1 then Inr None
                else case broker_id_new (mrp_leader_id p) of
                  Inl e \<Rightarrow> Inl (MbLeaderId partition_id e)
                | Inr broker_id \<Rightarrow>
                    Inr (Some \<lparr>pl_topic = topic, pl_partition = partition_id, pl_broker_id = broker_id,
                               pl_leader_epoch = leader_epoch, pl_revision = revision,
                               pl_evidence = evidence\<rparr>))))"

definition topic_leaders ::
    "metadata_response_topic \<Rightarrow> topic_name \<Rightarrow> metadata_revision \<Rightarrow> evidence_stamp \<Rightarrow>
     metadata_build_error + partition_leader list" where
  "topic_leaders topic name revision evidence =
     (case collect_results (map (\<lambda>p. response_leader name p revision evidence)
             (filter (\<lambda>p. mrp_error_code p = 0) (mrt_partitions topic))) of
        Inl e \<Rightarrow> Inl e
      | Inr leaders \<Rightarrow> Inr (List.map_filter id leaders))"

definition topic_facts ::
    "metadata_response_topic \<Rightarrow> topic_name \<Rightarrow> metadata_revision \<Rightarrow> evidence_stamp \<Rightarrow>
     metadata_build_error + partition_leader list \<times> topic_partition_count option" where
  "topic_facts topic name revision evidence =
     (if mrt_error_code topic \<noteq> 0 then Inr ([], None)
      else case validate_logical_range topic of
        Inl e \<Rightarrow> Inl e
      | Inr _ \<Rightarrow>
          (if 2 ^ 32 \<le> int (length (mrt_partitions topic)) \<or> mrt_partitions topic = []
             then Inl MbTopicPartitionsEmpty
           else let partitions = of_nat (length (mrt_partitions topic));
                    topic_count =
                      (case kafka_topic_id_from_bytes (mrt_topic_id topic) of
                         Some topic_id \<Rightarrow> topic_partition_count_new_with_id name topic_id partitions
                       | None \<Rightarrow> topic_partition_count_new name partitions);
                    topic_count = topic_count_with_evidence topic_count evidence
                in case topic_leaders topic (tpc_topic topic_count) revision evidence of
                     Inl e \<Rightarrow> Inl e
                   | Inr leaders \<Rightarrow> Inr (leaders, Some topic_count)))"

definition partition_facts_for_topic ::
    "metadata_response \<Rightarrow> topic_name \<Rightarrow> metadata_revision \<Rightarrow> evidence_stamp \<Rightarrow> partition_leader_limits \<Rightarrow>
     metadata_build_error + partition_leader_set \<times> topic_partition_count option" where
  "partition_facts_for_topic response expected revision evidence limits =
     (case enforce_input_bounds response limits of
        Inl e \<Rightarrow> Inl e
      | Inr _ \<Rightarrow>
          (case mre_topics response of
             [topic] \<Rightarrow>
               (case mrt_name topic of
                  None \<Rightarrow> Inl MbTopicNameMissing
                | Some raw \<Rightarrow>
                    (case topic_name_new raw of
                       Inl e \<Rightarrow> Inl (MbTopicName e)
                     | Inr name \<Rightarrow>
                         (if name \<noteq> expected then Inl MbRequestedTopicMismatch
                          else case topic_facts topic name revision evidence of
                            Inl e \<Rightarrow> Inl e
                          | Inr (leaders, topic_count) \<Rightarrow>
                              map_sum MbPartitionLeaders (\<lambda>leaders. (leaders, topic_count))
                                (leaders_try_from_iter leaders limits))))
           | topics \<Rightarrow> Inl (MbTopicResponseCount (length topics))))"

section \<open>The snapshot\<close>

record metadata_response_provenance =
  mpr_generation :: metadata_generation
  mpr_evidence :: evidence_stamp
  mpr_operation_id :: operation_id
  mpr_query :: metadata_query

definition current_leaders :: "metadata_snapshot option \<Rightarrow> partition_leader list" where
  "current_leaders current = (case current of None \<Rightarrow> [] | Some s \<Rightarrow> pls_entries (ms_leaders s))"

definition current_counts :: "metadata_snapshot option \<Rightarrow> topic_partition_count list" where
  "current_counts current = (case current of None \<Rightarrow> [] | Some s \<Rightarrow> tpcs_entries (ms_topic_counts s))"

definition answered_facts ::
    "metadata_response \<Rightarrow> metadata_response_provenance \<Rightarrow> metadata_snapshot option \<Rightarrow> broker_directory \<Rightarrow>
     partition_leader_limits \<Rightarrow> metadata_build_error + partition_leader_set \<times> topic_partition_count_set" where
  "answered_facts response provenance current brokers limits =
     (case mpr_query provenance of
        QueryCluster \<Rightarrow>
          map_sum MbTopicCounts (\<lambda>counts. (leaders_empty, counts))
            (topic_counts_try_from_iter (current_counts current) (pll_max_topics limits))
      | QueryTopic topic \<Rightarrow>
          (case partition_facts_for_topic response topic (mpr_operation_id provenance)
                  (mpr_evidence provenance) limits of
             Inl e \<Rightarrow> Inl e
           | Inr (refreshed, topic_count) \<Rightarrow>
               (case leaders_try_from_iter
                       (filter (\<lambda>l. route_to brokers (pl_broker_id l) \<noteq> None)
                          (filter (\<lambda>l. pl_topic l \<noteq> topic) (current_leaders current)) @
                        pls_entries refreshed) limits of
                  Inl e \<Rightarrow> Inl (MbPartitionLeaders e)
                | Inr leaders \<Rightarrow>
                    map_sum MbTopicCounts (\<lambda>counts. (leaders, counts))
                      (topic_counts_try_from_iter
                        (filter (\<lambda>c. tpc_topic c \<noteq> topic) (current_counts current) @
                         (case topic_count of None \<Rightarrow> [] | Some c \<Rightarrow> [c])) (pll_max_topics limits)))))"

definition snapshot_from_response ::
    "metadata_response \<Rightarrow> metadata_response_provenance \<Rightarrow> metadata_snapshot option \<Rightarrow>
     broker_directory_limits \<Rightarrow> partition_leader_limits \<Rightarrow> metadata_build_error + metadata_snapshot" where
  "snapshot_from_response response provenance current broker_limits partition_limits =
     (if mre_error_code response \<noteq> 0 then Inl (MbResponse (mre_error_code response))
      else case broker_directory_from_response response (mpr_generation provenance)
                  (mpr_evidence provenance) broker_limits of
        Inl e \<Rightarrow> Inl e
      | Inr brokers \<Rightarrow>
          (case controller_id (mre_controller_id response) of
             Inl e \<Rightarrow> Inl e
           | Inr controller \<Rightarrow>
               (case answered_facts response provenance current brokers partition_limits of
                  Inl e \<Rightarrow> Inl e
                | Inr (leaders, topic_counts) \<Rightarrow>
                    map_sum MbSnapshot id
                      (snapshot_try_with_topic_counts brokers controller leaders topic_counts))))"

section \<open>What a valid topic looks like\<close>

lemma check_indices_ok: "check_indices n ps = Inr () \<longleftrightarrow> ps = map int [n..<n + length ps]"
proof (induction n ps rule: check_indices.induct)
  case (2 expected actual rest)
  let ?rest = "map int [expected + 1..<expected + 1 + length rest]"
  have "map int [expected..<expected + length (actual # rest)] = int expected # ?rest"
    by (subst upt_conv_Cons) simp_all
  then have range: "(actual # rest = map int [expected..<expected + length (actual # rest)]) =
      (actual = int expected \<and> rest = ?rest)"
    by (simp only: list.inject)
  show ?case
  proof (cases "actual = int expected")
    case True
    then have "check_indices (expected + 1) rest = Inr () \<longleftrightarrow> rest = ?rest" by (intro 2) simp_all
    then show ?thesis unfolding range using True by simp
  next
    case False
    then have "check_indices expected (actual # rest) \<noteq> Inr ()" by auto
    then show ?thesis unfolding range using False by blast
  qed
qed simp

lemma sorted_map_int_upt: "sorted (map int [a..<b])"
  by (simp add: sorted_map)

lemma distinct_map_int_upt: "distinct (map int [a..<b])"
  by (simp add: distinct_map)

lemma partition_ids_ok:
  "collect_results (map (\<lambda>p. partition_id_new (mrp_partition_index p)) ps) = Inr xs \<longleftrightarrow>
     xs = map mrp_partition_index ps \<and> list_all (\<lambda>i. 0 \<le> i) (map mrp_partition_index ps)"
  unfolding collect_results_Inr
  by (induction ps arbitrary: xs) (auto simp: partition_id_new_def Cons_eq_map_conv)

lemma sort_is_range:
  "check_indices 0 (sort xs) = Inr () \<longleftrightarrow> mset xs = mset (map int [0..<length xs])"
proof -
  let ?range = "map int [0..<length xs]"
  have "check_indices 0 (sort xs) = Inr () \<longleftrightarrow> sort xs = ?range"
    by (simp only: check_indices_ok length_sort add_0)
  also have "\<dots> \<longleftrightarrow> mset xs = mset ?range"
  proof
    assume "sort xs = ?range"
    then show "mset xs = mset ?range" by (metis mset_sort)
  qed (rule properties_for_sort [OF _ sorted_map_int_upt], simp)
  finally show ?thesis .
qed

lemma range_distinct:
  assumes "mset xs = mset (map int [0..<n])"
  shows "find_adjacent (=) (sort xs) = None" "list_all (\<lambda>i. 0 \<le> i) xs"
proof -
  have "distinct xs" using assms distinct_map_int_upt mset_eq_imp_distinct_iff by metis
  then show "find_adjacent (=) (sort xs) = None" using sort_key_no_duplicate [of "\<lambda>x. x" xs] by simp
  have "set xs = set (map int [0..<n])" using assms by (rule mset_eq_setD)
  then show "list_all (\<lambda>i. 0 \<le> i) xs" by (auto simp: list_all_iff)
qed

lemma validate_logical_range_ok:
  "validate_logical_range topic = Inr () \<longleftrightarrow>
     mrt_partitions topic \<noteq> [] \<and>
     mset (map mrp_partition_index (mrt_partitions topic)) = mset (map int [0..<length (mrt_partitions topic)])"
  (is "_ \<longleftrightarrow> ?ps \<noteq> [] \<and> mset ?is = mset ?range")
proof -
  have range: "check_indices 0 (sort ?is) = Inr () \<longleftrightarrow> mset ?is = mset ?range"
    using sort_is_range [of ?is] by simp
  show ?thesis
  proof (cases "mset ?is = mset ?range")
    case True
    have "collect_results (map (\<lambda>p. partition_id_new (mrp_partition_index p)) ?ps) = Inr ?is"
      using range_distinct(2) [OF True] by (simp add: partition_ids_ok)
    then show ?thesis using True range range_distinct(1) [OF True] by (simp add: validate_logical_range_def)
  next
    case False
    then show ?thesis
      using range
      by (auto simp: validate_logical_range_def Let_def partition_ids_ok split: sum.splits option.splits)
  qed
qed

section \<open>What an answer says\<close>

text \<open>
  The specification: for the topic that was asked, a partition is led by the broker its entry of the
  response names, when neither the topic nor the entry carries an error and there is a leader; any
  other partition keeps its leader while that broker is still advertised. A cluster answer forgets
  the leaders and keeps the facts about topics.
\<close>

definition entry_leader ::
    "topic_name \<Rightarrow> metadata_revision \<Rightarrow> evidence_stamp \<Rightarrow> metadata_response_partition \<Rightarrow> partition_leader" where
  "entry_leader topic revision evidence p =
     \<lparr>pl_topic = topic, pl_partition = mrp_partition_index p, pl_broker_id = mrp_leader_id p,
      pl_leader_epoch = (if mrp_leader_epoch p = -1 then None else Some (mrp_leader_epoch p)),
      pl_revision = revision, pl_evidence = evidence\<rparr>"

lemma entry_leader_key [simp]:
  "pl_topic (entry_leader topic revision evidence p) = topic"
  "pl_partition (entry_leader topic revision evidence p) = mrp_partition_index p"
  by (simp_all add: entry_leader_def)

definition advertised_leader ::
    "metadata_response \<Rightarrow> topic_name \<Rightarrow> metadata_revision \<Rightarrow> evidence_stamp \<Rightarrow> partition_id \<Rightarrow>
     partition_leader option" where
  "advertised_leader response topic revision evidence part =
     (case mre_topics response of
        [advertised] \<Rightarrow>
          (if mrt_error_code advertised \<noteq> 0 then None
           else case List.find (\<lambda>p. mrp_partition_index p = part) (mrt_partitions advertised) of
             None \<Rightarrow> None
           | Some p \<Rightarrow>
               (if mrp_error_code p \<noteq> 0 \<or> mrp_leader_id p = -1 then None
                else Some (entry_leader topic revision evidence p)))
      | _ \<Rightarrow> None)"

definition advertised_count ::
    "metadata_response \<Rightarrow> topic_name \<Rightarrow> evidence_stamp \<Rightarrow> topic_partition_count option" where
  "advertised_count response topic evidence =
     (case mre_topics response of
        [advertised] \<Rightarrow>
          (if mrt_error_code advertised \<noteq> 0 then None
           else Some \<lparr>tpc_topic = topic, tpc_topic_id = kafka_topic_id_from_bytes (mrt_topic_id advertised),
                      tpc_count = of_nat (length (mrt_partitions advertised)), tpc_evidence = evidence\<rparr>)
      | _ \<Rightarrow> None)"

definition known_leader ::
    "metadata_snapshot option \<Rightarrow> broker_directory \<Rightarrow> topic_name \<Rightarrow> partition_id \<Rightarrow> partition_leader option" where
  "known_leader current brokers topic part =
     (case current of
        None \<Rightarrow> None
      | Some s \<Rightarrow>
          (case leaders_find (ms_leaders s) topic part of
             None \<Rightarrow> None
           | Some l \<Rightarrow> (if route_to brokers (pl_broker_id l) = None then None else Some l)))"

definition known_count :: "metadata_snapshot option \<Rightarrow> topic_name \<Rightarrow> topic_partition_count option" where
  "known_count current topic = Option.bind current (\<lambda>s. topic_counts_find (ms_topic_counts s) topic)"

lemma response_leader_Inr:
  assumes "response_leader topic p revision evidence = Inr r"
  shows "r = (if mrp_leader_id p = -1 then None else Some (entry_leader topic revision evidence p))"
  using assms
  by (auto simp: response_leader_def entry_leader_def partition_id_new_def leader_epoch_new_def
      broker_id_new_def split: if_splits sum.splits)

lemma response_leaders_found:
  "map (\<lambda>p. response_leader topic p revision evidence) ps = map Inr found \<Longrightarrow>
   List.map_filter id found =
     map (entry_leader topic revision evidence) (filter (\<lambda>p. mrp_leader_id p \<noteq> -1) ps)"
proof (induction ps arbitrary: found)
  case (Cons p ps)
  then obtain r rest where found: "found = r # rest" "response_leader topic p revision evidence = Inr r"
    "map (\<lambda>p. response_leader topic p revision evidence) ps = map Inr rest"
    by (cases found) auto
  show ?case
    using response_leader_Inr [OF found(2)] Cons.IH [OF found(3)]
    by (simp add: found(1) List.map_filter_simps)
qed (simp add: List.map_filter_simps)

lemma topic_leaders_Inr:
  assumes "topic_leaders topic name revision evidence = Inr leaders"
  shows "leaders = map (entry_leader name revision evidence)
    (filter (\<lambda>p. mrp_leader_id p \<noteq> -1) (filter (\<lambda>p. mrp_error_code p = 0) (mrt_partitions topic)))"
  using assms response_leaders_found [of name revision evidence]
  by (auto simp: topic_leaders_def collect_results_Inr split: sum.splits)

text \<open>The facts of a valid topic, whose partition indices are distinct.\<close>

lemma topic_facts_Inr:
  assumes "topic_facts topic name revision evidence = Inr (leaders, topic_count)" "mrt_error_code topic = 0"
  shows "distinct (map mrp_partition_index (mrt_partitions topic))"
    "leaders = map (entry_leader name revision evidence)
      (filter (\<lambda>p. mrp_leader_id p \<noteq> -1) (filter (\<lambda>p. mrp_error_code p = 0) (mrt_partitions topic)))"
    "topic_count = Some \<lparr>tpc_topic = name, tpc_topic_id = kafka_topic_id_from_bytes (mrt_topic_id topic),
      tpc_count = of_nat (length (mrt_partitions topic)), tpc_evidence = evidence\<rparr>"
proof -
  have v: "validate_logical_range topic = Inr ()"
    and l: "topic_leaders topic name revision evidence = Inr leaders"
    and c: "topic_count = Some \<lparr>tpc_topic = name, tpc_topic_id = kafka_topic_id_from_bytes (mrt_topic_id topic),
      tpc_count = of_nat (length (mrt_partitions topic)), tpc_evidence = evidence\<rparr>"
    using assms
    by (auto simp: topic_facts_def Let_def topic_count_with_evidence_def topic_partition_count_new_def
        topic_partition_count_new_with_id_def split: sum.splits if_splits option.splits)
  show "distinct (map mrp_partition_index (mrt_partitions topic))"
    using v distinct_map_int_upt mset_eq_imp_distinct_iff unfolding validate_logical_range_ok by metis
  show "leaders = map (entry_leader name revision evidence)
      (filter (\<lambda>p. mrp_leader_id p \<noteq> -1) (filter (\<lambda>p. mrp_error_code p = 0) (mrt_partitions topic)))"
    by (rule topic_leaders_Inr [OF l])
  show "topic_count = Some \<lparr>tpc_topic = name, tpc_topic_id = kafka_topic_id_from_bytes (mrt_topic_id topic),
      tpc_count = of_nat (length (mrt_partitions topic)), tpc_evidence = evidence\<rparr>"
    by (fact c)
qed

lemma topic_facts_leader:
  assumes "topic_facts topic name revision evidence = Inr (leaders, topic_count)" "mre_topics response = [topic]"
  shows "l \<in> set leaders \<and> pl_topic l = name \<and> pl_partition l = part \<longleftrightarrow>
      advertised_leader response name revision evidence part = Some l"
    and "topic_count = advertised_count response name evidence"
proof -
  show "l \<in> set leaders \<and> pl_topic l = name \<and> pl_partition l = part \<longleftrightarrow>
      advertised_leader response name revision evidence part = Some l"
  proof (cases "mrt_error_code topic = 0")
    case True
    note facts = topic_facts_Inr [OF assms(1) True]
    have "advertised_leader response name revision evidence part = Some l \<longleftrightarrow>
        (\<exists>p. List.find (\<lambda>p. mrp_partition_index p = part) (mrt_partitions topic) = Some p \<and>
           mrp_error_code p = 0 \<and> mrp_leader_id p \<noteq> -1 \<and> l = entry_leader name revision evidence p)"
      using True by (auto simp: advertised_leader_def assms(2) split: option.split)
    then show ?thesis using facts(1) by (auto simp: facts(2) distinct_map find_key_Some)
  qed (use assms in \<open>simp add: topic_facts_def advertised_leader_def\<close>)
  show "topic_count = advertised_count response name evidence"
    using assms topic_facts_Inr(3) [OF assms(1)]
    by (cases "mrt_error_code topic = 0") (simp_all add: topic_facts_def advertised_count_def)
qed

lemma partition_facts_Inr:
  assumes "partition_facts_for_topic response topic revision evidence limits = Inr (leaders, topic_count)"
  shows "l \<in> set (pls_entries leaders) \<longleftrightarrow>
      advertised_leader response topic revision evidence (pl_partition l) = Some l"
    and "topic_count = advertised_count response topic evidence"
proof -
  obtain advertised entries where a: "mre_topics response = [advertised]"
    "topic_facts advertised topic revision evidence = Inr (entries, topic_count)"
    "leaders_try_from_iter entries limits = Inr leaders"
    using assms
    by (auto simp: partition_facts_for_topic_def map_sum_Inr_iff
        split: sum.splits list.splits option.splits if_splits)
  have named: "pl_topic l = topic" if "advertised_leader response topic revision evidence part = Some l" for part l
    using that by (auto simp: advertised_leader_def split: list.splits option.splits if_splits)
  have "pl_topic l = topic" if "l \<in> set entries"
    using that a(2) topic_facts_Inr(2) [OF a(2)]
    by (cases "mrt_error_code advertised = 0") (auto simp: topic_facts_def)
  then show "l \<in> set (pls_entries leaders) \<longleftrightarrow>
      advertised_leader response topic revision evidence (pl_partition l) = Some l"
    using topic_facts_leader(1) [OF a(2,1), of l "pl_partition l"] named leaders_try_from_iter_Inr(2) [OF a(3)]
    by blast
  show "topic_count = advertised_count response topic evidence"
    by (rule topic_facts_leader(2) [OF a(2,1)])
qed

lemma advertised_key:
  "advertised_leader response topic revision evidence part = Some l \<Longrightarrow> pl_topic l = topic \<and> pl_partition l = part"
  by (auto simp: advertised_leader_def find_Some_iff split: list.splits option.splits if_splits)

lemma advertised_count_topic:
  "advertised_count response topic evidence = Some c \<Longrightarrow> tpc_topic c = topic"
  by (auto simp: advertised_count_def split: list.splits if_splits)

lemma topic_counts_found:
  assumes "topic_counts_try_from_iter source limit = Inr s"
  shows "topic_counts_find s topic = Some c \<longleftrightarrow> c \<in> set source \<and> tpc_topic c = topic"
proof -
  have "set (tpcs_entries s) = set source"
    using assms by (auto simp: topic_counts_try_from_iter_def collect_bounded_eq Let_def split: if_splits)
  then show ?thesis
    using topic_count_table.lookup_Some [OF topic_counts_try_from_iter_wf [OF assms]] by simp
qed

definition current_ok :: "metadata_snapshot option \<Rightarrow> bool" where
  "current_ok current \<longleftrightarrow> (case current of None \<Rightarrow> True | Some s \<Rightarrow> snapshot_wf s)"

lemma current_leader:
  assumes "current_ok current"
  shows "l \<in> set (current_leaders current) \<and> pl_topic l = topic \<and> pl_partition l = part \<and>
     route_to brokers (pl_broker_id l) \<noteq> None \<longleftrightarrow>
   known_leader current brokers topic part = Some l"
proof (cases current)
  case (Some s)
  then have "leaders_wf (ms_leaders s)" using assms by (simp add: current_ok_def snapshot_wf_def)
  note found = leaders_find_Some [OF this, of topic part l]
  have "known_leader current brokers topic part = Some l \<longleftrightarrow>
      leaders_find (ms_leaders s) topic part = Some l \<and> route_to brokers (pl_broker_id l) \<noteq> None"
    by (auto simp: known_leader_def Some split: option.splits)
  then show ?thesis unfolding found by (auto simp: current_leaders_def Some)
qed (simp add: current_leaders_def known_leader_def)

lemma current_count:
  assumes "current_ok current"
  shows "c \<in> set (current_counts current) \<and> tpc_topic c = topic \<longleftrightarrow> known_count current topic = Some c"
proof (cases current)
  case (Some s)
  then have "topic_counts_wf (ms_topic_counts s)" using assms by (simp add: current_ok_def snapshot_wf_def)
  from topic_count_table.lookup_Some [OF this, of topic c] show ?thesis
    by (simp add: current_counts_def known_count_def Some)
qed (simp add: current_counts_def known_count_def)

text \<open>What an answer to a query installs.\<close>

fun answer_leader ::
    "metadata_query \<Rightarrow> metadata_response \<Rightarrow> operation_id \<Rightarrow> evidence_stamp \<Rightarrow> metadata_snapshot option \<Rightarrow>
     broker_directory \<Rightarrow> topic_name \<Rightarrow> partition_id \<Rightarrow> partition_leader option" where
  "answer_leader QueryCluster response operation_id evidence current brokers topic part = None"
| "answer_leader (QueryTopic asked) response operation_id evidence current brokers topic part =
     (if topic = asked then advertised_leader response asked operation_id evidence part
      else known_leader current brokers topic part)"

fun answer_count ::
    "metadata_query \<Rightarrow> metadata_response \<Rightarrow> evidence_stamp \<Rightarrow> metadata_snapshot option \<Rightarrow> topic_name \<Rightarrow>
     topic_partition_count option" where
  "answer_count QueryCluster response evidence current topic = known_count current topic"
| "answer_count (QueryTopic asked) response evidence current topic =
     (if topic = asked then advertised_count response asked evidence else known_count current topic)"

text \<open>One topic answered: its own leaders are replaced, those of the others are filtered.\<close>

lemma topic_answer_leaders:
  assumes "partition_facts_for_topic response asked revision evidence limits = Inr (refreshed, topic_count)"
    and "leaders_try_from_iter
         (filter (\<lambda>l. route_to brokers (pl_broker_id l) \<noteq> None)
            (filter (\<lambda>l. pl_topic l \<noteq> asked) (current_leaders current)) @ pls_entries refreshed) limits = Inr leaders"
    and "current_ok current"
  shows "leaders_find leaders topic part =
    answer_leader (QueryTopic asked) response revision evidence current brokers topic part"
proof (rule option_eqI)
  fix l
  note wf = leaders_try_from_iter_Inr [OF assms(2)]
  note refreshed = partition_facts_Inr(1) [OF assms(1), of l]
  have "leaders_find leaders topic part = Some l \<longleftrightarrow>
      l \<in> set (pls_entries leaders) \<and> pl_topic l = topic \<and> pl_partition l = part"
    by (rule leaders_find_Some [OF wf(1)])
  also have "\<dots> \<longleftrightarrow>
      answer_leader (QueryTopic asked) response revision evidence current brokers topic part = Some l"
  proof (cases "topic = asked")
    case True
    have "l \<in> set (pls_entries leaders) \<and> pl_topic l = topic \<and> pl_partition l = part \<longleftrightarrow>
        l \<in> set (pls_entries refreshed) \<and> pl_topic l = topic \<and> pl_partition l = part"
      using True by (auto simp: wf(2))
    also have "\<dots> \<longleftrightarrow> advertised_leader response asked revision evidence part = Some l"
      using refreshed advertised_key [of response asked revision evidence part l] True by blast
    finally show ?thesis using True by simp
  next
    case False
    have "l \<notin> set (pls_entries refreshed)" if "pl_topic l = topic"
      using that refreshed False advertised_key [of response asked revision evidence "pl_partition l" l] by blast
    then have "l \<in> set (pls_entries leaders) \<and> pl_topic l = topic \<and> pl_partition l = part \<longleftrightarrow>
        l \<in> set (current_leaders current) \<and> pl_topic l = topic \<and> pl_partition l = part \<and>
        route_to brokers (pl_broker_id l) \<noteq> None"
      using False by (auto simp: wf(2))
    also have "\<dots> \<longleftrightarrow> known_leader current brokers topic part = Some l"
      by (rule current_leader [OF assms(3)])
    finally show ?thesis using False by simp
  qed
  finally show "leaders_find leaders topic part = Some l \<longleftrightarrow>
      answer_leader (QueryTopic asked) response revision evidence current brokers topic part = Some l" .
qed

lemma topic_answer_counts:
  assumes "topic_counts_try_from_iter
         (filter (\<lambda>c. tpc_topic c \<noteq> asked) (current_counts current) @
          (case advertised_count response asked evidence of None \<Rightarrow> [] | Some c \<Rightarrow> [c])) limit = Inr counts"
    and "current_ok current"
  shows "topic_counts_find counts topic = answer_count (QueryTopic asked) response evidence current topic"
proof (rule option_eqI)
  fix c
  show "topic_counts_find counts topic = Some c \<longleftrightarrow>
      answer_count (QueryTopic asked) response evidence current topic = Some c"
    using topic_counts_found [OF assms(1), of topic c] current_count [OF assms(2), of c topic]
      advertised_count_topic [of response asked evidence]
    by (cases "advertised_count response asked evidence"; cases "topic = asked") auto
qed

lemma answered_facts_Inr:
  assumes "answered_facts response provenance current brokers limits = Inr (leaders, counts)"
    and "current_ok current"
  shows "leaders_wf leaders \<and> topic_counts_wf counts \<and>
    leaders_find leaders topic part = answer_leader (mpr_query provenance) response
       (mpr_operation_id provenance) (mpr_evidence provenance) current brokers topic part \<and>
    topic_counts_find counts topic = answer_count (mpr_query provenance) response
       (mpr_evidence provenance) current topic"
proof (cases "mpr_query provenance")
  case QueryCluster
  then have c: "topic_counts_try_from_iter (current_counts current) (pll_max_topics limits) = Inr counts"
    "leaders = leaders_empty"
    using assms(1) by (auto simp: answered_facts_def map_sum_Inr_iff)
  have "topic_counts_find counts topic = known_count current topic"
    using topic_counts_found [OF c(1)] current_count [OF assms(2)] by (intro option_eqI) simp
  then show ?thesis
    using QueryCluster c(2) topic_counts_try_from_iter_wf [OF c(1)]
    by (simp add: leaders_find_def table_find_eq leaders_empty_def leaders_wf_def)
next
  case (QueryTopic asked)
  then obtain refreshed topic_count where f:
    "partition_facts_for_topic response asked (mpr_operation_id provenance) (mpr_evidence provenance) limits =
       Inr (refreshed, topic_count)"
    "leaders_try_from_iter
       (filter (\<lambda>l. route_to brokers (pl_broker_id l) \<noteq> None)
          (filter (\<lambda>l. pl_topic l \<noteq> asked) (current_leaders current)) @ pls_entries refreshed) limits = Inr leaders"
    "topic_counts_try_from_iter
       (filter (\<lambda>c. tpc_topic c \<noteq> asked) (current_counts current) @
        (case topic_count of None \<Rightarrow> [] | Some c \<Rightarrow> [c])) (pll_max_topics limits) = Inr counts"
    using assms(1)
    by (cases "partition_facts_for_topic response asked (mpr_operation_id provenance) (mpr_evidence provenance) limits")
       (auto simp: answered_facts_def map_sum_Inr_iff split: sum.splits)
  show ?thesis
    unfolding QueryTopic
    using leaders_try_from_iter_Inr(1) [OF f(2)] topic_counts_try_from_iter_wf [OF f(3)]
      topic_answer_leaders [OF f(1,2) assms(2)]
      topic_answer_counts [OF f(3) [unfolded partition_facts_Inr(2) [OF f(1)]] assms(2)]
    by blast
qed

lemma snapshot_try_fields:
  "snapshot_try_with_topic_counts brokers controller leaders counts = Inr s \<Longrightarrow>
   ms_brokers s = brokers \<and> ms_leaders s = leaders \<and> ms_topic_counts s = counts \<and>
   map_option br_broker_id (ms_controller s) = controller"
  by (auto simp: snapshot_try_with_topic_counts_def dest: route_to_broker split: option.splits)

lemma snapshot_from_response_Inr:
  assumes "snapshot_from_response response provenance current broker_limits limits = Inr s"
    and "current_ok current"
  shows "snapshot_wf s" "snapshot_generation s = mpr_generation provenance"
    "bd_evidence (ms_brokers s) = mpr_evidence provenance"
    "map_option br_broker_id (ms_controller s) =
       (if mre_controller_id response = -1 then None else Some (mre_controller_id response))"
    "leaders_find (ms_leaders s) topic part = answer_leader (mpr_query provenance) response
       (mpr_operation_id provenance) (mpr_evidence provenance) current (ms_brokers s) topic part"
    "topic_counts_find (ms_topic_counts s) topic = answer_count (mpr_query provenance) response
       (mpr_evidence provenance) current topic"
proof -
  obtain brokers entries controller leaders counts where r:
    "directory_with_evidence (mpr_generation provenance) (mpr_evidence provenance) entries broker_limits = Inr brokers"
    "controller_id (mre_controller_id response) = Inr controller"
    "answered_facts response provenance current brokers limits = Inr (leaders, counts)"
    "snapshot_try_with_topic_counts brokers controller leaders counts = Inr s"
    using assms(1)
    by (auto simp: snapshot_from_response_def broker_directory_from_response_def map_sum_Inr_iff
        split: sum.splits if_splits)
  note facts = answered_facts_Inr [OF r(3) assms(2), of topic part]
  note dir = directory_with_evidence_Inr [OF r(1)]
  note fields = snapshot_try_fields [OF r(4)]
  show "snapshot_wf s" using snapshot_try_wf(1) [OF r(4) dir(1)] facts by blast
  show "snapshot_generation s = mpr_generation provenance"
    "bd_evidence (ms_brokers s) = mpr_evidence provenance"
    using fields dir(3,4) by (simp_all add: snapshot_generation_def)
  show "map_option br_broker_id (ms_controller s) =
      (if mre_controller_id response = -1 then None else Some (mre_controller_id response))"
    using fields r(2) by (auto simp: controller_id_def broker_id_new_def split: if_splits)
  show "leaders_find (ms_leaders s) topic part = answer_leader (mpr_query provenance) response
       (mpr_operation_id provenance) (mpr_evidence provenance) current (ms_brokers s) topic part"
    "topic_counts_find (ms_topic_counts s) topic = answer_count (mpr_query provenance) response
       (mpr_evidence provenance) current topic"
    using fields facts by simp_all
qed

section \<open>Properties\<close>

text \<open>
  The partitions of a successful topic are accepted exactly when their indices are the numbers
  from zero up to their count, in any order.
\<close>

theorem logical_range_exact:
  "validate_logical_range topic = Inr () \<longleftrightarrow>
     mrt_partitions topic \<noteq> [] \<and>
     mset (map mrp_partition_index (mrt_partitions topic)) = mset (map int [0..<length (mrt_partitions topic)])"
  by (rule validate_logical_range_ok)

text \<open>
  C24. What an accepted metadata answer installs. The snapshot is well formed, carries the generation and
  the evidence of the request and the advertised controller; for the topic that was asked it holds
  exactly the leaders and the count the response advertises, for every other topic what was known,
  less the leaders on brokers that are gone, and a cluster answer keeps the counts and no leader.
\<close>

theorem metadata_answer_exact:
  assumes "snapshot_from_response response provenance current broker_limits limits = Inr s"
    and "\<And>c. current = Some c \<Longrightarrow> snapshot_wf c"
  shows "snapshot_wf s \<and> snapshot_generation s = mpr_generation provenance \<and>
    bd_evidence (ms_brokers s) = mpr_evidence provenance \<and>
    map_option br_broker_id (ms_controller s) =
      (if mre_controller_id response = -1 then None else Some (mre_controller_id response)) \<and>
    leaders_find (ms_leaders s) topic part = answer_leader (mpr_query provenance) response
      (mpr_operation_id provenance) (mpr_evidence provenance) current (ms_brokers s) topic part \<and>
    topic_counts_find (ms_topic_counts s) topic = answer_count (mpr_query provenance) response
      (mpr_evidence provenance) current topic"
proof -
  have "current_ok current" using assms(2) by (simp add: current_ok_def split: option.split)
  from snapshot_from_response_Inr [OF assms(1) this] show ?thesis by blast
qed

definition sample_response :: metadata_response where
  "sample_response =
     \<lparr>mre_error_code = 0,
      mre_brokers = [\<lparr>mrb_node_id = 7, mrb_host = ''b7'', mrb_port = 9092\<rparr>],
      mre_controller_id = 7,
      mre_topics = [\<lparr>mrt_error_code = 0, mrt_name = Some ''clicks'', mrt_topic_id = replicate 16 0,
        mrt_partitions =
          [\<lparr>mrp_error_code = 0, mrp_partition_index = 1, mrp_leader_id = 7, mrp_leader_epoch = 4\<rparr>,
           \<lparr>mrp_error_code = 5, mrp_partition_index = 0, mrp_leader_id = -1, mrp_leader_epoch = -1\<rparr>]\<rparr>]\<rparr>"

definition sample_provenance :: metadata_response_provenance where
  "sample_provenance =
     \<lparr>mpr_generation = 4, mpr_evidence = 9, mpr_operation_id = 12, mpr_query = QueryTopic ''clicks''\<rparr>"

definition sample_answer :: "metadata_build_error + metadata_snapshot" where
  "sample_answer =
     snapshot_from_response sample_response sample_provenance (Some sample_snapshot)
       \<lparr>bdl_max_brokers = 2\<rparr> \<lparr>pll_max_topics = 2, pll_max_partitions = 4\<rparr>"

lemma sample_answer_accepted: "\<not> isl sample_answer"
  by code_simp

lemma sample_snapshot_ok: "snapshot_wf sample_snapshot"
  using snapshot_try_wf(1) [OF sample_snapshot_built(3)] leaders_try_from_iter_Inr(1) [OF sample_snapshot_built(1)]
    directory_with_evidence_Inr(1) [OF sample_directory_built]
  by simp

theorem metadata_answer_exact_witness:
  "\<exists>s. sample_answer = Inr s \<and> snapshot_wf s \<and>
     map_option pl_broker_id (leaders_find (ms_leaders s) ''clicks'' 1) = Some 7 \<and>
     map_option tpc_count (topic_counts_find (ms_topic_counts s) ''clicks'') = Some 2 \<and>
     leaders_find (ms_leaders s) ''clicks'' 0 = None"
proof -
  obtain s where s: "sample_answer = Inr s" using sample_answer_accepted by (cases sample_answer) (auto simp: isl_def)
  note exact = metadata_answer_exact [OF s [unfolded sample_answer_def], simplified, OF sample_snapshot_ok]
  have "map_option pl_broker_id (advertised_leader sample_response ''clicks'' 12 9 1) = Some 7"
    "advertised_leader sample_response ''clicks'' 12 9 0 = None"
    "map_option tpc_count (advertised_count sample_response ''clicks'' 9) = Some 2"
    by code_simp+
  then show ?thesis
    using s exact [of "''clicks''" 1] exact [of "''clicks''" 0]
    by (intro exI [of _ s]) (simp add: sample_provenance_def)
qed

end
