(* ===== verification/Metadata_Waiting.thy ===== *)
theory Metadata_Waiting
  imports Scan_Room Metadata_Response
begin

text \<open>
  What waits at the metadata owner: calls for a partition, calls for the controller or a broker,
  topic views and invalidations (\<open>waiting.rs\<close>, \<open>controller_waiting.rs\<close>, \<open>topic_waiting.rs\<close>,
  \<open>invalidation_wait.rs\<close> and \<open>invalidation_target.rs\<close> under \<open>src/reactor/metadata/\<close>, with the topic
  view of \<open>src/api/topic_view.rs\<close>). A completion is the number of its sender; completing it is
  reported as a notice. The heap size of a topic name and the success of a reservation depend on the
  allocator and are arguments.
\<close>

section \<open>Topic views\<close>

record available_topic_partition =
  atp_partition :: partition_id
  atp_broker_id :: broker_id
  atp_leader_epoch :: "leader_epoch option"

record topic_view =
  tv_topic :: topic_name
  tv_topic_id :: "kafka_topic_id option"
  tv_generation :: metadata_generation
  tv_logical_partition_count :: u32
  tv_available :: "available_topic_partition list"

datatype topic_view_error =
    TvDeadlineExceeded
  | TvUnavailable
  | TvRefreshFailed
  | TvBroker int
  | TvMalformedMetadata
  | TvProjectionAllocationFailed
  | TvQueryCapacityReached usize
  | TvCapacityReached usize usize
  | TvDraining

definition available_partition :: "partition_leader \<Rightarrow> available_topic_partition" where
  "available_partition l =
     \<lparr>atp_partition = pl_partition l, atp_broker_id = pl_broker_id l, atp_leader_epoch = pl_leader_epoch l\<rparr>"

definition topic_view_from_snapshot ::
    "(usize \<Rightarrow> bool) \<Rightarrow> metadata_snapshot \<Rightarrow> topic_name \<Rightarrow> topic_view_error + topic_view option" where
  "topic_view_from_snapshot reserves snapshot topic =
     (case topic_counts_find (ms_topic_counts snapshot) topic of
        None \<Rightarrow> Inr None
      | Some known \<Rightarrow>
          (let leaders = filter (\<lambda>l. pl_topic l = topic) (pls_entries (ms_leaders snapshot)) in
           if \<not> reserves (length leaders) then Inl TvProjectionAllocationFailed
           else if list_ex (\<lambda>l. pl_partition l < 0 \<or> uint (tpc_count known) \<le> pl_partition l) leaders
             then Inl TvMalformedMetadata
           else Inr (Some \<lparr>tv_topic = topic, tv_topic_id = tpc_topic_id known,
                  tv_generation = snapshot_generation snapshot,
                  tv_logical_partition_count = tpc_count known,
                  tv_available = map available_partition leaders\<rparr>)))"

section \<open>Notices\<close>

type_synonym completion_id = nat

datatype invalidation_disposition = InvApplied | InvIgnoredStale | InvCapacityReached | InvUnavailable

datatype ('k, 'v, 'en, 'de) owner_notice =
    NoticeFailed call_id "('k, 'v, 'en, 'de) request_error"
  | NoticeTopicView completion_id "topic_view_error + topic_view"
  | NoticeInvalidation completion_id invalidation_disposition

section \<open>Calls waiting for a partition\<close>

record 'v waiting_partition_call =
  wp_topic :: topic_name
  wp_partition :: partition_id
  wp_request :: "'v erased_request"

definition usize_saturating_add :: "usize \<Rightarrow> usize \<Rightarrow> usize" where
  "usize_saturating_add a b = (case usize_checked_add a b of None \<Rightarrow> 2 ^ 64 - 1 | Some c \<Rightarrow> c)"

text \<open>Admission shared by partition and cluster calls; \<open>item\<close> builds what is stored from the request.\<close>

definition call_admit ::
    "('v erased_request \<Rightarrow> 'a) \<Rightarrow> ('v erased_request \<Rightarrow> usize) \<Rightarrow> 'a scan_room \<Rightarrow> 'v erased_request \<Rightarrow>
     moment \<Rightarrow> ('a scan_room \<times> ('k, 'v, 'en, 'de) owner_notice list \<times> bool) option" where
  "call_admit stored bytes w request now =
     (let (policy, established) = policy_establish_deadline (er_policy request) now;
          request = request\<lparr>er_policy := policy\<rparr>;
          call = er_call_id request
      in case established of
        Inl failure \<Rightarrow> Some (w, [NoticeFailed call failure], False)
      | Inr deadline \<Rightarrow>
          (if deadline \<le> now then Some (w, [NoticeFailed call deadline_exceeded], False)
           else case room_admit w (stored request) (bytes request) deadline of
             None \<Rightarrow> None
           | Some (w', True) \<Rightarrow> Some (w', [], True)
           | Some (w', False) \<Rightarrow>
               Some (w', [NoticeFailed call (ReqRouteCapacityReached (sr_call_limit w) (sr_byte_limit w))], False)))"

definition partition_admit ::
    "(topic_name \<Rightarrow> usize) \<Rightarrow> 'v waiting_partition_call scan_room \<Rightarrow> topic_name \<Rightarrow> partition_id \<Rightarrow>
     'v erased_request \<Rightarrow> moment \<Rightarrow>
     ('v waiting_partition_call scan_room \<times> ('k, 'v, 'en, 'de) owner_notice list \<times> bool) option" where
  "partition_admit heap_bytes w topic part request now =
     call_admit (\<lambda>r. \<lparr>wp_topic = topic, wp_partition = part, wp_request = r\<rparr>)
       (\<lambda>r. usize_saturating_add (er_retained_bytes r) (heap_bytes topic)) w request now"

text \<open>How a scan settles a call: along a route, or with an error.\<close>

type_synonym ('r, 'k, 'v, 'en, 'de) call_outcome = "('k, 'v, 'en, 'de) request_error + 'r"

definition partition_decide ::
    "metadata_machine \<Rightarrow> 'v waiting_partition_call \<Rightarrow>
     (partition_route, 'k, 'v, 'en, 'de) call_outcome option" where
  "partition_decide machine waiting =
     (case Option.bind (metadata_current machine)
             (\<lambda>s. snapshot_partition_route s (wp_topic waiting) (wp_partition waiting)) of
        Some route \<Rightarrow> Some (Inr route)
      | None \<Rightarrow>
          (if \<not> query_pending machine (QueryTopic (wp_topic waiting)) then Some (Inl ReqRouteUnavailable)
           else None))"

fun outcome_notice :: "call_id \<Rightarrow> ('r, 'k, 'v, 'en, 'de) call_outcome \<Rightarrow> ('k, 'v, 'en, 'de) owner_notice list" where
  "outcome_notice call (Inl failure) = [NoticeFailed call failure]"
| "outcome_notice call (Inr route) = []"

fun outcome_routed :: "'a \<Rightarrow> ('r, 'k, 'v, 'en, 'de) call_outcome \<Rightarrow> ('r \<times> 'a) list" where
  "outcome_routed waiting (Inl failure) = []"
| "outcome_routed waiting (Inr route) = [(route, waiting)]"

record ('r, 'a) wait_progress =
  wg_routed :: "('r \<times> 'a) list"
  wg_settled :: usize
  wg_examined :: usize
  wg_more_work :: bool

text \<open>A turn of either call room, from the decision of its file.\<close>

definition call_scan ::
    "bool \<Rightarrow> ('a \<Rightarrow> 'v erased_request) \<Rightarrow> ('a \<Rightarrow> ('r, 'k, 'v, 'en, 'de) call_outcome option) \<Rightarrow> 'a scan_room \<Rightarrow>
     moment \<Rightarrow> usize \<Rightarrow>
     ('a scan_room \<times> ('k, 'v, 'en, 'de) owner_notice list \<times> ('r, 'a) wait_progress) option" where
  "call_scan dbg request_of decide w now budget =
     (case room_scan dbg decide (Inl deadline_exceeded)
             (Inl (ReqRouteCapacityReached (sr_call_limit w) (sr_byte_limit w))) w now budget of
        None \<Rightarrow> None
      | Some (w', due, left, examined) \<Rightarrow>
          (let notices = map (\<lambda>x. NoticeFailed (er_call_id (request_of x)) deadline_exceeded) due @
                 concat (map (\<lambda>(x, outcome). outcome_notice (er_call_id (request_of x)) outcome) left)
           in Some (w', notices,
                \<lparr>wg_routed = concat (map (\<lambda>(x, outcome). outcome_routed x outcome) left),
                 wg_settled = length notices, wg_examined = length due + examined,
                 wg_more_work = room_has_pending_scan w'\<rparr>)))"

definition partition_scan ::
    "bool \<Rightarrow> 'v waiting_partition_call scan_room \<Rightarrow> metadata_machine \<Rightarrow> moment \<Rightarrow> usize \<Rightarrow>
     ('v waiting_partition_call scan_room \<times> ('k, 'v, 'en, 'de) owner_notice list \<times>
      (partition_route, 'v waiting_partition_call) wait_progress) option" where
  "partition_scan dbg w machine now budget =
     call_scan dbg wp_request (partition_decide machine) w now budget"

section \<open>Calls waiting for the controller or a broker\<close>

datatype cluster_route_target = TargetController | TargetBroker broker_id

record 'v waiting_controller_call =
  wcc_target :: cluster_route_target
  wcc_request :: "'v erased_request"

definition cluster_target_resolve :: "cluster_route_target \<Rightarrow> metadata_machine \<Rightarrow> broker_route option" where
  "cluster_target_resolve target machine =
     (case metadata_current machine of
        None \<Rightarrow> None
      | Some snapshot \<Rightarrow>
          (case target of
             TargetController \<Rightarrow> ms_controller snapshot
           | TargetBroker broker_id \<Rightarrow> route_to (ms_brokers snapshot) broker_id))"

definition controller_admit ::
    "'v waiting_controller_call scan_room \<Rightarrow> cluster_route_target \<Rightarrow> 'v erased_request \<Rightarrow> moment \<Rightarrow>
     ('v waiting_controller_call scan_room \<times> ('k, 'v, 'en, 'de) owner_notice list \<times> bool) option" where
  "controller_admit w target request now =
     call_admit (\<lambda>r. \<lparr>wcc_target = target, wcc_request = r\<rparr>) er_retained_bytes w request now"

definition controller_decide ::
    "metadata_machine \<Rightarrow> 'v waiting_controller_call \<Rightarrow>
     (broker_route, 'k, 'v, 'en, 'de) call_outcome option" where
  "controller_decide machine waiting =
     (case cluster_target_resolve (wcc_target waiting) machine of
        Some route \<Rightarrow> Some (Inr route)
      | None \<Rightarrow>
          (if \<not> query_pending machine QueryCluster then Some (Inl ReqRouteUnavailable) else None))"

definition controller_scan ::
    "bool \<Rightarrow> 'v waiting_controller_call scan_room \<Rightarrow> metadata_machine \<Rightarrow> moment \<Rightarrow> usize \<Rightarrow>
     ('v waiting_controller_call scan_room \<times> ('k, 'v, 'en, 'de) owner_notice list \<times>
      (broker_route, 'v waiting_controller_call) wait_progress) option" where
  "controller_scan dbg w machine now budget =
     call_scan dbg wcc_request (controller_decide machine) w now budget"

section \<open>Topic views waiting for metadata\<close>

datatype topic_view_requirement =
    RequireCurrent
  | RequireNewerThan metadata_generation
  | RequireAfterOutcome outcome_stamp

definition requires_refresh :: "topic_view_requirement \<Rightarrow> bool" where
  "requires_refresh r \<longleftrightarrow> r \<noteq> RequireCurrent"

fun satisfied_by :: "topic_view_requirement \<Rightarrow> metadata_snapshot \<Rightarrow> topic_name \<Rightarrow> bool" where
  "satisfied_by RequireCurrent snapshot topic \<longleftrightarrow> True"
| "satisfied_by (RequireNewerThan floor) snapshot topic \<longleftrightarrow> floor < snapshot_generation snapshot"
| "satisfied_by (RequireAfterOutcome outcome) snapshot topic \<longleftrightarrow>
     (case topic_counts_find (ms_topic_counts snapshot) topic of
        None \<Rightarrow> False
      | Some known \<Rightarrow> evidence_is_after (tpc_evidence known) outcome)"

fun accepts_terminal_from :: "topic_view_requirement \<Rightarrow> evidence_stamp \<Rightarrow> bool" where
  "accepts_terminal_from (RequireAfterOutcome outcome) evidence \<longleftrightarrow> evidence_is_after evidence outcome"
| "accepts_terminal_from _ evidence \<longleftrightarrow> True"

record topic_view_wait =
  tvw_topic :: topic_name
  tvw_requirement :: topic_view_requirement
  tvw_deadline :: moment
  tvw_retained_bytes :: usize
  tvw_completion :: completion_id

record waiting_topic_view =
  wtv_topic :: topic_name
  wtv_requirement :: topic_view_requirement
  wtv_completion :: completion_id
  wtv_terminal :: "topic_view_error option"

definition topic_admit ::
    "waiting_topic_view scan_room \<Rightarrow> topic_view_wait \<Rightarrow>
     (waiting_topic_view scan_room \<times> ('k, 'v, 'en, 'de) owner_notice list \<times> bool) option" where
  "topic_admit w waiting =
     (case room_admit w \<lparr>wtv_topic = tvw_topic waiting, wtv_requirement = tvw_requirement waiting,
             wtv_completion = tvw_completion waiting, wtv_terminal = None\<rparr>
             (tvw_retained_bytes waiting) (tvw_deadline waiting) of
        None \<Rightarrow> None
      | Some (w', True) \<Rightarrow> Some (w', [], True)
      | Some (w', False) \<Rightarrow>
          Some (w', [NoticeTopicView (tvw_completion waiting)
                       (Inl (TvCapacityReached (sr_call_limit w) (sr_byte_limit w)))], False))"

definition topic_marked ::
    "topic_name \<Rightarrow> evidence_stamp \<Rightarrow> topic_view_error \<Rightarrow> waiting_topic_view \<Rightarrow> waiting_topic_view" where
  "topic_marked topic evidence terminal waiting =
     (if wtv_topic waiting = topic \<and> accepts_terminal_from (wtv_requirement waiting) evidence \<and>
         wtv_terminal waiting = None
        then waiting\<lparr>wtv_terminal := Some terminal\<rparr>
      else waiting)"

definition room_map :: "('a \<Rightarrow> 'a) \<Rightarrow> 'a scan_room \<Rightarrow> 'a scan_room" where
  "room_map f w =
     w\<lparr>sr_calls := (sr_calls w)\<lparr>wt_entries :=
         map (\<lambda>(k, e). (k, e\<lparr>we_value := (we_value e)\<lparr>ri_item := f (ri_item (we_value e))\<rparr>\<rparr>))
           (wt_entries (sr_calls w))\<rparr>\<rparr>"

definition topic_mark_terminal ::
    "waiting_topic_view scan_room \<Rightarrow> topic_name \<Rightarrow> evidence_stamp \<Rightarrow> topic_view_error \<Rightarrow>
     waiting_topic_view scan_room" where
  "topic_mark_terminal w topic evidence terminal = room_map (topic_marked topic evidence terminal) w"

definition topic_decide ::
    "(usize \<Rightarrow> bool) \<Rightarrow> metadata_machine \<Rightarrow> waiting_topic_view \<Rightarrow> (topic_view_error + topic_view) option" where
  "topic_decide reserves machine waiting =
     (case wtv_terminal waiting of
        Some error \<Rightarrow> Some (Inl error)
      | None \<Rightarrow>
          (let view =
             (case metadata_current machine of
                None \<Rightarrow> Inr None
              | Some snapshot \<Rightarrow>
                  (if satisfied_by (wtv_requirement waiting) snapshot (wtv_topic waiting)
                     then topic_view_from_snapshot reserves snapshot (wtv_topic waiting)
                   else Inr None))
           in case view of
                Inr (Some v) \<Rightarrow> Some (Inr v)
              | Inl error \<Rightarrow> Some (Inl error)
              | Inr None \<Rightarrow>
                  (if \<not> query_pending machine (QueryTopic (wtv_topic waiting)) then Some (Inl TvUnavailable)
                   else None)))"

definition topic_scan ::
    "bool \<Rightarrow> (usize \<Rightarrow> bool) \<Rightarrow> waiting_topic_view scan_room \<Rightarrow> metadata_machine \<Rightarrow> moment \<Rightarrow> usize \<Rightarrow>
     (waiting_topic_view scan_room \<times> ('k, 'v, 'en, 'de) owner_notice list \<times> bool \<times> bool) option" where
  "topic_scan dbg reserves w machine now budget =
     (case room_scan dbg (topic_decide reserves machine) (Inl TvDeadlineExceeded)
             (Inl (TvCapacityReached (sr_call_limit w) (sr_byte_limit w))) w now budget of
        None \<Rightarrow> None
      | Some (w', due, left, examined) \<Rightarrow>
          (let notices = map (\<lambda>x. NoticeTopicView (wtv_completion x) (Inl TvDeadlineExceeded)) due @
                 map (\<lambda>(x, outcome). NoticeTopicView (wtv_completion x) outcome) left
           in Some (w', notices, examined \<noteq> 0 \<or> notices \<noteq> [], room_has_pending_scan w')))"

section \<open>Invalidations waiting for newer evidence\<close>

datatype invalidation_target = InvController broker_route | InvPartition partition_route

fun matches_controller :: "broker_route \<Rightarrow> invalidation_target \<Rightarrow> bool" where
  "matches_controller route (InvController current) \<longleftrightarrow> is_same_broker current route"
| "matches_controller route (InvPartition current) \<longleftrightarrow> False"

fun matches_partition :: "partition_route \<Rightarrow> invalidation_target \<Rightarrow> bool" where
  "matches_partition route (InvController current) \<longleftrightarrow> False"
| "matches_partition route (InvPartition current) \<longleftrightarrow> is_same_assignment current route"

fun target_settled :: "metadata_machine \<Rightarrow> invalidation_target \<Rightarrow> invalidation_disposition option" where
  "target_settled machine (InvController route) =
     (if \<not> controller_pending (mm_revocations machine) route then Some InvApplied
      else if \<not> query_pending machine QueryCluster then Some InvUnavailable else None)"
| "target_settled machine (InvPartition route) =
     (if \<not> partition_pending (mm_revocations machine) route then Some InvApplied
      else if \<not> query_pending machine (QueryTopic (pr_topic route)) then Some InvUnavailable else None)"

record pending_invalidation =
  pi_target :: invalidation_target
  pi_subscribers :: "completion_id list"

record metadata_invalidations =
  mi_pending :: "pending_invalidation list"
  mi_capacity :: usize
  mi_subscriber_count :: usize
  mi_scan_remaining :: usize

definition invalidations_new :: "usize \<Rightarrow> metadata_invalidations" where
  "invalidations_new limit =
     \<lparr>mi_pending = [], mi_capacity = limit, mi_subscriber_count = 0, mi_scan_remaining = 0\<rparr>"

definition invalidations_has_capacity :: "metadata_invalidations \<Rightarrow> bool" where
  "invalidations_has_capacity v \<longleftrightarrow> mi_subscriber_count v < mi_capacity v"

datatype invalidation_join = JoinMissing | JoinJoined | JoinFull

text \<open>\<open>join_controller\<close> and \<open>join_partition\<close> differ in the match.\<close>

definition invalidations_join ::
    "(invalidation_target \<Rightarrow> bool) \<Rightarrow> completion_id \<Rightarrow> metadata_invalidations \<Rightarrow>
     metadata_invalidations \<times> invalidation_join" where
  "invalidations_join matches completion v =
     (if \<not> list_ex (\<lambda>p. matches (pi_target p)) (mi_pending v) then (v, JoinMissing)
      else if \<not> invalidations_has_capacity v then (v, JoinFull)
      else (v\<lparr>mi_pending := update_first (\<lambda>p. matches (pi_target p))
                (\<lambda>p. p\<lparr>pi_subscribers := pi_subscribers p @ [completion]\<rparr>) (mi_pending v),
              mi_subscriber_count := mi_subscriber_count v + 1\<rparr>, JoinJoined))"

definition invalidations_push ::
    "invalidation_target \<Rightarrow> completion_id \<Rightarrow> metadata_invalidations \<Rightarrow> metadata_invalidations" where
  "invalidations_push target completion v =
     v\<lparr>mi_pending := mi_pending v @ [\<lparr>pi_target = target, pi_subscribers = [completion]\<rparr>],
       mi_subscriber_count := mi_subscriber_count v + 1\<rparr>"

definition invalidations_begin_scan :: "metadata_invalidations \<Rightarrow> metadata_invalidations" where
  "invalidations_begin_scan v = v\<lparr>mi_scan_remaining := length (mi_pending v)\<rparr>"

definition complete_subscribers ::
    "invalidation_disposition \<Rightarrow> pending_invalidation \<Rightarrow> ('k, 'v, 'en, 'de) owner_notice list" where
  "complete_subscribers disposition p = map (\<lambda>c. NoticeInvalidation c disposition) (pi_subscribers p)"

text \<open>The subtraction is asserted in a debug build and wraps around in a release build.\<close>

definition invalidations_release :: "bool \<Rightarrow> usize \<Rightarrow> metadata_invalidations \<Rightarrow> metadata_invalidations option" where
  "invalidations_release dbg subscribers v =
     map_option (\<lambda>n. v\<lparr>mi_subscriber_count := n\<rparr>) (usize_sub dbg (mi_subscriber_count v) subscribers)"

text \<open>\<open>scan_remaining\<close> is at least the number of rounds left, so its decrement does not wrap.\<close>

fun invalidations_scan_loop ::
    "bool \<Rightarrow> metadata_machine \<Rightarrow> metadata_invalidations \<Rightarrow> usize \<Rightarrow> ('k, 'v, 'en, 'de) owner_notice list \<Rightarrow>
     (metadata_invalidations \<times> ('k, 'v, 'en, 'de) owner_notice list) option" where
  "invalidations_scan_loop dbg machine v 0 out = Some (v, out)"
| "invalidations_scan_loop dbg machine v (Suc examined) out =
     (case mi_pending v of
        [] \<Rightarrow> Some (v\<lparr>mi_scan_remaining := 0\<rparr>, out)
      | p # rest \<Rightarrow>
          (let v' = v\<lparr>mi_pending := rest, mi_scan_remaining := mi_scan_remaining v - 1\<rparr> in
           case target_settled machine (pi_target p) of
             Some disposition \<Rightarrow>
               (case invalidations_release dbg (length (pi_subscribers p)) v' of
                  None \<Rightarrow> None
                | Some v'' \<Rightarrow>
                    invalidations_scan_loop dbg machine v'' examined (out @ complete_subscribers disposition p))
           | None \<Rightarrow> invalidations_scan_loop dbg machine (v'\<lparr>mi_pending := rest @ [p]\<rparr>) examined out))"

text \<open>The result tells whether anything was examined or settled, or is left to examine.\<close>

definition invalidations_scan ::
    "bool \<Rightarrow> metadata_invalidations \<Rightarrow> metadata_machine \<Rightarrow> usize \<Rightarrow>
     (metadata_invalidations \<times> ('k, 'v, 'en, 'de) owner_notice list \<times> bool) option" where
  "invalidations_scan dbg v machine budget =
     (let examined = min (mi_scan_remaining v) budget in
      map_option (\<lambda>(v', out). (v', out, examined \<noteq> 0 \<or> out \<noteq> [] \<or> mi_scan_remaining v' \<noteq> 0))
        (invalidations_scan_loop dbg machine v examined []))"

definition invalidations_fail_all ::
    "metadata_invalidations \<Rightarrow> metadata_invalidations \<times> ('k, 'v, 'en, 'de) owner_notice list" where
  "invalidations_fail_all v =
     (v\<lparr>mi_pending := [], mi_subscriber_count := 0, mi_scan_remaining := 0\<rparr>,
      concat (map (complete_subscribers InvUnavailable) (mi_pending v)))"

end
