(* ===== verification/Metadata_Safety.thy ===== *)
theory Metadata_Safety
  imports Metadata
begin

text \<open>
  What the metadata machine guarantees: revoked routes stay out of the served snapshot until newer
  evidence answers them, the served snapshot is always the newest applied answer, and queries are
  fetched in the order they were accepted.
\<close>

section \<open>Revocations keep their routes out of a snapshot\<close>

definition honours :: "metadata_revocations \<Rightarrow> metadata_snapshot \<Rightarrow> bool" where
  "honours r s \<longleftrightarrow>
     (mr_controller r \<noteq> None \<longrightarrow> ms_controller s = None) \<and>
     (\<forall>v\<in>set (mr_partitions r).
        snapshot_partition_route s (pr_topic (pv_route v)) (pr_partition (pv_route v)) = None)"

definition snapshot_frame :: "metadata_snapshot \<Rightarrow> metadata_snapshot \<Rightarrow> bool" where
  "snapshot_frame s s' \<longleftrightarrow>
     (snapshot_wf s \<longrightarrow> snapshot_wf s') \<and> ms_brokers s' = ms_brokers s \<and>
     (ms_controller s = None \<longrightarrow> ms_controller s' = None) \<and>
     (snapshot_wf s \<longrightarrow>
       (\<forall>t p. snapshot_partition_route s t p = None \<longrightarrow> snapshot_partition_route s' t p = None))"

lemma snapshot_frame_refl [simp]: "snapshot_frame s s"
  by (simp add: snapshot_frame_def)

lemma snapshot_frame_trans: "snapshot_frame s s' \<Longrightarrow> snapshot_frame s' s'' \<Longrightarrow> snapshot_frame s s''"
  by (simp add: snapshot_frame_def)

lemma partition_route_controller [simp]:
  "snapshot_partition_route (snapshot_revoke_controller s) t p = snapshot_partition_route s t p"
  by (simp add: snapshot_revoke_controller_def snapshot_partition_route_def split: option.split)

lemma revoke_controller_frame [simp]: "snapshot_frame s (snapshot_revoke_controller s)"
  by (simp add: snapshot_frame_def revoke_controller_wf) (simp add: snapshot_revoke_controller_def)

lemma revoke_partition_frame [simp]: "snapshot_frame s (snapshot_revoke_partition s t p)"
  by (auto simp: snapshot_frame_def revoke_partition_wf partition_route_revoked)
     (simp_all add: snapshot_revoke_partition_def)

lemma frame_honours: "snapshot_frame s s' \<Longrightarrow> snapshot_wf s \<Longrightarrow> honours r s \<Longrightarrow> honours r s'"
  by (auto simp: honours_def snapshot_frame_def)

lemma frame_generation: "snapshot_frame s s' \<Longrightarrow> snapshot_generation s' = snapshot_generation s"
  by (simp add: snapshot_frame_def snapshot_generation_def)

lemma retain_revocations_result:
  assumes "retain_revocations query evidence vs s = (kept, s')" "snapshot_wf s"
  shows "kept = filter (\<lambda>v. \<not> topic_satisfies query evidence v) vs \<and> snapshot_frame s s' \<and>
    (\<forall>v\<in>set kept. snapshot_partition_route s' (pr_topic (pv_route v)) (pr_partition (pv_route v)) = None)"
  using assms
proof (induction vs arbitrary: s kept)
  case (Cons v vs)
  show ?case
  proof (cases "topic_satisfies query evidence v")
    case False
    let ?s = "snapshot_revoke_partition s (pr_topic (pv_route v)) (pr_partition (pv_route v))"
    obtain rest where rest: "retain_revocations query evidence vs ?s = (rest, s')" "kept = v # rest"
      using Cons.prems(1) False by (auto split: prod.splits)
    have wf: "snapshot_wf ?s" by (rule revoke_partition_wf [OF Cons.prems(2)])
    have IH: "rest = filter (\<lambda>v. \<not> topic_satisfies query evidence v) vs" "snapshot_frame ?s s'"
      "\<forall>v\<in>set rest. snapshot_partition_route s' (pr_topic (pv_route v)) (pr_partition (pv_route v)) = None"
      using Cons.IH [OF rest(1) wf] by auto
    have "snapshot_partition_route ?s (pr_topic (pv_route v)) (pr_partition (pv_route v)) = None"
      by (simp add: partition_route_revoked [OF Cons.prems(2)])
    then have "snapshot_partition_route s' (pr_topic (pv_route v)) (pr_partition (pv_route v)) = None"
      using IH(2) wf by (simp add: snapshot_frame_def)
    with IH rest(2) False snapshot_frame_trans [OF revoke_partition_frame IH(2)] show ?thesis by simp
  qed (use Cons in simp)
qed simp

lemma revocations_apply_result:
  assumes "revocations_apply r s query = (r', s')" "snapshot_wf s"
  shows "snapshot_frame s s'" "honours r' s'"
    "mr_partitions r' = filter (\<lambda>v. \<not> topic_satisfies query (bd_evidence (ms_brokers s)) v) (mr_partitions r)"
    "mr_controller r' = (case mr_controller r of
       None \<Rightarrow> None
     | Some v \<Rightarrow> if query = QueryCluster \<and> evidence_is_after (bd_evidence (ms_brokers s)) (cr_required_after v)
         then None else Some v)"
proof -
  define s1 where "s1 = (if mr_controller r' \<noteq> None then snapshot_revoke_controller s else s)"
  have ctl: "mr_controller r' = (case mr_controller r of
       None \<Rightarrow> None
     | Some v \<Rightarrow> if query = QueryCluster \<and> evidence_is_after (bd_evidence (ms_brokers s)) (cr_required_after v)
         then None else Some v)"
    using assms(1) by (auto simp: revocations_apply_def Let_def split: option.splits if_splits prod.splits)
  have retain: "retain_revocations query (bd_evidence (ms_brokers s)) (mr_partitions r) s1 = (mr_partitions r', s')"
    using assms(1) unfolding s1_def ctl
    by (auto simp: revocations_apply_def Let_def split: option.splits if_splits prod.splits)
  have s1: "snapshot_frame s s1" "mr_controller r' \<noteq> None \<longrightarrow> ms_controller s1 = None"
    by (simp_all add: s1_def) (simp add: snapshot_revoke_controller_def)
  have wf: "snapshot_wf s1" using s1(1) assms(2) by (simp add: snapshot_frame_def)
  have kept: "mr_partitions r' = filter (\<lambda>v. \<not> topic_satisfies query (bd_evidence (ms_brokers s)) v) (mr_partitions r)"
    "snapshot_frame s1 s'"
    "\<forall>v\<in>set (mr_partitions r').
       snapshot_partition_route s' (pr_topic (pv_route v)) (pr_partition (pv_route v)) = None"
    using retain_revocations_result [OF retain wf] by auto
  then show "snapshot_frame s s'" "honours r' s'"
    using s1 snapshot_frame_trans [OF s1(1) kept(2)] by (auto simp: honours_def snapshot_frame_def)
  show "mr_partitions r' = filter (\<lambda>v. \<not> topic_satisfies query (bd_evidence (ms_brokers s)) v) (mr_partitions r)"
    by (rule kept(1))
  show "mr_controller r' = (case mr_controller r of
       None \<Rightarrow> None
     | Some v \<Rightarrow> if query = QueryCluster \<and> evidence_is_after (bd_evidence (ms_brokers s)) (cr_required_after v)
         then None else Some v)"
    by (rule ctl)
qed

section \<open>The invariant\<close>

fun state_wf :: "metadata_query_limits \<Rightarrow> metadata_state \<Rightarrow> bool" where
  "state_wf limits (MdEmpty next_generation) \<longleftrightarrow> True"
| "state_wf limits (MdReady snapshot) \<longleftrightarrow> snapshot_wf snapshot"
| "state_wf limits (MdRefreshing current operation_id query target queued) \<longleftrightarrow>
     distinct queued \<and> length queued \<le> mql_pending_queries limits \<and>
     (\<forall>s. current = Some s \<longrightarrow>
        snapshot_wf s \<and> metadata_generation_next (snapshot_generation s) = Some target)"

definition metadata_wf :: "metadata_machine \<Rightarrow> bool" where
  "metadata_wf m \<longleftrightarrow>
     state_wf (mm_query_limits m) (mm_state m) \<and>
     (\<forall>s. metadata_current m = Some s \<longrightarrow> honours (mm_revocations m) s)"

lemma current_wf: "metadata_wf m \<Longrightarrow> metadata_current m = Some s \<Longrightarrow> snapshot_wf s"
  by (cases "mm_state m") (auto simp: metadata_wf_def metadata_current_def)

lemma update_current_wf:
  assumes "metadata_wf m" "\<And>s. snapshot_frame s (f s)"
    and "\<And>s. metadata_current m = Some s \<Longrightarrow> honours r (f s)"
  shows "metadata_wf (update_current f m\<lparr>mm_revocations := r\<rparr>)"
  using assms(1,3) frame_generation [OF assms(2)] assms(2)
  by (cases "mm_state m")
     (auto simp: metadata_wf_def metadata_current_def update_current_def snapshot_frame_def)

text \<open>Admitting a query touches neither the served snapshot nor the revocations.\<close>

lemma md_admit_frame:
  assumes "metadata_wf m" "md_admit m query operation_id recency = (m', t)"
  shows "metadata_wf m'" "metadata_current m' = metadata_current m" "mm_revocations m' = mm_revocations m"
    "mt_disposition t \<noteq> MdIgnoredStale"
  using assms
  by (auto simp: md_admit_def md_start_def metadata_wf_def metadata_current_def md_fetch_def md_coalesced_def
      md_capacity_reached_def md_query_queued_def md_exhausted_def
      split: metadata_state.splits if_splits option.splits)

section \<open>Accepted revocations and the evidence that answers them\<close>

datatype metadata_event =
    EvControllerRevoked outcome_stamp
  | EvPartitionRevoked topic_name partition_id outcome_stamp
  | EvAnswered metadata_query metadata_generation evidence_stamp

definition accepted :: "metadata_transition \<Rightarrow> bool" where
  "accepted t \<longleftrightarrow> mt_disposition t \<noteq> MdIgnoredStale \<and> mt_disposition t \<noteq> MdQueryCapacityReached"

text \<open>
  An invalidation counts once the machine accepts it; a fetch counts as answered when its snapshot
  is applied, with the query it answers taken from the state before.
\<close>

fun metadata_events :: "metadata_machine \<Rightarrow> metadata_input \<Rightarrow> metadata_transition \<Rightarrow> metadata_event list" where
  "metadata_events m (MdInvalidateBrokerRoute route observed_at operation_id) t =
     (if accepted t then [EvControllerRevoked observed_at] else [])"
| "metadata_events m (MdInvalidatePartitionRoute route observed_at operation_id) t =
     (if accepted t then [EvPartitionRevoked (pr_topic route) (pr_partition route) observed_at] else [])"
| "metadata_events m (MdRefreshSucceeded operation_id snapshot followup_operation_id) t =
     (case mm_state m of
        MdRefreshing current expected query target queued \<Rightarrow>
          (if mt_disposition t = MdApplied
             then [EvAnswered query (snapshot_generation snapshot) (bd_evidence (ms_brokers snapshot))]
           else [])
      | _ \<Rightarrow> [])"
| "metadata_events m _ t = []"

fun revocation_answered :: "metadata_event \<Rightarrow> metadata_event \<Rightarrow> bool" where
  "revocation_answered (EvControllerRevoked t) (EvAnswered QueryCluster g e) \<longleftrightarrow> evidence_is_after e t"
| "revocation_answered (EvPartitionRevoked topic p t) (EvAnswered (QueryTopic topic') g e) \<longleftrightarrow>
     topic = topic' \<and> evidence_is_after e t"
| "revocation_answered _ _ \<longleftrightarrow> False"

fun covered :: "metadata_revocations \<Rightarrow> metadata_event \<Rightarrow> bool" where
  "covered r (EvControllerRevoked t) \<longleftrightarrow> (\<exists>v. mr_controller r = Some v \<and> t \<le> cr_required_after v)"
| "covered r (EvPartitionRevoked topic p t) \<longleftrightarrow>
     (\<exists>v\<in>set (mr_partitions r). pr_topic (pv_route v) = topic \<and> pr_partition (pv_route v) = p \<and>
        t \<le> pv_required_after v)"
| "covered r (EvAnswered query g e) \<longleftrightarrow> True"

definition metadata_recorded :: "metadata_event list \<Rightarrow> metadata_machine \<Rightarrow> bool" where
  "metadata_recorded past m \<longleftrightarrow>
     metadata_wf m \<and> (\<forall>x\<in>set (open_events revocation_answered past). covered (mm_revocations m) x)"

lemma revoke_controller_covers:
  assumes "mr_controller r = None \<or> controller_pending r route"
  shows "covered (revoke_controller r route t) (EvControllerRevoked t)"
    and "covered r x \<Longrightarrow> covered (revoke_controller r route t) x"
  using assms
  by (auto simp: revoke_controller_def controller_pending_def controller_observe_def le_max_iff_disj
      split: option.splits elim!: covered.elims)

lemma revoke_controller_parts [simp]:
  "mr_partitions (revoke_controller r route t) = mr_partitions r"
  "mr_controller (revoke_controller r route t) \<noteq> None"
  by (auto simp: revoke_controller_def split: option.splits)

lemma update_first_covers:
  assumes "list_ex P vs" "\<And>v. P v \<Longrightarrow> Q (f v)" "\<And>v. Q v \<Longrightarrow> Q (f v)"
  shows "\<exists>v\<in>set (update_first P f vs). Q v"
    and "\<exists>v\<in>set vs. R v \<Longrightarrow> (\<And>v. R v \<Longrightarrow> R (f v)) \<Longrightarrow> \<exists>v\<in>set (update_first P f vs). R v"
  using assms(1,2) by (induction vs) auto

lemma revoke_partition_covers:
  "covered (revoke_partition r route t) (EvPartitionRevoked (pr_topic route) (pr_partition route) t)"
  "covered r x \<Longrightarrow> covered (revoke_partition r route t) x"
proof -
  show "covered (revoke_partition r route t) (EvPartitionRevoked (pr_topic route) (pr_partition route) t)"
  proof (cases "list_ex (\<lambda>v. is_same_assignment (pv_route v) route) (mr_partitions r)")
    case True
    then show ?thesis
      unfolding revoke_partition_def
      using update_first_covers(1) [OF True, of "\<lambda>v. pr_topic (pv_route v) = pr_topic route \<and>
          pr_partition (pv_route v) = pr_partition route \<and> t \<le> pv_required_after v"
          "\<lambda>v. partition_observe v t"]
      by (simp add: partition_observe_def is_same_assignment_def)
  qed (simp add: revoke_partition_def)
next
  assume c: "covered r x"
  show "covered (revoke_partition r route t) x"
  proof (cases x)
    case (EvPartitionRevoked topic p u)
    then show ?thesis
      using c update_first_covers(2) [of "\<lambda>v. is_same_assignment (pv_route v) route" "mr_partitions r"
          "\<lambda>v. True" "\<lambda>v. partition_observe v t"
          "\<lambda>v. pr_topic (pv_route v) = topic \<and> pr_partition (pv_route v) = p \<and> u \<le> pv_required_after v"]
      by (auto simp: revoke_partition_def partition_observe_def le_max_iff_disj)
  qed (use c in \<open>auto simp: revoke_partition_def\<close>)
qed

lemma revoke_partition_routes:
  "mr_controller (revoke_partition r route t) = mr_controller r"
  "pv_route ` set (mr_partitions (revoke_partition r route t)) \<subseteq> insert route (pv_route ` set (mr_partitions r))"
proof -
  have "map pv_route (update_first (\<lambda>v. is_same_assignment (pv_route v) route)
      (\<lambda>v. partition_observe v t) (mr_partitions r)) = map pv_route (mr_partitions r)"
    by (rule update_first_map) (simp add: partition_observe_def)
  then have "pv_route ` set (update_first (\<lambda>v. is_same_assignment (pv_route v) route)
      (\<lambda>v. partition_observe v t) (mr_partitions r)) = pv_route ` set (mr_partitions r)"
    by (metis set_map)
  then show "pv_route ` set (mr_partitions (revoke_partition r route t)) \<subseteq> insert route (pv_route ` set (mr_partitions r))"
    by (auto simp: revoke_partition_def)
qed (simp add: revoke_partition_def)

section \<open>Every step keeps the record\<close>

lemma revoke_controller_honours:
  "honours r s \<Longrightarrow> honours (revoke_controller r route t) (snapshot_revoke_controller s)"
  by (simp add: honours_def) (simp add: snapshot_revoke_controller_def)

lemma revoke_partition_honours:
  assumes "honours r s" "snapshot_wf s"
  shows "honours (revoke_partition r route t) (snapshot_revoke_partition s (pr_topic route) (pr_partition route))"
proof -
  let ?s = "snapshot_revoke_partition s (pr_topic route) (pr_partition route)"
  have "snapshot_partition_route ?s (pr_topic (pv_route v)) (pr_partition (pv_route v)) = None"
    if "v \<in> set (mr_partitions (revoke_partition r route t))" for v
  proof -
    consider "pv_route v = route" | u where "u \<in> set (mr_partitions r)" "pv_route u = pv_route v"
      using revoke_partition_routes(2) [of r route t] \<open>v \<in> _\<close> by fastforce
    then show ?thesis
      using assms by cases (auto simp: partition_route_revoked honours_def)
  qed
  moreover have "ms_controller ?s = ms_controller s" by (simp add: snapshot_revoke_partition_def)
  ultimately show ?thesis using assms(1) by (simp add: honours_def revoke_partition_routes(1))
qed

lemma recorded_more:
  assumes "metadata_recorded past m" "metadata_wf m'"
    and "\<And>x. covered (mm_revocations m) x \<Longrightarrow> covered (mm_revocations m') x"
    and "\<forall>x\<in>set new. covered (mm_revocations m') x"
  shows "metadata_recorded (past @ new) m'"
  using assms open_events_set [of revocation_answered new]
  by (auto simp: metadata_recorded_def open_events_append)

lemma recorded_unchanged:
  assumes "metadata_recorded past m" "metadata_wf m'" "mm_revocations m' = mm_revocations m"
  shows "metadata_recorded past m'"
  using recorded_more [of past m m' "[]"] assms by simp

lemma update_current_revocations:
  "update_current f m\<lparr>mm_revocations := r\<rparr> = (update_current f m)\<lparr>mm_revocations := r\<rparr>"
  by (simp add: update_current_def)

lemma md_refresh_frame:
  assumes "metadata_wf m" "md_refresh m query operation_id = (m', t)"
  shows "metadata_wf m'" "metadata_current m' = metadata_current m" "mm_revocations m' = mm_revocations m"
    "mt_disposition t \<noteq> MdIgnoredStale"
  using md_admit_frame [OF assms(1)] assms(2) by (simp_all add: md_refresh_def)

text \<open>The common tail of the four ways to revoke a route.\<close>

lemma revoked_recorded:
  assumes "metadata_recorded past m" "md_refresh m query operation_id = (m', t)"
    and "\<And>s. snapshot_frame s (f s)"
    and "\<And>s. honours (mm_revocations m) s \<Longrightarrow> snapshot_wf s \<Longrightarrow> honours r (f s)"
    and "\<And>x. covered (mm_revocations m) x \<Longrightarrow> covered r x" "covered r event"
  shows "metadata_recorded (past @ [event]) (update_current f m'\<lparr>mm_revocations := r\<rparr>)"
proof -
  have wf: "metadata_wf m" using assms(1) by (simp add: metadata_recorded_def)
  note frame = md_refresh_frame [OF wf assms(2)]
  have "metadata_wf (update_current f m'\<lparr>mm_revocations := r\<rparr>)"
    using assms(4) wf current_wf [OF wf]
    by (intro update_current_wf [OF frame(1) assms(3)]) (simp add: frame(2) metadata_wf_def)
  then show ?thesis
    using assms(5,6) by (intro recorded_more [OF assms(1)]) (simp_all add: update_current_def)
qed

lemma md_invalidate_recorded:
  assumes "metadata_recorded past m" "md_invalidate m route observed_at operation_id = (m', t)"
  shows "metadata_recorded (past @ (if accepted t then [EvControllerRevoked observed_at] else [])) m'"
proof -
  let ?r = "revoke_controller (mm_revocations m) route observed_at"
  have wf: "metadata_wf m" using assms(1) by (simp add: metadata_recorded_def)
  obtain m1 t1 where refresh: "md_refresh m QueryCluster operation_id = (m1, t1)" by fastforce
  note frame = md_refresh_frame [OF wf refresh]
  have free: "mr_controller (mm_revocations m) = None"
    if "metadata_current m = Some s" "ms_controller s = Some c" for s c
    using wf that by (auto simp: metadata_wf_def honours_def)
  show ?thesis
  proof (cases "controller_pending (mm_revocations m) route \<and>
      \<not> controller_requires (mm_revocations m) route observed_at")
    case True
    then have "covered (mm_revocations m) (EvControllerRevoked observed_at)"
      by (auto simp: controller_pending_def controller_requires_def split: option.splits)
    with True show ?thesis
      using assms(2) recorded_more [OF assms(1) wf, of "[EvControllerRevoked observed_at]"]
      by (auto simp: md_invalidate_def continue_controller_revocation_def md_coalesced_def accepted_def)
  next
    case False
    consider (stale) "m' = m" "\<not> accepted t" | (full) "m' = m1" "\<not> accepted t"
      | (revoked) "m' = update_current snapshot_revoke_controller m1\<lparr>mm_revocations := ?r\<rparr>"
          "mr_controller (mm_revocations m) = None \<or> controller_pending (mm_revocations m) route" "accepted t"
      using assms(2) False free frame(3,4)
      by (auto simp: md_invalidate_def continue_controller_revocation_def refresh accepted_def md_stale_def
          update_current_def split: option.splits if_splits)
    then show ?thesis
    proof cases
      case full
      then show ?thesis using recorded_unchanged [OF assms(1) frame(1,3)] by simp
    next
      case revoked
      then show ?thesis
        using revoked_recorded [OF assms(1) refresh, of snapshot_revoke_controller ?r "EvControllerRevoked observed_at"]
          revoke_controller_honours revoke_controller_covers by simp
    qed (use assms(1) in simp)
  qed
qed

lemma md_invalidate_partition_recorded:
  assumes "metadata_recorded past m" "md_invalidate_partition m route observed_at operation_id = (m', t)"
  shows "metadata_recorded
    (past @ (if accepted t then [EvPartitionRevoked (pr_topic route) (pr_partition route) observed_at] else [])) m'"
proof -
  let ?r = "revoke_partition (mm_revocations m) route observed_at"
  let ?f = "\<lambda>s. snapshot_revoke_partition s (pr_topic route) (pr_partition route)"
  let ?e = "EvPartitionRevoked (pr_topic route) (pr_partition route) observed_at"
  have wf: "metadata_wf m" using assms(1) by (simp add: metadata_recorded_def)
  obtain m1 t1 where refresh: "md_refresh m (QueryTopic (pr_topic route)) operation_id = (m1, t1)" by fastforce
  note frame = md_refresh_frame [OF wf refresh]
  show ?thesis
  proof (cases "partition_pending (mm_revocations m) route \<and>
      \<not> partition_requires (mm_revocations m) route observed_at")
    case True
    then have "covered (mm_revocations m) ?e"
      by (auto simp: partition_pending_def partition_requires_def list_ex_iff is_same_assignment_def not_less)
    with True show ?thesis
      using assms(2) recorded_more [OF assms(1) wf, of "[?e]"]
      by (auto simp: md_invalidate_partition_def continue_partition_revocation_def md_coalesced_def accepted_def)
  next
    case False
    consider (stale) "m' = m" "\<not> accepted t" | (full) "m' = m1" "\<not> accepted t"
      | (revoked) "m' = update_current ?f m1\<lparr>mm_revocations := ?r\<rparr>" "accepted t"
      using assms(2) False frame(3,4)
      by (auto simp: md_invalidate_partition_def continue_partition_revocation_def refresh accepted_def md_stale_def
          update_current_def Let_def split: option.splits if_splits)
    then show ?thesis
    proof cases
      case full
      then show ?thesis using recorded_unchanged [OF assms(1) frame(1,3)] by simp
    next
      case revoked
      then show ?thesis
        using revoked_recorded [OF assms(1) refresh, of ?f ?r ?e] revoke_partition_honours
          revoke_partition_covers by simp
    qed (use assms(1) in simp)
  qed
qed

lemma pop_query_refreshing:
  "pop_query (MdRefreshing current operation_id query target queued) =
     (MdRefreshing current operation_id query target (tl queued),
      case queued of [] \<Rightarrow> None | q # _ \<Rightarrow> Some q)"
  by (cases queued) simp_all

lemma md_fail_frame:
  assumes "metadata_wf m" "md_fail m operation_id followup_operation_id = (m', t)"
  shows "metadata_wf m'" "mm_revocations m' = mm_revocations m" "metadata_current m' = metadata_current m"
  using assms
  by (auto simp: md_fail_def md_restart_def metadata_wf_def metadata_current_def pop_query_refreshing
      split: metadata_state.splits if_splits option.splits list.splits)

lemma answered_covered:
  assumes "covered r x" "\<not> revocation_answered x (EvAnswered query g (bd_evidence (ms_brokers s)))"
    and "revocations_apply r s query = (r', s')" "snapshot_wf s"
  shows "covered r' x"
  using assms(1,2) revocations_apply_result(3,4) [OF assms(3,4)]
  by (cases x; cases query) (auto simp: evidence_is_after_def)

lemma md_succeed_applied:
  assumes "md_succeed m operation_id snapshot followup = (m', t)"
    and "\<not> (\<exists>current query target queued. mm_state m = MdRefreshing current operation_id query target queued \<and>
      snapshot_generation snapshot = target \<and> mt_disposition t = MdApplied)"
  shows "(m' = m \<or> (\<exists>t'. md_fail m operation_id followup = (m', t'))) \<and> mt_disposition t \<noteq> MdApplied"
  using assms
  by (auto simp: md_succeed_def md_stale_def Let_def md_applied_def md_exhausted_def md_restart_def md_fetch_def
      pop_query_refreshing split: metadata_state.splits if_splits prod.splits list.splits option.splits)

lemma md_succeed_recorded:
  assumes "metadata_recorded past m" "snapshot_wf snapshot"
    and "md_succeed m operation_id snapshot followup = (m', t)"
  shows "metadata_recorded
    (past @ metadata_events m (MdRefreshSucceeded operation_id snapshot followup) t) m'"
proof -
  have wf: "metadata_wf m" using assms(1) by (simp add: metadata_recorded_def)
  show ?thesis
  proof (cases "\<exists>current query target queued. mm_state m = MdRefreshing current operation_id query target queued \<and>
      snapshot_generation snapshot = target \<and> mt_disposition t = MdApplied")
    case False
    from md_succeed_applied [OF assms(3) False]
    have "metadata_recorded past m'" "mt_disposition t \<noteq> MdApplied"
      using assms(1) md_fail_frame [OF wf] recorded_unchanged [OF assms(1)] by blast+
    then show ?thesis by (simp split: metadata_state.split)
  next
    case True
    then obtain current query target queued where
      st: "mm_state m = MdRefreshing current operation_id query target queued"
      "snapshot_generation snapshot = target" "mt_disposition t = MdApplied" by blast
    obtain r' s' where ap: "revocations_apply (mm_revocations m) snapshot query = (r', s')" by fastforce
    note res = revocations_apply_result [OF ap assms(2)]
    have s': "snapshot_wf s'" "snapshot_generation s' = target"
      using res(1) assms(2) frame_generation [OF res(1)] st(2) by (simp_all add: snapshot_frame_def)
    have m': "mm_revocations m' = r'" "metadata_wf m'"
      using assms(3) st wf s' res(2)
      by (auto simp: md_succeed_def ap pop_query_refreshing md_restart_def metadata_wf_def metadata_current_def Let_def
          split: if_splits option.splits list.splits prod.splits)
    let ?e = "EvAnswered query target (bd_evidence (ms_brokers snapshot))"
    have "covered r' x" if "x \<in> set (open_events revocation_answered (past @ [?e]))" for x
      using that assms(1) answered_covered [OF _ _ ap assms(2), of x target]
      by (auto simp: open_events_append metadata_recorded_def)
    then show ?thesis using m' st by (simp add: metadata_recorded_def)
  qed
qed

text \<open>Snapshots come from the constructors, which establish \<^const>\<open>snapshot_wf\<close>.\<close>

fun metadata_input_ok :: "metadata_input \<Rightarrow> bool" where
  "metadata_input_ok (MdRefreshSucceeded operation_id snapshot followup) \<longleftrightarrow> snapshot_wf snapshot"
| "metadata_input_ok _ \<longleftrightarrow> True"

lemma metadata_step_recorded:
  assumes "metadata_recorded past m" "metadata_input_ok i"
  shows "metadata_recorded (past @ metadata_events m i (snd (metadata_apply m i))) (fst (metadata_apply m i))"
proof -
  have wf: "metadata_wf m" using assms(1) by (simp add: metadata_recorded_def)
  obtain m' t where step: "metadata_apply m i = (m', t)" by fastforce
  have "metadata_recorded (past @ metadata_events m i t) m'"
  proof (cases i)
    case (MdResolve query operation_id)
    then show ?thesis
      using step md_admit_frame [OF wf] recorded_unchanged [OF assms(1)] by (simp add: md_resolve_def)
  next
    case (MdRefresh query operation_id)
    then show ?thesis using step md_refresh_frame [OF wf] recorded_unchanged [OF assms(1)] by simp
  next
    case (MdRefreshFailed operation_id followup)
    then show ?thesis using step md_fail_frame [OF wf] recorded_unchanged [OF assms(1)] by simp
  qed (use step assms md_invalidate_recorded md_invalidate_partition_recorded md_succeed_recorded in simp_all)
  then show ?thesis by (simp add: step)
qed

interpretation metadata_record: recording_machine metadata_apply metadata_input_ok metadata_events metadata_recorded
  by unfold_locales (rule metadata_step_recorded)

lemma metadata_new_recorded: "metadata_recorded [] (metadata_with_query_limits generation limits)"
  by (simp add: metadata_recorded_def metadata_wf_def metadata_current_def metadata_with_query_limits_def)

section \<open>The served snapshot is the newest answer\<close>

fun answer_of :: "metadata_event \<Rightarrow> (metadata_generation \<times> evidence_stamp) list" where
  "answer_of (EvAnswered query generation evidence) = [(generation, evidence)]"
| "answer_of _ = []"

definition answers :: "metadata_event list \<Rightarrow> (metadata_generation \<times> evidence_stamp) list" where
  "answers past = concat (map answer_of past)"

definition current_answer :: "metadata_machine \<Rightarrow> (metadata_generation \<times> evidence_stamp) option" where
  "current_answer m = map_option (\<lambda>s. (snapshot_generation s, bd_evidence (ms_brokers s))) (metadata_current m)"

lemma current_answer_update:
  assumes "\<And>s. snapshot_frame s (f s)"
  shows "current_answer (update_current f m) = current_answer m"
proof -
  have "ms_brokers (f s) = ms_brokers s" for s using assms by (simp add: snapshot_frame_def)
  then show ?thesis
    by (cases "mm_state m")
       (simp_all add: current_answer_def metadata_current_def update_current_def snapshot_generation_def
         option.map_comp comp_def)
qed

definition answers_step :: "metadata_machine \<Rightarrow> metadata_event list \<Rightarrow> metadata_machine \<Rightarrow> bool" where
  "answers_step m new m' \<longleftrightarrow>
     (case answers new of
        [] \<Rightarrow> current_answer m' = current_answer m
      | [a] \<Rightarrow> current_answer m' = Some a \<and> (\<forall>b. current_answer m = Some b \<longrightarrow> fst b < fst a)
      | _ \<Rightarrow> False)"

lemma answers_step_idle:
  "answers new = [] \<Longrightarrow> metadata_current m' = metadata_current m \<Longrightarrow> answers_step m new m'"
  by (simp add: answers_step_def current_answer_def)

lemma current_revocations [simp]: "current_answer (m\<lparr>mm_revocations := r\<rparr>) = current_answer m"
  by (simp add: current_answer_def metadata_current_def)

lemma invalidate_answers:
  assumes "metadata_wf m"
  shows "md_invalidate m route observed_at operation_id = (m', t) \<Longrightarrow> current_answer m' = current_answer m"
    and "md_invalidate_partition m proute observed_at operation_id = (m', t) \<Longrightarrow>
      current_answer m' = current_answer m"
proof -
  have refresh: "current_answer m1 = current_answer m" if "md_refresh m query operation_id = (m1, t1)" for query m1 t1
    using md_refresh_frame(2) [OF assms that] by (simp add: current_answer_def)
  show "current_answer m' = current_answer m" if "md_invalidate m route observed_at operation_id = (m', t)"
    using that refresh
    by (auto simp: md_invalidate_def continue_controller_revocation_def current_answer_update Let_def
        split: if_splits option.splits prod.splits)
  show "current_answer m' = current_answer m" if "md_invalidate_partition m proute observed_at operation_id = (m', t)"
    using that refresh
    by (auto simp: md_invalidate_partition_def continue_partition_revocation_def current_answer_update Let_def
        split: if_splits option.splits prod.splits)
qed

lemma generation_next_less: "metadata_generation_next g = Some g' \<Longrightarrow> g < g'"
  by (simp add: metadata_generation_next_def checked_add_one_less)

lemma succeed_answers:
  assumes "metadata_wf m" "snapshot_wf snapshot" "md_succeed m operation_id snapshot followup = (m', t)"
  shows "answers_step m (metadata_events m (MdRefreshSucceeded operation_id snapshot followup) t) m'"
proof (cases "\<exists>current query target queued. mm_state m = MdRefreshing current operation_id query target queued \<and>
    snapshot_generation snapshot = target \<and> mt_disposition t = MdApplied")
  case False
  then have "m' = m \<or> (\<exists>t'. md_fail m operation_id followup = (m', t'))" "mt_disposition t \<noteq> MdApplied"
    using assms(3) md_succeed_applied by blast+
  then show ?thesis
    using md_fail_frame(3) [OF assms(1)]
    by (intro answers_step_idle) (auto simp: answers_def split: metadata_state.split)
next
  case True
  then obtain current query target queued where
    st: "mm_state m = MdRefreshing current operation_id query target queued"
    "snapshot_generation snapshot = target" "mt_disposition t = MdApplied" by blast
  obtain r' s' where ap: "revocations_apply (mm_revocations m) snapshot query = (r', s')" by fastforce
  have s': "snapshot_generation s' = target" "ms_brokers s' = ms_brokers snapshot"
    using revocations_apply_result(1) [OF ap assms(2)] frame_generation st(2)
    by (simp_all add: snapshot_frame_def snapshot_generation_def)
  have "metadata_current m' = Some s'"
    using assms(3) st
    by (auto simp: md_succeed_def ap pop_query_refreshing md_restart_def metadata_current_def Let_def
        split: if_splits option.splits list.splits prod.splits)
  moreover have "fst b < target" if "current_answer m = Some b" for b
    using that assms(1) st(1) generation_next_less
    by (auto simp: current_answer_def metadata_current_def metadata_wf_def)
  ultimately show ?thesis
    using st s' by (simp add: answers_step_def answers_def current_answer_def)
qed

lemma metadata_answers_step:
  assumes "metadata_wf m" "metadata_input_ok i"
  shows "answers_step m (metadata_events m i (snd (metadata_apply m i))) (fst (metadata_apply m i))"
proof -
  obtain m' t where step: "metadata_apply m i = (m', t)" by fastforce
  have "answers_step m (metadata_events m i t) m'"
  proof (cases i)
    case (MdResolve query operation_id)
    then show ?thesis
      using step md_admit_frame(2) [OF assms(1)] by (intro answers_step_idle) (simp_all add: answers_def md_resolve_def)
  next
    case (MdRefresh query operation_id)
    then show ?thesis
      using step md_refresh_frame(2) [OF assms(1)] by (intro answers_step_idle) (simp_all add: answers_def)
  next
    case (MdInvalidateBrokerRoute route observed_at operation_id)
    then show ?thesis
      using step invalidate_answers(1) [OF assms(1)] by (simp add: answers_step_def answers_def)
  next
    case (MdInvalidatePartitionRoute route observed_at operation_id)
    then show ?thesis
      using step invalidate_answers(2) [OF assms(1)] by (simp add: answers_step_def answers_def)
  next
    case (MdRefreshSucceeded operation_id snapshot followup)
    then show ?thesis using step assms succeed_answers by simp
  next
    case (MdRefreshFailed operation_id followup)
    then show ?thesis
      using step md_fail_frame(3) [OF assms(1)] by (intro answers_step_idle) (simp_all add: answers_def)
  qed
  then show ?thesis by (simp add: step)
qed

definition serves_newest :: "metadata_event list \<Rightarrow> metadata_machine \<Rightarrow> bool" where
  "serves_newest past m \<longleftrightarrow>
     metadata_wf m \<and> sorted_wrt (<) (map fst (answers past)) \<and>
     current_answer m = (if answers past = [] then None else Some (last (answers past)))"

lemma sorted_snoc_last:
  assumes "sorted_wrt (<) xs" "xs \<noteq> [] \<Longrightarrow> last xs < (x :: 'a::linorder)"
  shows "sorted_wrt (<) (xs @ [x])"
  using assms
proof (cases xs rule: rev_cases)
  case (snoc ys y)
  then show ?thesis using assms by (auto simp: sorted_wrt_append dest: less_trans)
qed simp

lemma serves_newest_step:
  assumes "serves_newest past m" "metadata_input_ok i"
  shows "serves_newest (past @ metadata_events m i (snd (metadata_apply m i))) (fst (metadata_apply m i))"
proof -
  let ?new = "metadata_events m i (snd (metadata_apply m i))" and ?m = "fst (metadata_apply m i)"
  have wf: "metadata_wf m" using assms(1) by (simp add: serves_newest_def)
  then have "metadata_wf ?m"
    using metadata_step_recorded [of "[]" m i] assms(2) by (simp add: metadata_recorded_def)
  moreover have split: "answers (past @ ?new) = answers past @ answers ?new" by (simp add: answers_def)
  moreover from metadata_answers_step [OF wf assms(2)]
  consider "answers ?new = []" "current_answer ?m = current_answer m"
    | a where "answers ?new = [a]" "current_answer ?m = Some a" "\<forall>b. current_answer m = Some b \<longrightarrow> fst b < fst a"
    by (auto simp: answers_step_def split: list.splits)
  then have "sorted_wrt (<) (map fst (answers past @ answers ?new)) \<and>
      current_answer ?m = (if answers past @ answers ?new = [] then None else Some (last (answers past @ answers ?new)))"
  proof cases
    case 2
    then have "sorted_wrt (<) (map fst (answers past) @ [fst a])"
      using assms(1) 2(3) [rule_format, of "last (answers past)"]
      by (intro sorted_snoc_last) (simp_all add: serves_newest_def last_map)
    with 2 show ?thesis by simp
  qed (use assms(1) in \<open>simp add: serves_newest_def\<close>)
  ultimately show ?thesis by (simp add: serves_newest_def split)
qed

interpretation metadata_serving: recording_machine metadata_apply metadata_input_ok metadata_events serves_newest
  by unfold_locales (rule serves_newest_step)

section \<open>Queries are fetched in order\<close>

fun fetched_query :: "metadata_effect \<Rightarrow> metadata_query list" where
  "fetched_query (MdFetch operation_id generation query) = [query]"
| "fetched_query MdGenerationExhausted = []"

definition fetched :: "metadata_transition \<Rightarrow> metadata_query list" where
  "fetched t = concat (map fetched_query (mt_effects t))"

fun asked :: "metadata_input \<Rightarrow> metadata_query option" where
  "asked (MdResolve query operation_id) = Some query"
| "asked (MdRefresh query operation_id) = Some query"
| "asked (MdInvalidateBrokerRoute route observed_at operation_id) = Some QueryCluster"
| "asked (MdInvalidatePartitionRoute route observed_at operation_id) = Some (QueryTopic (pr_topic route))"
| "asked _ = None"

text \<open>A query is accepted when it is queued or fetched at once.\<close>

definition entered :: "metadata_input \<Rightarrow> metadata_transition \<Rightarrow> metadata_query list" where
  "entered i t =
     (case asked i of
        None \<Rightarrow> []
      | Some query \<Rightarrow> (if mt_disposition t = MdQueued \<or> fetched t \<noteq> [] then [query] else []))"

fun queued_queries :: "metadata_state \<Rightarrow> metadata_query list" where
  "queued_queries (MdRefreshing current operation_id query target queued) = queued"
| "queued_queries _ = []"

definition in_order :: "metadata_machine \<Rightarrow> metadata_input \<Rightarrow> metadata_machine \<Rightarrow> metadata_transition \<Rightarrow> bool" where
  "in_order m i m' t \<longleftrightarrow>
     queued_queries (mm_state m) @ entered i t = fetched t @ queued_queries (mm_state m') \<or>
     MdGenerationExhausted \<in> set (mt_effects t)"

lemma transition_parts:
  "fetched (md_fetch operation_id target query) = [query]" "fetched md_applied = []" "fetched md_coalesced = []"
  "fetched md_query_queued = []" "fetched md_capacity_reached = []" "fetched md_stale = []"
  "fetched \<lparr>mt_effects = mt_effects t, mt_disposition = d\<rparr> = fetched t"
  "mt_effects md_exhausted = [MdGenerationExhausted]"
  "mt_disposition md_query_queued = MdQueued" "mt_disposition (md_fetch operation_id target query) = MdApplied"
  "mt_disposition md_applied = MdApplied" "mt_disposition md_coalesced = MdCoalesced"
  "mt_disposition md_capacity_reached = MdQueryCapacityReached" "mt_disposition md_stale = MdIgnoredStale"
  by (simp_all add: fetched_def md_fetch_def md_applied_def md_coalesced_def md_query_queued_def
      md_capacity_reached_def md_stale_def md_exhausted_def)

lemma admit_in_order:
  assumes "md_admit m query operation_id recency = (m', t)" "asked i = Some query"
  shows "in_order m i m' t"
  using assms
  by (auto simp: md_admit_def md_start_def in_order_def entered_def transition_parts
      split: metadata_state.splits if_splits option.splits)

lemma update_current_queued [simp]: "queued_queries (mm_state (update_current f m)) = queued_queries (mm_state m)"
  by (cases "mm_state m") (simp_all add: update_current_def)

lemma idle_in_order: "fetched t = [] \<Longrightarrow> mt_disposition t \<noteq> MdQueued \<Longrightarrow> in_order m i m t"
  by (simp add: in_order_def entered_def split: option.split)

lemma refresh_in_order:
  assumes "md_refresh m query operation_id = (m1, t)" "asked i = Some query"
    and "queued_queries (mm_state m') = queued_queries (mm_state m1)"
  shows "in_order m i m' t"
  using admit_in_order [OF assms(1) [unfolded md_refresh_def] assms(2)] assms(3) by (simp add: in_order_def)

lemma invalidate_in_order:
  "md_invalidate m route observed_at operation_id = (m', t) \<Longrightarrow>
     in_order m (MdInvalidateBrokerRoute route observed_at operation_id) m' t"
  "md_invalidate_partition m proute observed_at operation_id = (m', t) \<Longrightarrow>
     in_order m (MdInvalidatePartitionRoute proute observed_at operation_id) m' t"
  by (auto simp: md_invalidate_def continue_controller_revocation_def md_invalidate_partition_def
      continue_partition_revocation_def transition_parts Let_def
      intro: idle_in_order refresh_in_order split: option.splits if_splits prod.splits)

lemma fail_in_order:
  "md_fail m operation_id followup = (m', t) \<Longrightarrow> asked i = None \<Longrightarrow> in_order m i m' t"
  by (auto simp: md_fail_def md_restart_def pop_query_refreshing in_order_def entered_def transition_parts
      split: metadata_state.splits if_splits option.splits list.splits)

lemma succeed_in_order:
  assumes "md_succeed m operation_id snapshot followup = (m', t)" "asked i = None"
  shows "in_order m i m' t"
proof (cases "\<exists>m1 failed. md_fail m operation_id followup = (m1, failed) \<and> m' = m1 \<and> fetched t = fetched failed \<and>
    mt_effects t = mt_effects failed")
  case True
  then obtain failed where f: "md_fail m operation_id followup = (m', failed)" "fetched t = fetched failed"
    "mt_effects t = mt_effects failed" by blast
  show ?thesis using fail_in_order [OF f(1) assms(2)] f(2,3) by (simp add: in_order_def entered_def assms(2))
next
  case False
  then show ?thesis
    using assms
    by (auto simp: md_succeed_def md_restart_def pop_query_refreshing in_order_def entered_def transition_parts Let_def
        split: metadata_state.splits if_splits option.splits list.splits prod.splits)
qed

lemma metadata_in_order: "in_order m i (fst (metadata_apply m i)) (snd (metadata_apply m i))"
proof -
  obtain m' t where step: "metadata_apply m i = (m', t)" by fastforce
  then have "in_order m i m' t"
    by (cases i)
       (simp_all add: md_resolve_def md_refresh_def admit_in_order invalidate_in_order succeed_in_order fail_in_order)
  then show ?thesis by (simp add: step)
qed

lemma metadata_run_in_order:
  assumes "MdGenerationExhausted \<notin> set (observed mt_effects metadata_apply m is)"
  shows "queued_queries (mm_state m) @ concat (map2 entered is (outputs metadata_apply m is)) =
    observed fetched metadata_apply m is @ queued_queries (mm_state (final metadata_apply m is))"
  using assms
proof (induction "is" arbitrary: m)
  case (Cons i js)
  have "queued_queries (mm_state m) @ entered i (snd (metadata_apply m i)) =
      fetched (snd (metadata_apply m i)) @ queued_queries (mm_state (fst (metadata_apply m i)))"
    using metadata_in_order [of m i] Cons.prems by (simp add: in_order_def)
  with Cons show ?case by (simp flip: append_assoc) (simp add: append_assoc)
qed simp

section \<open>Properties\<close>

definition sample_later_snapshot :: metadata_snapshot where
  "sample_later_snapshot =
     sample_snapshot\<lparr>ms_brokers := sample_directory\<lparr>bd_generation := 4\<rparr>,
       ms_controller := Some \<lparr>br_generation = 4, br_broker_id = 7, br_evidence = 5\<rparr>\<rparr>"

lemma sample_later_snapshot_built:
  "directory_with_evidence 4 5 sample_directory_entries broker_directory_limits_default =
     Inr (sample_directory\<lparr>bd_generation := 4\<rparr>)"
  "snapshot_try_with_topic_counts (sample_directory\<lparr>bd_generation := 4\<rparr>) (Some 7) sample_leader_set
     topic_counts_empty = Inr sample_later_snapshot"
  by code_simp+

lemma sample_snapshots_wf: "snapshot_wf sample_snapshot" "snapshot_wf sample_later_snapshot"
  using snapshot_try_wf(1) [OF sample_snapshot_built(3)] snapshot_try_wf(1) [OF sample_later_snapshot_built(2)]
    directory_with_evidence_Inr(1) [OF sample_directory_built]
    directory_with_evidence_Inr(1) [OF sample_later_snapshot_built(1)]
    leaders_try_from_iter_Inr(1) [OF sample_snapshot_built(1)] by simp_all

definition sample_metadata :: metadata_machine where
  "sample_metadata = metadata_with_query_limits 3 \<lparr>mql_pending_queries = 2\<rparr>"

text \<open>
  The controller is invalidated at stamp 5, and the refresh that follows answers with evidence 5,
  which is not newer.
\<close>

definition sample_refreshes :: "metadata_input list" where
  "sample_refreshes =
     [MdRefresh QueryCluster 1, MdRefreshSucceeded 1 sample_snapshot 2,
      MdInvalidateBrokerRoute \<lparr>br_generation = 3, br_broker_id = 7, br_evidence = 5\<rparr> 5 3,
      MdResolve (QueryTopic ''orders'') 4, MdRefreshSucceeded 3 sample_later_snapshot 5]"

lemma sample_serves: "metadata_current (final metadata_apply sample_metadata sample_refreshes) \<noteq> None"
  by code_simp

lemma sample_refreshes_ok: "list_all metadata_input_ok sample_refreshes"
  by (simp add: sample_refreshes_def sample_snapshots_wf)

text \<open>
  C16. A revoked route is never served on old evidence: once the machine has accepted an invalidation
  observed at some moment, the served snapshot has no controller, respectively no route to that
  partition, until a refresh of the cluster, respectively of that topic, is applied whose evidence
  is newer than the observation, however invalidations, refreshes and failures interleave.
\<close>

theorem metadata_revocations_honoured:
  assumes "list_all metadata_input_ok is"
    and "m = metadata_with_query_limits generation limits"
    and "metadata_current (final metadata_apply m is) = Some snapshot"
    and "x \<in> set (open_events revocation_answered (events metadata_events metadata_apply m is))"
  shows "case x of
      EvControllerRevoked t \<Rightarrow> ms_controller snapshot = None
    | EvPartitionRevoked topic p t \<Rightarrow> snapshot_partition_route snapshot topic p = None
    | EvAnswered query g e \<Rightarrow> True"
proof -
  have "metadata_recorded (events metadata_events metadata_apply m is) (final metadata_apply m is)"
    using metadata_record.run_records [OF metadata_new_recorded assms(1)] assms(2) by simp
  then have "covered (mm_revocations (final metadata_apply m is)) x"
    "honours (mm_revocations (final metadata_apply m is)) snapshot"
    using assms(3,4) by (auto simp: metadata_recorded_def metadata_wf_def)
  then show ?thesis by (cases x) (auto simp: honours_def)
qed

theorem metadata_revocations_honoured_witness:
  "map_option ms_controller (metadata_current (final metadata_apply sample_metadata sample_refreshes)) = Some None \<and>
   ms_controller sample_later_snapshot \<noteq> None"
proof -
  obtain s where s: "metadata_current (final metadata_apply sample_metadata sample_refreshes) = Some s"
    using sample_serves by blast
  have "EvControllerRevoked 5 \<in>
      set (open_events revocation_answered (events metadata_events metadata_apply sample_metadata sample_refreshes))"
    by code_simp
  from metadata_revocations_honoured [OF sample_refreshes_ok sample_metadata_def s this] s show ?thesis
    by (simp add: sample_later_snapshot_def)
qed

text \<open>
  C17. The machine serves nothing before the first applied answer and afterwards always serves the
  newest one: the generations of applied answers strictly increase, and the generation and evidence
  of the served snapshot are those of the last of them.
\<close>

theorem metadata_serves_newest:
  assumes "list_all metadata_input_ok is"
    and "m = metadata_with_query_limits generation limits"
    and "past = answers (events metadata_events metadata_apply m is)"
  shows "sorted_wrt (<) (map fst past) \<and>
    current_answer (final metadata_apply m is) = (if past = [] then None else Some (last past))"
proof -
  have "serves_newest [] m"
    using metadata_new_recorded [of generation limits]
    by (simp add: assms(2) serves_newest_def answers_def metadata_recorded_def current_answer_def metadata_current_def)
       (simp add: metadata_with_query_limits_def)
  from metadata_serving.run_records [OF this assms(1)] assms(3) show ?thesis
    by (simp add: serves_newest_def)
qed

theorem metadata_serves_newest_witness:
  "current_answer (final metadata_apply sample_metadata sample_refreshes) = Some (4, 5) \<and>
   sorted_wrt (<) [3, 4 :: metadata_generation]"
proof -
  have "answers (events metadata_events metadata_apply sample_metadata sample_refreshes) = [(3, 5), (4, 5)]"
    by code_simp
  from metadata_serves_newest [OF sample_refreshes_ok sample_metadata_def this [symmetric]] show ?thesis
    by simp
qed

text \<open>
  C18. Queries are fetched in the order they were accepted, none is lost and none is fetched twice, as
  long as the generations are not exhausted: the accepted queries are the fetched ones followed by
  those still queued.
\<close>

theorem metadata_queries_in_order:
  assumes "m = metadata_with_query_limits generation limits"
    and "MdGenerationExhausted \<notin> set (observed mt_effects metadata_apply m is)"
  shows "concat (map2 entered is (outputs metadata_apply m is)) =
    observed fetched metadata_apply m is @ queued_queries (mm_state (final metadata_apply m is))"
  using metadata_run_in_order [OF assms(2)] assms(1) by (simp add: metadata_with_query_limits_def)

theorem metadata_queries_in_order_witness:
  "[QueryCluster, QueryCluster, QueryTopic ''orders''] =
     observed fetched metadata_apply sample_metadata sample_refreshes @
     queued_queries (mm_state (final metadata_apply sample_metadata sample_refreshes))"
proof -
  have "MdGenerationExhausted \<notin> set (observed mt_effects metadata_apply sample_metadata sample_refreshes)"
    and "concat (map2 entered sample_refreshes (outputs metadata_apply sample_metadata sample_refreshes)) =
      [QueryCluster, QueryCluster, QueryTopic ''orders'']"
    by code_simp+
  with metadata_queries_in_order [OF sample_metadata_def, of sample_refreshes] show ?thesis by simp
qed

end
