(* ===== verification/Metadata_Owner.thy ===== *)
theory Metadata_Owner
  imports Metadata_Waiting Metadata_Safety
begin

text \<open>
  The metadata owner (\<open>src/reactor/metadata/\<close>): it drives the metadata machine, submits at most one
  fetch at a time through a broker, turns responses into snapshots, and keeps what waits for them.
  The broker is the trait \<open>BrokerRpc\<close>, given by its two operations on a state of its own; the outcome
  of the pending call is an argument of the turn that looks at it. A world is the owner with the
  broker, the call identities and the notices sent so far.
\<close>

section \<open>State\<close>

record metadata_limits =
  ml_broker_directory :: broker_directory_limits
  ml_partition_leaders :: partition_leader_limits
  ml_queries :: metadata_query_limits
  ml_partition_waiting_calls :: usize
  ml_partition_waiting_bytes :: usize
  ml_partition_admission_budget :: usize
  ml_invalidation_waiters :: usize
  ml_controller_waiting_calls :: usize
  ml_controller_waiting_bytes :: usize
  ml_controller_admission_budget :: usize
  ml_topic_view_waiters :: usize
  ml_topic_view_bytes :: usize
  ml_topic_view_admission_budget :: usize

datatype 'be metadata_owner_error =
    OwnerCallIdentityExhausted
  | OwnerOperationIdentityExhausted
  | OwnerGenerationExhausted
  | OwnerUnexpectedEffect
  | OwnerBroker 'be

record metadata_fetch =
  mf_operation_id :: operation_id
  mf_generation :: metadata_generation
  mf_evidence :: evidence_stamp
  mf_query :: metadata_query

record pending_metadata =
  pm_fetch :: metadata_fetch
  pm_call :: call_id

record 'v metadata_owner =
  mo_machine :: metadata_machine
  mo_limits :: metadata_limits
  mo_operation_ids :: "u64 option"
  mo_pending :: "pending_metadata option"
  mo_requested :: "metadata_fetch option"
  mo_waiters :: "'v waiting_partition_call scan_room"
  mo_controller_waiters :: "'v waiting_controller_call scan_room"
  mo_topic_views :: "waiting_topic_view scan_room"
  mo_invalidations :: metadata_invalidations
  mo_initial_refresh :: bool

definition metadata_owner_new :: "metadata_limits \<Rightarrow> 'v metadata_owner" where
  "metadata_owner_new limits =
     \<lparr>mo_machine = metadata_with_query_limits 1 (ml_queries limits), mo_limits = limits,
      mo_operation_ids = Some 1, mo_pending = None, mo_requested = None,
      mo_waiters = room_new (ml_partition_waiting_calls limits) (ml_partition_waiting_bytes limits),
      mo_controller_waiters = room_new (ml_controller_waiting_calls limits) (ml_controller_waiting_bytes limits),
      mo_topic_views = room_new (ml_topic_view_waiters limits) (ml_topic_view_bytes limits),
      mo_invalidations = invalidations_new (ml_invalidation_waiters limits),
      mo_initial_refresh = True\<rparr>"

record ('b, 'be) broker_rpc =
  rpc_is_ready :: "'b \<Rightarrow> bool"
  rpc_submit :: "'b \<Rightarrow> call_id \<Rightarrow> metadata_query \<Rightarrow> moment \<Rightarrow> 'b \<times> 'be option"

record ('v, 'k, 'en, 'de, 'b) owner_world =
  ow_owner :: "'v metadata_owner"
  ow_broker :: 'b
  ow_call_ids :: u64
  ow_notices :: "('k, 'v, 'en, 'de) owner_notice list"

definition upd_owner ::
    "('v metadata_owner \<Rightarrow> 'v metadata_owner) \<Rightarrow> ('v, 'k, 'en, 'de, 'b) owner_world \<Rightarrow>
     ('v, 'k, 'en, 'de, 'b) owner_world" where
  "upd_owner f w = w\<lparr>ow_owner := f (ow_owner w)\<rparr>"

definition notify ::
    "('k, 'v, 'en, 'de) owner_notice list \<Rightarrow> ('v, 'k, 'en, 'de, 'b) owner_world \<Rightarrow>
     ('v, 'k, 'en, 'de, 'b) owner_world" where
  "notify out w = w\<lparr>ow_notices := ow_notices w @ out\<rparr>"

section \<open>Identities and submission\<close>

definition call_ids_allocate :: "u64 \<Rightarrow> (u64 \<times> call_id) option" where
  "call_ids_allocate next_id = map_option (\<lambda>after. (after, next_id)) (checked_add next_id 1)"

definition operation_ids_reserve :: "u64 option \<Rightarrow> u64 option \<times> operation_id option" where
  "operation_ids_reserve ids =
     (case ids of None \<Rightarrow> (None, None) | Some current \<Rightarrow> (checked_add current 1, Some current))"

definition reserve_operation ::
    "('v, 'k, 'en, 'de, 'b) owner_world \<Rightarrow>
     ('v, 'k, 'en, 'de, 'b) owner_world \<times> ('be metadata_owner_error + operation_id)" where
  "reserve_operation w =
     (let (ids, reserved) = operation_ids_reserve (mo_operation_ids (ow_owner w)) in
      (upd_owner (\<lambda>ow. ow\<lparr>mo_operation_ids := ids\<rparr>) w,
       case reserved of None \<Rightarrow> Inl OwnerOperationIdentityExhausted | Some operation_id \<Rightarrow> Inr operation_id))"

definition owner_submit ::
    "('b, 'be) broker_rpc \<Rightarrow> ('v, 'k, 'en, 'de, 'b) owner_world \<Rightarrow> metadata_fetch \<Rightarrow> moment \<Rightarrow>
     ('v, 'k, 'en, 'de, 'b) owner_world \<times> ('be metadata_owner_error + unit)" where
  "owner_submit rpc w fetch now =
     (if mo_pending (ow_owner w) \<noteq> None then (w, Inl OwnerUnexpectedEffect)
      else case call_ids_allocate (ow_call_ids w) of
        None \<Rightarrow> (w, Inl OwnerCallIdentityExhausted)
      | Some (call_ids, call_id) \<Rightarrow>
          (let (broker, failure) = rpc_submit rpc (ow_broker w) call_id (mf_query fetch) now;
               w' = w\<lparr>ow_call_ids := call_ids, ow_broker := broker\<rparr>
           in case failure of
                Some e \<Rightarrow> (w', Inl (OwnerBroker e))
              | None \<Rightarrow>
                  (upd_owner (\<lambda>ow. ow\<lparr>mo_pending := Some \<lparr>pm_fetch = fetch, pm_call = call_id\<rparr>\<rparr>) w', Inr ())))"

text \<open>\<open>has_broker\<close> tells whether the caller passed a broker.\<close>

fun owner_interpret ::
    "('b, 'be) broker_rpc \<Rightarrow> bool \<Rightarrow> moment \<Rightarrow> evidence_stamp \<Rightarrow> ('v, 'k, 'en, 'de, 'b) owner_world \<Rightarrow>
     metadata_effect list \<Rightarrow> bool \<Rightarrow>
     ('v, 'k, 'en, 'de, 'b) owner_world \<times> ('be metadata_owner_error + bool)" where
  "owner_interpret rpc has_broker now evidence w [] progress = (w, Inr progress)"
| "owner_interpret rpc has_broker now evidence w (MdFetch operation_id generation query # effects) progress =
     (let fetch = \<lparr>mf_operation_id = operation_id, mf_generation = generation, mf_evidence = evidence,
                   mf_query = query\<rparr>
      in if has_broker \<and> rpc_is_ready rpc (ow_broker w)
           then (case owner_submit rpc w fetch now of
                   (w', Inl e) \<Rightarrow> (w', Inl e)
                 | (w', Inr _) \<Rightarrow> owner_interpret rpc has_broker now evidence w' effects True)
         else let w' = upd_owner (\<lambda>ow. ow\<lparr>mo_requested := Some fetch\<rparr>) w in
           if mo_requested (ow_owner w) \<noteq> None then (w', Inl OwnerUnexpectedEffect)
           else owner_interpret rpc has_broker now evidence w' effects True)"
| "owner_interpret rpc has_broker now evidence w (MdGenerationExhausted # effects) progress =
     (w, Inl OwnerGenerationExhausted)"

section \<open>Applying the machine\<close>

definition machine_apply ::
    "('v, 'k, 'en, 'de, 'b) owner_world \<Rightarrow> metadata_input \<Rightarrow>
     ('v, 'k, 'en, 'de, 'b) owner_world \<times> metadata_transition" where
  "machine_apply w i =
     (let (machine, transition) = metadata_apply (mo_machine (ow_owner w)) i in
      (upd_owner (\<lambda>ow. ow\<lparr>mo_machine := machine\<rparr>) w, transition))"

definition begin_scans :: "'v metadata_owner \<Rightarrow> 'v metadata_owner" where
  "begin_scans ow =
     ow\<lparr>mo_waiters := room_begin_scan (mo_waiters ow),
        mo_controller_waiters := room_begin_scan (mo_controller_waiters ow),
        mo_topic_views := room_begin_scan (mo_topic_views ow),
        mo_invalidations := invalidations_begin_scan (mo_invalidations ow)\<rparr>"

section \<open>Completed fetches\<close>

definition query_topic_error :: "metadata_query \<Rightarrow> topic_view_error \<Rightarrow> (topic_name \<times> topic_view_error) option" where
  "query_topic_error query error = (case query of QueryCluster \<Rightarrow> None | QueryTopic topic \<Rightarrow> Some (topic, error))"

definition response_topic_error ::
    "metadata_query \<Rightarrow> metadata_response \<Rightarrow> (topic_name \<times> topic_view_error) option" where
  "response_topic_error query response =
     (case query of
        QueryCluster \<Rightarrow> None
      | QueryTopic expected \<Rightarrow>
          (if mre_error_code response \<noteq> 0 then Some (expected, TvBroker (mre_error_code response))
           else case mre_topics response of
             [topic] \<Rightarrow>
               (if mrt_name topic \<noteq> Some expected then Some (expected, TvMalformedMetadata)
                else if mrt_error_code topic \<noteq> 0 then Some (expected, TvBroker (mrt_error_code topic))
                else None)
           | _ \<Rightarrow> Some (expected, TvMalformedMetadata)))"

definition fetch_provenance :: "metadata_fetch \<Rightarrow> metadata_response_provenance" where
  "fetch_provenance fetch =
     \<lparr>mpr_generation = mf_generation fetch, mpr_evidence = mf_evidence fetch,
      mpr_operation_id = mf_operation_id fetch, mpr_query = mf_query fetch\<rparr>"

definition failure_input ::
    "('v, 'k, 'en, 'de, 'b) owner_world \<Rightarrow> operation_id \<Rightarrow>
     ('v, 'k, 'en, 'de, 'b) owner_world \<times> ('be metadata_owner_error + metadata_input)" where
  "failure_input w operation_id =
     (case reserve_operation w of
        (w', Inl e) \<Rightarrow> (w', Inl e)
      | (w', Inr followup) \<Rightarrow> (w', Inr (MdRefreshFailed operation_id followup)))"

definition success_input ::
    "('v, 'k, 'en, 'de, 'b) owner_world \<Rightarrow> metadata_fetch \<Rightarrow> metadata_response \<Rightarrow>
     ('v, 'k, 'en, 'de, 'b) owner_world \<times>
     ('be metadata_owner_error + metadata_input \<times> (topic_name \<times> topic_view_error) option)" where
  "success_input w fetch response =
     (let broker_terminal = response_topic_error (mf_query fetch) response;
          limits = mo_limits (ow_owner w)
      in case snapshot_from_response response (fetch_provenance fetch)
                (metadata_current (mo_machine (ow_owner w)))
                (ml_broker_directory limits) (ml_partition_leaders limits) of
           Inl _ \<Rightarrow>
             (let terminal = (case broker_terminal of
                    Some t \<Rightarrow> Some t
                  | None \<Rightarrow> query_topic_error (mf_query fetch) TvMalformedMetadata)
              in case failure_input w (mf_operation_id fetch) of
                   (w', Inl e) \<Rightarrow> (w', Inl e)
                 | (w', Inr i) \<Rightarrow> (w', Inr (i, terminal)))
         | Inr snapshot \<Rightarrow>
             (case reserve_operation w of
                (w', Inl e) \<Rightarrow> (w', Inl e)
              | (w', Inr followup) \<Rightarrow>
                  (w', Inr (MdRefreshSucceeded (mf_operation_id fetch) snapshot followup, broker_terminal))))"

text \<open>The result of the pending call: a response, or any failure of the request or its completion.\<close>

datatype fetch_result = FetchAnswered metadata_response | FetchFailed

definition completed_input ::
    "('v, 'k, 'en, 'de, 'b) owner_world \<Rightarrow> metadata_fetch \<Rightarrow> fetch_result \<Rightarrow>
     ('v, 'k, 'en, 'de, 'b) owner_world \<times>
     ('be metadata_owner_error + metadata_input \<times> (topic_name \<times> topic_view_error) option)" where
  "completed_input w fetch result =
     (case result of
        FetchAnswered response \<Rightarrow> success_input w fetch response
      | FetchFailed \<Rightarrow>
          (case failure_input w (mf_operation_id fetch) of
             (w', Inl e) \<Rightarrow> (w', Inl e)
           | (w', Inr i) \<Rightarrow> (w', Inr (i, query_topic_error (mf_query fetch) TvRefreshFailed))))"

definition observe_completion ::
    "('b, 'be) broker_rpc \<Rightarrow> ('v, 'k, 'en, 'de, 'b) owner_world \<Rightarrow> moment \<Rightarrow> evidence_stamp \<Rightarrow>
     fetch_result option \<Rightarrow> ('v, 'k, 'en, 'de, 'b) owner_world \<times> ('be metadata_owner_error + bool)" where
  "observe_completion rpc w now evidence result =
     (case (mo_pending (ow_owner w), result) of
        (Some pending, Some finished) \<Rightarrow>
          (case completed_input (upd_owner (\<lambda>ow. ow\<lparr>mo_pending := None\<rparr>) w) (pm_fetch pending) finished of
             (w', Inl e) \<Rightarrow> (w', Inl e)
           | (w', Inr (i, topic_terminal)) \<Rightarrow>
               (let w' = (case topic_terminal of
                      None \<Rightarrow> w'
                    | Some (topic, terminal) \<Rightarrow>
                        upd_owner (\<lambda>ow. ow\<lparr>mo_topic_views := topic_mark_terminal (mo_topic_views ow) topic
                          (mf_evidence (pm_fetch pending)) terminal\<rparr>) w');
                    (w', transition) = machine_apply w' i
                in case owner_interpret rpc True now evidence w' (mt_effects transition) False of
                     (w', Inl e) \<Rightarrow> (w', Inl e)
                   | (w', Inr _) \<Rightarrow> (w', Inr True)))
      | _ \<Rightarrow> (w, Inr False))"

definition drive_requested ::
    "('b, 'be) broker_rpc \<Rightarrow> ('v, 'k, 'en, 'de, 'b) owner_world \<Rightarrow> moment \<Rightarrow>
     ('v, 'k, 'en, 'de, 'b) owner_world \<times> ('be metadata_owner_error + bool)" where
  "drive_requested rpc w now =
     (case mo_requested (ow_owner w) of
        Some fetch \<Rightarrow>
          (if rpc_is_ready rpc (ow_broker w)
             then (case owner_submit rpc
                          (upd_owner (\<lambda>ow. ow\<lparr>mo_requested := None, mo_initial_refresh := False\<rparr>) w) fetch now of
                     (w', Inl e) \<Rightarrow> (w', Inl e)
                   | (w', Inr _) \<Rightarrow> (w', Inr True))
           else (w, Inr False))
      | None \<Rightarrow> (w, Inr False))"

definition drive_initial ::
    "('b, 'be) broker_rpc \<Rightarrow> ('v, 'k, 'en, 'de, 'b) owner_world \<Rightarrow> moment \<Rightarrow> evidence_stamp \<Rightarrow>
     ('v, 'k, 'en, 'de, 'b) owner_world \<times> ('be metadata_owner_error + bool)" where
  "drive_initial rpc w now evidence =
     (if mo_initial_refresh (ow_owner w) \<and> rpc_is_ready rpc (ow_broker w)
        then (case reserve_operation (upd_owner (\<lambda>ow. ow\<lparr>mo_initial_refresh := False\<rparr>) w) of
                (w', Inl e) \<Rightarrow> (w', Inl e)
              | (w', Inr operation_id) \<Rightarrow>
                  (let (w'', transition) = machine_apply w' (MdRefresh QueryCluster operation_id)
                   in owner_interpret rpc True now evidence w'' (mt_effects transition) False))
      else (w, Inr False))"

definition owner_drive ::
    "('b, 'be) broker_rpc \<Rightarrow> ('v, 'k, 'en, 'de, 'b) owner_world \<Rightarrow> moment \<Rightarrow> evidence_stamp \<Rightarrow>
     fetch_result option \<Rightarrow> ('v, 'k, 'en, 'de, 'b) owner_world \<times> ('be metadata_owner_error + bool)" where
  "owner_drive rpc w now evidence result =
     (case drive_requested rpc w now of
        (w', Inl e) \<Rightarrow> (w', Inl e)
      | (w', Inr submitted) \<Rightarrow>
          (case observe_completion rpc w' now evidence result of
             (w'', Inl e) \<Rightarrow> (w'', Inl e)
           | (w'', Inr completed) \<Rightarrow>
               (let progress = submitted \<or> completed;
                    w'' = (if progress then upd_owner begin_scans w'' else w'')
                in case drive_initial rpc w'' now evidence of
                     (w''', Inl e) \<Rightarrow> (w''', Inl e)
                   | (w''', Inr started) \<Rightarrow> (w''', Inr (progress \<or> started)))))"

section \<open>Admitting what waits\<close>

text \<open>The common end of a wait: the effects of the transition are interpreted.\<close>

definition interpret_unit ::
    "('b, 'be) broker_rpc \<Rightarrow> bool \<Rightarrow> moment \<Rightarrow> evidence_stamp \<Rightarrow> ('v, 'k, 'en, 'de, 'b) owner_world \<Rightarrow>
     metadata_transition \<Rightarrow> ('v, 'k, 'en, 'de, 'b) owner_world \<times> ('be metadata_owner_error + unit)" where
  "interpret_unit rpc has_broker now evidence w transition =
     (case owner_interpret rpc has_broker now evidence w (mt_effects transition) False of
        (w', Inl e) \<Rightarrow> (w', Inl e)
      | (w', Inr _) \<Rightarrow> (w', Inr ()))"

definition reject_query_capacity ::
    "bool \<Rightarrow> ('v, 'k, 'en, 'de, 'b) owner_world \<Rightarrow> call_id \<Rightarrow>
     (('v, 'k, 'en, 'de, 'b) owner_world \<times> ('be metadata_owner_error + unit)) option" where
  "reject_query_capacity dbg w call_id =
     (case room_retract_last dbg (\<lambda>x. er_call_id (wp_request x) = call_id) (mo_waiters (ow_owner w)) of
        None \<Rightarrow> None
      | Some (room, retracted) \<Rightarrow>
          (let w' = upd_owner (\<lambda>ow. ow\<lparr>mo_waiters := room\<rparr>) w in
           case retracted of
             None \<Rightarrow> Some (w', Inl OwnerUnexpectedEffect)
           | Some x \<Rightarrow>
               Some (notify [NoticeFailed (er_call_id (wp_request x)) (ReqMetadataQueryCapacityReached
                       (mql_pending_queries (ml_queries (mo_limits (ow_owner w)))))] w', Inr ())))"

definition wait_for_partition ::
    "('b, 'be) broker_rpc \<Rightarrow> bool \<Rightarrow> (topic_name \<Rightarrow> usize) \<Rightarrow> bool \<Rightarrow> ('v, 'k, 'en, 'de, 'b) owner_world \<Rightarrow>
     topic_name \<Rightarrow> partition_id \<Rightarrow> 'v erased_request \<Rightarrow> moment \<Rightarrow> evidence_stamp \<Rightarrow>
     (('v, 'k, 'en, 'de, 'b) owner_world \<times> ('be metadata_owner_error + unit)) option" where
  "wait_for_partition rpc dbg heap_bytes has_broker w topic part request now evidence =
     (case reserve_operation w of
        (w', Inl e) \<Rightarrow> Some (w', Inl e)
      | (w', Inr operation_id) \<Rightarrow>
          (case partition_admit heap_bytes (mo_waiters (ow_owner w')) topic part request now of
             None \<Rightarrow> None
           | Some (room, notices, admitted) \<Rightarrow>
               (let w' = notify notices (upd_owner (\<lambda>ow. ow\<lparr>mo_waiters := room\<rparr>) w') in
                if \<not> admitted then Some (w', Inr ())
                else let (w'', transition) = machine_apply w' (MdResolve (QueryTopic topic) operation_id) in
                  if mt_disposition transition = MdQueryCapacityReached
                    then reject_query_capacity dbg w'' (er_call_id request)
                  else Some (interpret_unit rpc has_broker now evidence w'' transition))))"

definition drain_partition_waiters ::
    "bool \<Rightarrow> ('v, 'k, 'en, 'de, 'b) owner_world \<Rightarrow> moment \<Rightarrow>
     (('v, 'k, 'en, 'de, 'b) owner_world \<times> (partition_route, 'v waiting_partition_call) wait_progress) option" where
  "drain_partition_waiters dbg w now =
     (case partition_scan dbg (mo_waiters (ow_owner w)) (mo_machine (ow_owner w)) now
             (ml_partition_admission_budget (mo_limits (ow_owner w))) of
        None \<Rightarrow> None
      | Some (room, notices, progress) \<Rightarrow>
          Some (notify notices (upd_owner (\<lambda>ow. ow\<lparr>mo_waiters := room\<rparr>) w), progress))"

definition resolve_coordinator_directory ::
    "('b, 'be) broker_rpc \<Rightarrow> bool \<Rightarrow> ('v, 'k, 'en, 'de, 'b) owner_world \<Rightarrow> moment \<Rightarrow> evidence_stamp \<Rightarrow>
     ('v, 'k, 'en, 'de, 'b) owner_world \<times> ('be metadata_owner_error + unit)" where
  "resolve_coordinator_directory rpc has_broker w now evidence =
     (case reserve_operation w of
        (w', Inl e) \<Rightarrow> (w', Inl e)
      | (w', Inr operation_id) \<Rightarrow>
          (let (w'', transition) = machine_apply w' (MdResolve QueryCluster operation_id)
           in interpret_unit rpc has_broker now evidence w'' transition))"

definition reject_controller_query_capacity ::
    "bool \<Rightarrow> ('v, 'k, 'en, 'de, 'b) owner_world \<Rightarrow> call_id \<Rightarrow>
     (('v, 'k, 'en, 'de, 'b) owner_world \<times> ('be metadata_owner_error + unit)) option" where
  "reject_controller_query_capacity dbg w call_id =
     (case room_retract_last dbg (\<lambda>x. er_call_id (wcc_request x) = call_id) (mo_controller_waiters (ow_owner w)) of
        None \<Rightarrow> None
      | Some (room, retracted) \<Rightarrow>
          (let w' = upd_owner (\<lambda>ow. ow\<lparr>mo_controller_waiters := room\<rparr>) w in
           case retracted of
             None \<Rightarrow> Some (w', Inl OwnerUnexpectedEffect)
           | Some x \<Rightarrow>
               Some (notify [NoticeFailed (er_call_id (wcc_request x)) (ReqMetadataQueryCapacityReached
                       (mql_pending_queries (ml_queries (mo_limits (ow_owner w)))))] w', Inr ())))"

definition wait_for_cluster_route ::
    "('b, 'be) broker_rpc \<Rightarrow> bool \<Rightarrow> bool \<Rightarrow> ('v, 'k, 'en, 'de, 'b) owner_world \<Rightarrow> cluster_route_target \<Rightarrow>
     'v erased_request \<Rightarrow> moment \<Rightarrow> evidence_stamp \<Rightarrow>
     (('v, 'k, 'en, 'de, 'b) owner_world \<times> ('be metadata_owner_error + unit)) option" where
  "wait_for_cluster_route rpc dbg has_broker w target request now evidence =
     (case reserve_operation w of
        (w', Inl e) \<Rightarrow> Some (w', Inl e)
      | (w', Inr operation_id) \<Rightarrow>
          (case controller_admit (mo_controller_waiters (ow_owner w')) target request now of
             None \<Rightarrow> None
           | Some (room, notices, admitted) \<Rightarrow>
               (let w' = notify notices (upd_owner (\<lambda>ow. ow\<lparr>mo_controller_waiters := room\<rparr>) w') in
                if \<not> admitted then Some (w', Inr ())
                else let (w'', transition) = machine_apply w' (MdResolve QueryCluster operation_id) in
                  if mt_disposition transition = MdQueryCapacityReached
                    then reject_controller_query_capacity dbg w'' (er_call_id request)
                  else Some (interpret_unit rpc has_broker now evidence w'' transition))))"

definition drain_controller_waiters ::
    "bool \<Rightarrow> ('v, 'k, 'en, 'de, 'b) owner_world \<Rightarrow> moment \<Rightarrow>
     (('v, 'k, 'en, 'de, 'b) owner_world \<times> (broker_route, 'v waiting_controller_call) wait_progress) option" where
  "drain_controller_waiters dbg w now =
     (case controller_scan dbg (mo_controller_waiters (ow_owner w)) (mo_machine (ow_owner w)) now
             (ml_controller_admission_budget (mo_limits (ow_owner w))) of
        None \<Rightarrow> None
      | Some (room, notices, progress) \<Rightarrow>
          Some (notify notices (upd_owner (\<lambda>ow. ow\<lparr>mo_controller_waiters := room\<rparr>) w), progress))"

definition wait_for_topic_view ::
    "('b, 'be) broker_rpc \<Rightarrow> bool \<Rightarrow> bool \<Rightarrow> ('v, 'k, 'en, 'de, 'b) owner_world \<Rightarrow> topic_view_wait \<Rightarrow>
     moment \<Rightarrow> evidence_stamp \<Rightarrow>
     (('v, 'k, 'en, 'de, 'b) owner_world \<times> ('be metadata_owner_error + unit)) option" where
  "wait_for_topic_view rpc dbg has_broker w waiting now evidence =
     (let topic = tvw_topic waiting; query = QueryTopic topic in
      case reserve_operation w of
        (w', Inl e) \<Rightarrow> Some (w', Inl e)
      | (w', Inr operation_id) \<Rightarrow>
          (case topic_admit (mo_topic_views (ow_owner w')) waiting of
             None \<Rightarrow> None
           | Some (room, notices, admitted) \<Rightarrow>
               (let w' = notify notices (upd_owner (\<lambda>ow. ow\<lparr>mo_topic_views := room\<rparr>) w') in
                if \<not> admitted then Some (w', Inr ())
                else let (w'', transition) = machine_apply w'
                           (if requires_refresh (tvw_requirement waiting)
                              then MdRefresh query operation_id else MdResolve query operation_id)
                  in if mt_disposition transition = MdQueryCapacityReached
                    then (case room_retract_last dbg (\<lambda>x. wtv_topic x = topic) (mo_topic_views (ow_owner w'')) of
                            None \<Rightarrow> None
                          | Some (room, retracted) \<Rightarrow>
                              (let w3 = upd_owner (\<lambda>ow. ow\<lparr>mo_topic_views := room\<rparr>) w'' in
                               case retracted of
                                 None \<Rightarrow> Some (w3, Inl OwnerUnexpectedEffect)
                               | Some x \<Rightarrow>
                                   Some (notify [NoticeTopicView (wtv_completion x) (Inl (TvQueryCapacityReached
                                     (mql_pending_queries (ml_queries (mo_limits (ow_owner w''))))))] w3, Inr ())))
                  else Some (interpret_unit rpc has_broker now evidence w'' transition))))"

definition drain_topic_view_waiters ::
    "bool \<Rightarrow> (usize \<Rightarrow> bool) \<Rightarrow> ('v, 'k, 'en, 'de, 'b) owner_world \<Rightarrow> moment \<Rightarrow>
     (('v, 'k, 'en, 'de, 'b) owner_world \<times> bool \<times> bool) option" where
  "drain_topic_view_waiters dbg reserves w now =
     (case topic_scan dbg reserves (mo_topic_views (ow_owner w)) (mo_machine (ow_owner w)) now
             (ml_topic_view_admission_budget (mo_limits (ow_owner w))) of
        None \<Rightarrow> None
      | Some (room, notices, progress) \<Rightarrow>
          Some (notify notices (upd_owner (\<lambda>ow. ow\<lparr>mo_topic_views := room\<rparr>) w), progress))"

section \<open>Invalidations\<close>

definition waits_for_evidence :: "metadata_disposition \<Rightarrow> bool" where
  "waits_for_evidence d \<longleftrightarrow> d = MdApplied \<or> d = MdQueued \<or> d = MdCoalesced"

text \<open>The dispositions that carry evidence are unreachable here; the source panics on them.\<close>

fun immediate_disposition :: "metadata_disposition \<Rightarrow> invalidation_disposition option" where
  "immediate_disposition MdIgnoredStale = Some InvIgnoredStale"
| "immediate_disposition MdQueryCapacityReached = Some InvUnavailable"
| "immediate_disposition MdRejectedLeaderEpochRegression = Some InvUnavailable"
| "immediate_disposition MdApplied = None"
| "immediate_disposition MdQueued = None"
| "immediate_disposition MdCoalesced = None"

text \<open>Recording the completion of an accepted invalidation, or answering it at once.\<close>

definition record_invalidation ::
    "(invalidation_target \<Rightarrow> bool) \<Rightarrow> invalidation_target \<Rightarrow> completion_id \<Rightarrow> metadata_disposition \<Rightarrow>
     ('v, 'k, 'en, 'de, 'b) owner_world \<Rightarrow> ('v, 'k, 'en, 'de, 'b) owner_world option" where
  "record_invalidation matches target completion disposition w =
     (if waits_for_evidence disposition then
        (case invalidations_join matches completion (mo_invalidations (ow_owner w)) of
           (v, JoinJoined) \<Rightarrow> Some (upd_owner (\<lambda>ow. ow\<lparr>mo_invalidations := v\<rparr>) w)
         | (v, JoinFull) \<Rightarrow> Some (notify [NoticeInvalidation completion InvCapacityReached] w)
         | (v, JoinMissing) \<Rightarrow>
             (if invalidations_has_capacity v
                then Some (upd_owner (\<lambda>ow. ow\<lparr>mo_invalidations := invalidations_push target completion v\<rparr>) w)
              else Some (notify [NoticeInvalidation completion InvCapacityReached] w)))
      else map_option (\<lambda>d. notify [NoticeInvalidation completion d] w) (immediate_disposition disposition))"

definition owner_invalidate ::
    "('b, 'be) broker_rpc \<Rightarrow> ('v, 'k, 'en, 'de, 'b) owner_world \<Rightarrow> (operation_id \<Rightarrow> metadata_input) \<Rightarrow>
     (invalidation_target \<Rightarrow> bool) \<Rightarrow> invalidation_target \<Rightarrow> completion_id \<Rightarrow> moment \<Rightarrow> evidence_stamp \<Rightarrow>
     (('v, 'k, 'en, 'de, 'b) owner_world \<times> ('be metadata_owner_error + unit)) option" where
  "owner_invalidate rpc w input_of matches target completion now evidence =
     (case reserve_operation w of
        (w', Inl e) \<Rightarrow> Some (w', Inl e)
      | (w', Inr operation_id) \<Rightarrow>
          (let (w'', transition) = machine_apply w' (input_of operation_id) in
           map_option (\<lambda>w3. interpret_unit rpc True now evidence w3 transition)
             (record_invalidation matches target completion (mt_disposition transition) w'')))"

definition invalidate_broker_route ::
    "('b, 'be) broker_rpc \<Rightarrow> ('v, 'k, 'en, 'de, 'b) owner_world \<Rightarrow> broker_route \<Rightarrow> outcome_stamp \<Rightarrow>
     completion_id \<Rightarrow> moment \<Rightarrow> evidence_stamp \<Rightarrow>
     (('v, 'k, 'en, 'de, 'b) owner_world \<times> ('be metadata_owner_error + unit)) option" where
  "invalidate_broker_route rpc w route observed_at completion now evidence =
     owner_invalidate rpc w (MdInvalidateBrokerRoute route observed_at) (matches_controller route)
       (InvController route) completion now evidence"

definition invalidate_partition_route ::
    "('b, 'be) broker_rpc \<Rightarrow> ('v, 'k, 'en, 'de, 'b) owner_world \<Rightarrow> partition_route \<Rightarrow> outcome_stamp \<Rightarrow>
     completion_id \<Rightarrow> moment \<Rightarrow> evidence_stamp \<Rightarrow>
     (('v, 'k, 'en, 'de, 'b) owner_world \<times> ('be metadata_owner_error + unit)) option" where
  "invalidate_partition_route rpc w route observed_at completion now evidence =
     owner_invalidate rpc w (MdInvalidatePartitionRoute route observed_at) (matches_partition route)
       (InvPartition route) completion now evidence"

definition drain_invalidation_waiters ::
    "bool \<Rightarrow> ('v, 'k, 'en, 'de, 'b) owner_world \<Rightarrow> (('v, 'k, 'en, 'de, 'b) owner_world \<times> bool) option" where
  "drain_invalidation_waiters dbg w =
     map_option (\<lambda>(v, notices, progress).
         (notify notices (upd_owner (\<lambda>ow. ow\<lparr>mo_invalidations := v\<rparr>) w), progress))
       (invalidations_scan dbg (mo_invalidations (ow_owner w)) (mo_machine (ow_owner w))
         (ml_partition_admission_budget (mo_limits (ow_owner w))))"

section \<open>The end\<close>

definition fail_waiters ::
    "('v, 'k, 'en, 'de, 'b) owner_world \<Rightarrow> ('k, 'v, 'en, 'de) request_error \<Rightarrow>
     ('v, 'k, 'en, 'de, 'b) owner_world" where
  "fail_waiters w failure =
     (let ow = ow_owner w;
          (controllers, cs) = room_fail_all (mo_controller_waiters ow);
          (partitions, ps) = room_fail_all (mo_waiters ow);
          (views, vs) = room_fail_all (mo_topic_views ow);
          (invalidations, out) = invalidations_fail_all (mo_invalidations ow)
      in notify
           (map (\<lambda>x. NoticeFailed (er_call_id (wcc_request x)) failure) cs @
            map (\<lambda>x. NoticeFailed (er_call_id (wp_request x)) failure) ps @
            map (\<lambda>x. NoticeTopicView (wtv_completion x) (Inl TvDraining)) vs @ out)
           (w\<lparr>ow_owner := ow\<lparr>mo_controller_waiters := controllers, mo_waiters := partitions,
              mo_topic_views := views, mo_invalidations := invalidations\<rparr>\<rparr>))"

definition has_pending_wait_scan :: "'v metadata_owner \<Rightarrow> bool" where
  "has_pending_wait_scan ow \<longleftrightarrow>
     room_has_pending_scan (mo_controller_waiters ow) \<or> room_has_pending_scan (mo_waiters ow) \<or>
     room_has_pending_scan (mo_topic_views ow) \<or> mi_scan_remaining (mo_invalidations ow) \<noteq> 0"

section \<open>The owner as a machine\<close>

datatype 'v owner_op =
    OpDrive moment evidence_stamp "fetch_result option"
  | OpWaitPartition bool topic_name partition_id "'v erased_request" moment evidence_stamp
  | OpWaitCluster bool cluster_route_target "'v erased_request" moment evidence_stamp
  | OpWaitTopicView bool topic_view_wait moment evidence_stamp
  | OpResolveDirectory bool moment evidence_stamp
  | OpInvalidateBroker broker_route outcome_stamp completion_id moment evidence_stamp
  | OpInvalidatePartition partition_route outcome_stamp completion_id moment evidence_stamp
  | OpDrainPartitions moment
  | OpDrainControllers moment
  | OpDrainTopicViews moment
  | OpDrainInvalidations
  | OpFailWaiters

text \<open>What an operation hands to the caller besides notices: routed calls, or an error.\<close>

datatype ('v, 'be) owner_reply =
    ReplyDone
  | ReplyPartitions "(partition_route \<times> 'v waiting_partition_call) list"
  | ReplyControllers "(broker_route \<times> 'v waiting_controller_call) list"
  | ReplyError "'be metadata_owner_error"
  | ReplyPanic

definition reply_of ::
    "('v, 'k, 'en, 'de, 'b) owner_world \<times> ('be metadata_owner_error + 'x) \<Rightarrow>
     ('v, 'k, 'en, 'de, 'b) owner_world \<times> ('v, 'be) owner_reply" where
  "reply_of r = (fst r, case snd r of Inl e \<Rightarrow> ReplyError e | Inr _ \<Rightarrow> ReplyDone)"

definition or_panic ::
    "('v, 'k, 'en, 'de, 'b) owner_world \<Rightarrow>
     (('v, 'k, 'en, 'de, 'b) owner_world \<times> ('v, 'be) owner_reply) option \<Rightarrow>
     ('v, 'k, 'en, 'de, 'b) owner_world \<times> ('v, 'be) owner_reply" where
  "or_panic w r = (case r of None \<Rightarrow> (w, ReplyPanic) | Some x \<Rightarrow> x)"

fun owner_apply ::
    "('b, 'be) broker_rpc \<Rightarrow> bool \<Rightarrow> (topic_name \<Rightarrow> usize) \<Rightarrow> (usize \<Rightarrow> bool) \<Rightarrow>
     ('k, 'v, 'en, 'de) request_error \<Rightarrow> ('v, 'k, 'en, 'de, 'b) owner_world \<Rightarrow> 'v owner_op \<Rightarrow>
     ('v, 'k, 'en, 'de, 'b) owner_world \<times> ('v, 'be) owner_reply" where
  "owner_apply rpc dbg heap reserves failure w (OpDrive now evidence result) =
     reply_of (owner_drive rpc w now evidence result)"
| "owner_apply rpc dbg heap reserves failure w (OpWaitPartition has_broker topic part request now evidence) =
     or_panic w (map_option reply_of
       (wait_for_partition rpc dbg heap has_broker w topic part request now evidence))"
| "owner_apply rpc dbg heap reserves failure w (OpWaitCluster has_broker target request now evidence) =
     or_panic w (map_option reply_of (wait_for_cluster_route rpc dbg has_broker w target request now evidence))"
| "owner_apply rpc dbg heap reserves failure w (OpWaitTopicView has_broker waiting now evidence) =
     or_panic w (map_option reply_of (wait_for_topic_view rpc dbg has_broker w waiting now evidence))"
| "owner_apply rpc dbg heap reserves failure w (OpResolveDirectory has_broker now evidence) =
     reply_of (resolve_coordinator_directory rpc has_broker w now evidence)"
| "owner_apply rpc dbg heap reserves failure w (OpInvalidateBroker route observed_at completion now evidence) =
     or_panic w (map_option reply_of (invalidate_broker_route rpc w route observed_at completion now evidence))"
| "owner_apply rpc dbg heap reserves failure w (OpInvalidatePartition route observed_at completion now evidence) =
     or_panic w (map_option reply_of (invalidate_partition_route rpc w route observed_at completion now evidence))"
| "owner_apply rpc dbg heap reserves failure w (OpDrainPartitions now) =
     or_panic w (map_option (\<lambda>(w', p). (w', ReplyPartitions (wg_routed p))) (drain_partition_waiters dbg w now))"
| "owner_apply rpc dbg heap reserves failure w (OpDrainControllers now) =
     or_panic w (map_option (\<lambda>(w', p). (w', ReplyControllers (wg_routed p))) (drain_controller_waiters dbg w now))"
| "owner_apply rpc dbg heap reserves failure w (OpDrainTopicViews now) =
     or_panic w (map_option (\<lambda>(w', p). (w', ReplyDone)) (drain_topic_view_waiters dbg reserves w now))"
| "owner_apply rpc dbg heap reserves failure w OpDrainInvalidations =
     or_panic w (map_option (\<lambda>(w', p). (w', ReplyDone)) (drain_invalidation_waiters dbg w))"
| "owner_apply rpc dbg heap reserves failure w OpFailWaiters = (fail_waiters w failure, ReplyDone)"

declare owner_apply.simps [simp del]

end
