(* ===== verification/Metadata_Owner_Safety.thy ===== *)
theory Metadata_Owner_Safety
  imports Metadata_Owner
begin

text \<open>
  What holds of the metadata owner over any sequence of operations: its fetch is the one the machine
  waits for, no call waits for a query that nobody fetches, and calls are routed only along routes
  the current snapshot serves.
\<close>

section \<open>The fetch the machine waits for\<close>

type_synonym fetch_key = "operation_id \<times> metadata_generation \<times> metadata_query"

fun machine_fetch :: "metadata_state \<Rightarrow> fetch_key list" where
  "machine_fetch (MdRefreshing current operation_id query target queued) = [(operation_id, target, query)]"
| "machine_fetch _ = []"

fun effect_fetch :: "metadata_effect \<Rightarrow> fetch_key list" where
  "effect_fetch (MdFetch operation_id target query) = [(operation_id, target, query)]"
| "effect_fetch MdGenerationExhausted = []"

text \<open>
  A step of the machine either runs out of generations, or leaves what it waits for alone, or asks
  for what it waits for from then on.
\<close>

definition fetch_step :: "metadata_machine \<Rightarrow> metadata_machine \<Rightarrow> metadata_transition \<Rightarrow> bool" where
  "fetch_step m m' t \<longleftrightarrow>
     mt_effects t = [MdGenerationExhausted] \<or>
     mt_effects t = [] \<and> machine_fetch (mm_state m') = machine_fetch (mm_state m) \<or>
     machine_fetch (mm_state m) = [] \<and>
       (\<exists>o' g q. mt_effects t = [MdFetch o' g q] \<and> machine_fetch (mm_state m') = [(o', g, q)])"

definition keeps_queries :: "metadata_machine \<Rightarrow> metadata_machine \<Rightarrow> bool" where
  "keeps_queries m m' \<longleftrightarrow> (\<forall>q. query_pending m q \<longrightarrow> query_pending m' q)"

lemma fetch_step_revise [simp]:
  "machine_fetch (map_state_current f s) = machine_fetch s"
  by (cases s) simp_all

lemma query_pending_revise [simp]:
  "query_pending (update_current f m) q = query_pending m q"
  "query_pending (m\<lparr>mm_revocations := r\<rparr>) q = query_pending m q"
  by (cases "mm_state m"; simp add: query_pending_def update_current_def)+

lemma update_current_fetch [simp]:
  "machine_fetch (mm_state (update_current f m)) = machine_fetch (mm_state m)"
  by (simp add: update_current_def)

lemma admit_fetch_step:
  assumes "md_admit m query operation_id recency = (m', t)"
  shows "fetch_step m m' t" "keeps_queries m m'"
    "mt_disposition t = MdQueryCapacityReached \<Longrightarrow> m' = m \<and> mt_effects t = []"
    "mt_disposition t \<noteq> MdQueryCapacityReached \<Longrightarrow> mt_effects t \<noteq> [MdGenerationExhausted] \<Longrightarrow> query_pending m' query"
  using assms
  by (auto simp: md_admit_def md_start_def fetch_step_def keeps_queries_def query_pending_def md_fetch_def
      md_coalesced_def md_capacity_reached_def md_query_queued_def md_exhausted_def
      split: metadata_state.splits if_splits option.splits)

lemma fetch_step_idle: "mt_effects t = [] \<Longrightarrow> fetch_step m m t" "keeps_queries m m"
  by (simp_all add: fetch_step_def keeps_queries_def)

lemma refresh_fetch_step:
  assumes "md_refresh m query operation_id = (m', t)"
  shows "fetch_step m m' t" "keeps_queries m m'"
  using admit_fetch_step [OF assms [unfolded md_refresh_def]] by simp_all

lemma fetch_step_update [simp]:
  "fetch_step m (update_current f m') t = fetch_step m m' t"
  "fetch_step m (m'\<lparr>mm_revocations := r\<rparr>) t = fetch_step m m' t"
  "keeps_queries m (update_current f m') = keeps_queries m m'"
  "keeps_queries m (m'\<lparr>mm_revocations := r\<rparr>) = keeps_queries m m'"
  by (simp_all add: fetch_step_def keeps_queries_def)

lemma invalidate_fetch_step:
  "md_invalidate m route observed_at operation_id = (m', t) \<Longrightarrow> fetch_step m m' t \<and> keeps_queries m m'"
  "md_invalidate_partition m proute observed_at operation_id = (m', t) \<Longrightarrow> fetch_step m m' t \<and> keeps_queries m m'"
  by (auto simp: md_invalidate_def continue_controller_revocation_def md_invalidate_partition_def
      continue_partition_revocation_def Let_def md_coalesced_def md_stale_def fetch_step_idle
      dest: refresh_fetch_step split: prod.splits if_splits option.splits)

text \<open>Inputs that do not complete a fetch.\<close>

fun asks :: "metadata_input \<Rightarrow> bool" where
  "asks (MdRefreshSucceeded operation_id snapshot followup) \<longleftrightarrow> False"
| "asks (MdRefreshFailed operation_id followup) \<longleftrightarrow> False"
| "asks _ \<longleftrightarrow> True"

lemma asks_fetch_step:
  "asks i \<Longrightarrow> metadata_apply m i = (m', t) \<Longrightarrow> fetch_step m m' t \<and> keeps_queries m m'"
  using invalidate_fetch_step admit_fetch_step
  by (cases i) (auto simp: md_resolve_def md_refresh_def)

text \<open>Completing the fetch the machine waits for.\<close>

lemma completes_fetch_step:
  assumes "machine_fetch (mm_state m) = [(operation_id, generation, query)]"
    and "i = MdRefreshFailed operation_id followup \<or>
      i = MdRefreshSucceeded operation_id snapshot followup \<and> snapshot_generation snapshot = generation"
    and "metadata_apply m i = (m', t)"
  shows "mt_effects t = [MdGenerationExhausted] \<or> concat (map effect_fetch (mt_effects t)) = machine_fetch (mm_state m') \<and>
    MdGenerationExhausted \<notin> set (mt_effects t)"
proof -
  obtain current queued where s: "mm_state m = MdRefreshing current operation_id query generation queued"
    using assms(1) by (cases "mm_state m") auto
  have fails: "mt_effects t = [] \<and> machine_fetch (mm_state m') = [] \<or>
      (\<exists>q. mt_effects t = [MdFetch followup generation q] \<and> machine_fetch (mm_state m') = [(followup, generation, q)])"
    if "md_fail m operation_id followup = (m', t)" for m' t
    using that s
    by (cases queued) (auto simp: md_fail_def md_restart_def md_applied_def md_fetch_def split: option.splits)
  show ?thesis
  proof (cases "i = MdRefreshFailed operation_id followup")
    case True
    then show ?thesis using fails assms(3) by auto
  next
    case False
    then have "md_succeed m operation_id snapshot followup = (m', t)" "snapshot_generation snapshot = generation"
      using assms(2,3) by auto
    then show ?thesis
      using s fails
      by (cases queued)
         (fastforce simp: md_succeed_def md_restart_def md_applied_def md_fetch_def md_exhausted_def Let_def
           split: option.splits prod.splits if_splits)+
  qed
qed

lemma metadata_apply_wf: "metadata_wf m \<Longrightarrow> metadata_input_ok i \<Longrightarrow> metadata_wf (fst (metadata_apply m i))"
  using metadata_step_recorded [of "[]" m i] by (simp add: metadata_recorded_def)

section \<open>Every waiting item has its query\<close>

lemma room_admit_scan: "room_admit w x bytes deadline = Some (w', ok) \<Longrightarrow> sr_scan_remaining w' = sr_scan_remaining w"
  by (auto simp: room_admit_def split: option.splits if_splits sum.splits)

lemma room_retract_scan: "room_retract_last dbg matches w = Some (w', r) \<Longrightarrow> sr_scan_remaining w' = sr_scan_remaining w"
  by (auto simp: room_retract_last_def room_release_def split: option.splits if_splits)

text \<open>
  Items a scan has still to examine may have lost their query; each of the others waits for a query
  that is pending.
\<close>

definition room_sound :: "bool \<Rightarrow> 'a scan_room \<Rightarrow> bool" where
  "room_sound dbg w \<longleftrightarrow> room_wf dbg w \<and> sr_scan_remaining w \<le> length (room_content w)"

definition room_covered :: "bool \<Rightarrow> metadata_machine \<Rightarrow> ('a \<Rightarrow> metadata_query) \<Rightarrow> 'a scan_room \<Rightarrow> bool" where
  "room_covered dbg m query_of w \<longleftrightarrow>
     room_sound dbg w \<and> (\<forall>e\<in>set (behind_scan w). query_pending m (query_of (fst e)))"

lemma room_covered_mono: "keeps_queries m m' \<Longrightarrow> room_covered dbg m query_of w \<Longrightarrow> room_covered dbg m' query_of w"
  by (simp add: keeps_queries_def room_covered_def)

lemma room_covered_begin: "room_sound dbg w \<Longrightarrow> room_covered dbg m query_of (room_begin_scan w)"
  by (simp add: room_covered_def room_sound_def behind_scan_def)

lemma room_new_covered: "call_limit < 2 ^ 64 \<Longrightarrow> room_covered dbg m query_of (room_new call_limit byte_limit)"
  by (simp add: room_covered_def room_sound_def behind_scan_def room_new_wf) (simp add: room_new_def)

lemma room_covered_admit:
  assumes "room_covered dbg m query_of w"
  obtains w' ok where "room_admit w x bytes deadline = Some (w', ok)"
    "room_content w' = room_content w @ (if ok then [(x, deadline)] else [])"
    "\<not> ok \<Longrightarrow> room_covered dbg m query_of w'"
    "\<And>m'. keeps_queries m m' \<Longrightarrow> query_pending m' (query_of x) \<Longrightarrow> room_covered dbg m' query_of w'"
    "room_sound dbg w'" "behind_scan w' = behind_scan w @ (if ok then [(x, deadline)] else [])"
proof -
  have w: "room_wf dbg w" "sr_scan_remaining w \<le> length (room_content w)"
    "\<forall>e\<in>set (behind_scan w). query_pending m (query_of (fst e))"
    using assms by (simp_all add: room_covered_def room_sound_def)
  obtain w' ok where r: "room_admit w x bytes deadline = Some (w', ok)" "room_step dbg w w'"
    "room_content w' = room_content w @ (if ok then [(x, deadline)] else [])"
    using room_admit_result [OF w(1), of x bytes deadline] by blast
  have b: "behind_scan w' = behind_scan w @ (if ok then [(x, deadline)] else [])"
    using w(2) room_admit_scan [OF r(1)] by (simp add: behind_scan_def r(3))
  have sound: "room_sound dbg w'"
    using r w(2) room_admit_scan [OF r(1)] by (simp add: room_sound_def room_step_def)
  show ?thesis
    by (rule that [OF r(1,3) _ _ sound b]) (use b sound w(3) in \<open>auto simp: room_covered_def keeps_queries_def\<close>)
qed

text \<open>Taking back the item just admitted restores the room.\<close>

lemma room_covered_retract:
  assumes "room_sound dbg w'" "behind_scan w' = behind_scan w @ [(x, deadline)]"
    and "room_covered dbg m query_of w" "matches x"
  obtains w'' where "room_retract_last dbg matches w' = Some (w'', Some x)" "room_covered dbg m query_of w''"
    "room_content w' = room_content w'' @ [(x, deadline)]"
proof -
  have le: "sr_scan_remaining w' \<le> length (room_content w')" and wf: "room_wf dbg w'"
    using assms(1) by (simp_all add: room_sound_def)
  have "room_content w' = (take (sr_scan_remaining w') (room_content w') @ behind_scan w) @ [(x, deadline)]"
    by (metis append_assoc append_take_drop_id assms(2) behind_scan_def)
  then obtain before where before: "room_content w' = before @ [(x, deadline)]" ..
  obtain w'' r where r: "room_retract_last dbg matches w' = Some (w'', r)" "room_step dbg w' w''"
    "case r of
       None \<Rightarrow> mset (room_content w'') = mset (room_content w') \<and>
         (room_content w' = [] \<or> \<not> matches (fst (last (room_content w'))))
     | Some x \<Rightarrow> matches x \<and> (\<exists>d. room_content w' = room_content w'' @ [(x, d)])"
    using room_retract_result [OF wf, of matches] by blast
  then have some: "r = Some x" "room_content w' = room_content w'' @ [(x, deadline)]"
    using before assms(4) by (auto split: option.splits)
  have scan: "sr_scan_remaining w'' = sr_scan_remaining w'" by (rule room_retract_scan [OF r(1)])
  have "sr_scan_remaining w' \<noteq> length (room_content w')" using assms(2) by (auto simp: behind_scan_def)
  then have "behind_scan w'' = behind_scan w" "sr_scan_remaining w'' \<le> length (room_content w'')"
    using assms(2) le some(2) scan by (auto simp: behind_scan_def)
  then have "room_covered dbg m query_of w''"
    using assms(3) r(2) by (simp add: room_covered_def room_sound_def room_step_def)
  from that [OF r(1) [unfolded some(1)] this some(2)] show ?thesis .
qed

lemma room_covered_scan:
  assumes "room_covered dbg m query_of w"
    and "\<And>x. decide x = None \<Longrightarrow> query_pending m (query_of x)"
  obtains w' due gone n where
    "room_scan dbg decide expired rejected w now budget = Some (w', due, map (scan_outcome decide expired now) gone, n)"
    "room_covered dbg m query_of w'" "list_all (scan_departs decide now) gone"
    "room_items w = room_items w' + mset due + mset (map fst gone)"
proof -
  have w: "room_wf dbg w" "sr_scan_remaining w \<le> length (room_content w)"
    "\<forall>e\<in>set (behind_scan w). query_pending m (query_of (fst e))"
    using assms(1) by (simp_all add: room_covered_def room_sound_def)
  obtain w' due gone n where r:
    "room_scan dbg decide expired rejected w now budget = Some (w', due, map (scan_outcome decide expired now) gone, n)"
    "room_step dbg w w'" "room_items w = room_items w' + mset due + mset (map fst gone)"
    "list_all (scan_departs decide now) gone"
    using room_scan_result [OF w(1), of decide expired rejected now budget] by blast
  have "query_pending m (query_of (fst e))" if "e \<in> set (behind_scan w')" for e
    using room_scan_behind(2) [OF w(1) r(1) w(2) that] w(3) assms(2) by (auto simp: scan_departs_def)
  then have "room_covered dbg m query_of w'"
    using room_scan_behind(1) [OF w(1) r(1) w(2)] r(2) by (simp add: room_covered_def room_sound_def room_step_def)
  from that [OF r(1) this r(4,3)] show ?thesis .
qed

lemma room_covered_fail_all:
  assumes "room_covered dbg m query_of w"
  shows "room_covered dbg m' query_of (fst (room_fail_all w))"
  using room_fail_all_result [of dbg w] assms
  by (simp add: room_covered_def room_sound_def behind_scan_def room_step_def) (simp add: room_fail_all_def split_beta)

lemma map_entries_sound:
  assumes "wait_sound dbg q" "\<And>x. we_deadline (f x) = we_deadline x"
  shows "wait_sound dbg (q\<lparr>wt_entries := map (\<lambda>(k, e). (k, f e)) (wt_entries q)\<rparr>)"
proof -
  have "index_entry ` (\<lambda>(k, e). (k, f e)) ` set (wt_entries q) = index_entry ` set (wt_entries q)"
    by (force simp: image_image split_beta assms(2) intro: image_cong)
  then show ?thesis
    using assms(1)
    by (auto simp: wait_sound_def wait_wf_def wait_index_def entries_wf_def btree_wf_def comp_def split_beta
        split: if_splits)
qed

lemma room_map_result:
  assumes "room_sound dbg w"
  shows "room_sound dbg (room_map f w)" "room_content (room_map f w) = map (\<lambda>(x, d). (f x, d)) (room_content w)"
    "sr_scan_remaining (room_map f w) = sr_scan_remaining w"
proof -
  let ?g = "\<lambda>e. e\<lparr>we_value := (we_value e)\<lparr>ri_item := f (ri_item (we_value e))\<rparr>\<rparr>"
  show c: "room_content (room_map f w) = map (\<lambda>(x, d). (f x, d)) (room_content w)"
    by (auto simp: room_content_def room_map_def wait_iter_def)
  show r: "sr_scan_remaining (room_map f w) = sr_scan_remaining w" by (simp add: room_map_def)
  have "wait_sound dbg (sr_calls (room_map f w))"
    using map_entries_sound [of dbg "sr_calls w" ?g] assms
    by (simp add: room_map_def room_sound_def room_wf_def)
  moreover have "map (\<lambda>e. ri_bytes (fst e)) (wait_iter (sr_calls (room_map f w))) =
      map (\<lambda>e. ri_bytes (fst e)) (wait_iter (sr_calls w))"
    by (auto simp: room_map_def wait_iter_def)
  ultimately show "room_sound dbg (room_map f w)"
    using assms r by (simp add: room_sound_def room_wf_def c) (simp add: room_map_def)
qed

section \<open>The invariant of the owner\<close>

definition fetch_key :: "metadata_fetch \<Rightarrow> fetch_key" where
  "fetch_key f = (mf_operation_id f, mf_generation f, mf_query f)"

text \<open>The fetches the owner is responsible for: submitted, or requested until a broker is ready.\<close>

definition outstanding :: "'v metadata_owner \<Rightarrow> metadata_fetch list" where
  "outstanding ow =
     (case mo_pending ow of None \<Rightarrow> [] | Some p \<Rightarrow> [pm_fetch p]) @
     (case mo_requested ow of None \<Rightarrow> [] | Some f \<Rightarrow> [f])"

definition linked :: "'v metadata_owner \<Rightarrow> bool" where
  "linked ow \<longleftrightarrow> map fetch_key (outstanding ow) = machine_fetch (mm_state (mo_machine ow))"

text \<open>The subscribers of the pending invalidations are counted, within the limit.\<close>

definition subscribers_counted :: "metadata_invalidations \<Rightarrow> bool" where
  "subscribers_counted v \<longleftrightarrow>
     mi_subscriber_count v = length (concat (map pi_subscribers (mi_pending v))) \<and>
     mi_subscriber_count v \<le> mi_capacity v"

definition rooms_covered :: "bool \<Rightarrow> 'v metadata_owner \<Rightarrow> bool" where
  "rooms_covered dbg ow \<longleftrightarrow>
     room_covered dbg (mo_machine ow) (\<lambda>x. QueryTopic (wp_topic x)) (mo_waiters ow) \<and>
     room_covered dbg (mo_machine ow) (\<lambda>x. QueryCluster) (mo_controller_waiters ow) \<and>
     room_covered dbg (mo_machine ow) (\<lambda>x. QueryTopic (wtv_topic x)) (mo_topic_views ow) \<and>
     subscribers_counted (mo_invalidations ow)"

definition rooms_sound :: "bool \<Rightarrow> 'v metadata_owner \<Rightarrow> bool" where
  "rooms_sound dbg ow \<longleftrightarrow>
     room_sound dbg (mo_waiters ow) \<and> room_sound dbg (mo_controller_waiters ow) \<and>
     room_sound dbg (mo_topic_views ow) \<and> subscribers_counted (mo_invalidations ow)"

definition owner_inv :: "bool \<Rightarrow> 'v metadata_owner \<Rightarrow> bool" where
  "owner_inv dbg ow \<longleftrightarrow> linked ow \<and> metadata_wf (mo_machine ow) \<and> rooms_covered dbg ow"

text \<open>Everything but the fetches themselves.\<close>

definition same_waiting :: "'v metadata_owner \<Rightarrow> 'v metadata_owner \<Rightarrow> bool" where
  "same_waiting ow ow' \<longleftrightarrow>
     mo_machine ow' = mo_machine ow \<and> mo_waiters ow' = mo_waiters ow \<and>
     mo_controller_waiters ow' = mo_controller_waiters ow \<and> mo_topic_views ow' = mo_topic_views ow \<and>
     mo_invalidations ow' = mo_invalidations ow \<and> mo_limits ow' = mo_limits ow"

lemma same_waiting_refl [simp]: "same_waiting ow ow"
  by (simp add: same_waiting_def)

lemma same_waiting_trans: "same_waiting a b \<Longrightarrow> same_waiting b c \<Longrightarrow> same_waiting a c"
  by (simp add: same_waiting_def)

lemma same_waiting_fields [simp]:
  "same_waiting ow (ow\<lparr>mo_pending := p\<rparr>)" "same_waiting ow (ow\<lparr>mo_requested := f\<rparr>)"
  "same_waiting ow (ow\<lparr>mo_operation_ids := ids\<rparr>)" "same_waiting ow (ow\<lparr>mo_initial_refresh := b\<rparr>)"
  by (simp_all add: same_waiting_def)

lemma same_waiting_covered:
  "same_waiting ow ow' \<Longrightarrow> rooms_covered dbg ow' = rooms_covered dbg ow"
  "same_waiting ow ow' \<Longrightarrow> rooms_sound dbg ow' = rooms_sound dbg ow"
  by (simp_all add: same_waiting_def rooms_covered_def rooms_sound_def)

lemma rooms_covered_sound: "rooms_covered dbg ow \<Longrightarrow> rooms_sound dbg ow"
  by (simp add: rooms_covered_def rooms_sound_def room_covered_def)

lemma metadata_owner_new_inv:
  assumes "ml_partition_waiting_calls limits < 2 ^ 64" "ml_controller_waiting_calls limits < 2 ^ 64"
    "ml_topic_view_waiters limits < 2 ^ 64"
  shows "owner_inv dbg (metadata_owner_new limits)"
  using metadata_new_recorded [of 1 "ml_queries limits"] assms
  by (simp add: owner_inv_def linked_def outstanding_def metadata_owner_new_def rooms_covered_def
      room_new_covered metadata_recorded_def subscribers_counted_def invalidations_new_def)
     (simp add: metadata_with_query_limits_def)

section \<open>Fetches\<close>

lemma submit_result:
  assumes "owner_submit rpc w fetch now = (w', r)" "outstanding (ow_owner w) = []"
  shows "r \<noteq> Inl OwnerUnexpectedEffect" "same_waiting (ow_owner w) (ow_owner w')"
    "ow_notices w' = ow_notices w" "r = Inr () \<Longrightarrow> outstanding (ow_owner w') = [fetch]"
  using assms
  by (auto simp: owner_submit_def outstanding_def upd_owner_def Let_def split: option.splits prod.splits)

lemma interpret_result:
  assumes "owner_interpret rpc has_broker now evidence w effects p = (w', r)"
    and "effects = [] \<or> effects = [MdGenerationExhausted] \<or>
      (\<exists>f g q. effects = [MdFetch f g q]) \<and> outstanding (ow_owner w) = []"
  shows "r \<noteq> Inl OwnerUnexpectedEffect" "same_waiting (ow_owner w) (ow_owner w')" "ow_notices w' = ow_notices w"
    "r = Inr b \<Longrightarrow> map fetch_key (outstanding (ow_owner w')) =
       map fetch_key (outstanding (ow_owner w)) @ concat (map effect_fetch effects)"
    "r = Inr b \<Longrightarrow> effects \<noteq> [MdGenerationExhausted]"
proof -
  consider "effects = []" | "effects = [MdGenerationExhausted]"
    | f g q where "effects = [MdFetch f g q]" "outstanding (ow_owner w) = []"
    using assms(2) by blast
  then have "r \<noteq> Inl OwnerUnexpectedEffect \<and> same_waiting (ow_owner w) (ow_owner w') \<and> ow_notices w' = ow_notices w \<and>
    (r = Inr b \<longrightarrow> map fetch_key (outstanding (ow_owner w')) =
       map fetch_key (outstanding (ow_owner w)) @ concat (map effect_fetch effects)) \<and>
    (r = Inr b \<longrightarrow> effects \<noteq> [MdGenerationExhausted])"
  proof cases
    case (3 f g q)
    let ?fetch = "\<lparr>mf_operation_id = f, mf_generation = g, mf_evidence = evidence, mf_query = q\<rparr>"
    show ?thesis
    proof (cases "has_broker \<and> rpc_is_ready rpc (ow_broker w)")
      case True
      obtain w1 r1 where s: "owner_submit rpc w ?fetch now = (w1, r1)" by fastforce
      from submit_result [OF s 3(2)] show ?thesis
        using assms(1) True 3 s by (cases r1) (auto simp: fetch_key_def)
    next
      case False
      then show ?thesis
        using assms(1) 3 by (auto simp: upd_owner_def fetch_key_def outstanding_def split: option.splits)
    qed
  qed (use assms(1) in auto)
  then show "r \<noteq> Inl OwnerUnexpectedEffect" "same_waiting (ow_owner w) (ow_owner w')" "ow_notices w' = ow_notices w"
    "r = Inr b \<Longrightarrow> map fetch_key (outstanding (ow_owner w')) =
       map fetch_key (outstanding (ow_owner w)) @ concat (map effect_fetch effects)"
    "r = Inr b \<Longrightarrow> effects \<noteq> [MdGenerationExhausted]"
    by blast+
qed

text \<open>Asking the machine and interpreting its answer keeps the owner linked.\<close>

lemma ask_links:
  assumes "linked ow" "asks i" "metadata_apply (mo_machine ow) i = (m', t)"
    and "mo_machine (ow_owner w) = m'" "outstanding (ow_owner w) = outstanding ow"
    and "owner_interpret rpc has_broker now evidence w (mt_effects t) p = (w', r)"
  shows "r \<noteq> Inl OwnerUnexpectedEffect" "same_waiting (ow_owner w) (ow_owner w')" "ow_notices w' = ow_notices w"
    "r = Inr b \<Longrightarrow> linked (ow_owner w')" "r = Inr b \<Longrightarrow> mt_effects t \<noteq> [MdGenerationExhausted]"
proof -
  have step: "fetch_step (mo_machine ow) m' t" using asks_fetch_step [OF assms(2,3)] by simp
  have keys: "map fetch_key (outstanding ow) = machine_fetch (mm_state (mo_machine ow))"
    using assms(1) by (simp add: linked_def)
  then have effects: "mt_effects t = [] \<or> mt_effects t = [MdGenerationExhausted] \<or>
      (\<exists>f g q. mt_effects t = [MdFetch f g q]) \<and> outstanding (ow_owner w) = []"
    using step assms(5) by (auto simp: fetch_step_def)
  note r = interpret_result [OF assms(6) effects]
  show "r \<noteq> Inl OwnerUnexpectedEffect" "same_waiting (ow_owner w) (ow_owner w')" "ow_notices w' = ow_notices w"
    "r = Inr b \<Longrightarrow> mt_effects t \<noteq> [MdGenerationExhausted]"
    using r by blast+
  assume "r = Inr b"
  from r(4,5) [OF this] r(2) show "linked (ow_owner w')"
    using step keys assms(4,5) by (auto simp: linked_def same_waiting_def fetch_step_def)
qed

section \<open>Who waits\<close>

datatype waiter = WaitCall call_id | WaitView completion_id | WaitInvalidation completion_id

fun notice_waiter :: "('k, 'v, 'en, 'de) owner_notice \<Rightarrow> waiter" where
  "notice_waiter (NoticeFailed call failure) = WaitCall call"
| "notice_waiter (NoticeTopicView completion view) = WaitView completion"
| "notice_waiter (NoticeInvalidation completion disposition) = WaitInvalidation completion"

definition partition_waiter :: "'v waiting_partition_call \<Rightarrow> waiter" where
  "partition_waiter x = WaitCall (er_call_id (wp_request x))"

definition controller_waiter :: "'v waiting_controller_call \<Rightarrow> waiter" where
  "controller_waiter x = WaitCall (er_call_id (wcc_request x))"

definition view_waiter :: "waiting_topic_view \<Rightarrow> waiter" where
  "view_waiter x = WaitView (wtv_completion x)"

definition invalidation_waiters :: "metadata_invalidations \<Rightarrow> waiter multiset" where
  "invalidation_waiters v = image_mset WaitInvalidation (mset (concat (map pi_subscribers (mi_pending v))))"

definition waiters_of :: "'v metadata_owner \<Rightarrow> waiter multiset" where
  "waiters_of ow =
     image_mset partition_waiter (room_items (mo_waiters ow)) +
     image_mset controller_waiter (room_items (mo_controller_waiters ow)) +
     image_mset view_waiter (room_items (mo_topic_views ow)) +
     invalidation_waiters (mo_invalidations ow)"

text \<open>Who waits or has been answered.\<close>

definition balance :: "('v, 'k, 'en, 'de, 'b) owner_world \<Rightarrow> waiter multiset" where
  "balance w = waiters_of (ow_owner w) + mset (map notice_waiter (ow_notices w))"

lemma balance_notify [simp]:
  "balance (notify out w) = balance w + mset (map notice_waiter out)" "ow_owner (notify out w) = ow_owner w"
  by (simp_all add: balance_def notify_def)

lemma same_waiting_balance:
  "same_waiting (ow_owner w) (ow_owner w') \<Longrightarrow> ow_notices w' = ow_notices w \<Longrightarrow> balance w' = balance w"
  by (simp add: balance_def waiters_of_def same_waiting_def)

text \<open>What an operation that returns normally guarantees, for the waiters it takes in.\<close>

definition good_result ::
    "bool \<Rightarrow> ('v, 'k, 'en, 'de, 'b) owner_world \<Rightarrow> waiter multiset \<Rightarrow>
     ('v, 'k, 'en, 'de, 'b) owner_world \<times> ('be metadata_owner_error + 'x) \<Rightarrow> bool" where
  "good_result dbg w taken res \<longleftrightarrow>
     snd res \<noteq> Inl OwnerUnexpectedEffect \<and>
     (\<forall>b. snd res = Inr b \<longrightarrow> owner_inv dbg (ow_owner (fst res)) \<and> balance w + taken = balance (fst res))"

definition good_option ::
    "bool \<Rightarrow> ('v, 'k, 'en, 'de, 'b) owner_world \<Rightarrow> waiter multiset \<Rightarrow>
     (('v, 'k, 'en, 'de, 'b) owner_world \<times> ('be metadata_owner_error + 'x)) option \<Rightarrow> bool" where
  "good_option dbg w taken res \<longleftrightarrow> (\<exists>r. res = Some r \<and> good_result dbg w taken r)"

lemma good_error: "e \<noteq> OwnerUnexpectedEffect \<Longrightarrow> good_result dbg w taken (w', Inl e)"
  by (simp add: good_result_def)

section \<open>Operations that only ask\<close>

lemma reserve_result:
  assumes "reserve_operation w = (w', r)"
  shows "same_waiting (ow_owner w) (ow_owner w')" "outstanding (ow_owner w') = outstanding (ow_owner w)"
    "ow_notices w' = ow_notices w" "r \<noteq> Inl OwnerUnexpectedEffect" "ow_broker w' = ow_broker w"
  using assms
  by (auto simp: reserve_operation_def upd_owner_def outstanding_def Let_def split: prod.splits option.splits)

lemma asks_input_ok: "asks i \<Longrightarrow> metadata_input_ok i"
  by (cases i) auto

lemma ask_inv:
  assumes "linked ow" "metadata_wf (mo_machine ow)" "asks i" "metadata_apply (mo_machine ow) i = (m', t)"
    and "mo_machine (ow_owner w) = m'" "outstanding (ow_owner w) = outstanding ow"
    and "mt_effects t \<noteq> [MdGenerationExhausted] \<Longrightarrow> rooms_covered dbg (ow_owner w)"
    and "owner_interpret rpc has_broker now evidence w (mt_effects t) p = (w', r)"
  shows "good_result dbg w {#} (w', r)"
proof -
  note links = ask_links [OF assms(1,3,4,5,6,8)]
  have "metadata_wf m'" using metadata_apply_wf [OF assms(2) asks_input_ok [OF assms(3)]] assms(4) by simp
  then have "owner_inv dbg (ow_owner w')" if ok: "r = Inr b" for b
    using links(2) links(4,5) [OF ok] assms(5,7) same_waiting_covered(1) [OF links(2), of dbg]
    by (auto simp: owner_inv_def same_waiting_def)
  then show ?thesis
    using links(1) same_waiting_balance [OF links(2,3)] by (auto simp: good_result_def)
qed

lemma rooms_covered_mono:
  "rooms_covered dbg ow \<Longrightarrow> keeps_queries (mo_machine ow) m' \<Longrightarrow> rooms_covered dbg (ow\<lparr>mo_machine := m'\<rparr>)"
  by (auto simp: rooms_covered_def intro: room_covered_mono)

lemma machine_apply_parts:
  assumes "machine_apply w i = (w', t)"
  obtains m' where "metadata_apply (mo_machine (ow_owner w)) i = (m', t)"
    "ow_owner w' = (ow_owner w)\<lparr>mo_machine := m'\<rparr>" "ow_notices w' = ow_notices w" "ow_broker w' = ow_broker w"
  using assms by (auto simp: machine_apply_def upd_owner_def Let_def split: prod.splits)

lemma outstanding_machine [simp]: "outstanding (ow\<lparr>mo_machine := m\<rparr>) = outstanding ow"
  by (simp add: outstanding_def)

lemma machine_balance:
  "ow_owner w' = (ow_owner w)\<lparr>mo_machine := m'\<rparr> \<Longrightarrow> ow_notices w' = ow_notices w \<Longrightarrow> balance w' = balance w"
  by (simp add: balance_def waiters_of_def)

text \<open>Asking directly after the invariant.\<close>

lemma ask_directly:
  assumes "owner_inv dbg (ow_owner w)" "asks i" "machine_apply w i = (w1, t)"
    and "owner_interpret rpc has_broker now evidence w1 (mt_effects t) p = (w2, r)"
  shows "good_result dbg w {#} (w2, r)"
proof -
  obtain m' where m: "metadata_apply (mo_machine (ow_owner w)) i = (m', t)"
    "ow_owner w1 = (ow_owner w)\<lparr>mo_machine := m'\<rparr>" "ow_notices w1 = ow_notices w"
    using machine_apply_parts [OF assms(3)] by blast
  have "rooms_covered dbg (ow_owner w1)"
    using assms(1) asks_fetch_step [OF assms(2) m(1)] by (simp add: m(2) owner_inv_def rooms_covered_mono)
  then have "good_result dbg w1 {#} (w2, r)"
    using assms(1) m by (intro ask_inv [OF _ _ assms(2) m(1) _ _ _ assms(4)]) (simp_all add: owner_inv_def)
  then show ?thesis using machine_balance [OF m(2,3)] by (simp add: good_result_def)
qed

lemma reserve_inv:
  assumes "reserve_operation w = (w', r)" "owner_inv dbg (ow_owner w)"
  shows "owner_inv dbg (ow_owner w')" "balance w' = balance w"
  using reserve_result [OF assms(1)] assms(2) same_waiting_covered(1) [OF reserve_result(1) [OF assms(1)], of dbg]
  by (auto simp: owner_inv_def linked_def same_waiting_def intro: same_waiting_balance)

lemma interpret_unit_good:
  "good_result dbg w taken (owner_interpret rpc has_broker now evidence w' (mt_effects t) False) \<Longrightarrow>
   good_result dbg w taken (interpret_unit rpc has_broker now evidence w' t)"
  by (auto simp: good_result_def interpret_unit_def split: prod.splits sum.splits)

lemma resolve_directory_good:
  fixes rpc :: "('b, 'be) broker_rpc"
  assumes "owner_inv dbg (ow_owner w)"
  shows "good_result dbg w {#} (resolve_coordinator_directory rpc has_broker w now evidence)"
proof -
  obtain w1 and r :: "'be metadata_owner_error + operation_id" where res: "reserve_operation w = (w1, r)"
    by fastforce
  show ?thesis
  proof (cases r)
    case (Inl e)
    then show ?thesis
      using res reserve_result(4) [OF res] by (auto simp: resolve_coordinator_directory_def intro: good_error)
  next
    case (Inr operation_id)
    obtain w2 t where st: "machine_apply w1 (MdResolve QueryCluster operation_id) = (w2, t)" by fastforce
    obtain w3 r3 where i: "owner_interpret rpc has_broker now evidence w2 (mt_effects t) False = (w3, r3)" by fastforce
    have "good_result dbg w1 {#} (w3, r3)"
      using ask_directly [OF reserve_inv(1) [OF res assms] _ st i] by simp
    then have "good_result dbg w {#} (w3, r3)" using reserve_inv(2) [OF res assms] by (simp add: good_result_def)
    then show ?thesis
      using res Inr st i interpret_unit_good [of dbg w "{#}" rpc has_broker now evidence w2 t]
      by (simp add: resolve_coordinator_directory_def)
  qed
qed

section \<open>Invalidations\<close>

lemma join_waiters:
  "invalidations_join matches completion v = (v', JoinJoined) \<Longrightarrow>
   invalidation_waiters v' = add_mset (WaitInvalidation completion) (invalidation_waiters v)"
proof -
  have "mset (concat (map pi_subscribers
        (update_first P (\<lambda>p. p\<lparr>pi_subscribers := pi_subscribers p @ [c]\<rparr>) ps))) =
      add_mset c (mset (concat (map pi_subscribers ps)))" if "list_ex P ps"
    for P c and ps :: "pending_invalidation list"
    using that by (induction ps) auto
  then show "invalidations_join matches completion v = (v', JoinJoined) \<Longrightarrow>
    invalidation_waiters v' = add_mset (WaitInvalidation completion) (invalidation_waiters v)"
    by (auto simp: invalidations_join_def invalidation_waiters_def simp del: mset_concat split: if_splits)
qed

lemma push_waiters:
  "invalidation_waiters (invalidations_push target completion v) =
     add_mset (WaitInvalidation completion) (invalidation_waiters v)"
  by (simp add: invalidations_push_def invalidation_waiters_def)

lemma complete_subscribers_waiters [simp]:
  "image_mset notice_waiter (mset (complete_subscribers disposition p)) =
     image_mset WaitInvalidation (mset (pi_subscribers p))"
  by (simp add: complete_subscribers_def image_mset.compositionality comp_def)

lemma join_counted:
  assumes "subscribers_counted v"
  shows "subscribers_counted (fst (invalidations_join matches completion v))"
proof -
  have "length (concat (map pi_subscribers
        (update_first P (\<lambda>p. p\<lparr>pi_subscribers := pi_subscribers p @ [c]\<rparr>) ps))) =
      Suc (length (concat (map pi_subscribers ps)))" if "list_ex P ps"
    for P c and ps :: "pending_invalidation list"
    using that by (induction ps) auto
  with assms show ?thesis
    by (auto simp: invalidations_join_def invalidations_has_capacity_def subscribers_counted_def simp del: length_concat)
qed

lemma push_counted:
  "subscribers_counted v \<Longrightarrow> invalidations_has_capacity v \<Longrightarrow> subscribers_counted (invalidations_push target completion v)"
  by (simp add: subscribers_counted_def invalidations_push_def invalidations_has_capacity_def)

text \<open>A scan neither fails its assertion nor loses a subscriber.\<close>

lemma invalidations_scan_loop_result:
  assumes "subscribers_counted v"
  shows "\<exists>v' out'. invalidations_scan_loop dbg machine v n out = Some (v', out') \<and> subscribers_counted v' \<and>
    invalidation_waiters v + mset (map notice_waiter out) = invalidation_waiters v' + mset (map notice_waiter out')"
  using assms
proof (induction dbg machine v n out rule: invalidations_scan_loop.induct)
  case (2 dbg machine v examined out)
  show ?case
  proof (cases "mi_pending v")
    case Nil
    with "2.prems" show ?thesis by (auto simp: subscribers_counted_def invalidation_waiters_def)
  next
    case (Cons p rest)
    let ?v = "v\<lparr>mi_pending := rest, mi_scan_remaining := mi_scan_remaining v - 1\<rparr>"
    show ?thesis
    proof (cases "target_settled machine (pi_target p)")
      case None
      have "subscribers_counted (?v\<lparr>mi_pending := rest @ [p]\<rparr>)"
        using "2.prems" Cons by (simp add: subscribers_counted_def)
      from "2.IH"(1) [OF Cons refl None this] show ?thesis
        using Cons None by (auto simp: invalidation_waiters_def Let_def ac_simps)
    next
      case (Some disposition)
      let ?v' = "?v\<lparr>mi_subscriber_count := mi_subscriber_count v - length (pi_subscribers p)\<rparr>"
      have release: "invalidations_release dbg (length (pi_subscribers p)) ?v = Some ?v'"
        and counted: "subscribers_counted ?v'"
        using "2.prems" Cons by (simp_all add: subscribers_counted_def invalidations_release_def Let_def)
      from "2.IH"(2) [OF Cons refl Some release counted] show ?thesis
        using Cons Some release by (auto simp: invalidation_waiters_def Let_def ac_simps)
    qed
  qed
qed auto

lemma invalidations_fail_all_waiters:
  "invalidations_fail_all v = (v', out) \<Longrightarrow>
   invalidation_waiters v = invalidation_waiters v' + mset (map notice_waiter out)"
proof -
  have "image_mset WaitInvalidation (mset (concat (map pi_subscribers ps))) =
      mset (map notice_waiter (concat (map (complete_subscribers InvUnavailable) ps)))" for ps
    by (induction ps) simp_all
  then show "invalidations_fail_all v = (v', out) \<Longrightarrow>
    invalidation_waiters v = invalidation_waiters v' + mset (map notice_waiter out)"
    by (auto simp: invalidations_fail_all_def invalidation_waiters_def)
qed

lemma record_invalidation_result:
  assumes "subscribers_counted (mo_invalidations (ow_owner w))"
  obtains w' v where "record_invalidation matches target completion disposition w = Some w'"
    "balance w' = add_mset (WaitInvalidation completion) (balance w)"
    "ow_owner w' = (ow_owner w)\<lparr>mo_invalidations := v\<rparr>" "subscribers_counted v"
proof (cases "waits_for_evidence disposition")
  case True
  note finish = that
  obtain v j where j: "invalidations_join matches completion (mo_invalidations (ow_owner w)) = (v, j)" by fastforce
  have missing: "j = JoinMissing \<Longrightarrow> v = mo_invalidations (ow_owner w)"
    using j by (auto simp: invalidations_join_def split: if_splits)
  have counted: "subscribers_counted v"
    using join_counted [OF assms, of matches completion] j by simp
  have full: thesis if "record_invalidation matches target completion disposition w =
      Some (notify [NoticeInvalidation completion InvCapacityReached] w)"
    by (rule finish [OF that, of "mo_invalidations (ow_owner w)"]) (use assms in \<open>simp_all add: balance_def notify_def\<close>)
  show thesis
  proof (cases j)
    case JoinJoined
    then show thesis
      using that [of "upd_owner (\<lambda>ow. ow\<lparr>mo_invalidations := v\<rparr>) w" v] True j counted
        join_waiters [of matches completion "mo_invalidations (ow_owner w)" v]
      by (simp add: record_invalidation_def balance_def waiters_of_def upd_owner_def)
  next
    case JoinFull
    then show thesis using full True j by (simp add: record_invalidation_def)
  next
    case JoinMissing
    let ?v = "invalidations_push target completion v"
    show thesis
    proof (cases "invalidations_has_capacity v")
      case True
      then show thesis
        using that [of "upd_owner (\<lambda>ow. ow\<lparr>mo_invalidations := ?v\<rparr>) w" ?v] \<open>waits_for_evidence disposition\<close>
          j counted JoinMissing missing push_counted push_waiters
        by (simp add: record_invalidation_def balance_def waiters_of_def upd_owner_def)
    next
      case False
      then show thesis using full True j JoinMissing by (simp add: record_invalidation_def)
    qed
  qed
next
  case False
  then obtain d where "immediate_disposition disposition = Some d"
    by (cases disposition) (auto simp: waits_for_evidence_def)
  then show thesis
    using that [of "notify [NoticeInvalidation completion d] w" "mo_invalidations (ow_owner w)"] False assms
    by (simp add: record_invalidation_def balance_def notify_def)
qed

lemma invalidate_good:
  fixes rpc :: "('b, 'be) broker_rpc"
  assumes "owner_inv dbg (ow_owner w)" "\<And>operation_id. asks (input_of operation_id)"
  shows "good_option dbg w {#WaitInvalidation completion#}
    (owner_invalidate rpc w input_of matches target completion now evidence)"
proof -
  obtain w1 and r :: "'be metadata_owner_error + operation_id" where res: "reserve_operation w = (w1, r)"
    by fastforce
  show ?thesis
  proof (cases r)
    case (Inl e)
    then show ?thesis
      using res reserve_result(4) [OF res] by (auto simp: owner_invalidate_def good_option_def intro: good_error)
  next
    case (Inr operation_id)
    obtain w2 t where st: "machine_apply w1 (input_of operation_id) = (w2, t)" by fastforce
    obtain m' where m: "metadata_apply (mo_machine (ow_owner w1)) (input_of operation_id) = (m', t)"
      "ow_owner w2 = (ow_owner w1)\<lparr>mo_machine := m'\<rparr>" "ow_notices w2 = ow_notices w1"
      using machine_apply_parts [OF st] by blast
    have inv: "owner_inv dbg (ow_owner w1)" by (rule reserve_inv(1) [OF res assms(1)])
    have covered: "rooms_covered dbg (ow_owner w2)"
      using inv asks_fetch_step [OF assms(2) m(1)] by (simp add: m(2) owner_inv_def rooms_covered_mono)
    then have "subscribers_counted (mo_invalidations (ow_owner w2))" by (simp add: rooms_covered_def)
    from record_invalidation_result [OF this, of matches target completion "mt_disposition t"]
    obtain w3 v where rec: "record_invalidation matches target completion (mt_disposition t) w2 = Some w3"
      "balance w3 = add_mset (WaitInvalidation completion) (balance w2)"
      "ow_owner w3 = (ow_owner w2)\<lparr>mo_invalidations := v\<rparr>" "subscribers_counted v"
      by blast
    obtain w4 r4 where i: "owner_interpret rpc True now evidence w3 (mt_effects t) False = (w4, r4)" by fastforce
    have "good_result dbg w3 {#} (w4, r4)"
      using inv rec(3,4) m(2) covered
      by (intro ask_inv [OF _ _ assms(2) m(1) _ _ _ i])
         (auto simp: owner_inv_def outstanding_def rooms_covered_def)
    moreover have "balance w3 = balance w + {#WaitInvalidation completion#}"
      using rec(2) machine_balance [OF m(2,3)] reserve_inv(2) [OF res assms(1)] by simp
    ultimately have "good_result dbg w {#WaitInvalidation completion#} (w4, r4)" by (simp add: good_result_def)
    then show ?thesis
      using res Inr st i rec(1) interpret_unit_good [of dbg w _ rpc True now evidence w3 t]
      by (simp add: owner_invalidate_def good_option_def)
  qed
qed

end
