(* ===== verification/Metadata_Owner_Runs.thy ===== *)
theory Metadata_Owner_Runs
  imports Metadata_Owner_Safety
begin

text \<open>
  Runs of the metadata owner. The three rooms of the owner share a contract, under which admission,
  retraction and scans keep the invariant; with the completed fetches and the invalidations this gives
  it for every operation, and the properties of whole runs.
\<close>

section \<open>The rooms of the owner\<close>

lemma waiters_machine [simp]: "waiters_of (ow\<lparr>mo_machine := m\<rparr>) = waiters_of ow"
  by (simp add: waiters_of_def)

fun asks_for :: "metadata_query \<Rightarrow> metadata_input \<Rightarrow> bool" where
  "asks_for query (MdResolve q operation_id) \<longleftrightarrow> q = query"
| "asks_for query (MdRefresh q operation_id) \<longleftrightarrow> q = query"
| "asks_for query _ \<longleftrightarrow> False"

lemma asks_for_step:
  assumes "asks_for query i" "metadata_apply m i = (m', t)"
  shows "asks i" "mt_disposition t = MdQueryCapacityReached \<Longrightarrow> m' = m \<and> mt_effects t = []"
    "mt_disposition t \<noteq> MdQueryCapacityReached \<Longrightarrow> mt_effects t \<noteq> [MdGenerationExhausted] \<Longrightarrow> query_pending m' query"
proof -
  obtain operation_id recency where "md_admit m query operation_id recency = (m', t)" "asks i"
    using assms by (cases i) (auto simp: md_resolve_def md_refresh_def)
  note admit = this(1) and this(2)
  show "asks i" by fact
  show "mt_disposition t = MdQueryCapacityReached \<Longrightarrow> m' = m \<and> mt_effects t = []"
    "mt_disposition t \<noteq> MdQueryCapacityReached \<Longrightarrow> mt_effects t \<noteq> [MdGenerationExhausted] \<Longrightarrow> query_pending m' query"
    using admit_fetch_step(3,4) [OF admit(1)] by simp_all
qed

text \<open>
  The outcomes of admitting an item for a waiter: refused with a notice, before or after the room was
  asked, or stored as an item of that waiter.
\<close>

definition admission ::
    "('a \<Rightarrow> waiter) \<Rightarrow> ('a \<Rightarrow> bool) \<Rightarrow> waiter \<Rightarrow> 'a scan_room \<Rightarrow>
     ('a scan_room \<times> ('k, 'v, 'en, 'de) owner_notice list \<times> bool) option \<Rightarrow> bool" where
  "admission waiter_of fits waiter room adm \<longleftrightarrow>
     (\<exists>n. notice_waiter n = waiter \<and> adm = Some (room, [n], False)) \<or>
     (\<exists>x b d room' n. room_admit room x b d = Some (room', False) \<and> notice_waiter n = waiter \<and>
        adm = Some (room', [n], False)) \<or>
     (\<exists>x b d room'. room_admit room x b d = Some (room', True) \<and> waiter_of x = waiter \<and> fits x \<and>
        adm = Some (room', [], True))"

lemma outcome_routed_iff:
  "(route, x) \<in> set (outcome_routed a outcome) \<longleftrightarrow> outcome = Inr route \<and> x = a"
  by (cases outcome) auto

lemma notify_nil [simp]: "notify [] w = w"
  by (simp add: notify_def)

locale owner_room =
  fixes room_of :: "'v metadata_owner \<Rightarrow> 'a scan_room"
    and with_room :: "'a scan_room \<Rightarrow> 'v metadata_owner \<Rightarrow> 'v metadata_owner"
    and query_of :: "'a \<Rightarrow> metadata_query"
    and waiter_of :: "'a \<Rightarrow> waiter"
  assumes of_with: "room_of (with_room r ow) = r"
    and of_machine: "room_of (ow\<lparr>mo_machine := m\<rparr>) = room_of ow"
    and with_with: "with_room r (with_room r' ow) = with_room r ow"
    and with_machine: "with_room r (ow\<lparr>mo_machine := m\<rparr>) = (with_room r ow)\<lparr>mo_machine := m\<rparr>"
    and machine_with: "mo_machine (with_room r ow) = mo_machine ow"
    and outstanding_with: "outstanding (with_room r ow) = outstanding ow"
    and covered_of: "rooms_covered dbg ow \<Longrightarrow> room_covered dbg (mo_machine ow) query_of (room_of ow)"
    and covered_with: "rooms_covered dbg ow \<Longrightarrow> room_covered dbg (mo_machine ow) query_of r \<Longrightarrow>
      rooms_covered dbg (with_room r ow)"
    and waiters_with: "waiters_of (with_room r ow) + image_mset waiter_of (room_items (room_of ow)) =
      waiters_of ow + image_mset waiter_of (room_items r)"
begin

lemma room_inv:
  assumes "owner_inv dbg ow" "room_covered dbg (mo_machine ow) query_of r"
  shows "owner_inv dbg (with_room r ow)"
  using assms covered_with by (simp add: owner_inv_def linked_def machine_with outstanding_with)

lemma room_waiters:
  assumes "room_items (room_of ow) + mset out = room_items r + mset taken"
  shows "waiters_of (with_room r ow) + image_mset waiter_of (mset taken) =
    waiters_of ow + image_mset waiter_of (mset out)"
proof -
  let ?f = "image_mset waiter_of"
  have "(waiters_of (with_room r ow) + ?f (mset taken)) + ?f (room_items (room_of ow)) =
      waiters_of ow + (?f (room_items r) + ?f (mset taken))"
    using arg_cong [OF waiters_with [of r ow], of "\<lambda>ws. ws + ?f (mset taken)"] by (simp only: ac_simps)
  also have "?f (room_items r) + ?f (mset taken) = ?f (room_items (room_of ow)) + ?f (mset out)"
    using arg_cong [OF assms, of ?f] by (simp only: image_mset_union)
  finally have "(waiters_of (with_room r ow) + ?f (mset taken)) + ?f (room_items (room_of ow)) =
      (waiters_of ow + ?f (mset out)) + ?f (room_items (room_of ow))"
    by (simp only: ac_simps)
  then show ?thesis by (rule add_right_imp_eq)
qed

lemma refused_inv:
  assumes "owner_inv dbg ow" "room_admit (room_of ow) x bytes deadline = Some (r, False)"
  shows "owner_inv dbg (with_room r ow)" "waiters_of (with_room r ow) = waiters_of ow"
proof -
  have "room_covered dbg (mo_machine ow) query_of (room_of ow)"
    using assms(1) covered_of by (simp add: owner_inv_def)
  from room_covered_admit [OF this, of x bytes deadline] assms(2)
  have r: "room_content r = room_content (room_of ow)" "room_covered dbg (mo_machine ow) query_of r" by auto
  show "owner_inv dbg (with_room r ow)" by (rule room_inv [OF assms(1) r(2)])
  show "waiters_of (with_room r ow) = waiters_of ow" using waiters_with [of r ow] by (simp add: r(1))
qed

lemma admitted_step:
  assumes "owner_inv dbg (ow_owner w)" "room_admit (room_of (ow_owner w)) x bytes deadline = Some (r, True)"
    and "asks_for (query_of x) i" "machine_apply (upd_owner (with_room r) w) i = (w1, t)"
  shows "mt_disposition t \<noteq> MdQueryCapacityReached \<Longrightarrow>
      good_result dbg w {#waiter_of x#} (owner_interpret rpc has_broker now evidence w1 (mt_effects t) p)"
    and "mt_disposition t = MdQueryCapacityReached \<Longrightarrow> matches x \<Longrightarrow>
      \<exists>r'. room_retract_last dbg matches (room_of (ow_owner w1)) = Some (r', Some x) \<and>
        owner_inv dbg (with_room r' (ow_owner w1)) \<and> waiters_of (with_room r' (ow_owner w1)) = waiters_of (ow_owner w)"
proof -
  let ?ow = "ow_owner w"
  have inv: "linked ?ow" "metadata_wf (mo_machine ?ow)" "rooms_covered dbg ?ow" using assms(1) by (simp_all add: owner_inv_def)
  note cov = covered_of [OF inv(3)]
  from room_covered_admit [OF cov, of x bytes deadline] assms(2)
  have r: "room_content r = room_content (room_of ?ow) @ [(x, deadline)]" "room_sound dbg r"
    "\<And>m'. keeps_queries (mo_machine ?ow) m' \<Longrightarrow> query_pending m' (query_of x) \<Longrightarrow> room_covered dbg m' query_of r"
    "behind_scan r = behind_scan (room_of ?ow) @ [(x, deadline)]"
    by auto
  obtain m' where m: "metadata_apply (mo_machine ?ow) i = (m', t)"
    "ow_owner w1 = (with_room r ?ow)\<lparr>mo_machine := m'\<rparr>" "ow_notices w1 = ow_notices w"
    using machine_apply_parts [OF assms(4)] by (auto simp: upd_owner_def machine_with)
  note ask = asks_for_step [OF assms(3) m(1)]
  have waiters: "waiters_of (ow_owner w1) = waiters_of ?ow + {#waiter_of x#}"
    using room_waiters [where ow = ?ow and out = "[x]" and r = r and taken = "[]"] by (simp add: m(2) r(1))
  {
    assume nc: "mt_disposition t \<noteq> MdQueryCapacityReached"
    obtain w2 res where i: "owner_interpret rpc has_broker now evidence w1 (mt_effects t) p = (w2, res)" by fastforce
    have keeps: "keeps_queries (mo_machine ?ow) m'" using asks_fetch_step [OF ask(1) m(1)] by simp
    have "rooms_covered dbg (ow_owner w1)" if "mt_effects t \<noteq> [MdGenerationExhausted]"
      using covered_with [where ow = "?ow\<lparr>mo_machine := m'\<rparr>" and r = r] rooms_covered_mono [OF inv(3) keeps]
        r(3) [OF keeps ask(3) [OF nc that]]
      by (simp add: m(2) with_machine)
    then have "good_result dbg w1 {#} (w2, res)"
      by (intro ask_inv [OF inv(1,2) ask(1) m(1) _ _ _ i]) (simp_all add: m(2) outstanding_with)
    then show "good_result dbg w {#waiter_of x#} (owner_interpret rpc has_broker now evidence w1 (mt_effects t) p)"
      using waiters by (simp add: good_result_def i balance_def m(3))
  }
  assume "mt_disposition t = MdQueryCapacityReached" "matches x"
  from room_covered_retract [OF r(2,4) cov, of matches] this(2) obtain r' where r':
    "room_retract_last dbg matches r = Some (r', Some x)" "room_covered dbg (mo_machine ?ow) query_of r'"
    "room_content r = room_content r' @ [(x, deadline)]"
    by blast
  have same: "with_room r' (ow_owner w1) = with_room r' ?ow"
    using ask(2) \<open>mt_disposition t = MdQueryCapacityReached\<close>
    by (simp add: m(2) with_with flip: with_machine)
  have "waiters_of (with_room r' ?ow) = waiters_of ?ow"
    using room_waiters [where ow = ?ow and out = "[]" and r = r' and taken = "[]"] r(1) r'(3) by simp
  with r' show "\<exists>r'. room_retract_last dbg matches (room_of (ow_owner w1)) = Some (r', Some x) \<and>
      owner_inv dbg (with_room r' (ow_owner w1)) \<and> waiters_of (with_room r' (ow_owner w1)) = waiters_of ?ow"
    using room_inv [OF assms(1) r'(2)] same by (simp add: m(2) of_machine of_with)
qed

text \<open>The shape shared by the three waits, after the operation identity was reserved.\<close>

lemma wait_result:
  fixes w :: "('v, 'k, 'en, 'de, 'b) owner_world" and rpc :: "('b, 'be) broker_rpc"
  assumes inv: "owner_inv dbg (ow_owner w)"
    and adm: "admission waiter_of (\<lambda>x. query_of x = query \<and> fits x) waiter (room_of (ow_owner w)) adm"
    and "asks_for query i"
    and reject: "\<And>w'' x r'. room_retract_last dbg fits (room_of (ow_owner w'')) = Some (r', Some x) \<Longrightarrow>
      \<exists>n. notice_waiter n = waiter_of x \<and> reject w'' = Some (notify [n] (upd_owner (with_room r') w''), Inr ())"
  shows "good_option dbg w {#waiter#}
    (case adm of
       None \<Rightarrow> None
     | Some (room, notices, admitted) \<Rightarrow>
         (let w' = notify notices (upd_owner (with_room room) w) in
          if \<not> admitted then Some (w', Inr ())
          else let (w'', transition) = machine_apply w' i in
            if mt_disposition transition = MdQueryCapacityReached then reject w''
            else Some (interpret_unit rpc has_broker now evidence w'' transition)))"
proof -
  consider (refused) n where "notice_waiter n = waiter" "adm = Some (room_of (ow_owner w), [n], False)"
    | (full) x b d room n where "room_admit (room_of (ow_owner w)) x b d = Some (room, False)"
        "notice_waiter n = waiter" "adm = Some (room, [n], False)"
    | (admitted) x b d room where "room_admit (room_of (ow_owner w)) x b d = Some (room, True)"
        "waiter_of x = waiter" "query_of x = query" "fits x" "adm = Some (room, [], True)"
    using adm by (auto simp: admission_def)
  then show ?thesis
  proof cases
    case refused
    have "owner_inv dbg (with_room (room_of (ow_owner w)) (ow_owner w))"
      using inv by (intro room_inv) (simp_all add: covered_of owner_inv_def)
    then have "good_result dbg w {#waiter#}
        (notify [n] (upd_owner (with_room (room_of (ow_owner w))) w), Inr () :: 'be metadata_owner_error + unit)"
      using refused(1) waiters_with [of "room_of (ow_owner w)" "ow_owner w"]
      by (simp add: good_result_def balance_def upd_owner_def notify_def)
    then show ?thesis using refused(2) by (simp add: good_option_def)
  next
    case full
    then have "good_result dbg w {#waiter#}
        (notify [n] (upd_owner (with_room room) w), Inr () :: 'be metadata_owner_error + unit)"
      using refused_inv [OF inv full(1)] by (simp add: good_result_def balance_def upd_owner_def notify_def)
    then show ?thesis using full(3) by (simp add: good_option_def)
  next
    case admitted
    obtain w2 t where st: "machine_apply (upd_owner (with_room room) w) i = (w2, t)" by fastforce
    note step = admitted_step [OF inv admitted(1) _ st]
    show ?thesis
    proof (cases "mt_disposition t = MdQueryCapacityReached")
      case True
      then obtain r' where r': "room_retract_last dbg fits (room_of (ow_owner w2)) = Some (r', Some x)"
        "owner_inv dbg (with_room r' (ow_owner w2))" "waiters_of (with_room r' (ow_owner w2)) = waiters_of (ow_owner w)"
        using step(2) [where matches = fits] True assms(3) admitted(3,4) by blast
      have notices: "ow_notices w2 = ow_notices w"
        by (rule machine_apply_parts [OF st]) (simp add: upd_owner_def)
      obtain n where n: "notice_waiter n = waiter" "reject w2 = Some (notify [n] (upd_owner (with_room r') w2), Inr ())"
        using reject [OF r'(1)] admitted(2) by auto
      have "good_result dbg w {#waiter#} (notify [n] (upd_owner (with_room r') w2), Inr () :: 'be metadata_owner_error + unit)"
        using r'(2,3) n(1) notices by (simp add: good_result_def balance_def upd_owner_def notify_def)
      then show ?thesis using n(2) True admitted(5) st by (simp add: good_option_def)
    next
      case False
      then have "good_result dbg w {#waiter#} (interpret_unit rpc has_broker now evidence w2 t)"
        using step(1) [of rpc has_broker now evidence False] assms(3) admitted(2,3) interpret_unit_good by fastforce
      then show ?thesis using False admitted(5) st by (simp add: good_option_def)
    qed
  qed
qed

lemma scanned_inv:
  assumes "owner_inv dbg ow" "\<And>x. decide x = None \<Longrightarrow> query_pending (mo_machine ow) (query_of x)"
  obtains r due gone n where
    "room_scan dbg decide expired rejected (room_of ow) now budget =
       Some (r, due, map (scan_outcome decide expired now) gone, n)"
    "owner_inv dbg (with_room r ow)" "list_all (scan_departs decide now) gone"
    "waiters_of ow = waiters_of (with_room r ow) + image_mset waiter_of (mset due + mset (map fst gone))"
proof -
  have "room_covered dbg (mo_machine ow) query_of (room_of ow)" using assms(1) covered_of by (simp add: owner_inv_def)
  from room_covered_scan [where decide = decide and expired = expired and rejected = rejected and now = now
      and budget = budget, OF this assms(2)] obtain r due gone n where r:
    "room_scan dbg decide expired rejected (room_of ow) now budget =
       Some (r, due, map (scan_outcome decide expired now) gone, n)"
    "room_covered dbg (mo_machine ow) query_of r" "list_all (scan_departs decide now) gone"
    "room_items (room_of ow) = room_items r + mset due + mset (map fst gone)"
    by blast
  have "waiters_of (with_room r ow) + image_mset waiter_of (mset (due @ map fst gone)) = waiters_of ow"
    using room_waiters [where ow = ow and out = "[]" and r = r and taken = "due @ map fst gone"] r(4) by (simp add: add.assoc)
  then show ?thesis using that [OF r(1) room_inv [OF assms(1) r(2)] r(3)] by simp
qed

text \<open>A scan of calls answers or routes exactly the calls that leave.\<close>

lemma call_scan_result:
  fixes decide :: "'a \<Rightarrow> ('r, 'k, 'v, 'en, 'de) call_outcome option"
  assumes "owner_inv dbg ow" "\<And>x. decide x = None \<Longrightarrow> query_pending (mo_machine ow) (query_of x)"
    and "\<And>x. waiter_of x = WaitCall (er_call_id (request_of x))"
  obtains r notices p where "call_scan dbg request_of decide (room_of ow) now budget = Some (r, notices, p)"
    "owner_inv dbg (with_room r ow)" "\<forall>route x. (route, x) \<in> set (wg_routed p) \<longrightarrow> decide x = Some (Inr route)"
    "waiters_of ow = waiters_of (with_room r ow) + mset (map notice_waiter notices) +
       mset (map (waiter_of \<circ> snd) (wg_routed p))"
proof -
  obtain r due gone n where scan:
    "room_scan dbg decide (Inl deadline_exceeded) (Inl (ReqRouteCapacityReached (sr_call_limit (room_of ow))
       (sr_byte_limit (room_of ow)))) (room_of ow) now budget =
       Some (r, due, map (scan_outcome decide (Inl deadline_exceeded) now) gone, n)"
    "owner_inv dbg (with_room r ow)" "list_all (scan_departs decide now) gone"
    "waiters_of ow = waiters_of (with_room r ow) + image_mset waiter_of (mset due + mset (map fst gone))"
    using scanned_inv [where decide = decide, OF assms(1,2)] by blast
  let ?left = "map (scan_outcome decide (Inl deadline_exceeded) now) gone"
  let ?failed = "\<lambda>left. concat (map (\<lambda>(x, outcome). outcome_notice (er_call_id (request_of x)) outcome) left)"
    and ?routed = "\<lambda>left. concat (map (\<lambda>(x, outcome). outcome_routed x outcome) left)"
  obtain notices p where c: "call_scan dbg request_of decide (room_of ow) now budget = Some (r, notices, p)"
    "notices = map (\<lambda>x. NoticeFailed (er_call_id (request_of x)) deadline_exceeded) due @ ?failed ?left"
    "wg_routed p = ?routed ?left"
    using scan(1) by (simp add: call_scan_def Let_def)
  have answers: "mset (map notice_waiter (?failed left)) + mset (map (waiter_of \<circ> snd) (?routed left)) =
      mset (map (waiter_of \<circ> fst) left)" for left :: "('a \<times> ('r, 'k, 'v, 'en, 'de) call_outcome) list"
  proof (induction left)
    case (Cons e left)
    then show ?case by (cases e; cases "snd e") (auto simp: assms(3))
  qed simp
  have f: "waiter_of = (\<lambda>x. WaitCall (er_call_id (request_of x)))" by (rule ext) (rule assms(3))
  have "waiters_of ow = waiters_of (with_room r ow) + mset (map notice_waiter notices) +
      mset (map (waiter_of \<circ> snd) (wg_routed p))"
    using answers [of ?left] scan(4) c(2,3)
    by (simp add: f comp_def scan_outcome_def image_mset.compositionality add.assoc)
  moreover have "decide x = Some (Inr route)" if routed: "(route, x) \<in> set (wg_routed p)" for route x
  proof -
    obtain e where e: "e \<in> set gone" "scan_outcome decide (Inl deadline_exceeded) now e = (x, Inr route)"
      using routed unfolding c(3) by (auto simp: outcome_routed_iff)
    then show ?thesis
      using scan(3) by (auto simp: scan_outcome_def scan_departs_def list_all_iff split: if_splits)
  qed
  ultimately show ?thesis using that [OF c(1) scan(2)] by blast
qed

end

lemmas room_laws = rooms_covered_def waiters_of_def outstanding_def

interpretation partition_room: owner_room mo_waiters "\<lambda>r ow. ow\<lparr>mo_waiters := r\<rparr>"
    "\<lambda>x. QueryTopic (wp_topic x)" partition_waiter
  by unfold_locales (simp_all add: room_laws)

interpretation controller_room: owner_room mo_controller_waiters "\<lambda>r ow. ow\<lparr>mo_controller_waiters := r\<rparr>"
    "\<lambda>x. QueryCluster" controller_waiter
  by unfold_locales (simp_all add: room_laws)

interpretation view_room: owner_room mo_topic_views "\<lambda>r ow. ow\<lparr>mo_topic_views := r\<rparr>"
    "\<lambda>x. QueryTopic (wtv_topic x)" view_waiter
  by unfold_locales (simp_all add: room_laws)

section \<open>Waiting\<close>

lemma call_admit_admission:
  fixes request :: "'v erased_request"
  assumes "room_covered dbg m query_of room"
    and "\<And>r. er_call_id r = er_call_id request \<Longrightarrow> fits (stored r) \<and> waiter_of (stored r) = WaitCall (er_call_id request)"
  shows "admission waiter_of fits (WaitCall (er_call_id request)) room
    (call_admit stored bytes room request now :: ('a scan_room \<times> ('k, 'v, 'en, 'de) owner_notice list \<times> bool) option)"
proof -
  obtain policy and established :: "('k, 'v, 'en, 'de) request_error + moment" where e: "policy_establish_deadline (er_policy request) now = (policy, established)"
    by fastforce
  let ?r = "request\<lparr>er_policy := policy\<rparr>"
  have fits: "fits (stored ?r)" "waiter_of (stored ?r) = WaitCall (er_call_id request)"
    using assms(2) [of ?r] by simp_all
  have refused: "admission waiter_of fits (WaitCall (er_call_id request)) room
      (Some (room, [NoticeFailed (er_call_id request) failure], False))"
    for failure :: "('k, 'v, 'en, 'de) request_error"
    unfolding admission_def by (intro disjI1 exI [of _ "NoticeFailed (er_call_id request) failure"]) simp
  show ?thesis
  proof (cases established)
    case (Inr deadline)
    have "room_wf dbg room" using assms(1) by (simp add: room_covered_def room_sound_def)
    then obtain room' ok where r: "room_admit room (stored ?r) (bytes ?r) deadline = Some (room', ok)"
      using room_admit_result [of dbg room "stored ?r" "bytes ?r" deadline] by blast
    have full: "admission waiter_of fits (WaitCall (er_call_id request)) room
        (Some (room', [NoticeFailed (er_call_id request) failure], False))" if "\<not> ok"
      for failure :: "('k, 'v, 'en, 'de) request_error"
      unfolding admission_def
      by (intro disjI2 disjI1 exI [of _ "stored ?r"] exI [of _ "bytes ?r"] exI [of _ deadline] exI [of _ room']
          exI [of _ "NoticeFailed (er_call_id request) failure"]) (use r that in simp)
    have admitted: "admission waiter_of fits (WaitCall (er_call_id request)) room
        (Some (room', [] :: ('k, 'v, 'en, 'de) owner_notice list, True))" if ok
      unfolding admission_def
      by (intro disjI2 exI [of _ "stored ?r"] exI [of _ "bytes ?r"] exI [of _ deadline] exI [of _ room'])
         (use r that fits in simp)
    show ?thesis
      using e Inr refused full admitted r by (cases ok) (simp_all add: call_admit_def Let_def)
  qed (simp add: call_admit_def e refused)
qed

lemma topic_admit_admission:
  assumes "room_covered dbg m query_of room"
  shows "admission view_waiter (\<lambda>x. QueryTopic (wtv_topic x) = QueryTopic (tvw_topic waiting) \<and> wtv_topic x = tvw_topic waiting)
    (WaitView (tvw_completion waiting)) room (topic_admit room waiting)"
proof -
  let ?x = "\<lparr>wtv_topic = tvw_topic waiting, wtv_requirement = tvw_requirement waiting,
    wtv_completion = tvw_completion waiting, wtv_terminal = None\<rparr>"
  have "room_wf dbg room" using assms by (simp add: room_covered_def room_sound_def)
  then obtain room' ok where r: "room_admit room ?x (tvw_retained_bytes waiting) (tvw_deadline waiting) = Some (room', ok)"
    using room_admit_result [of dbg room ?x "tvw_retained_bytes waiting" "tvw_deadline waiting"] by blast
  show ?thesis
  proof (cases ok)
    case True
    with r show ?thesis
      unfolding admission_def
      by (intro disjI2 exI [of _ ?x] exI [of _ "tvw_retained_bytes waiting"] exI [of _ "tvw_deadline waiting"]
          exI [of _ room']) (simp add: topic_admit_def view_waiter_def)
  next
    case False
    with r show ?thesis
      unfolding admission_def
      by (intro disjI2 disjI1 exI [of _ ?x] exI [of _ "tvw_retained_bytes waiting"] exI [of _ "tvw_deadline waiting"]
          exI [of _ room'] exI [of _ "NoticeTopicView (tvw_completion waiting)
            (Inl (TvCapacityReached (sr_call_limit room) (sr_byte_limit room)))"])
         (simp add: topic_admit_def)
  qed
qed

lemma reserved_good:
  fixes w :: "('v, 'k, 'en, 'de, 'b) owner_world"
    and k :: "('v, 'k, 'en, 'de, 'b) owner_world \<Rightarrow> operation_id \<Rightarrow>
      (('v, 'k, 'en, 'de, 'b) owner_world \<times> ('be metadata_owner_error + unit)) option"
  assumes "owner_inv dbg (ow_owner w)"
    and "\<And>w' operation_id. owner_inv dbg (ow_owner w') \<Longrightarrow> good_option dbg w' taken (k w' operation_id)"
  shows "good_option dbg w taken
    (case reserve_operation w of (w', Inl e) \<Rightarrow> Some (w', Inl e) | (w', Inr operation_id) \<Rightarrow> k w' operation_id)"
proof -
  obtain w1 and r :: "'be metadata_owner_error + operation_id" where res: "reserve_operation w = (w1, r)"
    by fastforce
  show ?thesis
  proof (cases r)
    case (Inl e)
    then show ?thesis using res reserve_result(4) [OF res] by (auto simp: good_option_def intro: good_error)
  next
    case (Inr operation_id)
    then show ?thesis
      using res assms(2) [OF reserve_inv(1) [OF res assms(1)], of operation_id] reserve_inv(2) [OF res assms(1)]
      by (auto simp: good_option_def good_result_def)
  qed
qed

lemma inv_covered:
  "owner_inv dbg ow \<Longrightarrow> room_covered dbg (mo_machine ow) (\<lambda>x. QueryTopic (wp_topic x)) (mo_waiters ow)"
  "owner_inv dbg ow \<Longrightarrow> room_covered dbg (mo_machine ow) (\<lambda>x. QueryCluster) (mo_controller_waiters ow)"
  "owner_inv dbg ow \<Longrightarrow> room_covered dbg (mo_machine ow) (\<lambda>x. QueryTopic (wtv_topic x)) (mo_topic_views ow)"
  by (simp_all add: owner_inv_def rooms_covered_def)

lemma notified_once: "notice_waiter n = x \<Longrightarrow> \<exists>n'. notice_waiter n' = x \<and> notify [n] w = notify [n'] w"
  by blast

lemma wait_for_partition_good:
  assumes "owner_inv dbg (ow_owner w)"
  shows "good_option dbg w {#WaitCall (er_call_id request)#}
    (wait_for_partition rpc dbg heap_bytes has_broker w topic part request now evidence)"
  unfolding wait_for_partition_def partition_admit_def
  by (rule reserved_good [OF assms], rule partition_room.wait_result
        [where query = "QueryTopic topic" and fits = "\<lambda>x. er_call_id (wp_request x) = er_call_id request"])
     (auto simp: partition_waiter_def reject_query_capacity_def
       intro!: notified_once call_admit_admission [OF inv_covered(1)])

lemma wait_for_cluster_route_good:
  assumes "owner_inv dbg (ow_owner w)"
  shows "good_option dbg w {#WaitCall (er_call_id request)#}
    (wait_for_cluster_route rpc dbg has_broker w target request now evidence)"
  unfolding wait_for_cluster_route_def controller_admit_def
  by (rule reserved_good [OF assms], rule controller_room.wait_result
        [where query = QueryCluster and fits = "\<lambda>x. er_call_id (wcc_request x) = er_call_id request"])
     (auto simp: controller_waiter_def reject_controller_query_capacity_def
       intro!: notified_once call_admit_admission [OF inv_covered(2)])

lemma wait_for_topic_view_good:
  assumes "owner_inv dbg (ow_owner w)"
  shows "good_option dbg w {#WaitView (tvw_completion waiting)#}
    (wait_for_topic_view rpc dbg has_broker w waiting now evidence)"
  unfolding wait_for_topic_view_def Let_def [of "tvw_topic waiting"] Let_def [of "QueryTopic (tvw_topic waiting)"]
  by (rule reserved_good [OF assms], rule view_room.wait_result
        [where query = "QueryTopic (tvw_topic waiting)" and fits = "\<lambda>x. wtv_topic x = tvw_topic waiting"])
     (auto simp: view_waiter_def intro!: notified_once topic_admit_admission [OF inv_covered(3), simplified])

section \<open>Completed fetches\<close>

text \<open>Between the completion of a fetch and the scans it begins, waiting items may lack their query.\<close>

definition loose_inv :: "bool \<Rightarrow> 'v metadata_owner \<Rightarrow> bool" where
  "loose_inv dbg ow \<longleftrightarrow> linked ow \<and> metadata_wf (mo_machine ow) \<and> rooms_sound dbg ow"

lemma owner_inv_loose: "owner_inv dbg ow \<Longrightarrow> loose_inv dbg ow"
  by (simp add: owner_inv_def loose_inv_def rooms_covered_sound)

lemma begin_scans_inv:
  assumes "loose_inv dbg ow"
  shows "owner_inv dbg (begin_scans ow)" "waiters_of (begin_scans ow) = waiters_of ow"
  using assms
  by (auto simp: loose_inv_def owner_inv_def linked_def outstanding_def begin_scans_def rooms_sound_def
      rooms_covered_def room_covered_begin waiters_of_def invalidation_waiters_def invalidations_begin_scan_def
      subscribers_counted_def)

lemma room_map_items:
  assumes "room_sound dbg room" "\<And>x. h (f x) = h x"
  shows "image_mset h (room_items (room_map f room)) = image_mset h (room_items room)"
proof -
  have "map (h \<circ> fst) (room_content (room_map f room)) = map (h \<circ> fst) (room_content room)"
    by (simp add: room_map_result(2) [OF assms(1)] assms(2) split_beta comp_def)
  then show ?thesis by (simp flip: mset_map)
qed

lemma mark_terminal_inv:
  assumes "rooms_sound dbg ow"
  shows "rooms_sound dbg (ow\<lparr>mo_topic_views := topic_mark_terminal (mo_topic_views ow) topic evidence terminal\<rparr>)"
    "waiters_of (ow\<lparr>mo_topic_views := topic_mark_terminal (mo_topic_views ow) topic evidence terminal\<rparr>) =
      waiters_of ow"
proof -
  have "room_sound dbg (mo_topic_views ow)" using assms by (simp add: rooms_sound_def)
  note r = room_map_result(1) [OF this] room_map_items [OF this, of view_waiter]
  show "rooms_sound dbg (ow\<lparr>mo_topic_views := topic_mark_terminal (mo_topic_views ow) topic evidence terminal\<rparr>)"
    using assms r(1) by (simp add: rooms_sound_def topic_mark_terminal_def)
  show "waiters_of (ow\<lparr>mo_topic_views := topic_mark_terminal (mo_topic_views ow) topic evidence terminal\<rparr>) =
      waiters_of ow"
    using r(2) [of "topic_marked topic evidence terminal"]
    by (simp add: waiters_of_def topic_mark_terminal_def view_waiter_def topic_marked_def)
qed

lemma failure_input_result:
  assumes "failure_input w operation_id = (w', r)"
  shows "same_waiting (ow_owner w) (ow_owner w')" "outstanding (ow_owner w') = outstanding (ow_owner w)"
    "ow_notices w' = ow_notices w" "r \<noteq> Inl OwnerUnexpectedEffect"
    "r = Inr i \<Longrightarrow> \<exists>followup. i = MdRefreshFailed operation_id followup"
  using assms
  by (auto simp: failure_input_def split: prod.splits sum.splits dest: reserve_result)

lemma completed_input_result:
  assumes "completed_input w fetch result = (w', r)" "metadata_wf (mo_machine (ow_owner w))"
  shows "same_waiting (ow_owner w) (ow_owner w')" "outstanding (ow_owner w') = outstanding (ow_owner w)"
    "ow_notices w' = ow_notices w" "r \<noteq> Inl OwnerUnexpectedEffect"
    "r = Inr (i, terminal) \<Longrightarrow> metadata_input_ok i \<and>
       (\<exists>followup snapshot. i = MdRefreshFailed (mf_operation_id fetch) followup \<or>
         i = MdRefreshSucceeded (mf_operation_id fetch) snapshot followup \<and>
         snapshot_generation snapshot = mf_generation fetch)"
proof -
  let ?current = "metadata_current (mo_machine (ow_owner w))"
  have ok: "current_ok ?current"
    using current_wf [OF assms(2)] by (simp add: current_ok_def split: option.splits)
  have snap: "snapshot_wf s \<and> snapshot_generation s = mf_generation fetch"
    if "snapshot_from_response response (fetch_provenance fetch) ?current l1 l2 = Inr s" for response l1 l2 s
    using snapshot_from_response_Inr(1,2) [OF that ok] by (simp add: fetch_provenance_def)
  note parts = completed_input_def success_input_def Let_def
  show "same_waiting (ow_owner w) (ow_owner w')" "outstanding (ow_owner w') = outstanding (ow_owner w)"
    "ow_notices w' = ow_notices w" "r \<noteq> Inl OwnerUnexpectedEffect"
    using assms(1)
    by (auto simp: parts split: fetch_result.splits prod.splits sum.splits
        dest: failure_input_result(1-4) reserve_result(1-4))
  assume "r = Inr (i, terminal)"
  then show "metadata_input_ok i \<and>
       (\<exists>followup snapshot. i = MdRefreshFailed (mf_operation_id fetch) followup \<or>
         i = MdRefreshSucceeded (mf_operation_id fetch) snapshot followup \<and>
         snapshot_generation snapshot = mf_generation fetch)"
    using assms(1)
    by (auto simp: parts split: fetch_result.splits prod.splits sum.splits dest: snap failure_input_result(5) [OF _ refl])
qed

lemma fetch_effects:
  assumes "concat (map effect_fetch es) = machine_fetch s" "MdGenerationExhausted \<notin> set es"
  shows "es = [] \<or> (\<exists>f g q. es = [MdFetch f g q])"
proof (cases es)
  case (Cons e es')
  have one: "length (machine_fetch s) \<le> 1" by (cases s) simp_all
  obtain f g q where "e = MdFetch f g q" using assms(2) Cons by (cases e) auto
  moreover have "es' = []"
  proof (cases es')
    case (Cons e' es'')
    then obtain f' g' q' where "e' = MdFetch f' g' q'" using assms(2) \<open>es = e # es'\<close> by (cases e') auto
    then show ?thesis using assms(1) one Cons \<open>es = e # es'\<close> \<open>e = MdFetch f g q\<close> by (auto dest: arg_cong [of _ _ length])
  qed
  ultimately show ?thesis using Cons by simp
qed simp

lemma completion_links:
  assumes "machine_fetch (mm_state (mo_machine (ow_owner w))) = [fetch_key fetch]" "outstanding (ow_owner w) = []"
    and "metadata_wf (mo_machine (ow_owner w))" "rooms_sound dbg (ow_owner w)"
    and i: "metadata_input_ok i" "i = MdRefreshFailed (mf_operation_id fetch) followup \<or>
         i = MdRefreshSucceeded (mf_operation_id fetch) snapshot followup \<and>
         snapshot_generation snapshot = mf_generation fetch"
    and "machine_apply w i = (w1, t)"
    and "owner_interpret rpc has_broker now evidence w1 (mt_effects t) p = (w2, r)"
  shows "r \<noteq> Inl OwnerUnexpectedEffect" "r = Inr b \<Longrightarrow> loose_inv dbg (ow_owner w2)" "balance w2 = balance w"
proof -
  obtain m' where m: "metadata_apply (mo_machine (ow_owner w)) i = (m', t)"
    "ow_owner w1 = (ow_owner w)\<lparr>mo_machine := m'\<rparr>" "ow_notices w1 = ow_notices w"
    using machine_apply_parts [OF assms(7)] by blast
  note step = completes_fetch_step [OF assms(1) [unfolded fetch_key_def] i(2) m(1)]
  have "mt_effects t = [] \<or> mt_effects t = [MdGenerationExhausted] \<or>
      (\<exists>f g q. mt_effects t = [MdFetch f g q]) \<and> outstanding (ow_owner w1) = []"
    using step fetch_effects [of "mt_effects t"] assms(2) by (auto simp: m(2))
  note r = interpret_result [OF assms(8) this]
  show "r \<noteq> Inl OwnerUnexpectedEffect" by (rule r(1))
  show "balance w2 = balance w"
    using same_waiting_balance [OF r(2,3)] machine_balance [OF m(2,3)] by simp
  assume ok: "r = Inr b"
  have "metadata_wf m'" using metadata_apply_wf [OF assms(3) i(1)] m(1) by simp
  moreover have "linked (ow_owner w2)"
    using r(2,4,5) ok step assms(2) by (auto simp: linked_def same_waiting_def m(2))
  moreover have "rooms_sound dbg (ow_owner w2)"
    using same_waiting_covered(2) [OF r(2), of dbg] assms(4) by (simp add: m(2) rooms_sound_def)
  ultimately show "loose_inv dbg (ow_owner w2)"
    using r(2) by (simp add: loose_inv_def same_waiting_def m(2))
qed

lemma outstanding_one: "linked ow \<Longrightarrow> length (outstanding ow) \<le> 1"
  by (cases "mm_state (mo_machine ow)") (auto simp: linked_def dest: arg_cong [of _ _ length])

lemma pending_fetch:
  assumes "linked ow" "mo_pending ow = Some pending"
  shows "machine_fetch (mm_state (mo_machine ow)) = [fetch_key (pm_fetch pending)]"
    "outstanding (ow\<lparr>mo_pending := None\<rparr>) = []"
  using assms(1) [unfolded linked_def, symmetric] outstanding_one [OF assms(1)] assms(2)
  by (simp_all add: outstanding_def split: option.splits)

lemma requested_fetch:
  assumes "linked ow" "mo_requested ow = Some fetch"
  shows "machine_fetch (mm_state (mo_machine ow)) = [fetch_key fetch]" "mo_pending ow = None"
  using assms(1) [unfolded linked_def, symmetric] outstanding_one [OF assms(1)] assms(2)
  by (simp_all add: outstanding_def split: option.splits)

text \<open>A turn that completed nothing keeps the invariant; one that did keeps it up to the scans it begins.\<close>

definition mark_terminal ::
    "metadata_fetch \<Rightarrow> (topic_name \<times> topic_view_error) option \<Rightarrow> ('v, 'k, 'en, 'de, 'b) owner_world \<Rightarrow>
     ('v, 'k, 'en, 'de, 'b) owner_world" where
  "mark_terminal fetch topic_terminal w =
     (case topic_terminal of
        None \<Rightarrow> w
      | Some (topic, terminal) \<Rightarrow>
          upd_owner (\<lambda>ow. ow\<lparr>mo_topic_views :=
            topic_mark_terminal (mo_topic_views ow) topic (mf_evidence fetch) terminal\<rparr>) w)"

lemma mark_terminal_result:
  assumes "rooms_sound dbg (ow_owner w)"
  shows "rooms_sound dbg (ow_owner (mark_terminal fetch terminal w))" "balance (mark_terminal fetch terminal w) = balance w"
    "mo_machine (ow_owner (mark_terminal fetch terminal w)) = mo_machine (ow_owner w)"
    "outstanding (ow_owner (mark_terminal fetch terminal w)) = outstanding (ow_owner w)"
  using assms mark_terminal_inv [OF assms]
  by (auto simp: mark_terminal_def upd_owner_def balance_def outstanding_def split: option.splits prod.splits)

lemma observe_completion_result:
  fixes rpc :: "('b, 'be) broker_rpc"
  assumes inv: "owner_inv dbg (ow_owner w)" and obs: "observe_completion rpc w now evidence result = (w', r)"
  shows "r \<noteq> Inl OwnerUnexpectedEffect \<and> (r = Inr True \<longrightarrow> loose_inv dbg (ow_owner w')) \<and>
    (r = Inr False \<longrightarrow> w' = w) \<and> (\<forall>b. r = Inr b \<longrightarrow> balance w' = balance w)"
proof (cases "\<exists>pending finished. mo_pending (ow_owner w) = Some pending \<and> result = Some finished")
  case False
  then have "w' = w" "r = Inr False" using obs by (auto simp: observe_completion_def split: option.splits)
  then show ?thesis by simp
next
  case True
  then obtain pending finished where p: "mo_pending (ow_owner w) = Some pending" "result = Some finished" by blast
  define w0 where "w0 = upd_owner (\<lambda>ow. ow\<lparr>mo_pending := None\<rparr>) w"
  obtain w1 and r1 :: "'be metadata_owner_error + metadata_input \<times> (topic_name \<times> topic_view_error) option"
    where c: "completed_input w0 (pm_fetch pending) finished = (w1, r1)" by fastforce
  have inv': "linked (ow_owner w)" "metadata_wf (mo_machine (ow_owner w))" "rooms_sound dbg (ow_owner w)"
    using inv by (auto simp: owner_inv_def rooms_covered_sound)
  have "metadata_wf (mo_machine (ow_owner w0))" using inv'(2) by (simp add: w0_def upd_owner_def)
  note comp = completed_input_result [OF c this]
  note fetch = pending_fetch [OF inv'(1) p(1)]
  have w0: "same_waiting (ow_owner w) (ow_owner w0)" "outstanding (ow_owner w0) = []" "ow_notices w0 = ow_notices w"
    using fetch(2) by (simp_all add: w0_def upd_owner_def)
  have w1: "same_waiting (ow_owner w) (ow_owner w1)" "outstanding (ow_owner w1) = []" "ow_notices w1 = ow_notices w"
    using same_waiting_trans [OF w0(1) comp(1)] comp(2,3) w0(2,3) by simp_all
  show ?thesis
  proof (cases r1)
    case (Inl e)
    then have "r = Inl e" using obs p c by (simp add: observe_completion_def w0_def)
    then show ?thesis using comp(4) Inl by auto
  next
    case (Inr x)
    obtain i terminal where x: "x = (i, terminal)" by fastforce
    let ?w2 = "mark_terminal (pm_fetch pending) terminal w1"
    obtain followup snapshot where i: "metadata_input_ok i"
      "i = MdRefreshFailed (mf_operation_id (pm_fetch pending)) followup \<or>
       i = MdRefreshSucceeded (mf_operation_id (pm_fetch pending)) snapshot followup \<and>
       snapshot_generation snapshot = mf_generation (pm_fetch pending)"
      using comp(5) [of i terminal] Inr x by blast
    have "rooms_sound dbg (ow_owner w1)" using inv'(3) w1(1) by (simp add: same_waiting_def rooms_sound_def)
    note w2 = mark_terminal_result [OF this, of "pm_fetch pending" terminal]
    obtain w3 t where st: "machine_apply ?w2 i = (w3, t)" by fastforce
    obtain w4 r4 where int: "owner_interpret rpc True now evidence w3 (mt_effects t) False = (w4, r4)" by fastforce
    have "mo_machine (ow_owner w1) = mo_machine (ow_owner w)" using w1(1) by (simp add: same_waiting_def)
    then have links: "r4 \<noteq> Inl OwnerUnexpectedEffect" "\<And>b. r4 = Inr b \<Longrightarrow> loose_inv dbg (ow_owner w4)"
      "balance w4 = balance ?w2"
      using completion_links [OF _ _ _ w2(1) i st int] fetch(1) inv'(2) w2(3,4) w1(2) by simp_all
    have "(w', r) = (case (w4, r4) of (w', Inl e) \<Rightarrow> (w', Inl e) | (w', Inr _) \<Rightarrow> (w', Inr True))"
      using obs p c Inr x st int by (simp add: observe_completion_def w0_def mark_terminal_def)
    then show ?thesis
      using links w2(2) same_waiting_balance [OF w1(1,3)] by (cases r4) auto
  qed
qed

section \<open>A turn\<close>

lemma drive_requested_result:
  assumes "owner_inv dbg (ow_owner w)" "drive_requested rpc w now = (w', r)"
  shows "good_result dbg w {#} (w', r)"
proof (cases "mo_requested (ow_owner w)")
  case (Some fetch)
  show ?thesis
  proof (cases "rpc_is_ready rpc (ow_broker w)")
    case True
    let ?w = "upd_owner (\<lambda>ow. ow\<lparr>mo_requested := None, mo_initial_refresh := False\<rparr>) w"
    obtain w1 r1 where sub: "owner_submit rpc ?w fetch now = (w1, r1)" by fastforce
    have "linked (ow_owner w)" using assms(1) by (simp add: owner_inv_def)
    note keys = requested_fetch [OF this Some]
    have "outstanding (ow_owner ?w) = []" using keys(2) by (simp add: outstanding_def upd_owner_def)
    note s = submit_result [OF sub this]
    have same: "same_waiting (ow_owner w) (ow_owner w1)"
      using s(2) by (simp add: same_waiting_def upd_owner_def)
    have "balance w1 = balance w"
      using same s(3) by (intro same_waiting_balance) (simp_all add: upd_owner_def)
    moreover have "owner_inv dbg (ow_owner w1)" if "r1 = Inr ()"
      using assms(1) s(4) [OF that] keys(1) same same_waiting_covered(1) [OF same, of dbg]
      by (simp add: owner_inv_def linked_def same_waiting_def)
    ultimately show ?thesis
      using assms(2) Some True sub s(1) by (cases r1) (auto simp: drive_requested_def good_result_def)
  qed (use assms Some in \<open>auto simp: drive_requested_def good_result_def\<close>)
qed (use assms in \<open>auto simp: drive_requested_def good_result_def\<close>)

lemma drive_initial_result:
  fixes rpc :: "('b, 'be) broker_rpc"
  assumes "owner_inv dbg (ow_owner w)"
  shows "good_result dbg w {#} (drive_initial rpc w now evidence)"
proof (cases "mo_initial_refresh (ow_owner w) \<and> rpc_is_ready rpc (ow_broker w)")
  case True
  let ?w = "upd_owner (\<lambda>ow. ow\<lparr>mo_initial_refresh := False\<rparr>) w"
  have inv: "owner_inv dbg (ow_owner ?w)" "balance ?w = balance w"
    using assms
    by (simp_all add: upd_owner_def owner_inv_def linked_def outstanding_def rooms_covered_def balance_def waiters_of_def)
  obtain w1 and r :: "'be metadata_owner_error + operation_id" where res: "reserve_operation ?w = (w1, r)"
    by fastforce
  show ?thesis
  proof (cases r)
    case (Inl e)
    then show ?thesis using True res reserve_result(4) [OF res] by (auto simp: drive_initial_def intro: good_error)
  next
    case (Inr operation_id)
    obtain w2 t where st: "machine_apply w1 (MdRefresh QueryCluster operation_id) = (w2, t)" by fastforce
    obtain w3 r3 where i: "owner_interpret rpc True now evidence w2 (mt_effects t) False = (w3, r3)" by fastforce
    have "good_result dbg w1 {#} (w3, r3)"
      using ask_directly [OF reserve_inv(1) [OF res inv(1)] _ st i] by simp
    then show ?thesis
      using True res Inr st i reserve_inv(2) [OF res inv(1)] inv(2) by (simp add: drive_initial_def good_result_def)
  qed
qed (use assms in \<open>auto simp: drive_initial_def good_result_def\<close>)

lemma owner_drive_good:
  fixes rpc :: "('b, 'be) broker_rpc"
  assumes "owner_inv dbg (ow_owner w)"
  shows "good_result dbg w {#} (owner_drive rpc w now evidence result)"
proof -
  obtain w1 r1 where q: "drive_requested rpc w now = (w1, r1)" by fastforce
  note good1 = drive_requested_result [OF assms q]
  show ?thesis
  proof (cases r1)
    case (Inl e)
    then show ?thesis using good1 q by (simp add: owner_drive_def good_result_def)
  next
    case (Inr submitted)
    then have w1: "owner_inv dbg (ow_owner w1)" "balance w1 = balance w" using good1 by (simp_all add: good_result_def)
    obtain w2 r2 where o2: "observe_completion rpc w1 now evidence result = (w2, r2)" by fastforce
    note obs = observe_completion_result [OF w1(1) o2]
    show ?thesis
    proof (cases r2)
      case (Inl e)
      then show ?thesis using obs q o2 Inr by (auto simp: owner_drive_def intro: good_error)
    next
      case (Inr completed)
      define w3 where "w3 = (if submitted \<or> completed then upd_owner begin_scans w2 else w2)"
      have loose: "loose_inv dbg (ow_owner w2)" and idle: "\<not> completed \<longrightarrow> w2 = w1" and "balance w2 = balance w1"
        using obs Inr owner_inv_loose [OF w1(1)] by (cases completed; auto)+
      then have w3: "balance w3 = balance w"
        using begin_scans_inv(2) [OF loose] w1(2) by (auto simp: w3_def upd_owner_def balance_def)
      have "owner_inv dbg (ow_owner w3)"
        using begin_scans_inv(1) [OF loose] w1(1) idle by (auto simp: w3_def upd_owner_def)
      note w3 = this w3
      obtain w4 r4 where ini: "drive_initial rpc w3 now evidence = (w4, r4)" by fastforce
      have "good_result dbg w3 {#} (w4, r4)" using drive_initial_result [OF w3(1), of rpc now evidence] ini by simp
      moreover have "owner_drive rpc w now evidence result =
          (case (w4, r4) of (w', Inl e) \<Rightarrow> (w', Inl e) | (w', Inr started) \<Rightarrow> (w', Inr ((submitted \<or> completed) \<or> started)))"
        using q o2 \<open>r1 = Inr submitted\<close> Inr ini unfolding w3_def by (simp add: owner_drive_def Let_def)
      ultimately show ?thesis using w3(2) by (cases r4) (auto simp: good_result_def)
    qed
  qed
qed

section \<open>Scans\<close>

lemma decide_keeps:
  "partition_decide machine x = None \<Longrightarrow> query_pending machine (QueryTopic (wp_topic x))"
  "controller_decide machine y = None \<Longrightarrow> query_pending machine QueryCluster"
  "topic_decide reserves machine z = None \<Longrightarrow> query_pending machine (QueryTopic (wtv_topic z))"
  by (auto simp: partition_decide_def controller_decide_def topic_decide_def Let_def
      split: option.splits if_splits sum.splits)

lemma drain_partitions_result:
  fixes w :: "('v, 'k, 'en, 'de, 'b) owner_world"
  assumes "owner_inv dbg (ow_owner w)"
  obtains w' p where "drain_partition_waiters dbg w now = Some (w', p)" "owner_inv dbg (ow_owner w')"
    "balance w = balance w' + mset (map (partition_waiter \<circ> snd) (wg_routed p))"
    "\<forall>route x. (route, x) \<in> set (wg_routed p) \<longrightarrow>
       (\<exists>s. metadata_current (mo_machine (ow_owner w)) = Some s \<and>
         snapshot_partition_route s (wp_topic x) (wp_partition x) = Some route)"
proof -
  have call: "partition_waiter x = WaitCall (er_call_id (wp_request x))" for x :: "'v waiting_partition_call"
    by (simp add: partition_waiter_def)
  let ?decide = "partition_decide (mo_machine (ow_owner w)) ::
    'v waiting_partition_call \<Rightarrow> (partition_route, 'k, 'v, 'en, 'de) call_outcome option"
  obtain r notices p where scan:
    "call_scan dbg wp_request ?decide (mo_waiters (ow_owner w)) now
       (ml_partition_admission_budget (mo_limits (ow_owner w))) = Some (r, notices, p)"
    "owner_inv dbg ((ow_owner w)\<lparr>mo_waiters := r\<rparr>)"
    "\<forall>route x. (route, x) \<in> set (wg_routed p) \<longrightarrow> ?decide x = Some (Inr route)"
    "waiters_of (ow_owner w) = waiters_of ((ow_owner w)\<lparr>mo_waiters := r\<rparr>) + mset (map notice_waiter notices) +
       mset (map (partition_waiter \<circ> snd) (wg_routed p))"
    using partition_room.call_scan_result [where decide = ?decide and
        now = now and budget = "ml_partition_admission_budget (mo_limits (ow_owner w))",
        OF assms decide_keeps(1) call]
    by blast
  show ?thesis
  proof (rule that [of "notify notices (upd_owner (\<lambda>ow. ow\<lparr>mo_waiters := r\<rparr>) w)" p])
    show "drain_partition_waiters dbg w now = Some (notify notices (upd_owner (\<lambda>ow. ow\<lparr>mo_waiters := r\<rparr>) w), p)"
      using scan(1) by (simp add: drain_partition_waiters_def partition_scan_def)
    have "\<exists>s. metadata_current (mo_machine (ow_owner w)) = Some s \<and>
         snapshot_partition_route s (wp_topic x) (wp_partition x) = Some route"
      if "(route, x) \<in> set (wg_routed p)" for route x
      using scan(3) [rule_format, OF that] by (auto simp: partition_decide_def bind_eq_Some_conv split: option.splits if_splits)
    then show "\<forall>route x. (route, x) \<in> set (wg_routed p) \<longrightarrow>
       (\<exists>s. metadata_current (mo_machine (ow_owner w)) = Some s \<and>
         snapshot_partition_route s (wp_topic x) (wp_partition x) = Some route)"
      by blast
  qed (use scan(2,4) in \<open>simp_all add: upd_owner_def balance_def notify_def ac_simps\<close>)
qed

lemma drain_controllers_result:
  fixes w :: "('v, 'k, 'en, 'de, 'b) owner_world"
  assumes "owner_inv dbg (ow_owner w)"
  obtains w' p where "drain_controller_waiters dbg w now = Some (w', p)" "owner_inv dbg (ow_owner w')"
    "balance w = balance w' + mset (map (controller_waiter \<circ> snd) (wg_routed p))"
    "\<forall>route x. (route, x) \<in> set (wg_routed p) \<longrightarrow>
       cluster_target_resolve (wcc_target x) (mo_machine (ow_owner w)) = Some route"
proof -
  have call: "controller_waiter x = WaitCall (er_call_id (wcc_request x))" for x :: "'v waiting_controller_call"
    by (simp add: controller_waiter_def)
  let ?decide = "controller_decide (mo_machine (ow_owner w)) ::
    'v waiting_controller_call \<Rightarrow> (broker_route, 'k, 'v, 'en, 'de) call_outcome option"
  have keeps: "?decide x = None \<Longrightarrow> query_pending (mo_machine (ow_owner w)) QueryCluster" for x
    by (rule decide_keeps(2))
  obtain r notices p where scan:
    "call_scan dbg wcc_request ?decide (mo_controller_waiters (ow_owner w)) now
       (ml_controller_admission_budget (mo_limits (ow_owner w))) = Some (r, notices, p)"
    "owner_inv dbg ((ow_owner w)\<lparr>mo_controller_waiters := r\<rparr>)"
    "\<forall>route x. (route, x) \<in> set (wg_routed p) \<longrightarrow> ?decide x = Some (Inr route)"
    "waiters_of (ow_owner w) = waiters_of ((ow_owner w)\<lparr>mo_controller_waiters := r\<rparr>) +
       mset (map notice_waiter notices) + mset (map (controller_waiter \<circ> snd) (wg_routed p))"
    by (rule controller_room.call_scan_result [where decide = ?decide and
        now = now and budget = "ml_controller_admission_budget (mo_limits (ow_owner w))", OF assms _ call],
        erule keeps) blast
  show ?thesis
  proof (rule that [of "notify notices (upd_owner (\<lambda>ow. ow\<lparr>mo_controller_waiters := r\<rparr>) w)" p])
    show "drain_controller_waiters dbg w now =
        Some (notify notices (upd_owner (\<lambda>ow. ow\<lparr>mo_controller_waiters := r\<rparr>) w), p)"
      using scan(1) by (simp add: drain_controller_waiters_def controller_scan_def)
    have "cluster_target_resolve (wcc_target x) (mo_machine (ow_owner w)) = Some route"
      if "(route, x) \<in> set (wg_routed p)" for route x
      using scan(3) [rule_format, OF that] by (auto simp: controller_decide_def split: option.splits if_splits)
    then show "\<forall>route x. (route, x) \<in> set (wg_routed p) \<longrightarrow>
       cluster_target_resolve (wcc_target x) (mo_machine (ow_owner w)) = Some route"
      by blast
  qed (use scan(2,4) in \<open>simp_all add: upd_owner_def balance_def notify_def ac_simps\<close>)
qed

lemma drain_views_result:
  fixes w :: "('v, 'k, 'en, 'de, 'b) owner_world"
  assumes "owner_inv dbg (ow_owner w)"
  obtains w' p where "drain_topic_view_waiters dbg reserves w now = Some (w', p)" "owner_inv dbg (ow_owner w')"
    "balance w = balance w'"
proof -
  let ?decide = "topic_decide reserves (mo_machine (ow_owner w))" and ?room = "mo_topic_views (ow_owner w)"
  obtain r due gone n where scan:
    "room_scan dbg ?decide (Inl TvDeadlineExceeded) (Inl (TvCapacityReached (sr_call_limit ?room) (sr_byte_limit ?room)))
       ?room now (ml_topic_view_admission_budget (mo_limits (ow_owner w))) =
       Some (r, due, map (scan_outcome ?decide (Inl TvDeadlineExceeded) now) gone, n)"
    "owner_inv dbg ((ow_owner w)\<lparr>mo_topic_views := r\<rparr>)"
    "waiters_of (ow_owner w) = waiters_of ((ow_owner w)\<lparr>mo_topic_views := r\<rparr>) +
       image_mset view_waiter (mset due + mset (map fst gone))"
    by (rule view_room.scanned_inv [where decide = ?decide and expired = "Inl TvDeadlineExceeded" and
        rejected = "Inl (TvCapacityReached (sr_call_limit ?room) (sr_byte_limit ?room))" and now = now and
        budget = "ml_topic_view_admission_budget (mo_limits (ow_owner w))", OF assms decide_keeps(3) [where reserves = reserves]]) blast
  have f: "view_waiter = (\<lambda>x. WaitView (wtv_completion x))" by (rule ext) (simp add: view_waiter_def)
  let ?notices = "map (\<lambda>x. NoticeTopicView (wtv_completion x) (Inl TvDeadlineExceeded)) due @
      map (\<lambda>(x, outcome). NoticeTopicView (wtv_completion x) outcome)
        (map (scan_outcome ?decide (Inl TvDeadlineExceeded) now) gone) :: ('k, 'v, 'en, 'de) owner_notice list"
  have t: "topic_scan dbg reserves ?room (mo_machine (ow_owner w)) now
      (ml_topic_view_admission_budget (mo_limits (ow_owner w))) =
      Some (r, ?notices, n \<noteq> 0 \<or> ?notices \<noteq> [], room_has_pending_scan r)"
    unfolding topic_scan_def scan(1) Let_def by simp
  show ?thesis
  proof (rule that [of "notify ?notices (upd_owner (\<lambda>ow. ow\<lparr>mo_topic_views := r\<rparr>) w)"])
    show "drain_topic_view_waiters dbg reserves w now =
        Some (notify ?notices (upd_owner (\<lambda>ow. ow\<lparr>mo_topic_views := r\<rparr>) w),
          n \<noteq> 0 \<or> ?notices \<noteq> [], room_has_pending_scan r)"
      unfolding drain_topic_view_waiters_def t by simp
    have "mset (map notice_waiter ?notices) = image_mset view_waiter (mset due + mset (map fst gone))"
      by (simp add: f scan_outcome_def comp_def image_mset.compositionality)
    then show "balance w = balance (notify ?notices (upd_owner (\<lambda>ow. ow\<lparr>mo_topic_views := r\<rparr>) w))"
      unfolding balance_notify(1) by (simp add: balance_def upd_owner_def scan(3) ac_simps)
  qed (use scan(2) in \<open>simp_all add: upd_owner_def\<close>)
qed

lemma drain_invalidations_result:
  fixes w :: "('v, 'k, 'en, 'de, 'b) owner_world"
  assumes "owner_inv dbg (ow_owner w)"
  obtains w' p where "drain_invalidation_waiters dbg w = Some (w', p)" "owner_inv dbg (ow_owner w')" "balance w' = balance w"
proof -
  let ?v = "mo_invalidations (ow_owner w)" and ?m = "mo_machine (ow_owner w)"
  let ?n = "min (mi_scan_remaining ?v) (ml_partition_admission_budget (mo_limits (ow_owner w)))"
  have "subscribers_counted ?v" using assms by (simp add: owner_inv_def rooms_covered_def)
  from invalidations_scan_loop_result [OF this, of dbg ?m ?n "[] :: ('k, 'v, 'en, 'de) owner_notice list"]
  obtain v' and out :: "('k, 'v, 'en, 'de) owner_notice list" where scan:
    "invalidations_scan_loop dbg ?m ?v ?n [] = Some (v', out)" "subscribers_counted v'"
    "invalidation_waiters ?v = invalidation_waiters v' + mset (map notice_waiter out)"
    by auto
  let ?w = "notify out (upd_owner (\<lambda>ow. ow\<lparr>mo_invalidations := v'\<rparr>) w)"
  have "owner_inv dbg (ow_owner ?w)"
    using assms scan(2) by (simp add: upd_owner_def owner_inv_def linked_def outstanding_def rooms_covered_def)
  moreover have "balance ?w = balance w"
    using scan(3) by (simp add: balance_def notify_def upd_owner_def waiters_of_def ac_simps)
  ultimately show thesis
    by (intro that [of ?w]) (simp_all add: drain_invalidation_waiters_def invalidations_scan_def Let_def scan(1))
qed

lemma fail_waiters_result:
  fixes w :: "('v, 'k, 'en, 'de, 'b) owner_world"
  assumes "owner_inv dbg (ow_owner w)"
  shows "owner_inv dbg (ow_owner (fail_waiters w failure))" "balance (fail_waiters w failure) = balance w"
    "waiters_of (ow_owner (fail_waiters w failure)) = {#}"
proof -
  let ?ow = "ow_owner w"
  obtain v' and out :: "('k, 'v, 'en, 'de) owner_notice list"
    where v: "invalidations_fail_all (mo_invalidations ?ow) = (v', out)" by fastforce
  let ?ow' = "?ow\<lparr>mo_controller_waiters := fst (room_fail_all (mo_controller_waiters ?ow)),
      mo_waiters := fst (room_fail_all (mo_waiters ?ow)),
      mo_topic_views := fst (room_fail_all (mo_topic_views ?ow)), mo_invalidations := v'\<rparr>"
  let ?out = "map (\<lambda>x. NoticeFailed (er_call_id (wcc_request x)) failure) (snd (room_fail_all (mo_controller_waiters ?ow))) @
      map (\<lambda>x. NoticeFailed (er_call_id (wp_request x)) failure) (snd (room_fail_all (mo_waiters ?ow))) @
      map (\<lambda>x. NoticeTopicView (wtv_completion x) (Inl TvDraining)) (snd (room_fail_all (mo_topic_views ?ow))) @ out"
  have f: "fail_waiters w failure = notify ?out (w\<lparr>ow_owner := ?ow'\<rparr>)"
    by (simp add: fail_waiters_def Let_def split_beta v)
  have wf: "room_wf dbg (mo_controller_waiters ?ow)" "room_wf dbg (mo_waiters ?ow)" "room_wf dbg (mo_topic_views ?ow)"
    using assms by (simp_all add: owner_inv_def rooms_covered_def room_covered_def room_sound_def)
  note c = room_fail_all_result [OF wf(1)] and p = room_fail_all_result [OF wf(2)] and t = room_fail_all_result [OF wf(3)]
  note cov = assms [THEN inv_covered(1)] assms [THEN inv_covered(2)] assms [THEN inv_covered(3)]
  have "subscribers_counted v'"
    using v assms by (auto simp: invalidations_fail_all_def subscribers_counted_def owner_inv_def rooms_covered_def)
  then show "owner_inv dbg (ow_owner (fail_waiters w failure))"
    using assms cov [THEN room_covered_fail_all, of "mo_machine ?ow"]
    by (simp add: f notify_def owner_inv_def linked_def outstanding_def rooms_covered_def)
  have inv: "invalidation_waiters v' = {#}"
    using v by (auto simp: invalidations_fail_all_def invalidation_waiters_def)
  have fs: "partition_waiter = (\<lambda>x. WaitCall (er_call_id (wp_request x)))"
    "controller_waiter = (\<lambda>x. WaitCall (er_call_id (wcc_request x)))" "view_waiter = (\<lambda>x. WaitView (wtv_completion x))"
    by (simp_all add: fun_eq_iff partition_waiter_def controller_waiter_def view_waiter_def)
  show empty: "waiters_of (ow_owner (fail_waiters w failure)) = {#}"
    using inv c(2) p(2) t(2) by (simp add: f notify_def waiters_of_def)
  have "waiters_of ?ow = mset (map notice_waiter ?out)"
    using invalidations_fail_all_waiters [OF v]
    by (simp add: waiters_of_def fs inv image_mset.compositionality comp_def c(3) p(3) t(3) ac_simps)
  then show "balance (fail_waiters w failure) = balance w"
    using empty by (simp add: balance_def f notify_def ac_simps)
qed

section \<open>Operations\<close>

fun submitted :: "'v owner_op \<Rightarrow> waiter multiset" where
  "submitted (OpWaitPartition has_broker topic part request now evidence) = {#WaitCall (er_call_id request)#}"
| "submitted (OpWaitCluster has_broker target request now evidence) = {#WaitCall (er_call_id request)#}"
| "submitted (OpWaitTopicView has_broker waiting now evidence) = {#WaitView (tvw_completion waiting)#}"
| "submitted (OpInvalidateBroker route observed_at completion now evidence) = {#WaitInvalidation completion#}"
| "submitted (OpInvalidatePartition route observed_at completion now evidence) = {#WaitInvalidation completion#}"
| "submitted _ = {#}"

fun handed_out :: "('v, 'be) owner_reply \<Rightarrow> waiter multiset" where
  "handed_out (ReplyPartitions routed) = mset (map (partition_waiter \<circ> snd) routed)"
| "handed_out (ReplyControllers routed) = mset (map (controller_waiter \<circ> snd) routed)"
| "handed_out _ = {#}"

fun stops :: "('v, 'be) owner_reply \<Rightarrow> bool" where
  "stops (ReplyError e) \<longleftrightarrow> True"
| "stops ReplyPanic \<longleftrightarrow> True"
| "stops _ \<longleftrightarrow> False"

text \<open>A routed call follows the route the current snapshot serves for it.\<close>

fun routes_served :: "metadata_machine \<Rightarrow> ('v, 'be) owner_reply \<Rightarrow> bool" where
  "routes_served machine (ReplyPartitions routed) \<longleftrightarrow>
     list_all (\<lambda>(route, x). Option.bind (metadata_current machine)
       (\<lambda>s. snapshot_partition_route s (wp_topic x) (wp_partition x)) = Some route) routed"
| "routes_served machine (ReplyControllers routed) \<longleftrightarrow>
     list_all (\<lambda>(route, x). cluster_target_resolve (wcc_target x) machine = Some route) routed"
| "routes_served machine _ \<longleftrightarrow> True"

definition good_reply ::
    "bool \<Rightarrow> ('v, 'k, 'en, 'de, 'b) owner_world \<Rightarrow> waiter multiset \<Rightarrow>
     ('v, 'k, 'en, 'de, 'b) owner_world \<times> ('v, 'be) owner_reply \<Rightarrow> bool" where
  "good_reply dbg w taken res \<longleftrightarrow>
     snd res \<noteq> ReplyPanic \<and> snd res \<noteq> ReplyError OwnerUnexpectedEffect \<and>
     (\<not> stops (snd res) \<longrightarrow> owner_inv dbg (ow_owner (fst res)) \<and>
        balance w + taken = balance (fst res) + handed_out (snd res)) \<and>
     routes_served (mo_machine (ow_owner w)) (snd res)"

lemma good_reply_of: "good_result dbg w taken res \<Longrightarrow> good_reply dbg w taken (reply_of res)"
  by (cases res; cases "snd res") (auto simp: good_result_def good_reply_def reply_of_def)

lemma good_reply_option: "good_option dbg w taken res \<Longrightarrow> good_reply dbg w taken (or_panic w (map_option reply_of res))"
  by (auto simp: good_option_def or_panic_def intro: good_reply_of)

lemma owner_apply_good:
  assumes "owner_inv dbg (ow_owner w)"
  shows "good_reply dbg w (submitted op) (owner_apply rpc dbg heap reserves failure w op)"
proof (cases op)
  case (OpDrainPartitions now)
  obtain w' p where d: "drain_partition_waiters dbg w now = Some (w', p)" "owner_inv dbg (ow_owner w')"
    "balance w = balance w' + mset (map (partition_waiter \<circ> snd) (wg_routed p))"
    "\<forall>route x. (route, x) \<in> set (wg_routed p) \<longrightarrow>
       (\<exists>s. metadata_current (mo_machine (ow_owner w)) = Some s \<and>
         snapshot_partition_route s (wp_topic x) (wp_partition x) = Some route)"
    by (rule drain_partitions_result [OF assms, of now])
  then show ?thesis
    by (simp add: OpDrainPartitions owner_apply.simps or_panic_def good_reply_def bind_eq_Some_conv list_all_iff split_beta)
next
  case (OpDrainControllers now)
  obtain w' p where d: "drain_controller_waiters dbg w now = Some (w', p)" "owner_inv dbg (ow_owner w')"
    "balance w = balance w' + mset (map (controller_waiter \<circ> snd) (wg_routed p))"
    "\<forall>route x. (route, x) \<in> set (wg_routed p) \<longrightarrow>
       cluster_target_resolve (wcc_target x) (mo_machine (ow_owner w)) = Some route"
    by (rule drain_controllers_result [OF assms, of now])
  then show ?thesis
    by (simp add: OpDrainControllers owner_apply.simps or_panic_def good_reply_def list_all_iff split_beta)
next
  case (OpDrainTopicViews now)
  obtain w' p where "drain_topic_view_waiters dbg reserves w now = Some (w', p)" "owner_inv dbg (ow_owner w')"
    "balance w = balance w'"
    by (rule drain_views_result [OF assms, of reserves now])
  then show ?thesis by (simp add: OpDrainTopicViews owner_apply.simps or_panic_def good_reply_def)
next
  case OpDrainInvalidations
  obtain w' p where "drain_invalidation_waiters dbg w = Some (w', p)" "owner_inv dbg (ow_owner w')" "balance w' = balance w"
    by (rule drain_invalidations_result [OF assms])
  then show ?thesis by (simp add: OpDrainInvalidations owner_apply.simps or_panic_def good_reply_def)
next
  case OpFailWaiters
  then show ?thesis
    using fail_waiters_result [OF assms, of failure] by (simp add: owner_apply.simps good_reply_def)
qed (simp_all add: owner_apply.simps good_reply_of good_reply_option owner_drive_good [OF assms]
    wait_for_partition_good [OF assms] wait_for_cluster_route_good [OF assms] wait_for_topic_view_good [OF assms]
    resolve_directory_good [OF assms] invalidate_broker_route_def invalidate_partition_route_def
    invalidate_good [OF assms])

end
