(* ===== verification/Metadata_Owner_Properties.thy ===== *)
theory Metadata_Owner_Properties
  imports Metadata_Owner_Runs
begin

text \<open>
  What the metadata owner guarantees over whole sequences of operations: what it is given is answered,
  handed out or still waiting, a waiting call always has a fetch on its way, the defensive errors of the
  source cannot happen, calls leave only along routes that are served, and nothing is left behind when
  the waiters are failed. A run is followed as long as no operation fails.
\<close>

section \<open>Runs\<close>

lemma owner_run_good:
  assumes "owner_inv dbg (ow_owner w)"
    and "list_all (\<lambda>r. \<not> stops r) (outputs (owner_apply rpc dbg heap reserves failure) w ops)"
  shows "owner_inv dbg (ow_owner (final (owner_apply rpc dbg heap reserves failure) w ops)) \<and>
    balance w + sum_list (map submitted ops) =
      balance (final (owner_apply rpc dbg heap reserves failure) w ops) +
      sum_list (map handed_out (outputs (owner_apply rpc dbg heap reserves failure) w ops))"
  using assms
proof (induction ops arbitrary: w)
  case (Cons op ops)
  let ?step = "owner_apply rpc dbg heap reserves failure"
  let ?w = "fst (?step w op)" and ?r = "snd (?step w op)"
  have good: "owner_inv dbg (ow_owner ?w)" "balance w + submitted op = balance ?w + handed_out ?r"
    using owner_apply_good [OF Cons.prems(1), of op rpc heap reserves failure] Cons.prems(2)
    by (simp_all add: good_reply_def)
  let ?X = "sum_list (map submitted ops)" and ?Y = "sum_list (map handed_out (outputs ?step ?w ops))"
  have IH: "owner_inv dbg (ow_owner (final ?step ?w ops))" "balance ?w + ?X = balance (final ?step ?w ops) + ?Y"
    using Cons.IH [OF good(1)] Cons.prems(2) by simp_all
  have "balance w + (submitted op + ?X) = (balance w + submitted op) + ?X" by (simp only: add.assoc)
  also have "\<dots> = handed_out ?r + (balance ?w + ?X)" unfolding good(2) by (simp only: ac_simps)
  also have "\<dots> = balance (final ?step ?w ops) + (handed_out ?r + ?Y)" unfolding IH(2) by (simp only: ac_simps)
  finally show ?case using IH(1) by simp
qed simp

text \<open>The start: a new owner that has sent no notice.\<close>

definition owner_starts :: "metadata_limits \<Rightarrow> ('v, 'k, 'en, 'de, 'b) owner_world \<Rightarrow> bool" where
  "owner_starts limits w \<longleftrightarrow>
     ow_owner w = metadata_owner_new limits \<and> ow_notices w = [] \<and>
     ml_partition_waiting_calls limits < 2 ^ 64 \<and> ml_controller_waiting_calls limits < 2 ^ 64 \<and>
     ml_topic_view_waiters limits < 2 ^ 64"

lemma owner_starts_inv: "owner_starts limits w \<Longrightarrow> owner_inv dbg (ow_owner w)" "owner_starts limits w \<Longrightarrow> balance w = {#}"
  using metadata_owner_new_inv [of limits dbg]
  by (auto simp: owner_starts_def balance_def waiters_of_def metadata_owner_new_def room_new_def room_content_def
      wait_iter_def wait_queue_new_def invalidation_waiters_def invalidations_new_def)

section \<open>Samples\<close>

definition ready_rpc :: "(unit, unit) broker_rpc" where
  "ready_rpc = \<lparr>rpc_is_ready = (\<lambda>b. True), rpc_submit = (\<lambda>b call query now. (b, None))\<rparr>"

definition owner_limits :: metadata_limits where
  "owner_limits =
     \<lparr>ml_broker_directory = \<lparr>bdl_max_brokers = 2\<rparr>,
      ml_partition_leaders = \<lparr>pll_max_topics = 2, pll_max_partitions = 4\<rparr>,
      ml_queries = \<lparr>mql_pending_queries = 2\<rparr>,
      ml_partition_waiting_calls = 2, ml_partition_waiting_bytes = 90, ml_partition_admission_budget = 4,
      ml_invalidation_waiters = 2, ml_controller_waiting_calls = 2, ml_controller_waiting_bytes = 90,
      ml_controller_admission_budget = 4, ml_topic_view_waiters = 2, ml_topic_view_bytes = 90,
      ml_topic_view_admission_budget = 4\<rparr>"

definition owner_start :: "(unit, unit, unit, unit, unit) owner_world" where
  "owner_start = \<lparr>ow_owner = metadata_owner_new owner_limits, ow_broker = (), ow_call_ids = 1, ow_notices = []\<rparr>"

abbreviation owner_step ::
    "(unit, unit, unit, unit, unit) owner_world \<Rightarrow> unit owner_op \<Rightarrow>
     (unit, unit, unit, unit, unit) owner_world \<times> (unit, unit) owner_reply" where
  "owner_step \<equiv> owner_apply ready_rpc True length (\<lambda>n. True) ReqRouteUnavailable"

definition cluster_response :: metadata_response where
  "cluster_response =
     \<lparr>mre_error_code = 0, mre_brokers = [\<lparr>mrb_node_id = 7, mrb_host = ''b7'', mrb_port = 9092\<rparr>],
      mre_controller_id = 7, mre_topics = []\<rparr>"

definition clicks_request :: "unit erased_request" where
  "clicks_request = \<lparr>er_call_id = 5, er_policy = policy_for_timeout 40, er_retained_bytes = 3\<rparr>"

definition clicks_ops :: "unit owner_op list" where
  "clicks_ops =
     [OpDrive 0 1 None, OpWaitPartition True ''clicks'' 1 clicks_request 0 2,
      OpDrive 1 3 (Some (FetchAnswered cluster_response)), OpDrainPartitions 1,
      OpDrive 2 4 (Some (FetchAnswered sample_response))]"

definition stranded_ops :: "unit owner_op list" where
  "stranded_ops =
     [OpDrive 0 1 None, OpDrive 1 3 (Some (FetchAnswered cluster_response)),
      OpInvalidateBroker \<lparr>br_generation = 1, br_broker_id = 7, br_evidence = 1\<rparr> 4 11 2 5,
      OpDrive 2 6 (Some FetchFailed), OpDrainInvalidations,
      OpInvalidateBroker \<lparr>br_generation = 1, br_broker_id = 7, br_evidence = 1\<rparr> 4 12 2 7]"


lemma owner_start_starts: "owner_starts owner_limits owner_start"
  by (simp add: owner_starts_def owner_start_def owner_limits_def)

lemma clicks_ops_run: "list_all (\<lambda>r. \<not> stops r) (outputs owner_step owner_start clicks_ops)"
  by code_simp

section \<open>The properties\<close>

text \<open>
  C19. The owner loses and duplicates nothing: as long as no operation fails, the calls, topic views and
  invalidations given to it are exactly those that wait, those answered by a notice and those handed
  out with a route.
\<close>

theorem metadata_owner_conserves:
  fixes rpc :: "('b, 'be) broker_rpc"
  assumes "owner_starts limits w" "step = owner_apply rpc dbg heap reserves failure"
    and "list_all (\<lambda>r. \<not> stops r) (outputs step w ops)"
  shows "sum_list (map submitted ops) =
    waiters_of (ow_owner (final step w ops)) + mset (map notice_waiter (ow_notices (final step w ops))) +
    sum_list (map handed_out (outputs step w ops))"
  using owner_run_good [OF owner_starts_inv(1) [OF assms(1)] assms(3) [unfolded assms(2)]] owner_starts_inv(2) [OF assms(1)]
  by (simp add: assms(2)) (simp add: balance_def)

theorem metadata_owner_conserves_witness:
  "waiters_of (ow_owner (final owner_step owner_start (clicks_ops @ [OpDrainPartitions 2]))) = {#}"
proof -
  let ?ops = "clicks_ops @ [OpDrainPartitions 2]"
  have "list_all (\<lambda>r. \<not> stops r) (outputs owner_step owner_start ?ops)" by code_simp
  note conserves = metadata_owner_conserves [OF owner_start_starts refl this]
  have "sum_list (map submitted ?ops) = {#WaitCall 5#}" by (simp add: clicks_ops_def clicks_request_def)
  moreover have "map notice_waiter (ow_notices (final owner_step owner_start ?ops)) = []" by code_simp
  moreover have "sum_list (map handed_out (outputs owner_step owner_start ?ops)) = {#WaitCall 5#}" by code_simp
  ultimately show ?thesis using conserves by simp
qed

text \<open>The queries the waiting calls and topic views depend on.\<close>

definition waiting_queries :: "'v metadata_owner \<Rightarrow> metadata_query list" where
  "waiting_queries ow =
     map (\<lambda>(x, d). QueryTopic (wp_topic x)) (room_content (mo_waiters ow)) @
     map (\<lambda>(x, d). QueryCluster) (room_content (mo_controller_waiters ow)) @
     map (\<lambda>(x, d). QueryTopic (wtv_topic x)) (room_content (mo_topic_views ow))"

lemma waiting_query_pending:
  assumes "owner_inv dbg ow" "\<not> has_pending_wait_scan ow" "query \<in> set (waiting_queries ow)"
  shows "query_pending (mo_machine ow) query"
proof -
  have "sr_scan_remaining (mo_waiters ow) = 0" "sr_scan_remaining (mo_controller_waiters ow) = 0"
    "sr_scan_remaining (mo_topic_views ow) = 0"
    using assms(2) by (simp_all add: has_pending_wait_scan_def room_has_pending_scan_def)
  then show ?thesis
    using assms(3) inv_covered [OF assms(1)]
    by (auto simp: waiting_queries_def room_covered_def behind_scan_def)
qed

text \<open>
  C20. No waiting call and no waiting topic view is forgotten. After any sequence of operations none of
  which failed, and once the scans a completed fetch began are over, the query of every call and topic
  view that still waits is pending in the machine, and the owner is responsible for exactly one fetch,
  submitted or held until a broker is ready, which is the one the machine is waiting for. (Waiting
  invalidations are not covered: \<open>repeated_invalidation_stranded\<close> shows one that nothing will answer.)
\<close>

theorem metadata_owner_never_strands:
  fixes rpc :: "('b, 'be) broker_rpc"
  assumes "owner_starts limits w" "step = owner_apply rpc dbg heap reserves failure"
    and "list_all (\<lambda>r. \<not> stops r) (outputs step w ops)"
    and "ow = ow_owner (final step w ops)" "\<not> has_pending_wait_scan ow" "query \<in> set (waiting_queries ow)"
  shows "query_pending (mo_machine ow) query \<and>
    (\<exists>fetch. outstanding ow = [fetch] \<and> machine_fetch (mm_state (mo_machine ow)) = [fetch_key fetch])"
proof -
  have inv: "owner_inv dbg ow"
    using owner_run_good [OF owner_starts_inv(1) [OF assms(1)] assms(3) [unfolded assms(2)]] by (simp add: assms(2,4))
  have pending: "query_pending (mo_machine ow) query" by (rule waiting_query_pending [OF inv assms(5,6)])
  then obtain key where "machine_fetch (mm_state (mo_machine ow)) = [key]"
    by (cases "mm_state (mo_machine ow)") (auto simp: query_pending_def)
  with inv pending show ?thesis by (auto simp: owner_inv_def linked_def)
qed

theorem metadata_owner_never_strands_witness:
  "query_pending (mo_machine (ow_owner (final owner_step owner_start (take 4 clicks_ops)))) (QueryTopic ''clicks'')"
proof -
  let ?ops = "take 4 clicks_ops"
  have "list_all (\<lambda>r. \<not> stops r) (outputs owner_step owner_start ?ops)" by code_simp
  moreover have "\<not> has_pending_wait_scan (ow_owner (final owner_step owner_start ?ops))" by code_simp
  moreover have "QueryTopic ''clicks'' \<in> set (waiting_queries (ow_owner (final owner_step owner_start ?ops)))"
    by code_simp
  ultimately show ?thesis using metadata_owner_never_strands [OF owner_start_starts refl _ refl] by blast
qed

text \<open>
  C22. The defensive paths of the owner cannot be taken: after any sequence of operations without a failure,
  no operation panics or reports an unexpected effect, so an operation fails only when identities or
  generations run out or the broker refuses the fetch. The panics excluded are the assertions of the
  wait queues and of the count of invalidation subscribers, the underflow of the byte accounting and
  the disposition that an invalidation is said never to have.
\<close>

theorem metadata_owner_no_unexpected_effect:
  fixes rpc :: "('b, 'be) broker_rpc"
  assumes "owner_starts limits w" "step = owner_apply rpc dbg heap reserves failure"
    and "list_all (\<lambda>r. \<not> stops r) (outputs step w ops)"
  shows "snd (step (final step w ops) op) \<noteq> ReplyPanic \<and>
    snd (step (final step w ops) op) \<noteq> ReplyError OwnerUnexpectedEffect"
  using owner_run_good [OF owner_starts_inv(1) [OF assms(1)] assms(3) [unfolded assms(2)]]
    owner_apply_good [of dbg "final (owner_apply rpc dbg heap reserves failure) w ops" op rpc heap reserves failure]
  by (simp add: assms(2) good_reply_def)

theorem metadata_owner_no_unexpected_effect_witness:
  "\<forall>now. snd (owner_step (final owner_step owner_start clicks_ops) (OpDrainControllers now)) \<noteq> ReplyPanic"
  using metadata_owner_no_unexpected_effect [OF owner_start_starts refl clicks_ops_run] by blast

text \<open>
  C21. A call leaves the owner only along a live route: a partition call handed out after any such sequence
  goes to the broker that the current snapshot names as leader of its partition, resolved in the
  directory of that snapshot, and the assignment is not one that was reported as failed and is still
  waiting for newer evidence.
\<close>

theorem metadata_owner_routes_live:
  fixes rpc :: "('b, 'be) broker_rpc"
  assumes "owner_starts limits w" "step = owner_apply rpc dbg heap reserves failure"
    and "list_all (\<lambda>r. \<not> stops r) (outputs step w ops)" "machine = mo_machine (ow_owner (final step w ops))"
    and "snd (step (final step w ops) op) = ReplyPartitions routed" "(route, call) \<in> set routed"
  shows "\<exists>snapshot. metadata_current machine = Some snapshot \<and>
    snapshot_partition_route snapshot (wp_topic call) (wp_partition call) = Some route \<and>
    (\<exists>entry. resolve_broker snapshot (pr_broker route) = Inr entry) \<and>
    \<not> partition_pending (mm_revocations machine) route"
proof -
  have inv: "owner_inv dbg (ow_owner (final step w ops))"
    using owner_run_good [OF owner_starts_inv(1) [OF assms(1)] assms(3) [unfolded assms(2)]] by (simp add: assms(2))
  have "routes_served machine (ReplyPartitions routed)"
    using owner_apply_good [OF inv, of op rpc heap reserves failure] assms(2,4,5) by (simp add: good_reply_def)
  then obtain s where s: "metadata_current machine = Some s"
    "snapshot_partition_route s (wp_topic call) (wp_partition call) = Some route"
    using assms(6) by (fastforce simp: list_all_iff bind_eq_Some_conv)
  have wf: "metadata_wf machine" using inv by (simp add: owner_inv_def assms(4))
  note fields = partition_route_fields [OF s(2) current_wf [OF wf s(1)]]
  have "honours (mm_revocations machine) s" using wf s(1) by (simp add: metadata_wf_def)
  moreover have "pr_topic route = wp_topic call" "pr_partition route = wp_partition call"
    using fields by simp_all
  ultimately have "\<not> partition_pending (mm_revocations machine) route"
    using s(2) by (auto simp: partition_pending_def list_ex_iff honours_def is_same_assignment_def)
  moreover have "\<exists>entry. resolve_broker s (pr_broker route) = Inr entry"
    using route_to_resolves [OF _ fields(3)] current_wf [OF wf s(1)] by (auto simp: resolve_broker_def snapshot_wf_def)
  ultimately show ?thesis using s by blast
qed

theorem metadata_owner_routes_live_witness:
  "\<exists>snapshot. metadata_current (mo_machine (ow_owner (final owner_step owner_start clicks_ops))) = Some snapshot \<and>
    map_option (br_broker_id \<circ> pr_broker) (snapshot_partition_route snapshot ''clicks'' 1) = Some 7"
proof -
  let ?reply = "snd (owner_step (final owner_step owner_start clicks_ops) (OpDrainPartitions 2))"
  have "(case ?reply of
       ReplyPartitions routed \<Rightarrow> map (\<lambda>(route, x). (wp_topic x, wp_partition x, br_broker_id (pr_broker route))) routed
     | _ \<Rightarrow> []) = [(''clicks'', 1, 7)]"
    by code_simp
  then obtain route call where r: "?reply = ReplyPartitions [(route, call)]" "wp_topic call = ''clicks''"
    "wp_partition call = 1" "br_broker_id (pr_broker route) = 7"
    by (auto split: owner_reply.splits)
  from metadata_owner_routes_live [OF owner_start_starts refl clicks_ops_run refl r(1)] r(2-4) show ?thesis by auto
qed

text \<open>
  C23. Nothing is left behind at the end: failing the waiters after any such sequence answers every call,
  topic view and invalidation that was neither answered nor handed out before, and none of them waits
  any more.
\<close>

theorem metadata_owner_fail_settles:
  fixes rpc :: "('b, 'be) broker_rpc"
  assumes "owner_starts limits w" "step = owner_apply rpc dbg heap reserves failure"
    and "list_all (\<lambda>r. \<not> stops r) (outputs step w ops)"
  shows "waiters_of (ow_owner (fail_waiters (final step w ops) failure)) = {#} \<and>
    sum_list (map submitted ops) =
      mset (map notice_waiter (ow_notices (fail_waiters (final step w ops) failure))) +
      sum_list (map handed_out (outputs step w ops))"
proof -
  have run: "owner_inv dbg (ow_owner (final step w ops))"
    "sum_list (map submitted ops) = balance (final step w ops) + sum_list (map handed_out (outputs step w ops))"
    using owner_run_good [OF owner_starts_inv(1) [OF assms(1)] assms(3) [unfolded assms(2)]]
      owner_starts_inv(2) [OF assms(1)]
    by (simp_all add: assms(2))
  show ?thesis
    using fail_waiters_result [OF run(1), of failure] run(2) by (simp add: balance_def)
qed

theorem metadata_owner_fail_settles_witness:
  "mset (map notice_waiter (ow_notices (fail_waiters (final owner_step owner_start (take 4 clicks_ops)) ReqRouteUnavailable))) =
    {#WaitCall 5#}"
proof -
  have run: "list_all (\<lambda>r. \<not> stops r) (outputs owner_step owner_start (take 4 clicks_ops))" by code_simp
  have "sum_list (map submitted (take 4 clicks_ops)) = {#WaitCall 5#}" by (simp add: clicks_ops_def clicks_request_def)
  moreover have "sum_list (map handed_out (outputs owner_step owner_start (take 4 clicks_ops))) = {#}" by code_simp
  ultimately show ?thesis using metadata_owner_fail_settles [OF owner_start_starts refl run] by simp
qed

text \<open>
  An invalidation that repeats an earlier one with the same observation, after the refresh the first
  one started has failed, is recorded as waiting although nothing is fetched, queued or left to scan:
  it is answered only after some other demand for metadata.
\<close>

theorem repeated_invalidation_stranded:
  "list_all (\<lambda>r. \<not> stops r) (outputs owner_step owner_start stranded_ops) \<and>
   map pi_subscribers (mi_pending (mo_invalidations (ow_owner (final owner_step owner_start stranded_ops)))) = [[12]] \<and>
   outstanding (ow_owner (final owner_step owner_start stranded_ops)) = [] \<and>
   \<not> query_pending (mo_machine (ow_owner (final owner_step owner_start stranded_ops))) QueryCluster \<and>
   \<not> has_pending_wait_scan (ow_owner (final owner_step owner_start stranded_ops))"
  by (intro conjI) code_simp+

end
