(* ===== verification/Coordinator.thy ===== *)
theory Coordinator
  imports Identity
begin

text \<open>
  The coordinator machine of \<open>kafka-driver-core\<close> (\<open>coordinator/\<close>): discovery of the broker that
  coordinates one key, at most one discovery in flight, bounded retries, and a revocation that
  refuses a rediscovered route whose evidence is not newer than the observed failure.
\<close>

section \<open>Routes, inputs and transitions\<close>

record coordinator_route =
  cor_key :: coordinator_key
  cor_broker_id :: broker_id
  cor_endpoint :: broker_endpoint
  cor_epoch :: coordinator_epoch
  cor_evidence :: evidence_stamp

definition is_same_target :: "coordinator_route \<Rightarrow> coordinator_route \<Rightarrow> bool" where
  "is_same_target r other \<longleftrightarrow>
     cor_key r = cor_key other \<and> cor_broker_id r = cor_broker_id other \<and>
     cor_endpoint r = cor_endpoint other"

datatype coordinator_followup = FollowupRefresh | FollowupRevocation

datatype coordinator_state =
    CoUnknown coordinator_epoch
  | CoDiscovering "coordinator_route option" operation_id coordinator_epoch
      "coordinator_followup option" u8
  | CoRetrying "coordinator_route option" operation_id coordinator_epoch
      "coordinator_followup option" u8 moment
  | CoReady coordinator_route

datatype coordinator_effect =
    CoFind operation_id coordinator_key coordinator_epoch
  | CoWaitUntil operation_id coordinator_epoch moment
  | CoEpochExhausted

datatype coordinator_disposition = CoApplied | CoAlreadyKnown | CoCoalesced | CoRefreshQueued | CoIgnoredStale

record coordinator_transition =
  cot_effects :: "coordinator_effect list"
  cot_disposition :: coordinator_disposition

datatype coordinator_input =
    CoResolve operation_id
  | CoRefresh operation_id
  | CoInvalidate coordinator_route outcome_stamp operation_id
  | CoWithdraw coordinator_route operation_id
  | CoDiscoverySucceeded operation_id coordinator_epoch broker_id broker_endpoint evidence_stamp operation_id
  | CoDiscoveryFailed operation_id coordinator_epoch operation_id
  | CoDiscoveryRejected operation_id coordinator_epoch moment operation_id
  | CoRetryElapsed operation_id coordinator_epoch moment operation_id

definition co_find :: "operation_id \<Rightarrow> coordinator_key \<Rightarrow> coordinator_epoch \<Rightarrow> coordinator_transition" where
  "co_find operation_id key epoch =
     \<lparr>cot_effects = [CoFind operation_id key epoch], cot_disposition = CoApplied\<rparr>"

definition co_applied :: coordinator_transition where
  "co_applied = \<lparr>cot_effects = [], cot_disposition = CoApplied\<rparr>"

definition co_known :: coordinator_transition where
  "co_known = \<lparr>cot_effects = [], cot_disposition = CoAlreadyKnown\<rparr>"

definition co_coalesced :: coordinator_transition where
  "co_coalesced = \<lparr>cot_effects = [], cot_disposition = CoCoalesced\<rparr>"

definition co_queued :: coordinator_transition where
  "co_queued = \<lparr>cot_effects = [], cot_disposition = CoRefreshQueued\<rparr>"

definition co_stale :: coordinator_transition where
  "co_stale = \<lparr>cot_effects = [], cot_disposition = CoIgnoredStale\<rparr>"

definition co_exhausted :: coordinator_transition where
  "co_exhausted = \<lparr>cot_effects = [CoEpochExhausted], cot_disposition = CoApplied\<rparr>"

definition co_wait :: "operation_id \<Rightarrow> coordinator_epoch \<Rightarrow> moment \<Rightarrow> coordinator_transition" where
  "co_wait operation_id epoch at =
     \<lparr>cot_effects = [CoWaitUntil operation_id epoch at], cot_disposition = CoApplied\<rparr>"

section \<open>The revocation\<close>

record coordinator_revocation =
  crv_target :: coordinator_route
  crv_required_after :: outcome_stamp

definition crv_matches :: "coordinator_revocation \<Rightarrow> coordinator_route \<Rightarrow> bool" where
  "crv_matches r route \<longleftrightarrow> is_same_target (crv_target r) route"

definition crv_observe :: "coordinator_revocation \<Rightarrow> outcome_stamp \<Rightarrow> coordinator_revocation \<times> bool" where
  "crv_observe r observed_at =
     (if observed_at \<le> crv_required_after r then (r, False)
      else (r\<lparr>crv_required_after := max (crv_required_after r) observed_at\<rparr>, True))"

definition crv_accepts :: "coordinator_revocation \<Rightarrow> coordinator_route \<Rightarrow> bool" where
  "crv_accepts r route \<longleftrightarrow> evidence_is_after (cor_evidence route) (crv_required_after r)"

section \<open>The machine\<close>

record coordinator_machine =
  com_key :: coordinator_key
  com_state :: coordinator_state
  com_revocation :: "coordinator_revocation option"

definition coordinator_with_initial_epoch ::
    "coordinator_key \<Rightarrow> coordinator_epoch \<Rightarrow> coordinator_machine" where
  "coordinator_with_initial_epoch key epoch =
     \<lparr>com_key = key, com_state = CoUnknown epoch, com_revocation = None\<rparr>"

definition coordinator_new :: "coordinator_key \<Rightarrow> coordinator_machine" where
  "coordinator_new key = coordinator_with_initial_epoch key 1"

fun co_state_current :: "coordinator_state \<Rightarrow> coordinator_route option" where
  "co_state_current (CoUnknown next_epoch) = None"
| "co_state_current (CoDiscovering current operation_id target followup retries) = current"
| "co_state_current (CoRetrying current operation_id target followup retries at) = current"
| "co_state_current (CoReady route) = Some route"

definition coordinator_current :: "coordinator_machine \<Rightarrow> coordinator_route option" where
  "coordinator_current m = co_state_current (com_state m)"

definition co_revocation_pending :: "coordinator_machine \<Rightarrow> coordinator_route \<Rightarrow> bool" where
  "co_revocation_pending m route \<longleftrightarrow>
     (case com_revocation m of None \<Rightarrow> False | Some revocation \<Rightarrow> crv_matches revocation route)"

definition co_start ::
    "coordinator_machine \<Rightarrow> coordinator_route option \<Rightarrow> operation_id \<Rightarrow> coordinator_epoch \<Rightarrow>
     coordinator_machine \<times> coordinator_transition" where
  "co_start m current operation_id target =
     (m\<lparr>com_state := CoDiscovering current operation_id target None 0\<rparr>,
      co_find operation_id (com_key m) target)"

definition co_resolve :: "coordinator_machine \<Rightarrow> operation_id \<Rightarrow> coordinator_machine \<times> coordinator_transition" where
  "co_resolve m operation_id =
     (case com_state m of
        CoUnknown next_epoch \<Rightarrow> co_start m None operation_id next_epoch
      | CoDiscovering _ _ _ _ _ \<Rightarrow> (m, co_coalesced)
      | CoRetrying _ _ _ _ _ _ \<Rightarrow> (m, co_coalesced)
      | CoReady _ \<Rightarrow> (m, co_known))"

definition co_refresh :: "coordinator_machine \<Rightarrow> operation_id \<Rightarrow> coordinator_machine \<times> coordinator_transition" where
  "co_refresh m operation_id =
     (case com_state m of
        CoDiscovering current active target followup retries \<Rightarrow>
          (if followup \<noteq> None then (m, co_coalesced)
           else (m\<lparr>com_state := CoDiscovering current active target (Some FollowupRefresh) retries\<rparr>, co_queued))
      | CoRetrying current active target followup retries at \<Rightarrow>
          (if followup \<noteq> None then (m, co_coalesced)
           else (m\<lparr>com_state := CoRetrying current active target (Some FollowupRefresh) retries at\<rparr>, co_queued))
      | CoUnknown next_epoch \<Rightarrow> co_start m None operation_id next_epoch
      | CoReady route \<Rightarrow>
          (case coordinator_epoch_next (cor_epoch route) of
             None \<Rightarrow> (m, co_exhausted)
           | Some epoch \<Rightarrow> co_start m (Some route) operation_id epoch))"

text \<open>Whether the route in use is another target or rests on evidence newer than the observation.\<close>

definition route_unaffected :: "coordinator_route option \<Rightarrow> coordinator_route \<Rightarrow> outcome_stamp \<Rightarrow> bool" where
  "route_unaffected current route observed_at \<longleftrightarrow>
     (case current of
        None \<Rightarrow> True
      | Some current \<Rightarrow>
          \<not> is_same_target current route \<or> evidence_is_after (cor_evidence current) observed_at)"

definition revocation_followup :: "coordinator_followup option \<Rightarrow> coordinator_transition" where
  "revocation_followup followup = (if followup = Some FollowupRevocation then co_coalesced else co_queued)"

definition co_invalidate_current ::
    "coordinator_machine \<Rightarrow> coordinator_route \<Rightarrow> outcome_stamp \<Rightarrow> operation_id \<Rightarrow>
     coordinator_machine \<times> coordinator_transition" where
  "co_invalidate_current m route observed_at operation_id =
     (let revocation = \<lparr>crv_target = route, crv_required_after = observed_at\<rparr> in
      case com_state m of
        CoUnknown _ \<Rightarrow> (m, co_stale)
      | CoReady current \<Rightarrow>
          (if \<not> is_same_target current route \<or> evidence_is_after (cor_evidence current) observed_at
             then (m, co_stale)
           else case coordinator_epoch_next (cor_epoch current) of
             None \<Rightarrow> (m, co_exhausted)
           | Some epoch \<Rightarrow> co_start (m\<lparr>com_revocation := Some revocation\<rparr>) None operation_id epoch)
      | CoDiscovering current active target followup retries \<Rightarrow>
          (if route_unaffected current route observed_at then (m, co_stale)
           else (m\<lparr>com_state := CoDiscovering None active target (Some FollowupRevocation) retries,
                   com_revocation := Some revocation\<rparr>, revocation_followup followup))
      | CoRetrying current active target followup retries at \<Rightarrow>
          (if route_unaffected current route observed_at then (m, co_stale)
           else (m\<lparr>com_state := CoRetrying None active target (Some FollowupRevocation) retries at,
                   com_revocation := Some revocation\<rparr>, revocation_followup followup)))"

definition co_invalidate ::
    "coordinator_machine \<Rightarrow> coordinator_route \<Rightarrow> outcome_stamp \<Rightarrow> operation_id \<Rightarrow>
     coordinator_machine \<times> coordinator_transition" where
  "co_invalidate m route observed_at operation_id =
     (case com_revocation m of
        Some revocation \<Rightarrow>
          (if crv_matches revocation route
             then let (revocation', raised) = crv_observe revocation observed_at;
                      m' = m\<lparr>com_revocation := Some revocation'\<rparr>
                  in if \<not> raised then (m', co_coalesced) else co_refresh m' operation_id
           else co_invalidate_current m route observed_at operation_id)
      | None \<Rightarrow> co_invalidate_current m route observed_at operation_id)"

definition co_withdraw ::
    "coordinator_machine \<Rightarrow> coordinator_route \<Rightarrow> operation_id \<Rightarrow> coordinator_machine \<times> coordinator_transition" where
  "co_withdraw m route operation_id =
     (case com_state m of
        CoUnknown _ \<Rightarrow> (m, co_stale)
      | CoReady current \<Rightarrow>
          (if current \<noteq> route then (m, co_stale)
           else case coordinator_epoch_next (cor_epoch current) of
             None \<Rightarrow> (m, co_exhausted)
           | Some epoch \<Rightarrow> co_start m None operation_id epoch)
      | CoDiscovering current active target followup retries \<Rightarrow>
          (if current \<noteq> Some route then (m, co_stale)
           else (m\<lparr>com_state := CoDiscovering None active target (Some FollowupRevocation) retries\<rparr>,
                 revocation_followup followup))
      | CoRetrying current active target followup retries at \<Rightarrow>
          (if current \<noteq> Some route then (m, co_stale)
           else (m\<lparr>com_state := CoRetrying None active target (Some FollowupRevocation) retries at\<rparr>,
                 revocation_followup followup)))"

fun discovered_state :: "coordinator_followup \<Rightarrow> coordinator_route \<Rightarrow> coordinator_epoch \<Rightarrow> coordinator_state" where
  "discovered_state FollowupRefresh route target = CoReady route"
| "discovered_state FollowupRevocation route target = CoUnknown target"

fun followup_current :: "coordinator_followup \<Rightarrow> coordinator_route option \<Rightarrow> coordinator_route option" where
  "followup_current FollowupRefresh current = current"
| "followup_current FollowupRevocation current = None"

text \<open>Lines 58 to 83 of \<open>outcome.rs\<close>: what a route that no revocation refuses leads to.\<close>

definition co_established ::
    "coordinator_machine \<Rightarrow> coordinator_route \<Rightarrow> coordinator_epoch \<Rightarrow> coordinator_followup option \<Rightarrow> bool \<Rightarrow>
     operation_id \<Rightarrow> coordinator_machine \<times> coordinator_transition" where
  "co_established m route target followup satisfied_revocation followup_operation_id =
     (if satisfied_revocation \<and> followup = Some FollowupRevocation
        then (m\<lparr>com_state := CoReady route\<rparr>, co_applied)
      else case followup of
        None \<Rightarrow> (m\<lparr>com_state := CoReady route\<rparr>, co_applied)
      | Some reason \<Rightarrow>
          (case coordinator_epoch_next target of
             None \<Rightarrow> (m\<lparr>com_state := discovered_state reason route target\<rparr>, co_exhausted)
           | Some next_epoch \<Rightarrow>
               co_start m (followup_current reason (Some route)) followup_operation_id next_epoch))"

definition co_succeed ::
    "coordinator_machine \<Rightarrow> operation_id \<Rightarrow> coordinator_epoch \<Rightarrow> broker_id \<Rightarrow> broker_endpoint \<Rightarrow>
     evidence_stamp \<Rightarrow> operation_id \<Rightarrow> coordinator_machine \<times> coordinator_transition" where
  "co_succeed m operation_id epoch broker_id endpoint evidence followup_operation_id =
     (case com_state m of
        CoDiscovering current expected target followup retries \<Rightarrow>
          (if operation_id \<noteq> expected \<or> epoch \<noteq> target then (m, co_stale)
           else let route = \<lparr>cor_key = com_key m, cor_broker_id = broker_id, cor_endpoint = endpoint,
                             cor_epoch = target, cor_evidence = evidence\<rparr>
                in case com_revocation m of
                  None \<Rightarrow> co_established m route target followup False followup_operation_id
                | Some revocation \<Rightarrow>
                    (if crv_accepts revocation route
                       then co_established (m\<lparr>com_revocation := None\<rparr>) route target followup True
                              followup_operation_id
                     else case coordinator_epoch_next target of
                       None \<Rightarrow> (m\<lparr>com_revocation := None, com_state := CoUnknown target\<rparr>, co_exhausted)
                     | Some next_epoch \<Rightarrow> co_start m None followup_operation_id next_epoch))
      | _ \<Rightarrow> (m, co_stale))"

text \<open>The two states that carry a discovery, seen alike by \<open>fail\<close>.\<close>

fun co_in_flight ::
    "coordinator_state \<Rightarrow>
     (coordinator_route option \<times> operation_id \<times> coordinator_epoch \<times> coordinator_followup option) option" where
  "co_in_flight (CoDiscovering current operation_id target followup retries) =
     Some (current, operation_id, target, followup)"
| "co_in_flight (CoRetrying current operation_id target followup retries at) =
     Some (current, operation_id, target, followup)"
| "co_in_flight _ = None"

definition co_fail ::
    "coordinator_machine \<Rightarrow> operation_id \<Rightarrow> coordinator_epoch \<Rightarrow> operation_id \<Rightarrow>
     coordinator_machine \<times> coordinator_transition" where
  "co_fail m operation_id epoch followup_operation_id =
     (case co_in_flight (com_state m) of
        None \<Rightarrow> (m, co_stale)
      | Some (current, expected, target, followup) \<Rightarrow>
          (if operation_id \<noteq> expected \<or> epoch \<noteq> target then (m, co_stale)
           else if com_revocation m \<noteq> None \<and> followup = None
             then (m\<lparr>com_revocation := None, com_state := CoUnknown target\<rparr>, co_applied)
           else case followup of
             Some reason \<Rightarrow> co_start m (followup_current reason current) followup_operation_id target
           | None \<Rightarrow>
               (m\<lparr>com_state := (case current of Some route \<Rightarrow> CoReady route | None \<Rightarrow> CoUnknown target)\<rparr>,
                co_applied)))"

definition discovery_retry_backoff :: duration where
  "discovery_retry_backoff = 100 * 1000000"

definition max_discovery_retries :: u8 where
  "max_discovery_retries = 8"

definition next_retry :: "u8 \<Rightarrow> u8 option" where
  "next_retry retries =
     (case checked_add retries 1 of
        None \<Rightarrow> None
      | Some retries' \<Rightarrow> (if retries' \<le> max_discovery_retries then Some retries' else None))"

definition co_reject ::
    "coordinator_machine \<Rightarrow> operation_id \<Rightarrow> coordinator_epoch \<Rightarrow> moment \<Rightarrow> operation_id \<Rightarrow>
     coordinator_machine \<times> coordinator_transition" where
  "co_reject m operation_id epoch now followup_operation_id =
     (case com_state m of
        CoDiscovering current expected target followup retries \<Rightarrow>
          (if operation_id \<noteq> expected \<or> epoch \<noteq> target then (m, co_stale)
           else case next_retry retries of
             None \<Rightarrow> co_fail m operation_id epoch followup_operation_id
           | Some retries' \<Rightarrow>
               (case moment_checked_add now discovery_retry_backoff of
                  None \<Rightarrow> co_fail m operation_id epoch followup_operation_id
                | Some at \<Rightarrow>
                    (m\<lparr>com_state := CoRetrying current operation_id target followup retries' at\<rparr>,
                     co_wait operation_id epoch at)))
      | _ \<Rightarrow> (m, co_stale))"

definition co_retry_elapsed ::
    "coordinator_machine \<Rightarrow> operation_id \<Rightarrow> coordinator_epoch \<Rightarrow> moment \<Rightarrow> operation_id \<Rightarrow>
     coordinator_machine \<times> coordinator_transition" where
  "co_retry_elapsed m operation_id epoch now retry_operation_id =
     (case com_state m of
        CoRetrying current expected target followup retries at \<Rightarrow>
          (if operation_id \<noteq> expected \<or> epoch \<noteq> target then (m, co_stale)
           else if now < at then (m, co_wait operation_id epoch at)
           else (m\<lparr>com_state := CoDiscovering current retry_operation_id target followup retries\<rparr>,
                 co_find retry_operation_id (com_key m) target))
      | _ \<Rightarrow> (m, co_stale))"

fun coordinator_apply :: "coordinator_machine \<Rightarrow> coordinator_input \<Rightarrow> coordinator_machine \<times> coordinator_transition" where
  "coordinator_apply m (CoResolve operation_id) = co_resolve m operation_id"
| "coordinator_apply m (CoRefresh operation_id) = co_refresh m operation_id"
| "coordinator_apply m (CoInvalidate route observed_at operation_id) =
     co_invalidate m route observed_at operation_id"
| "coordinator_apply m (CoWithdraw route operation_id) = co_withdraw m route operation_id"
| "coordinator_apply m (CoDiscoverySucceeded operation_id epoch broker_id endpoint evidence followup) =
     co_succeed m operation_id epoch broker_id endpoint evidence followup"
| "coordinator_apply m (CoDiscoveryFailed operation_id epoch followup) = co_fail m operation_id epoch followup"
| "coordinator_apply m (CoDiscoveryRejected operation_id epoch now followup) =
     co_reject m operation_id epoch now followup"
| "coordinator_apply m (CoRetryElapsed operation_id epoch now retry) =
     co_retry_elapsed m operation_id epoch now retry"

lemmas coordinator_transitions =
  co_find_def co_applied_def co_known_def co_coalesced_def co_queued_def co_stale_def co_exhausted_def
  co_wait_def revocation_followup_def

lemmas coordinator_handlers =
  co_resolve_def co_refresh_def co_invalidate_def co_invalidate_current_def co_withdraw_def co_succeed_def
  co_established_def co_fail_def co_reject_def co_retry_elapsed_def co_start_def

end
