(* ===== verification/Coordinator_Safety.thy ===== *)
theory Coordinator_Safety
  imports Coordinator
begin

text \<open>
  What the coordinator machine guarantees: established routes carry strictly increasing epochs, an
  invalidated coordinator is not served again on old evidence unless its rediscovery is abandoned,
  and retries are bounded and delayed.
\<close>

section \<open>The invariant\<close>

fun co_state_wf :: "coordinator_key \<Rightarrow> coordinator_state \<Rightarrow> bool" where
  "co_state_wf key (CoUnknown next_epoch) \<longleftrightarrow> True"
| "co_state_wf key (CoReady route) \<longleftrightarrow> cor_key route = key"
| "co_state_wf key (CoDiscovering current operation_id target followup retries) \<longleftrightarrow>
     retries \<le> max_discovery_retries \<and>
     (\<forall>r. current = Some r \<longrightarrow> cor_key r = key \<and> coordinator_epoch_next (cor_epoch r) = Some target)"
| "co_state_wf key (CoRetrying current operation_id target followup retries at) \<longleftrightarrow>
     0 < retries \<and> retries \<le> max_discovery_retries \<and>
     (\<forall>r. current = Some r \<longrightarrow> cor_key r = key \<and> coordinator_epoch_next (cor_epoch r) = Some target)"

text \<open>A revocation is pending only while a discovery is in flight and no route is served.\<close>

definition coordinator_wf :: "coordinator_machine \<Rightarrow> bool" where
  "coordinator_wf m \<longleftrightarrow>
     co_state_wf (com_key m) (com_state m) \<and>
     (com_revocation m \<noteq> None \<longrightarrow>
        (\<exists>operation_id target followup. co_in_flight (com_state m) = Some (None, operation_id, target, followup)))"

lemma next_retry_bounds: "next_retry n = Some n' \<Longrightarrow> 0 < n' \<and> n' \<le> max_discovery_retries"
  by (auto simp: next_retry_def word_gt_0 dest: checked_add_one_less split: option.splits if_splits)

lemma followup_current_cases: "followup_current reason current = (if reason = FollowupRefresh then current else None)"
  by (cases reason) simp_all

lemma discovered_state_cases:
  "discovered_state reason route target = (if reason = FollowupRefresh then CoReady route else CoUnknown target)"
  by (cases reason) simp_all

lemma co_start_wf:
  assumes "com_revocation m \<noteq> None \<Longrightarrow> current = None"
    and "\<And>r. current = Some r \<Longrightarrow> cor_key r = com_key m \<and> coordinator_epoch_next (cor_epoch r) = Some target"
  shows "coordinator_wf (fst (co_start m current operation_id target))"
  using assms by (auto simp: coordinator_wf_def co_start_def max_discovery_retries_def)

lemma co_start_None_wf [simp]: "coordinator_wf (fst (co_start m None operation_id target))"
  by (rule co_start_wf) simp_all

lemma wf_ready: "coordinator_wf m \<Longrightarrow> com_state m = CoReady r \<Longrightarrow> com_revocation m = None \<and> cor_key r = com_key m"
  by (auto simp: coordinator_wf_def)

lemma wf_unknown: "coordinator_wf m \<Longrightarrow> com_state m = CoUnknown e \<Longrightarrow> com_revocation m = None"
  by (auto simp: coordinator_wf_def)

lemma wf_in_flight:
  assumes "coordinator_wf m" "co_in_flight (com_state m) = Some (current, operation_id, target, followup)"
  shows "com_revocation m \<noteq> None \<Longrightarrow> current = None"
    "current = Some r \<Longrightarrow> cor_key r = com_key m \<and> coordinator_epoch_next (cor_epoch r) = Some target"
  using assms by (auto simp: coordinator_wf_def elim: co_in_flight.elims)

lemma co_fail_wf:
  assumes "coordinator_wf m"
  shows "coordinator_wf (fst (co_fail m operation_id epoch followup))"
proof (cases "co_in_flight (com_state m)")
  case (Some x)
  obtain current expected target f where x: "x = (current, expected, target, f)" by (cases x)
  note flight = wf_in_flight [OF assms Some [unfolded x]]
  have "coordinator_wf (fst (co_start m (followup_current reason current) followup target))" for reason
    using flight by (intro co_start_wf) (auto simp: followup_current_cases split: if_splits)
  moreover have "coordinator_wf (m\<lparr>com_revocation := None, com_state := CoUnknown target\<rparr>)"
    by (simp add: coordinator_wf_def)
  moreover have "coordinator_wf (m\<lparr>com_state := (case current of Some r \<Rightarrow> CoReady r | None \<Rightarrow> CoUnknown target)\<rparr>)"
    if "com_revocation m = None"
    using that flight by (simp add: coordinator_wf_def split: option.split)
  ultimately show ?thesis
    using assms by (simp add: co_fail_def Some x split: option.split)
qed (use assms in \<open>simp add: co_fail_def\<close>)

lemma co_refresh_wf: "coordinator_wf m \<Longrightarrow> coordinator_wf (fst (co_refresh m operation_id))"
  by (cases "com_state m")
     (auto simp: co_refresh_def intro!: co_start_wf dest: wf_ready wf_unknown split: option.split,
      simp_all add: coordinator_wf_def)

lemma co_resolve_wf: "coordinator_wf m \<Longrightarrow> coordinator_wf (fst (co_resolve m operation_id))"
  by (cases "com_state m") (auto simp: co_resolve_def intro!: co_start_wf)

lemma co_revoked_wf:
  assumes "coordinator_wf m"
  shows "com_state m = CoDiscovering current active target f retries \<Longrightarrow>
      coordinator_wf (m\<lparr>com_state := CoDiscovering None active target followup retries, com_revocation := r\<rparr>)"
    and "com_state m = CoRetrying current active target f retries at \<Longrightarrow>
      coordinator_wf (m\<lparr>com_state := CoRetrying None active target followup retries at, com_revocation := r\<rparr>)"
  using assms by (simp_all add: coordinator_wf_def)

lemma co_invalidate_current_wf:
  assumes "coordinator_wf m"
  shows "coordinator_wf (fst (co_invalidate_current m route observed_at operation_id))"
  using assms co_revoked_wf [OF assms]
  by (cases "com_state m") (simp_all add: co_invalidate_current_def Let_def co_start_wf split: option.split)

lemma co_invalidate_wf:
  assumes "coordinator_wf m"
  shows "coordinator_wf (fst (co_invalidate m route observed_at operation_id))"
proof (cases "com_revocation m")
  case (Some revocation)
  have "coordinator_wf (m\<lparr>com_revocation := Some r\<rparr>)" for r
    using assms Some by (simp add: coordinator_wf_def)
  then show ?thesis
    using Some co_refresh_wf co_invalidate_current_wf [OF assms]
    by (simp add: co_invalidate_def Let_def case_prod_beta)
qed (simp add: co_invalidate_def co_invalidate_current_wf [OF assms])

lemma co_withdraw_wf:
  assumes "coordinator_wf m"
  shows "coordinator_wf (fst (co_withdraw m route operation_id))"
proof -
  show ?thesis
    using assms co_revoked_wf [OF assms, where r = "com_revocation m"]
    by (cases "com_state m") (simp_all add: co_withdraw_def co_start_wf split: option.split)
qed

lemma co_established_wf:
  assumes "com_revocation m = None" "cor_key route = com_key m" "cor_epoch route = target"
  shows "coordinator_wf (fst (co_established m route target followup satisfied operation_id))"
proof -
  have "coordinator_wf (m\<lparr>com_state := CoReady route\<rparr>)" "coordinator_wf (m\<lparr>com_state := CoUnknown target\<rparr>)"
    using assms by (simp_all add: coordinator_wf_def)
  moreover have "coordinator_wf (fst (co_start m (followup_current reason (Some route)) operation_id e))"
    if "coordinator_epoch_next target = Some e" for reason e
    using assms that
    by (intro co_start_wf) (auto simp: followup_current_cases split: if_splits)
  ultimately show ?thesis
    by (simp add: co_established_def discovered_state_cases split: option.split)
qed

lemma co_succeed_wf:
  assumes "coordinator_wf m"
  shows "coordinator_wf (fst (co_succeed m operation_id epoch broker_id endpoint evidence followup))"
proof (cases "com_state m")
  case (CoDiscovering current expected target f retries)
  have "coordinator_wf (m\<lparr>com_revocation := None, com_state := CoUnknown target\<rparr>)"
    by (simp add: coordinator_wf_def)
  with assms show ?thesis
    by (simp add: co_succeed_def CoDiscovering Let_def co_established_wf co_start_wf split: option.split)
qed (use assms in \<open>simp_all add: co_succeed_def\<close>)

lemma co_retries_wf:
  assumes "coordinator_wf m"
  shows "coordinator_wf (fst (co_reject m operation_id epoch now followup))"
    and "coordinator_wf (fst (co_retry_elapsed m operation_id epoch now followup))"
proof -
  show "coordinator_wf (fst (co_reject m operation_id epoch now followup))"
  proof (cases "com_state m")
    case (CoDiscovering current expected target f retries)
    have "coordinator_wf (m\<lparr>com_state := CoRetrying current expected target f n at\<rparr>)"
      if "next_retry retries = Some n" for n at
      using assms CoDiscovering next_retry_bounds [OF that] by (auto simp: coordinator_wf_def)
    with assms co_fail_wf [OF assms] show ?thesis
      by (simp add: co_reject_def CoDiscovering split: option.split)
  qed (use assms in \<open>simp_all add: co_reject_def\<close>)
  show "coordinator_wf (fst (co_retry_elapsed m operation_id epoch now followup))"
    using assms by (cases "com_state m") (auto simp: co_retry_elapsed_def coordinator_wf_def)
qed

lemma coordinator_apply_wf: "coordinator_wf m \<Longrightarrow> coordinator_wf (fst (coordinator_apply m i))"
  by (cases i)
     (simp_all add: co_resolve_wf co_refresh_wf co_invalidate_wf co_withdraw_wf co_succeed_wf co_fail_wf co_retries_wf)

interpretation coordinator_invariant: machine_invariant coordinator_apply coordinator_wf
  by unfold_locales (rule coordinator_apply_wf)

section \<open>Events\<close>

datatype coordinator_event =
    EvCoRevoked outcome_stamp
  | EvCoEstablished coordinator_route
  | EvCoAbandoned
  | EvCoStarted
  | EvCoRejected moment
  | EvCoRetried moment

fun is_unknown :: "coordinator_state \<Rightarrow> bool" where
  "is_unknown (CoUnknown e) \<longleftrightarrow> True"
| "is_unknown _ \<longleftrightarrow> False"

fun is_find :: "coordinator_effect \<Rightarrow> bool" where
  "is_find (CoFind operation_id key epoch) \<longleftrightarrow> True"
| "is_find _ \<longleftrightarrow> False"

fun is_retry_wait :: "coordinator_effect \<Rightarrow> bool" where
  "is_retry_wait (CoWaitUntil operation_id epoch at) \<longleftrightarrow> True"
| "is_retry_wait _ \<longleftrightarrow> False"

text \<open>
  What the input itself tells: an accepted invalidation, a rejection that schedules a retry, a
  retry that is sent, a discovery that starts.
\<close>

fun input_event :: "coordinator_input \<Rightarrow> coordinator_transition \<Rightarrow> coordinator_event list" where
  "input_event (CoInvalidate route observed_at operation_id) t =
     (if cot_disposition t \<noteq> CoIgnoredStale \<and> CoEpochExhausted \<notin> set (cot_effects t)
        then [EvCoRevoked observed_at] else []) @
     (if list_ex is_find (cot_effects t) then [EvCoStarted] else [])"
| "input_event (CoDiscoveryRejected operation_id epoch now followup) t =
     (if list_ex is_retry_wait (cot_effects t) then [EvCoRejected now] else []) @
     (if list_ex is_find (cot_effects t) then [EvCoStarted] else [])"
| "input_event (CoRetryElapsed operation_id epoch now retry) t =
     (if list_ex is_find (cot_effects t) then [EvCoRetried now] else [])"
| "input_event i t = (if list_ex is_find (cot_effects t) then [EvCoStarted] else [])"

text \<open>What the step did to the route that is served.\<close>

definition route_event :: "coordinator_machine \<Rightarrow> coordinator_machine \<Rightarrow> coordinator_event list" where
  "route_event m m' =
     (if is_unknown (com_state m') \<and> \<not> is_unknown (com_state m) then [EvCoAbandoned]
      else case coordinator_current m' of
        None \<Rightarrow> []
      | Some r \<Rightarrow> (if coordinator_current m = Some r then [] else [EvCoEstablished r]))"

definition coordinator_events ::
    "coordinator_machine \<Rightarrow> coordinator_input \<Rightarrow> coordinator_transition \<Rightarrow> coordinator_event list" where
  "coordinator_events m i t = input_event i t @ route_event m (fst (coordinator_apply m i))"

section \<open>Established routes carry increasing epochs\<close>

fun established_route :: "coordinator_event \<Rightarrow> coordinator_route list" where
  "established_route (EvCoEstablished r) = [r]"
| "established_route _ = []"

definition established :: "coordinator_event list \<Rightarrow> coordinator_route list" where
  "established past = concat (map established_route past)"

lemma established_append [simp]: "established (xs @ ys) = established xs @ established ys"
  by (simp add: established_def)

lemma established_input [simp]: "established (input_event i t) = []"
  by (cases i) (simp_all add: established_def)

fun state_fence :: "coordinator_state \<Rightarrow> nat" where
  "state_fence (CoUnknown next_epoch) = unat next_epoch"
| "state_fence (CoDiscovering current operation_id target followup retries) = unat target"
| "state_fence (CoRetrying current operation_id target followup retries at) = unat target"
| "state_fence (CoReady route) = unat (cor_epoch route) + 1"

definition route_step :: "coordinator_machine \<Rightarrow> coordinator_machine \<Rightarrow> bool" where
  "route_step m m' \<longleftrightarrow>
     state_fence (com_state m) \<le> state_fence (com_state m') \<and>
     (\<forall>r. coordinator_current m' = Some r \<and> coordinator_current m \<noteq> Some r \<longrightarrow>
        state_fence (com_state m) \<le> unat (cor_epoch r) \<and> unat (cor_epoch r) < state_fence (com_state m') \<and>
        cor_key r = com_key m) \<and>
     com_key m' = com_key m"

lemma epoch_next_unat: "coordinator_epoch_next e = Some e' \<Longrightarrow> unat e' = unat e + 1"
  by (auto simp: coordinator_epoch_next_def dest: checked_add_unat)

lemma route_step_refl [simp]: "route_step m m"
  by (auto simp: route_step_def)

lemma co_start_route_step:
  assumes "state_fence (com_state m) \<le> unat target"
    and "\<And>r. current = Some r \<Longrightarrow> coordinator_current m \<noteq> Some r \<Longrightarrow>
      state_fence (com_state m) \<le> unat (cor_epoch r) \<and> unat (cor_epoch r) < unat target \<and> cor_key r = com_key m"
  shows "route_step m (fst (co_start (m\<lparr>com_revocation := x\<rparr>) current operation_id target))"
  using assms by (auto simp: route_step_def co_start_def coordinator_current_def)

lemma route_step_revocation [simp]:
  "route_step (m\<lparr>com_revocation := x\<rparr>) m' = route_step m m'" "route_step m (m'\<lparr>com_revocation := x\<rparr>) = route_step m m'"
  by (simp_all add: route_step_def coordinator_current_def)

lemma co_fail_route_step:
  assumes "coordinator_wf m"
  shows "route_step m (fst (co_fail m operation_id epoch followup))"
proof (cases "co_in_flight (com_state m)")
  case (Some x)
  obtain current expected target f where x: "x = (current, expected, target, f)" by (cases x)
  note flight = wf_in_flight [OF assms Some [unfolded x]]
  have fence: "state_fence (com_state m) = unat target" "coordinator_current m = current"
    using Some x by (auto simp: coordinator_current_def elim: co_in_flight.elims)
  have "route_step m (fst (co_start m (followup_current reason current) followup target))" for reason
    using co_start_route_step [of m target "followup_current reason current" "com_revocation m" followup] fence
    by (auto simp: followup_current_cases split: if_splits)
  moreover have "route_step m (m\<lparr>com_state := CoUnknown target\<rparr>)"
    "route_step m (m\<lparr>com_revocation := None, com_state := CoUnknown target\<rparr>)"
    using fence by (simp_all add: route_step_def coordinator_current_def)
  moreover have "route_step m (m\<lparr>com_state := CoReady r\<rparr>)" if "current = Some r" for r
    using fence that epoch_next_unat [of "cor_epoch r" target] flight(2) [OF that]
    by (simp add: route_step_def coordinator_current_def)
  ultimately show ?thesis
    by (auto simp: co_fail_def Some x split: option.split)
qed (simp add: co_fail_def)

lemma co_started_route_step:
  assumes "state_fence (com_state m) \<le> unat target"
  shows "route_step m (fst (co_start m None operation_id target))"
    "route_step m (fst (co_start (m\<lparr>com_revocation := x\<rparr>) None operation_id target))"
  using co_start_route_step [of m target None "com_revocation m" operation_id]
    co_start_route_step [of m target None x operation_id] assms by simp_all

lemma co_admission_route_step:
  assumes "coordinator_wf m"
  shows "route_step m (fst (co_resolve m operation_id))" "route_step m (fst (co_refresh m operation_id))"
    "route_step m (fst (co_withdraw m route operation_id))"
    "route_step m (fst (co_invalidate_current m route observed_at operation_id))"
proof -
  show "route_step m (fst (co_resolve m operation_id))"
    by (cases "com_state m") (simp_all add: co_resolve_def co_started_route_step)
  show "route_step m (fst (co_refresh m operation_id))"
  proof (cases "com_state m")
    case (CoReady r)
    then show ?thesis
      using co_start_route_step [of m _ "Some r" "com_revocation m" operation_id] epoch_next_unat
      by (auto simp: co_refresh_def coordinator_current_def split: option.split)
  qed (simp_all add: co_refresh_def co_started_route_step,
       simp_all add: route_step_def coordinator_current_def)
  show "route_step m (fst (co_withdraw m route operation_id))"
    by (cases "com_state m")
       (auto simp: co_withdraw_def dest: epoch_next_unat intro!: co_started_route_step split: option.split,
        simp_all add: route_step_def coordinator_current_def)
  show "route_step m (fst (co_invalidate_current m route observed_at operation_id))"
    by (cases "com_state m")
       (auto simp: co_invalidate_current_def Let_def dest: epoch_next_unat intro!: co_started_route_step split: option.split,
        simp_all add: route_step_def coordinator_current_def)
qed

lemma co_invalidate_route_step:
  assumes "coordinator_wf m"
  shows "route_step m (fst (co_invalidate m route observed_at operation_id))"
proof (cases "com_revocation m")
  case (Some revocation)
  have "coordinator_wf (m\<lparr>com_revocation := Some r\<rparr>)" for r
    using assms Some by (simp add: coordinator_wf_def)
  from co_admission_route_step(2) [OF this] show ?thesis
    using Some co_admission_route_step(4) [OF assms]
    by (simp add: co_invalidate_def Let_def case_prod_beta)
qed (simp add: co_invalidate_def co_admission_route_step(4) [OF assms])

lemma co_established_route_step:
  assumes "state_fence (com_state m) = unat target" "cor_key route = com_key m" "cor_epoch route = target"
  shows "route_step m (fst (co_established m route target followup satisfied operation_id))"
proof -
  have "route_step m (m\<lparr>com_state := CoReady route\<rparr>)" "route_step m (m\<lparr>com_state := CoUnknown target\<rparr>)"
    using assms by (auto simp: route_step_def coordinator_current_def)
  moreover have "route_step m (fst (co_start m (followup_current reason (Some route)) operation_id e))"
    if "coordinator_epoch_next target = Some e" for reason e
    using assms epoch_next_unat [OF that]
      co_start_route_step [of m e "followup_current reason (Some route)" "com_revocation m" operation_id]
    by (auto simp: followup_current_cases split: if_splits)
  ultimately show ?thesis
    by (auto simp: co_established_def discovered_state_cases split: option.split)
qed

lemma co_outcome_route_step:
  assumes "coordinator_wf m"
  shows "route_step m (fst (co_succeed m operation_id epoch broker_id endpoint evidence followup))"
    "route_step m (fst (co_reject m operation_id epoch now followup))"
    "route_step m (fst (co_retry_elapsed m operation_id epoch now followup))"
proof -
  show "route_step m (fst (co_succeed m operation_id epoch broker_id endpoint evidence followup))"
  proof (cases "com_state m")
    case (CoDiscovering current expected target f retries)
    have "route_step m (fst (co_established (m\<lparr>com_revocation := x\<rparr>) route target f b followup))"
      if "cor_key route = com_key m" "cor_epoch route = target" for x route b
      using co_established_route_step [of "m\<lparr>com_revocation := x\<rparr>" target route] CoDiscovering that by simp
    from this [of _ "com_revocation m"] this [of _ None]
    have "route_step m (fst (co_established m route target f b followup))"
      "route_step m (fst (co_established (m\<lparr>com_revocation := None\<rparr>) route target f b followup))"
      if "cor_key route = com_key m" "cor_epoch route = target" for route b using that by simp_all
    moreover have "route_step m (m\<lparr>com_revocation := None, com_state := CoUnknown target\<rparr>)"
      using CoDiscovering by (simp add: route_step_def coordinator_current_def)
    moreover have "route_step m (fst (co_start m None followup e))" if "coordinator_epoch_next target = Some e" for e
      using CoDiscovering epoch_next_unat [OF that] by (intro co_started_route_step) simp
    ultimately show ?thesis
      by (auto simp: co_succeed_def CoDiscovering Let_def split: option.split)
  qed (simp_all add: co_succeed_def)
  show "route_step m (fst (co_reject m operation_id epoch now followup))"
    using co_fail_route_step [OF assms]
    by (cases "com_state m") (auto simp: co_reject_def split: option.split,
        simp_all add: route_step_def coordinator_current_def)
  show "route_step m (fst (co_retry_elapsed m operation_id epoch now followup))"
    by (cases "com_state m") (auto simp: co_retry_elapsed_def, simp_all add: route_step_def coordinator_current_def)
qed

lemma coordinator_route_step: "coordinator_wf m \<Longrightarrow> route_step m (fst (coordinator_apply m i))"
  by (cases i)
     (simp_all add: co_admission_route_step co_invalidate_route_step co_fail_route_step co_outcome_route_step)

definition routes_recorded :: "coordinator_event list \<Rightarrow> coordinator_machine \<Rightarrow> bool" where
  "routes_recorded past m \<longleftrightarrow>
     coordinator_wf m \<and> sorted_wrt (<) (map cor_epoch (established past)) \<and>
     (\<forall>r\<in>set (established past). unat (cor_epoch r) < state_fence (com_state m) \<and> cor_key r = com_key m) \<and>
     (\<forall>r. coordinator_current m = Some r \<longrightarrow> established past \<noteq> [] \<and> last (established past) = r)"

lemma unknown_current: "is_unknown (com_state m) \<Longrightarrow> coordinator_current m = None"
  by (cases "com_state m") (simp_all add: coordinator_current_def)

lemma established_route_event:
  "established (route_event m m') =
     (case coordinator_current m' of
        None \<Rightarrow> []
      | Some r \<Rightarrow> (if coordinator_current m = Some r then [] else [r]))"
  using unknown_current [of m'] by (auto simp: route_event_def established_def split: option.split)

lemma routes_recorded_more:
  assumes "routes_recorded past m" "coordinator_wf m'" "route_step m m'" "established new = []"
  shows "routes_recorded (past @ new @ route_event m m') m'"
proof -
  have fence: "state_fence (com_state m) \<le> state_fence (com_state m')" "com_key m' = com_key m"
    using assms(3) by (simp_all add: route_step_def)
  have past: "sorted_wrt (<) (map cor_epoch (established past))"
    "\<And>r. r \<in> set (established past) \<Longrightarrow> unat (cor_epoch r) < state_fence (com_state m) \<and> cor_key r = com_key m"
    "\<And>r. coordinator_current m = Some r \<Longrightarrow> established past \<noteq> [] \<and> last (established past) = r"
    using assms(1) by (simp_all add: routes_recorded_def)
  have kept: "unat (cor_epoch r) < state_fence (com_state m')" "cor_key r = com_key m'"
    if "r \<in> set (established past)" for r
    using past(2) [OF that] fence by simp_all
  show ?thesis
  proof (cases "established (route_event m m')")
    case Nil
    then have "coordinator_current m' = Some r \<Longrightarrow> coordinator_current m = Some r" for r
      by (simp add: established_route_event split: if_splits)
    then show ?thesis
      using Nil past(1,3) kept assms(2,4) by (simp add: routes_recorded_def)
  next
    case (Cons r rs)
    then have r: "rs = []" "coordinator_current m' = Some r" "coordinator_current m \<noteq> Some r"
      by (simp_all add: established_route_event split: option.splits if_splits)
    have new: "state_fence (com_state m) \<le> unat (cor_epoch r)" "unat (cor_epoch r) < state_fence (com_state m')"
      "cor_key r = com_key m'"
      using assms(3) r(2,3) by (simp_all add: route_step_def)
    have "cor_epoch q < cor_epoch r" if "q \<in> set (established past)" for q
      using past(2) [OF that] new(1) by (simp add: word_less_nat_alt)
    then show ?thesis
      using Cons r past(1) kept new(2,3) assms(2,4)
      by (simp add: routes_recorded_def sorted_wrt_append)
  qed
qed

lemma routes_recorded_step:
  assumes "routes_recorded past m"
  shows "routes_recorded (past @ coordinator_events m i (snd (coordinator_apply m i))) (fst (coordinator_apply m i))"
proof -
  have wf: "coordinator_wf m" using assms by (simp add: routes_recorded_def)
  from routes_recorded_more [OF assms coordinator_apply_wf [OF wf] coordinator_route_step [OF wf]]
  show ?thesis by (simp add: coordinator_events_def)
qed

interpretation coordinator_routes: recording_machine coordinator_apply "\<lambda>_. True" coordinator_events routes_recorded
  by unfold_locales (rule routes_recorded_step)

section \<open>Revocations\<close>

fun co_answers :: "coordinator_event \<Rightarrow> coordinator_event \<Rightarrow> bool" where
  "co_answers (EvCoRevoked t) (EvCoEstablished r) \<longleftrightarrow> evidence_is_after (cor_evidence r) t"
| "co_answers (EvCoRevoked t) EvCoAbandoned \<longleftrightarrow> True"
| "co_answers _ _ \<longleftrightarrow> False"

definition requires :: "coordinator_machine \<Rightarrow> outcome_stamp \<Rightarrow> bool" where
  "requires m t \<longleftrightarrow> (case com_revocation m of None \<Rightarrow> False | Some v \<Rightarrow> t \<le> crv_required_after v)"

text \<open>A requirement survives a step, or the step establishes a newer route or abandons discovery.\<close>

definition keeps_requirements :: "coordinator_machine \<Rightarrow> coordinator_machine \<Rightarrow> bool" where
  "keeps_requirements m m' \<longleftrightarrow>
     (\<forall>t. requires m t \<longrightarrow> requires m' t \<or> list_ex (co_answers (EvCoRevoked t)) (route_event m m'))"

lemma keeps_same: "com_revocation m' = com_revocation m \<Longrightarrow> keeps_requirements m m'"
  by (simp add: keeps_requirements_def requires_def)

lemma co_start_revocation [simp]:
  "com_revocation (fst (co_start m current operation_id target)) = com_revocation m"
  "com_state (fst (co_start m current operation_id target)) = CoDiscovering current operation_id target None 0"
  by (simp_all add: co_start_def)

lemma co_admission_revocation:
  "com_revocation (fst (co_resolve m operation_id)) = com_revocation m"
  "com_revocation (fst (co_refresh m operation_id)) = com_revocation m"
  "com_revocation (fst (co_withdraw m route operation_id)) = com_revocation m"
  "com_revocation (fst (co_retry_elapsed m operation_id epoch now retry)) = com_revocation m"
  by (cases "com_state m";
      simp add: co_resolve_def co_refresh_def co_withdraw_def co_retry_elapsed_def split: option.split)+

lemma co_fail_keeps:
  assumes "coordinator_wf m"
  shows "keeps_requirements m (fst (co_fail m operation_id epoch followup))"
proof (cases "co_in_flight (com_state m)")
  case (Some x)
  obtain current expected target f where x: "x = (current, expected, target, f)" by (cases x)
  have "\<not> is_unknown (com_state m)" using Some by (cases "com_state m") simp_all
  then have "keeps_requirements m (m\<lparr>com_revocation := None, com_state := CoUnknown target\<rparr>)"
    by (simp add: keeps_requirements_def route_event_def)
  then show ?thesis
    by (simp add: co_fail_def Some x keeps_same split: option.split)
qed (simp add: co_fail_def keeps_same)

lemma co_established_current:
  assumes "satisfied \<or> followup \<noteq> Some FollowupRevocation"
  shows "coordinator_current (fst (co_established m route target followup satisfied operation_id)) = Some route"
proof (cases followup)
  case (Some reason)
  then show ?thesis
    using assms by (cases reason) (auto simp: co_established_def coordinator_current_def split: option.split)
qed (simp add: co_established_def coordinator_current_def)

lemma co_established_revocation [simp]:
  "com_revocation (fst (co_established m route target followup satisfied operation_id)) = com_revocation m"
  by (simp add: co_established_def split: option.split)

lemma co_succeed_keeps:
  assumes "coordinator_wf m"
  shows "keeps_requirements m (fst (co_succeed m operation_id epoch broker_id endpoint evidence followup))"
proof (cases "com_state m")
  case (CoDiscovering current expected target f retries)
  define route where "route = \<lparr>cor_key = com_key m, cor_broker_id = broker_id, cor_endpoint = endpoint,
      cor_epoch = target, cor_evidence = evidence\<rparr>"
  have gone: "keeps_requirements m (m\<lparr>com_revocation := None, com_state := CoUnknown target\<rparr>)"
    by (simp add: keeps_requirements_def route_event_def CoDiscovering)
  have accepted: "keeps_requirements m (fst (co_established (m\<lparr>com_revocation := None\<rparr>) route target f True followup))"
    if rev: "com_revocation m = Some v" "crv_accepts v route" for v
  proof -
    let ?m = "fst (co_established (m\<lparr>com_revocation := None\<rparr>) route target f True followup)"
    have "coordinator_current m = None"
      using assms rev(1) CoDiscovering by (auto simp: coordinator_wf_def coordinator_current_def)
    moreover have "coordinator_current ?m = Some route" by (rule co_established_current) simp
    ultimately have "route_event m ?m = [EvCoEstablished route]"
      using unknown_current [of ?m] by (auto simp: route_event_def)
    then show ?thesis
      using rev by (auto simp: keeps_requirements_def requires_def crv_accepts_def evidence_is_after_def)
  qed
  show ?thesis
    by (simp add: co_succeed_def CoDiscovering Let_def route_def [symmetric] gone accepted keeps_same
        split: option.split)
qed (simp_all add: co_succeed_def keeps_same)

lemma co_reject_keeps:
  assumes "coordinator_wf m"
  shows "keeps_requirements m (fst (co_reject m operation_id epoch now followup))"
  by (cases "com_state m") (simp_all add: co_reject_def keeps_same co_fail_keeps [OF assms] split: option.split)

definition accepts_invalidation :: "coordinator_transition \<Rightarrow> bool" where
  "accepts_invalidation t \<longleftrightarrow> cot_disposition t \<noteq> CoIgnoredStale \<and> CoEpochExhausted \<notin> set (cot_effects t)"

lemma co_invalidate_current_revokes:
  assumes "coordinator_wf m" "co_invalidate_current m route observed_at operation_id = (m', t)"
  shows "(accepts_invalidation t \<longrightarrow> requires m' observed_at) \<and> (m' = m \<or> com_revocation m = None)"
proof (cases "com_state m")
  case (CoDiscovering current active target f retries)
  then show ?thesis
    using assms
    by (auto simp: co_invalidate_current_def accepts_invalidation_def coordinator_transitions requires_def
        coordinator_wf_def route_unaffected_def split: if_splits option.splits)
next
  case (CoRetrying current active target f retries at)
  then show ?thesis
    using assms
    by (auto simp: co_invalidate_current_def accepts_invalidation_def coordinator_transitions requires_def
        coordinator_wf_def route_unaffected_def split: if_splits option.splits)
next
  case (CoReady r)
  then show ?thesis
    using assms wf_ready [OF assms(1) CoReady]
    by (auto simp: co_invalidate_current_def accepts_invalidation_def coordinator_transitions requires_def co_start_def
        split: if_splits option.splits)
qed (use assms in \<open>auto simp: co_invalidate_current_def accepts_invalidation_def co_stale_def\<close>)

lemma co_invalidate_revokes:
  assumes "coordinator_wf m" "co_invalidate m route observed_at operation_id = (m', t)"
  shows "(accepts_invalidation t \<longrightarrow> requires m' observed_at) \<and> keeps_requirements m m'"
proof (cases "co_revocation_pending m route")
  case True
  then obtain v where v: "com_revocation m = Some v" "crv_matches v route"
    by (auto simp: co_revocation_pending_def split: option.splits)
  have "com_revocation m' = Some (fst (crv_observe v observed_at))"
    using assms(2) v co_admission_revocation(2)
    by (auto simp: co_invalidate_def Let_def case_prod_beta split: if_splits)
       (metis (no_types, lifting) coordinator_machine.select_convs(3) coordinator_machine.surjective
         coordinator_machine.update_convs(3) fst_conv)
  then show ?thesis
    using v by (auto simp: requires_def keeps_requirements_def crv_observe_def le_max_iff_disj)
next
  case False
  then have "co_invalidate_current m route observed_at operation_id = (m', t)"
    using assms(2) by (auto simp: co_invalidate_def co_revocation_pending_def split: option.splits)
  from co_invalidate_current_revokes [OF assms(1) this] show ?thesis
    by (auto simp: keeps_requirements_def requires_def)
qed

lemma coordinator_keeps_requirements:
  assumes "coordinator_wf m"
  shows "keeps_requirements m (fst (coordinator_apply m i))"
proof (cases i)
  case (CoInvalidate route observed_at operation_id)
  then show ?thesis
    using co_invalidate_revokes [OF assms, of route observed_at operation_id] by (cases "coordinator_apply m i") simp
qed (simp_all add: keeps_same co_admission_revocation co_succeed_keeps co_fail_keeps co_reject_keeps assms)

lemma coordinator_revokes:
  assumes "coordinator_wf m" "EvCoRevoked t \<in> set (input_event i (snd (coordinator_apply m i)))"
  shows "requires (fst (coordinator_apply m i)) t"
proof (cases i)
  case (CoInvalidate route observed_at operation_id)
  obtain m' tr where step: "co_invalidate m route observed_at operation_id = (m', tr)" by fastforce
  then show ?thesis
    using assms(2) CoInvalidate co_invalidate_revokes [OF assms(1) step]
    by (auto simp: accepts_invalidation_def split: if_splits)
qed (use assms(2) in \<open>simp_all split: if_splits\<close>)

section \<open>Retries\<close>

text \<open>
  The reference for retries: the rejection a retry waits for and the number of retries since the
  discovery started. A retry without a rejection, too early or one too many has no successor.
\<close>

fun retry_event :: "moment option \<times> nat \<Rightarrow> coordinator_event \<Rightarrow> (moment option \<times> nat) option" where
  "retry_event (rejected, n) EvCoStarted = Some (None, 0)"
| "retry_event (rejected, n) (EvCoRejected now) = Some (Some now, n)"
| "retry_event (rejected, n) (EvCoRetried now) =
     (case rejected of
        None \<Rightarrow> None
      | Some r \<Rightarrow> (if unat r + discovery_retry_backoff \<le> unat now \<and> n < 8 then Some (None, n + 1) else None))"
| "retry_event st _ = Some st"

fun retry_path :: "moment option \<times> nat \<Rightarrow> coordinator_event list \<Rightarrow> (moment option \<times> nat) option" where
  "retry_path st [] = Some st"
| "retry_path st (e # es) = (case retry_event st e of None \<Rightarrow> None | Some st' \<Rightarrow> retry_path st' es)"

lemma retry_path_append:
  "retry_path st (xs @ ys) = (case retry_path st xs of None \<Rightarrow> None | Some st' \<Rightarrow> retry_path st' ys)"
  by (induction xs arbitrary: st) (auto split: option.split)

lemma retry_path_route [simp]: "retry_path st (route_event m m') = Some st"
  by (cases st) (auto simp: route_event_def split: option.split)

fun retry_state :: "moment option \<times> nat \<Rightarrow> coordinator_state \<Rightarrow> bool" where
  "retry_state (rejected, n) (CoDiscovering current operation_id target followup retries) \<longleftrightarrow> n = unat retries"
| "retry_state (rejected, n) (CoRetrying current operation_id target followup retries at) \<longleftrightarrow>
     n + 1 = unat retries \<and> (\<exists>r. rejected = Some r \<and> unat at = unat r + discovery_retry_backoff)"
| "retry_state st _ \<longleftrightarrow> True"

definition retry_step :: "coordinator_state \<Rightarrow> coordinator_event list \<Rightarrow> coordinator_state \<Rightarrow> bool" where
  "retry_step s new s' \<longleftrightarrow>
     (\<forall>st. retry_state st s \<longrightarrow> (\<exists>st'. retry_path st new = Some st' \<and> retry_state st' s'))"

lemma retry_step_simps [simp]:
  "retry_step s [EvCoStarted] (CoDiscovering current operation_id target followup 0)"
  "retry_step s [] s"
  "retry_step (CoDiscovering current active target f retries) [] (CoDiscovering current' active' target' f' retries)"
  "retry_step (CoRetrying current active target f retries at) [] (CoRetrying current' active' target' f' retries at)"
  "retry_step s [] (CoUnknown e)" "retry_step s [] (CoReady r)"
  by (auto simp: retry_step_def)

definition finds :: "coordinator_transition \<Rightarrow> coordinator_event list" where
  "finds t = (if list_ex is_find (cot_effects t) then [EvCoStarted] else [])"

lemma finds_transitions [simp]:
  "finds (co_find operation_id key epoch) = [EvCoStarted]" "finds co_applied = []" "finds co_known = []"
  "finds co_coalesced = []" "finds co_queued = []" "finds co_stale = []" "finds co_exhausted = []"
  "finds (revocation_followup f) = []" "finds (snd (co_start m current operation_id epoch)) = [EvCoStarted]"
  "finds (co_wait operation_id epoch at) = []"
  by (simp_all add: finds_def coordinator_transitions co_start_def)

abbreviation retry_ok :: "coordinator_machine \<Rightarrow> coordinator_machine \<times> coordinator_transition \<Rightarrow> bool" where
  "retry_ok m r \<equiv> retry_step (com_state m) (finds (snd r)) (com_state (fst r))"

lemma co_admission_retry:
  "retry_ok m (co_resolve m operation_id)" "retry_ok m (co_refresh m operation_id)"
  "retry_ok m (co_withdraw m route operation_id)"
  "retry_ok m (co_invalidate_current m route observed_at operation_id)"
  by (cases "com_state m";
      simp add: co_resolve_def co_refresh_def co_withdraw_def co_invalidate_current_def Let_def split: option.split)+

lemma co_invalidate_retry: "retry_ok m (co_invalidate m route observed_at operation_id)"
  using co_admission_retry(2) [of "m\<lparr>com_revocation := x\<rparr>" operation_id for x]
  by (simp add: co_invalidate_def Let_def case_prod_beta co_admission_retry(4) split: option.split)

lemma co_fail_retry: "retry_ok m (co_fail m operation_id epoch followup)"
  by (cases "com_state m") (simp_all add: co_fail_def split: option.split)

lemma co_established_retry:
  "com_state m = s \<Longrightarrow> retry_step s (finds (snd (co_established m route target f b operation_id)))
     (com_state (fst (co_established m route target f b operation_id)))"
  by (simp add: co_established_def discovered_state_cases split: option.split)

lemma co_succeed_retry: "retry_ok m (co_succeed m operation_id epoch broker_id endpoint evidence followup)"
  by (cases "com_state m") (simp_all add: co_succeed_def Let_def co_established_retry split: option.split)

lemma no_retry_wait:
  "\<not> list_ex is_retry_wait (cot_effects (snd (co_fail m operation_id epoch followup)))"
  by (cases "com_state m") (simp_all add: co_fail_def co_start_def coordinator_transitions split: option.split)

lemma next_retry_unat: "next_retry n = Some n' \<Longrightarrow> unat n' = unat n + 1"
  by (auto simp: next_retry_def dest: checked_add_unat split: option.splits if_splits)

lemma co_reject_retry:
  "retry_step (com_state m)
     (input_event (CoDiscoveryRejected operation_id epoch now followup) (snd (co_reject m operation_id epoch now followup)))
     (com_state (fst (co_reject m operation_id epoch now followup)))"
proof (cases "com_state m")
  case (CoDiscovering current expected target f retries)
  have fail: "retry_step (com_state m)
      (input_event (CoDiscoveryRejected operation_id epoch now followup) (snd (co_fail m operation_id epoch followup)))
      (com_state (fst (co_fail m operation_id epoch followup)))"
    using co_fail_retry [of m operation_id epoch followup] by (simp add: no_retry_wait finds_def)
  have wait: "retry_step (com_state m)
      (input_event (CoDiscoveryRejected operation_id epoch now followup) (co_wait operation_id epoch at))
      (CoRetrying current operation_id target f n at)"
    if "next_retry retries = Some n" "moment_checked_add now discovery_retry_backoff = Some at" for n at
    using next_retry_unat [OF that(1)] moment_checked_add_unat [OF that(2)]
    by (auto simp: retry_step_def co_wait_def CoDiscovering)
  have stale: "retry_step (com_state m)
      (input_event (CoDiscoveryRejected operation_id epoch now followup) co_stale) (com_state m)"
    by (simp add: co_stale_def)
  show ?thesis
    using fail wait stale by (auto simp: co_reject_def CoDiscovering simp del: input_event.simps split: option.split)
qed (simp_all add: co_reject_def co_stale_def)

lemma co_retry_elapsed_retry:
  assumes "coordinator_wf m"
  shows "retry_step (com_state m)
     (input_event (CoRetryElapsed operation_id epoch now retry) (snd (co_retry_elapsed m operation_id epoch now retry)))
     (com_state (fst (co_retry_elapsed m operation_id epoch now retry)))"
proof (cases "com_state m")
  case (CoRetrying current expected target f retries at)
  then have "unat retries \<le> 8"
    using assms by (simp add: coordinator_wf_def max_discovery_retries_def word_le_nat_alt)
  then show ?thesis
    by (auto simp: co_retry_elapsed_def CoRetrying retry_step_def coordinator_transitions not_less word_le_nat_alt)
qed (simp_all add: co_retry_elapsed_def co_stale_def)

lemma coordinator_retry_step:
  assumes "coordinator_wf m"
  shows "retry_step (com_state m) (input_event i (snd (coordinator_apply m i))) (com_state (fst (coordinator_apply m i)))"
proof (cases i)
  case (CoInvalidate route observed_at operation_id)
  have "retry_path st ((if b then [EvCoRevoked x] else []) @ ys) = retry_path st ys" for st b x ys
    by (cases st) simp
  then show ?thesis
    using co_invalidate_retry [of m route observed_at operation_id]
    by (simp add: CoInvalidate retry_step_def finds_def)
next
  case (CoDiscoveryRejected operation_id epoch now followup)
  then show ?thesis using co_reject_retry by (simp del: input_event.simps)
next
  case (CoRetryElapsed operation_id epoch now retry)
  then show ?thesis using co_retry_elapsed_retry [OF assms] by (simp del: input_event.simps)
qed (use co_admission_retry co_fail_retry co_succeed_retry in \<open>simp_all add: finds_def [symmetric]\<close>)

definition retries_recorded :: "coordinator_event list \<Rightarrow> coordinator_machine \<Rightarrow> bool" where
  "retries_recorded past m \<longleftrightarrow>
     coordinator_wf m \<and> (\<exists>st. retry_path (None, 0) past = Some st \<and> retry_state st (com_state m))"

lemma retries_recorded_step:
  assumes "retries_recorded past m"
  shows "retries_recorded (past @ coordinator_events m i (snd (coordinator_apply m i))) (fst (coordinator_apply m i))"
proof -
  have wf: "coordinator_wf m" using assms by (simp add: retries_recorded_def)
  obtain st where st: "retry_path (None, 0) past = Some st" "retry_state st (com_state m)"
    using assms by (auto simp: retries_recorded_def)
  from coordinator_retry_step [OF wf, of i] st(2) obtain st' where
    "retry_path st (input_event i (snd (coordinator_apply m i))) = Some st'"
    "retry_state st' (com_state (fst (coordinator_apply m i)))"
    unfolding retry_step_def by blast
  with st(1) coordinator_apply_wf [OF wf] show ?thesis
    by (simp add: retries_recorded_def coordinator_events_def retry_path_append)
qed

interpretation coordinator_retries: recording_machine coordinator_apply "\<lambda>_. True" coordinator_events retries_recorded
  by unfold_locales (rule retries_recorded_step)

lemma coordinator_new_wf: "coordinator_wf (coordinator_with_initial_epoch key epoch)"
  by (simp add: coordinator_with_initial_epoch_def coordinator_wf_def)

section \<open>Properties\<close>

text \<open>
  C26. A coordinator route is never superseded by an older one: the routes the machine establishes
  carry strictly increasing epochs and its own key, and the route it serves, if any, is the one
  established last.
\<close>

theorem coordinator_epochs_increase:
  "let m = coordinator_with_initial_epoch key epoch;
       routes = established (events coordinator_events coordinator_apply m is)
   in sorted_wrt (<) (map cor_epoch routes) \<and> list_all (\<lambda>r. cor_key r = key) routes \<and>
      coordinator_current (final coordinator_apply m is) \<in> {None, if routes = [] then None else Some (last routes)}"
proof -
  let ?m = "coordinator_with_initial_epoch key epoch"
  have "com_key (final coordinator_apply m is) = com_key m" if "coordinator_wf m" for m
    using that
  proof (induction "is" arbitrary: m)
    case (Cons i js)
    then show ?case
      using coordinator_route_step [OF Cons.prems, of i] coordinator_apply_wf [OF Cons.prems, of i]
      by (simp add: route_step_def)
  qed simp
  from this [OF coordinator_new_wf] have key: "com_key (final coordinator_apply ?m is) = key"
    by (simp add: coordinator_with_initial_epoch_def)
  have "routes_recorded [] ?m"
    using coordinator_new_wf
    by (simp add: routes_recorded_def established_def coordinator_current_def coordinator_with_initial_epoch_def)
  from coordinator_routes.run_records [OF this, of "is"] key show ?thesis
    by (cases "coordinator_current (final coordinator_apply ?m is)") (auto simp: routes_recorded_def list_all_iff Let_def)
qed

text \<open>The events that decide what is served: a route is established or the discovery is given up.\<close>

fun route_change :: "coordinator_event \<Rightarrow> bool" where
  "route_change (EvCoEstablished r) \<longleftrightarrow> True"
| "route_change EvCoAbandoned \<longleftrightarrow> True"
| "route_change _ \<longleftrightarrow> False"

fun newer_or_abandoned :: "outcome_stamp \<Rightarrow> coordinator_event \<Rightarrow> bool" where
  "newer_or_abandoned t (EvCoEstablished r) \<longleftrightarrow> evidence_is_after (cor_evidence r) t"
| "newer_or_abandoned t _ \<longleftrightarrow> True"

lemma find_append:
  "List.find P (xs @ ys) = (case List.find P xs of None \<Rightarrow> List.find P ys | Some x \<Rightarrow> Some x)"
  by (induction xs) simp_all

lemma input_event_no_change: "List.find route_change (input_event i t) = None"
  by (cases i) (auto simp: find_None_iff)

lemma requires_serves_nothing: "coordinator_wf m \<Longrightarrow> requires m t \<Longrightarrow> coordinator_current m = None"
  by (cases "com_state m") (auto simp: coordinator_wf_def requires_def coordinator_current_def)

lemma revoked_until_answered:
  assumes "coordinator_wf m" "requires m t"
  shows "case List.find route_change (events coordinator_events coordinator_apply m is) of
      None \<Rightarrow> coordinator_current (final coordinator_apply m is) = None
    | Some e \<Rightarrow> newer_or_abandoned t e"
  using assms
proof (induction "is" arbitrary: m)
  case Nil
  then show ?case by (simp add: requires_serves_nothing)
next
  case (Cons i js)
  let ?m = "fst (coordinator_apply m i)"
  let ?changes = "List.find route_change (route_event m ?m)"
  have split: "List.find route_change (events coordinator_events coordinator_apply m (i # js)) =
      (case ?changes of None \<Rightarrow> List.find route_change (events coordinator_events coordinator_apply ?m js) | Some e \<Rightarrow> Some e)"
    by (simp add: find_append coordinator_events_def input_event_no_change split: option.split)
  have rest: "final coordinator_apply m (i # js) = final coordinator_apply ?m js" by simp
  have wf: "coordinator_wf ?m" by (rule coordinator_apply_wf [OF Cons.prems(1)])
  consider "list_ex (co_answers (EvCoRevoked t)) (route_event m ?m)" | "requires ?m t"
    using coordinator_keeps_requirements [OF Cons.prems(1), of i] Cons.prems(2) by (auto simp: keeps_requirements_def)
  then show ?case
  proof cases
    case 1
    then have "\<exists>e. ?changes = Some e \<and> newer_or_abandoned t e"
      by (auto simp: route_event_def split: if_splits option.splits)
    then show ?thesis unfolding split by auto
  next
    case 2
    then have "?changes = None \<or> ?changes = Some EvCoAbandoned"
      using requires_serves_nothing [OF wf 2] by (auto simp: route_event_def)
    then show ?thesis unfolding split rest using Cons.IH [OF wf 2] by auto
  qed
qed

text \<open>
  C25. An invalidated coordinator is not served again on old evidence. From the moment the machine
  accepts an invalidation it serves no route until it establishes one whose evidence is newer than
  the observed failure, or gives the discovery up: the first route it establishes is newer. If
  from then on discoveries succeed in the order of their evidence and none is given up, every route
  it serves afterwards is newer than the failure.
\<close>

theorem coordinator_revocation_honoured:
  assumes "m = final coordinator_apply (coordinator_with_initial_epoch key epoch) before"
    and "coordinator_apply m (CoInvalidate route observed_at operation_id) = (m', t)"
    and "cot_disposition t \<noteq> CoIgnoredStale" "CoEpochExhausted \<notin> set (cot_effects t)"
    and "evs = events coordinator_events coordinator_apply m' later"
  shows "coordinator_current m' = None \<and>
    (case List.find route_change evs of
       None \<Rightarrow> coordinator_current (final coordinator_apply m' later) = None
     | Some e \<Rightarrow> newer_or_abandoned observed_at e) \<and>
    (sorted (map cor_evidence (established evs)) \<and> EvCoAbandoned \<notin> set evs \<longrightarrow>
       (\<forall>r. coordinator_current (final coordinator_apply m' later) = Some r \<longrightarrow>
          evidence_is_after (cor_evidence r) observed_at))"
proof -
  have wf: "coordinator_wf m"
    unfolding assms(1) by (rule coordinator_invariant.run_keeps [OF coordinator_new_wf])
  then have wf': "coordinator_wf m'" using coordinator_apply_wf [OF wf] assms(2) by (metis fst_conv)
  have "requires m' observed_at"
    using coordinator_revokes [OF wf, of observed_at "CoInvalidate route observed_at operation_id"] assms(2-4) by simp
  note revoked = requires_serves_nothing [OF wf' this] revoked_until_answered [OF wf' this, of later]
  have "routes_recorded [] m'" using wf' revoked(1) by (simp add: routes_recorded_def established_def)
  then have routes: "routes_recorded evs (final coordinator_apply m' later)"
    using coordinator_routes.run_records [of "[]" m' later] by (simp add: assms(5) list_all_iff)
  have "evidence_is_after (cor_evidence r) observed_at"
    if ordered: "sorted (map cor_evidence (established evs))" "EvCoAbandoned \<notin> set evs"
      and served: "coordinator_current (final coordinator_apply m' later) = Some r" for r
  proof -
    obtain e where e: "List.find route_change evs = Some e" "newer_or_abandoned observed_at e"
      using revoked(2) served by (auto simp: assms(5) split: option.splits)
    have "\<exists>r0. e = EvCoEstablished r0 \<and> r0 \<in> set (established evs) \<and> established evs = r0 # tl (established evs)"
      using e(1) ordered(2) by (induction evs) (auto simp: established_def split: if_splits elim!: route_change.elims)
    then obtain r0 where r0: "e = EvCoEstablished r0" "established evs = r0 # tl (established evs)" by blast
    have "r = last (established evs)" using routes served by (simp add: routes_recorded_def)
    then have "cor_evidence r0 \<le> cor_evidence r"
      using ordered(1) r0(2) by (cases "tl (established evs)") (auto simp: last_ConsR)
    then show ?thesis using e(2) r0(1) by (simp add: evidence_is_after_def)
  qed
  then show ?thesis using revoked by (simp add: assms(5))
qed

text \<open>
  C27. Discovery retries are bounded and delayed: no retry is sent without a rejection before it,
  earlier than the backoff after that rejection, or as the ninth of one discovery.
\<close>

theorem coordinator_retries_bounded:
  "retry_path (None, 0)
     (events coordinator_events coordinator_apply (coordinator_with_initial_epoch key epoch) is) \<noteq> None"
proof -
  have "retries_recorded [] (coordinator_with_initial_epoch key epoch)"
    using coordinator_new_wf by (simp add: retries_recorded_def) (simp add: coordinator_with_initial_epoch_def)
  from coordinator_retries.run_records [OF this, of "is"] show ?thesis
    by (auto simp: retries_recorded_def list_all_iff)
qed

text \<open>An invalidation at stamp 5; the first rediscovery rests on evidence 4, the second on 9.\<close>

definition sample_coordinator_key :: coordinator_key where
  "sample_coordinator_key = \<lparr>ck_kind = CoordinatorGroup, ck_value = ''billing''\<rparr>"

definition sample_coordinator_endpoint :: broker_endpoint where
  "sample_coordinator_endpoint = \<lparr>be_host = ''kafka'', be_port = 9092\<rparr>"

definition sample_coordinator :: coordinator_machine where
  "sample_coordinator = coordinator_with_initial_epoch sample_coordinator_key 1"

definition sample_route :: "coordinator_epoch \<Rightarrow> evidence_stamp \<Rightarrow> coordinator_route" where
  "sample_route epoch evidence =
     \<lparr>cor_key = sample_coordinator_key, cor_broker_id = 3, cor_endpoint = sample_coordinator_endpoint,
      cor_epoch = epoch, cor_evidence = evidence\<rparr>"

definition sample_discovered :: "coordinator_input list" where
  "sample_discovered = [CoResolve 1, CoDiscoverySucceeded 1 1 3 sample_coordinator_endpoint 2 2]"

definition sample_rediscovery :: "coordinator_input list" where
  "sample_rediscovery =
     [CoDiscoverySucceeded 3 2 3 sample_coordinator_endpoint 4 4,
      CoDiscoverySucceeded 4 3 3 sample_coordinator_endpoint 9 5]"

theorem coordinator_revocation_honoured_witness:
  "let m = final coordinator_apply (coordinator_with_initial_epoch sample_coordinator_key 1) sample_discovered;
       m' = fst (coordinator_apply m (CoInvalidate (sample_route 1 2) 5 3));
       evs = events coordinator_events coordinator_apply m' sample_rediscovery
   in coordinator_current m = Some (sample_route 1 2) \<and> coordinator_current m' = None \<and>
      List.find route_change evs = Some (EvCoEstablished (sample_route 3 9)) \<and>
      newer_or_abandoned 5 (EvCoEstablished (sample_route 3 9))"
proof -
  let ?i = "CoInvalidate (sample_route 1 2) 5 3"
  define m where "m = final coordinator_apply (coordinator_with_initial_epoch sample_coordinator_key 1) sample_discovered"
  define m' where "m' = fst (coordinator_apply m ?i)"
  have step: "coordinator_apply m ?i = (m', snd (coordinator_apply m ?i))" by (simp add: m'_def)
  have "cot_disposition (snd (coordinator_apply m ?i)) \<noteq> CoIgnoredStale"
    "CoEpochExhausted \<notin> set (cot_effects (snd (coordinator_apply m ?i)))"
    "coordinator_current m = Some (sample_route 1 2)"
    unfolding m_def by code_simp+
  moreover have "List.find route_change (events coordinator_events coordinator_apply m' sample_rediscovery) =
      Some (EvCoEstablished (sample_route 3 9))"
    unfolding m'_def m_def by code_simp
  ultimately show ?thesis
    using coordinator_revocation_honoured [OF m_def step _ _ refl, of sample_rediscovery]
    unfolding Let_def m_def [symmetric] m'_def [symmetric] by simp
qed

end
