(* ===== verification/Coordinator_Owner.thy ===== *)
theory Coordinator_Owner
  imports Coordinator_Safety Metadata_Owner
begin

text \<open>
  The coordinator owner (\<open>src/reactor/coordinator/\<close> with \<open>src/coordinator/\<close>): one coordinator machine
  per key, a bounded number of keys, discoveries submitted through a broker, retries that fire when
  they are due, calls that wait for a coordinator and invalidations with their subscribers. Entries
  are visited from a cursor under a budget. The broker is the trait \<open>BrokerRpc\<close>, given by its three
  operations; a response is the record of the fields the code reads; an API version is its number.
  A result \<open>None\<close> is a failed assertion.
\<close>

section \<open>Requests and responses\<close>

datatype coordinator_build_error =
    CbUnsupportedKind coordinator_kind int
  | CbResponseCount usize
  | CbKeyMismatch
  | CbResponse int
  | CbBrokerId i32
  | CbBrokerHost host_name_error
  | CbBrokerPort i32

fun is_transient_discovery_rejection :: "coordinator_build_error \<Rightarrow> bool" where
  "is_transient_discovery_rejection (CbResponse error_code) \<longleftrightarrow> 14 \<le> error_code \<and> error_code \<le> 16"
| "is_transient_discovery_rejection _ \<longleftrightarrow> False"

record find_request =
  fq_key_type :: int
  fq_key :: string
  fq_coordinator_keys :: "string list"

fun kind_supported :: "coordinator_kind \<Rightarrow> int \<Rightarrow> bool" where
  "kind_supported CoordinatorGroup version \<longleftrightarrow> True"
| "kind_supported CoordinatorTransaction version \<longleftrightarrow> 1 \<le> version"
| "kind_supported CoordinatorShare version \<longleftrightarrow> 6 \<le> version"

fun key_type :: "coordinator_kind \<Rightarrow> int" where
  "key_type CoordinatorGroup = 0"
| "key_type CoordinatorTransaction = 1"
| "key_type CoordinatorShare = 2"

definition find_coordinator_request :: "coordinator_key \<Rightarrow> int \<Rightarrow> coordinator_build_error + find_request" where
  "find_coordinator_request key version =
     (if \<not> kind_supported (ck_kind key) version then Inl (CbUnsupportedKind (ck_kind key) version)
      else if version \<le> 3
        then Inr \<lparr>fq_key_type = key_type (ck_kind key), fq_key = ck_value key, fq_coordinator_keys = []\<rparr>
      else Inr \<lparr>fq_key_type = key_type (ck_kind key), fq_key = '''', fq_coordinator_keys = [ck_value key]\<rparr>)"

record found_coordinator =
  fc_key :: string
  fc_error_code :: int
  fc_node_id :: i32
  fc_host :: string
  fc_port :: i32

record find_response =
  fr_error_code :: int
  fr_node_id :: i32
  fr_host :: string
  fr_port :: i32
  fr_coordinators :: "found_coordinator list"

definition discovered_target ::
    "int \<Rightarrow> i32 \<Rightarrow> string \<Rightarrow> i32 \<Rightarrow> coordinator_build_error + broker_id \<times> broker_endpoint" where
  "discovered_target error_code raw_broker raw_host raw_port =
     (if error_code \<noteq> 0 then Inl (CbResponse error_code)
      else case broker_id_new raw_broker of
        Inl e \<Rightarrow> Inl (CbBrokerId e)
      | Inr broker_id \<Rightarrow>
          (case host_name_new raw_host of
             Inl e \<Rightarrow> Inl (CbBrokerHost e)
           | Inr host \<Rightarrow>
               (if 0 < raw_port \<and> raw_port < 2 ^ 16
                  then Inr (broker_id, \<lparr>be_host = host, be_port = of_int raw_port\<rparr>)
                else Inl (CbBrokerPort raw_port))))"

definition coordinator_target ::
    "find_response \<Rightarrow> coordinator_key \<Rightarrow> int \<Rightarrow> coordinator_build_error + broker_id \<times> broker_endpoint" where
  "coordinator_target response key version =
     (if version \<le> 3
        then discovered_target (fr_error_code response) (fr_node_id response) (fr_host response) (fr_port response)
      else case fr_coordinators response of
        [coordinator] \<Rightarrow>
          (if fc_key coordinator \<noteq> ck_value key then Inl CbKeyMismatch
           else discovered_target (fc_error_code coordinator) (fc_node_id coordinator) (fc_host coordinator)
                  (fc_port coordinator))
      | found \<Rightarrow> Inl (CbResponseCount (length found)))"

section \<open>State\<close>

record coordinator_limits =
  cl_keys :: usize
  cl_waiting_calls :: usize
  cl_waiting_bytes :: usize
  cl_invalidation_waiters :: usize
  cl_turn_budget :: usize

datatype 'be coordinator_owner_error =
    CoCallIdentityExhausted
  | CoOperationIdentityExhausted
  | CoOwnerEpochExhausted
  | CoUnexpectedEffect
  | CoBroker 'be

record pending_coordinator =
  pc_operation_id :: operation_id
  pc_epoch :: coordinator_epoch
  pc_evidence :: evidence_stamp
  pc_version :: int
  pc_call :: call_id

record coordinator_invalidation =
  civ_target :: coordinator_route
  civ_subscribers :: "completion_id list"

record coordinator_entry =
  ce_machine :: coordinator_machine
  ce_pending :: "pending_coordinator option"
  ce_discovery_requested :: bool
  ce_invalidation :: "coordinator_invalidation option"

definition coordinator_entry_new :: "coordinator_machine \<Rightarrow> coordinator_entry" where
  "coordinator_entry_new machine =
     \<lparr>ce_machine = machine, ce_pending = None, ce_discovery_requested = False, ce_invalidation = None\<rparr>"

record 'v waiting_coordinator_call =
  wk_key :: coordinator_key
  wk_request :: "'v erased_request"

record 'v coordinator_owner =
  coo_limits :: coordinator_limits
  coo_entries :: "coordinator_entry list"
  coo_cursor :: usize
  coo_waiters :: "'v waiting_coordinator_call scan_room"
  coo_invalidation_subscribers :: usize
  coo_operation_ids :: "u64 option"

definition coordinator_owner_new :: "coordinator_limits \<Rightarrow> 'v coordinator_owner" where
  "coordinator_owner_new limits =
     \<lparr>coo_limits = limits, coo_entries = [], coo_cursor = 0,
      coo_waiters = room_new (cl_waiting_calls limits) (cl_waiting_bytes limits),
      coo_invalidation_subscribers = 0, coo_operation_ids = Some 1\<rparr>"

definition entry_index :: "'v coordinator_owner \<Rightarrow> coordinator_key \<Rightarrow> nat option" where
  "entry_index ow key = position (\<lambda>e. com_key (ce_machine e) = key) (coo_entries ow)"

definition entry_of :: "'v coordinator_owner \<Rightarrow> coordinator_key \<Rightarrow> coordinator_entry option" where
  "entry_of ow key = map_option (\<lambda>index. coo_entries ow ! index) (entry_index ow key)"

definition owner_current :: "'v coordinator_owner \<Rightarrow> coordinator_key \<Rightarrow> coordinator_route option" where
  "owner_current ow key = Option.bind (entry_of ow key) (\<lambda>e. coordinator_current (ce_machine e))"

definition entry_or_insert :: "'v coordinator_owner \<Rightarrow> coordinator_key \<Rightarrow> 'v coordinator_owner \<times> nat option" where
  "entry_or_insert ow key =
     (case entry_index ow key of
        Some index \<Rightarrow> (ow, Some index)
      | None \<Rightarrow>
          (if length (coo_entries ow) = cl_keys (coo_limits ow) then (ow, None)
           else (ow\<lparr>coo_entries := coo_entries ow @ [coordinator_entry_new (coordinator_new key)]\<rparr>,
                 Some (length (coo_entries ow)))))"

fun in_discovery :: "coordinator_state \<Rightarrow> bool" where
  "in_discovery (CoDiscovering current operation_id target followup retries) \<longleftrightarrow> True"
| "in_discovery (CoRetrying current operation_id target followup retries at) \<longleftrightarrow> True"
| "in_discovery _ \<longleftrightarrow> False"

definition discovery_pending :: "'v coordinator_owner \<Rightarrow> coordinator_key \<Rightarrow> bool" where
  "discovery_pending ow key \<longleftrightarrow>
     (case entry_of ow key of
        None \<Rightarrow> False
      | Some e \<Rightarrow> ce_discovery_requested e \<or> in_discovery (com_state (ce_machine e)))"

record ('b, 'be) find_rpc =
  frpc_is_ready :: "'b \<Rightarrow> bool"
  frpc_negotiated_version :: "'b \<Rightarrow> int option"
  frpc_submit :: "'b \<Rightarrow> call_id \<Rightarrow> find_request \<Rightarrow> moment \<Rightarrow> 'b \<times> 'be option"

record ('v, 'k, 'en, 'de, 'b) coordinator_world =
  cw_owner :: "'v coordinator_owner"
  cw_broker :: 'b
  cw_call_ids :: u64
  cw_notices :: "('k, 'v, 'en, 'de) owner_notice list"

definition upd_coordinator ::
    "('v coordinator_owner \<Rightarrow> 'v coordinator_owner) \<Rightarrow> ('v, 'k, 'en, 'de, 'b) coordinator_world \<Rightarrow>
     ('v, 'k, 'en, 'de, 'b) coordinator_world" where
  "upd_coordinator f w = w\<lparr>cw_owner := f (cw_owner w)\<rparr>"

definition entry_at :: "('v, 'k, 'en, 'de, 'b) coordinator_world \<Rightarrow> nat \<Rightarrow> coordinator_entry" where
  "entry_at w index = coo_entries (cw_owner w) ! index"

definition upd_entry ::
    "nat \<Rightarrow> (coordinator_entry \<Rightarrow> coordinator_entry) \<Rightarrow> ('v, 'k, 'en, 'de, 'b) coordinator_world \<Rightarrow>
     ('v, 'k, 'en, 'de, 'b) coordinator_world" where
  "upd_entry index f w =
     upd_coordinator (\<lambda>ow. ow\<lparr>coo_entries := (coo_entries ow)[index := f (coo_entries ow ! index)]\<rparr>) w"

definition co_notify ::
    "('k, 'v, 'en, 'de) owner_notice list \<Rightarrow> ('v, 'k, 'en, 'de, 'b) coordinator_world \<Rightarrow>
     ('v, 'k, 'en, 'de, 'b) coordinator_world" where
  "co_notify out w = w\<lparr>cw_notices := cw_notices w @ out\<rparr>"

type_synonym ('v, 'k, 'en, 'de, 'b, 'be, 'x) co_result =
  "(('v, 'k, 'en, 'de, 'b) coordinator_world \<times> ('be coordinator_owner_error + 'x)) option"

definition co_reserve_operation ::
    "('v, 'k, 'en, 'de, 'b) coordinator_world \<Rightarrow>
     ('v, 'k, 'en, 'de, 'b) coordinator_world \<times> ('be coordinator_owner_error + operation_id)" where
  "co_reserve_operation w =
     (let (ids, reserved) = operation_ids_reserve (coo_operation_ids (cw_owner w)) in
      (upd_coordinator (\<lambda>ow. ow\<lparr>coo_operation_ids := ids\<rparr>) w,
       case reserved of None \<Rightarrow> Inl CoOperationIdentityExhausted | Some operation_id \<Rightarrow> Inr operation_id))"

definition entry_apply ::
    "('v, 'k, 'en, 'de, 'b) coordinator_world \<Rightarrow> nat \<Rightarrow> coordinator_input \<Rightarrow>
     ('v, 'k, 'en, 'de, 'b) coordinator_world \<times> coordinator_transition" where
  "entry_apply w index i =
     (let (machine, transition) = coordinator_apply (ce_machine (entry_at w index)) i in
      (upd_entry index (\<lambda>e. e\<lparr>ce_machine := machine\<rparr>) w, transition))"

definition co_begin_scan ::
    "('v, 'k, 'en, 'de, 'b) coordinator_world \<Rightarrow> ('v, 'k, 'en, 'de, 'b) coordinator_world" where
  "co_begin_scan w = upd_coordinator (\<lambda>ow. ow\<lparr>coo_waiters := room_begin_scan (coo_waiters ow)\<rparr>) w"

section \<open>Invalidations\<close>

definition settled_disposition :: "coordinator_entry \<Rightarrow> coordinator_invalidation \<Rightarrow> invalidation_disposition option" where
  "settled_disposition e v =
     (if co_revocation_pending (ce_machine e) (civ_target v) then None
      else case com_state (ce_machine e) of
        CoUnknown _ \<Rightarrow> Some InvUnavailable
      | _ \<Rightarrow> Some InvApplied)"

text \<open>The subtraction is asserted in a debug build and wraps around in a release build.\<close>

definition release_subscribers :: "bool \<Rightarrow> usize \<Rightarrow> 'v coordinator_owner \<Rightarrow> 'v coordinator_owner option" where
  "release_subscribers dbg subscribers ow =
     (let n = coo_invalidation_subscribers ow in
      if subscribers \<le> n then Some (ow\<lparr>coo_invalidation_subscribers := n - subscribers\<rparr>)
      else if dbg then None
      else Some (ow\<lparr>coo_invalidation_subscribers := 2 ^ 64 + n - subscribers\<rparr>))"

definition complete_invalidation ::
    "bool \<Rightarrow> ('v, 'k, 'en, 'de, 'b) coordinator_world \<Rightarrow> coordinator_invalidation \<Rightarrow> invalidation_disposition \<Rightarrow>
     ('v, 'k, 'en, 'de, 'b) coordinator_world option" where
  "complete_invalidation dbg w v disposition =
     (case release_subscribers dbg (length (civ_subscribers v)) (cw_owner w) of
        None \<Rightarrow> None
      | Some ow \<Rightarrow>
          Some (co_notify (map (\<lambda>c. NoticeInvalidation c disposition) (civ_subscribers v)) (w\<lparr>cw_owner := ow\<rparr>)))"

definition settle_invalidation ::
    "bool \<Rightarrow> ('v, 'k, 'en, 'de, 'b) coordinator_world \<Rightarrow> nat \<Rightarrow>
     ('v, 'k, 'en, 'de, 'b) coordinator_world option" where
  "settle_invalidation dbg w index =
     (case ce_invalidation (entry_at w index) of
        None \<Rightarrow> Some w
      | Some v \<Rightarrow>
          (let w' = upd_entry index (\<lambda>e. e\<lparr>ce_invalidation := None\<rparr>) w in
           case settled_disposition (entry_at w' index) v of
             Some disposition \<Rightarrow> complete_invalidation dbg w' v disposition
           | None \<Rightarrow> Some (upd_entry index (\<lambda>e. e\<lparr>ce_invalidation := Some v\<rparr>) w')))"

fun fail_invalidations ::
    "bool \<Rightarrow> ('v, 'k, 'en, 'de, 'b) coordinator_world \<Rightarrow> nat list \<Rightarrow>
     ('v, 'k, 'en, 'de, 'b) coordinator_world option" where
  "fail_invalidations dbg w [] = Some w"
| "fail_invalidations dbg w (index # indices) =
     (case ce_invalidation (entry_at w index) of
        None \<Rightarrow> fail_invalidations dbg w indices
      | Some v \<Rightarrow>
          (case complete_invalidation dbg (upd_entry index (\<lambda>e. e\<lparr>ce_invalidation := None\<rparr>) w) v InvUnavailable of
             None \<Rightarrow> None
           | Some w' \<Rightarrow> fail_invalidations dbg w' indices))"

section \<open>Effects\<close>

text \<open>
  The loop ends when the machine asks for nothing more. \<open>None\<close> would be a loop that goes on for ever
  or a failed assertion of \<open>settle_invalidation\<close>; lemma \<open>reject_find_good\<close> of
  \<open>Coordinator_Owner_Steps\<close> shows that the owner's invariant excludes both, and that the loop makes
  at most two rounds.
\<close>

partial_function (option) reject_find ::
    "bool \<Rightarrow> ('v, 'k, 'en, 'de, 'b) coordinator_world \<Rightarrow> nat \<Rightarrow> operation_id \<Rightarrow> coordinator_epoch \<Rightarrow>
     ('v, 'k, 'en, 'de, 'b, 'be, unit) co_result" where
  "reject_find dbg w index operation_id epoch =
     (case co_reserve_operation w of
        (w', Inl e) \<Rightarrow> Some (w', Inl e)
      | (w', Inr followup) \<Rightarrow>
          (let (w'', transition) = entry_apply w' index (CoDiscoveryFailed operation_id epoch followup);
               w3 = co_begin_scan w''
           in case cot_effects transition of
                [] \<Rightarrow> map_option (\<lambda>w4. (w4, Inr ())) (settle_invalidation dbg w3 index)
              | [CoFind next_operation key next_epoch] \<Rightarrow> reject_find dbg w3 index next_operation next_epoch
              | [CoEpochExhausted] \<Rightarrow> Some (w3, Inl CoOwnerEpochExhausted)
              | _ \<Rightarrow> Some (w3, Inl CoUnexpectedEffect)))"

declare reject_find.simps [code]

definition submit_find ::
    "('b, 'be) find_rpc \<Rightarrow> bool \<Rightarrow> ('v, 'k, 'en, 'de, 'b) coordinator_world \<Rightarrow> nat \<Rightarrow> operation_id \<Rightarrow>
     coordinator_key \<Rightarrow> coordinator_epoch \<Rightarrow> moment \<Rightarrow> evidence_stamp \<Rightarrow>
     ('v, 'k, 'en, 'de, 'b, 'be, unit) co_result" where
  "submit_find rpc dbg w index operation_id key epoch now evidence =
     (if ce_pending (entry_at w index) \<noteq> None then Some (w, Inl CoUnexpectedEffect)
      else case frpc_negotiated_version rpc (cw_broker w) of
        None \<Rightarrow> reject_find dbg w index operation_id epoch
      | Some version \<Rightarrow>
          (case find_coordinator_request key version of
             Inl _ \<Rightarrow> reject_find dbg w index operation_id epoch
           | Inr request \<Rightarrow>
               (case call_ids_allocate (cw_call_ids w) of
                  None \<Rightarrow> Some (w, Inl CoCallIdentityExhausted)
                | Some (call_ids, call_id) \<Rightarrow>
                    (let (broker, failure) = frpc_submit rpc (cw_broker w) call_id request now;
                         w' = w\<lparr>cw_call_ids := call_ids, cw_broker := broker\<rparr>
                     in case failure of
                          Some e \<Rightarrow> Some (w', Inl (CoBroker e))
                        | None \<Rightarrow>
                            Some (upd_entry index (\<lambda>e. e\<lparr>ce_pending := Some
                              \<lparr>pc_operation_id = operation_id, pc_epoch = epoch, pc_evidence = evidence,
                               pc_version = version, pc_call = call_id\<rparr>\<rparr>) w', Inr ())))))"

definition retry_expected :: "coordinator_state \<Rightarrow> operation_id \<Rightarrow> coordinator_epoch \<Rightarrow> moment \<Rightarrow> bool" where
  "retry_expected state operation_id epoch at \<longleftrightarrow>
     (case state of
        CoRetrying _ expected target _ _ expected_at \<Rightarrow>
          expected = operation_id \<and> target = epoch \<and> expected_at = at
      | _ \<Rightarrow> False)"

fun co_interpret ::
    "('b, 'be) find_rpc \<Rightarrow> bool \<Rightarrow> moment \<Rightarrow> evidence_stamp \<Rightarrow> nat \<Rightarrow>
     ('v, 'k, 'en, 'de, 'b) coordinator_world \<Rightarrow> coordinator_effect list \<Rightarrow>
     ('v, 'k, 'en, 'de, 'b, 'be, unit) co_result" where
  "co_interpret rpc dbg now evidence index w [] = Some (w, Inr ())"
| "co_interpret rpc dbg now evidence index w (CoFind operation_id key epoch # effects) =
     (case submit_find rpc dbg w index operation_id key epoch now evidence of
        Some (w', Inr _) \<Rightarrow> co_interpret rpc dbg now evidence index w' effects
      | stopped \<Rightarrow> stopped)"
| "co_interpret rpc dbg now evidence index w (CoWaitUntil operation_id epoch at # effects) =
     (if \<not> retry_expected (com_state (ce_machine (entry_at w index))) operation_id epoch at
        then Some (w, Inl CoUnexpectedEffect)
      else co_interpret rpc dbg now evidence index w effects)"
| "co_interpret rpc dbg now evidence index w (CoEpochExhausted # effects) = Some (w, Inl CoOwnerEpochExhausted)"

text \<open>Reserve an identity, apply the input made from it to the entry's machine, interpret the effects.\<close>

definition entry_turn ::
    "('b, 'be) find_rpc \<Rightarrow> bool \<Rightarrow> moment \<Rightarrow> evidence_stamp \<Rightarrow> ('v, 'k, 'en, 'de, 'b) coordinator_world \<Rightarrow> nat \<Rightarrow>
     (operation_id \<Rightarrow> coordinator_input) \<Rightarrow> ('v, 'k, 'en, 'de, 'b, 'be, unit) co_result" where
  "entry_turn rpc dbg now evidence w index input_of =
     (case co_reserve_operation w of
        (w', Inl e) \<Rightarrow> Some (w', Inl e)
      | (w', Inr operation_id) \<Rightarrow>
          (let (w'', transition) = entry_apply w' index (input_of operation_id)
           in co_interpret rpc dbg now evidence index w'' (cot_effects transition)))"

text \<open>The end of a discovery: invalidations that are settled are answered and waiting calls examined.\<close>

definition settle_and_scan ::
    "bool \<Rightarrow> nat \<Rightarrow> ('v, 'k, 'en, 'de, 'b, 'be, unit) co_result \<Rightarrow> ('v, 'k, 'en, 'de, 'b, 'be, bool) co_result" where
  "settle_and_scan dbg index res =
     (case res of
        Some (w, Inr _) \<Rightarrow> map_option (\<lambda>w'. (co_begin_scan w', Inr True)) (settle_invalidation dbg w index)
      | Some (w, Inl e) \<Rightarrow> Some (w, Inl e)
      | None \<Rightarrow> None)"

definition turned :: "('v, 'k, 'en, 'de, 'b, 'be, unit) co_result \<Rightarrow> ('v, 'k, 'en, 'de, 'b, 'be, bool) co_result" where
  "turned res = map_option (\<lambda>(w, r). (w, map_sum id (\<lambda>_. True) r)) res"

section \<open>Visits\<close>

text \<open>
  The loops of \<open>fire_due_retries\<close>, \<open>observe_completions\<close> and \<open>start_requested\<close>: entries are visited from
  the cursor, which a visit that made progress moves behind the entry. As in the source the cursor is
  read again for every offset.
\<close>

fun visit_entries ::
    "(('v, 'k, 'en, 'de, 'b) coordinator_world \<Rightarrow> nat \<Rightarrow> ('v, 'k, 'en, 'de, 'b, 'be, bool) co_result) \<Rightarrow> usize \<Rightarrow>
     usize \<Rightarrow> ('v, 'k, 'en, 'de, 'b) coordinator_world \<Rightarrow> nat list \<Rightarrow> usize \<Rightarrow>
     ('v, 'k, 'en, 'de, 'b, 'be, usize) co_result" where
  "visit_entries visit len budget w [] progress = Some (w, Inr progress)"
| "visit_entries visit len budget w (offset # offsets) progress =
     (if progress = budget then Some (w, Inr progress)
      else let index = (coo_cursor (cw_owner w) + offset) mod len in
        case visit w index of
          None \<Rightarrow> None
        | Some (w', Inl e) \<Rightarrow> Some (w', Inl e)
        | Some (w', Inr False) \<Rightarrow> visit_entries visit len budget w' offsets progress
        | Some (w', Inr True) \<Rightarrow>
            visit_entries visit len budget
              (upd_coordinator (\<lambda>ow. ow\<lparr>coo_cursor := (index + 1) mod len\<rparr>) w') offsets (progress + 1))"

definition visit_all ::
    "(('v, 'k, 'en, 'de, 'b) coordinator_world \<Rightarrow> nat \<Rightarrow> ('v, 'k, 'en, 'de, 'b, 'be, bool) co_result) \<Rightarrow>
     usize \<Rightarrow> ('v, 'k, 'en, 'de, 'b) coordinator_world \<Rightarrow> ('v, 'k, 'en, 'de, 'b, 'be, usize) co_result" where
  "visit_all visit budget w =
     (let len = length (coo_entries (cw_owner w)) in visit_entries visit len budget w [0..<len] 0)"

definition has_live_key :: "'v waiting_coordinator_call scan_room \<Rightarrow> coordinator_key \<Rightarrow> moment \<Rightarrow> bool" where
  "has_live_key room key now \<longleftrightarrow> list_ex (\<lambda>(x, deadline). wk_key x = key \<and> now < deadline) (room_content room)"

definition retry_has_demand :: "('v, 'k, 'en, 'de, 'b) coordinator_world \<Rightarrow> nat \<Rightarrow> moment \<Rightarrow> bool" where
  "retry_has_demand w index now \<longleftrightarrow>
     ce_invalidation (entry_at w index) \<noteq> None \<or>
     has_live_key (coo_waiters (cw_owner w)) (com_key (ce_machine (entry_at w index))) now"

definition visit_retry ::
    "('b, 'be) find_rpc \<Rightarrow> bool \<Rightarrow> moment \<Rightarrow> evidence_stamp \<Rightarrow> ('v, 'k, 'en, 'de, 'b) coordinator_world \<Rightarrow> nat \<Rightarrow>
     ('v, 'k, 'en, 'de, 'b, 'be, bool) co_result" where
  "visit_retry rpc dbg now evidence w index =
     (case com_state (ce_machine (entry_at w index)) of
        CoRetrying _ operation_id epoch _ _ at \<Rightarrow>
          (if now < at then Some (w, Inr False)
           else if ce_pending (entry_at w index) \<noteq> None then Some (w, Inl CoUnexpectedEffect)
           else if retry_has_demand w index now
             then turned (entry_turn rpc dbg now evidence w index (CoRetryElapsed operation_id epoch now))
           else settle_and_scan dbg index
                  (entry_turn rpc dbg now evidence w index (CoDiscoveryFailed operation_id epoch)))
      | _ \<Rightarrow> Some (w, Inr False))"

text \<open>The result of a pending call: a response, or any failure of the request or its completion.\<close>

datatype find_result = FindAnswered find_response | FindFailed

definition discovery_input ::
    "coordinator_key \<Rightarrow> pending_coordinator \<Rightarrow> find_result \<Rightarrow> moment \<Rightarrow> operation_id \<Rightarrow> coordinator_input" where
  "discovery_input key pending result now followup =
     (case result of
        FindFailed \<Rightarrow> CoDiscoveryFailed (pc_operation_id pending) (pc_epoch pending) followup
      | FindAnswered response \<Rightarrow>
          (case coordinator_target response key (pc_version pending) of
             Inr (broker_id, endpoint) \<Rightarrow>
               CoDiscoverySucceeded (pc_operation_id pending) (pc_epoch pending) broker_id endpoint
                 (pc_evidence pending) followup
           | Inl error \<Rightarrow>
               (if is_transient_discovery_rejection error
                  then CoDiscoveryRejected (pc_operation_id pending) (pc_epoch pending) now followup
                else CoDiscoveryFailed (pc_operation_id pending) (pc_epoch pending) followup)))"

definition visit_observe ::
    "('b, 'be) find_rpc \<Rightarrow> bool \<Rightarrow> moment \<Rightarrow> evidence_stamp \<Rightarrow> (call_id \<times> find_result) list \<Rightarrow>
     ('v, 'k, 'en, 'de, 'b) coordinator_world \<Rightarrow> nat \<Rightarrow> ('v, 'k, 'en, 'de, 'b, 'be, bool) co_result" where
  "visit_observe rpc dbg now evidence results w index =
     (case Option.bind (ce_pending (entry_at w index))
             (\<lambda>pending. map_option (Pair pending) (map_of results (pc_call pending))) of
        None \<Rightarrow> Some (w, Inr False)
      | Some (pending, result) \<Rightarrow>
          settle_and_scan dbg index
            (entry_turn rpc dbg now evidence (upd_entry index (\<lambda>e. e\<lparr>ce_pending := None\<rparr>) w) index
              (discovery_input (com_key (ce_machine (entry_at w index))) pending result now)))"

definition visit_start ::
    "('b, 'be) find_rpc \<Rightarrow> bool \<Rightarrow> moment \<Rightarrow> evidence_stamp \<Rightarrow> ('v, 'k, 'en, 'de, 'b) coordinator_world \<Rightarrow> nat \<Rightarrow>
     ('v, 'k, 'en, 'de, 'b, 'be, bool) co_result" where
  "visit_start rpc dbg now evidence w index =
     (if \<not> ce_discovery_requested (entry_at w index) then Some (w, Inr False)
      else turned (entry_turn rpc dbg now evidence (upd_entry index (\<lambda>e. e\<lparr>ce_discovery_requested := False\<rparr>) w)
             index CoResolve))"

definition start_requested ::
    "('b, 'be) find_rpc \<Rightarrow> bool \<Rightarrow> moment \<Rightarrow> evidence_stamp \<Rightarrow> usize \<Rightarrow> ('v, 'k, 'en, 'de, 'b) coordinator_world \<Rightarrow>
     ('v, 'k, 'en, 'de, 'b, 'be, usize) co_result" where
  "start_requested rpc dbg now evidence budget w =
     (if \<not> frpc_is_ready rpc (cw_broker w) then Some (w, Inr 0)
      else visit_all (visit_start rpc dbg now evidence) budget w)"

text \<open>One phase of a turn runs on what the phases before it left of the budget.\<close>

definition spend ::
    "usize \<Rightarrow> (usize \<Rightarrow> ('v, 'k, 'en, 'de, 'b) coordinator_world \<Rightarrow> ('v, 'k, 'en, 'de, 'b, 'be, usize) co_result) \<Rightarrow>
     ('v, 'k, 'en, 'de, 'b, 'be, usize) co_result \<Rightarrow> ('v, 'k, 'en, 'de, 'b, 'be, usize) co_result" where
  "spend budget phase res =
     (case res of
        Some (w, Inr progress) \<Rightarrow>
          (if budget - progress = 0 then Some (w, Inr progress)
           else map_option (\<lambda>(w', r). (w', map_sum id (\<lambda>more. progress + more) r)) (phase (budget - progress) w))
      | stopped \<Rightarrow> stopped)"

definition co_drive ::
    "('b, 'be) find_rpc \<Rightarrow> bool \<Rightarrow> ('v, 'k, 'en, 'de, 'b) coordinator_world \<Rightarrow> moment \<Rightarrow> evidence_stamp \<Rightarrow>
     (call_id \<times> find_result) list \<Rightarrow> ('v, 'k, 'en, 'de, 'b, 'be, bool) co_result" where
  "co_drive rpc dbg w now evidence results =
     (let budget = cl_turn_budget (coo_limits (cw_owner w)) in
      map_option (\<lambda>(w', r). (w', map_sum id (\<lambda>progress. progress \<noteq> 0) r))
        (spend budget (start_requested rpc dbg now evidence)
          (spend budget (visit_all (visit_observe rpc dbg now evidence results))
            (visit_all (visit_retry rpc dbg now evidence) budget w))))"

section \<open>Admission and invalidation\<close>

definition co_admit ::
    "(coordinator_key \<Rightarrow> usize) \<Rightarrow> 'v waiting_coordinator_call scan_room \<Rightarrow> coordinator_key \<Rightarrow> 'v erased_request \<Rightarrow>
     moment \<Rightarrow> ('v waiting_coordinator_call scan_room \<times> ('k, 'v, 'en, 'de) owner_notice list \<times> bool) option" where
  "co_admit heap_bytes room key request now =
     call_admit (\<lambda>r. \<lparr>wk_key = key, wk_request = r\<rparr>)
       (\<lambda>r. usize_saturating_add (er_retained_bytes r) (heap_bytes key)) room request now"

definition reject_key_capacity ::
    "bool \<Rightarrow> ('v, 'k, 'en, 'de, 'b) coordinator_world \<Rightarrow> call_id \<Rightarrow> ('v, 'k, 'en, 'de, 'b, 'be, unit) co_result" where
  "reject_key_capacity dbg w call_id =
     (case room_retract_last dbg (\<lambda>x. er_call_id (wk_request x) = call_id) (coo_waiters (cw_owner w)) of
        None \<Rightarrow> None
      | Some (room, retracted) \<Rightarrow>
          (let w' = upd_coordinator (\<lambda>ow. ow\<lparr>coo_waiters := room\<rparr>) w in
           case retracted of
             None \<Rightarrow> Some (w', Inl CoUnexpectedEffect)
           | Some x \<Rightarrow>
               Some (co_notify [NoticeFailed (er_call_id (wk_request x))
                       (ReqCoordinatorCapacityReached (cl_keys (coo_limits (cw_owner w))))] w', Inr ())))"

definition request_discovery :: "coordinator_entry \<Rightarrow> coordinator_entry" where
  "request_discovery e =
     (if coordinator_current (ce_machine e) = None \<and> ce_pending e = None
        then e\<lparr>ce_discovery_requested := True\<rparr> else e)"

definition co_wait_for ::
    "('b, 'be) find_rpc \<Rightarrow> bool \<Rightarrow> (coordinator_key \<Rightarrow> usize) \<Rightarrow> bool \<Rightarrow>
     ('v, 'k, 'en, 'de, 'b) coordinator_world \<Rightarrow> coordinator_key \<Rightarrow> 'v erased_request \<Rightarrow> moment \<Rightarrow> evidence_stamp \<Rightarrow>
     ('v, 'k, 'en, 'de, 'b, 'be, unit) co_result" where
  "co_wait_for rpc dbg heap_bytes has_broker w key request now evidence =
     (case co_admit heap_bytes (coo_waiters (cw_owner w)) key request now of
        None \<Rightarrow> None
      | Some (room, notices, admitted) \<Rightarrow>
          (let w' = co_notify notices (upd_coordinator (\<lambda>ow. ow\<lparr>coo_waiters := room\<rparr>) w) in
           if \<not> admitted then Some (w', Inr ())
           else case entry_or_insert (cw_owner w') key of
             (ow, None) \<Rightarrow> reject_key_capacity dbg w' (er_call_id request)
           | (ow, Some index) \<Rightarrow>
               (let w'' = upd_entry index request_discovery (w'\<lparr>cw_owner := ow\<rparr>) in
                if \<not> has_broker then Some (w'', Inr ())
                else map_option (\<lambda>(w3, r). (w3, map_sum id (\<lambda>_. ()) r))
                       (start_requested rpc dbg now evidence (cl_turn_budget (coo_limits (cw_owner w''))) w''))))"

definition co_waits_for_evidence :: "coordinator_disposition \<Rightarrow> bool" where
  "co_waits_for_evidence d \<longleftrightarrow> d = CoApplied \<or> d = CoRefreshQueued \<or> d = CoCoalesced"

definition subscribe_invalidation ::
    "('v, 'k, 'en, 'de, 'b) coordinator_world \<Rightarrow> nat \<Rightarrow> coordinator_route \<Rightarrow> completion_id \<Rightarrow>
     ('v, 'k, 'en, 'de, 'b) coordinator_world" where
  "subscribe_invalidation w index barrier completion =
     (if \<not> coo_invalidation_subscribers (cw_owner w) < cl_invalidation_waiters (coo_limits (cw_owner w))
        then co_notify [NoticeInvalidation completion InvCapacityReached] w
      else upd_coordinator (\<lambda>ow. ow\<lparr>coo_invalidation_subscribers := coo_invalidation_subscribers ow + 1\<rparr>)
        (upd_entry index (\<lambda>e. e\<lparr>ce_invalidation := Some
           (case ce_invalidation e of
              Some v \<Rightarrow> v\<lparr>civ_subscribers := civ_subscribers v @ [completion]\<rparr>
            | None \<Rightarrow> \<lparr>civ_target = barrier, civ_subscribers = [completion]\<rparr>)\<rparr>) w))"

definition co_invalidate_route ::
    "('b, 'be) find_rpc \<Rightarrow> bool \<Rightarrow> ('v, 'k, 'en, 'de, 'b) coordinator_world \<Rightarrow> coordinator_route \<Rightarrow> outcome_stamp \<Rightarrow>
     completion_id \<Rightarrow> moment \<Rightarrow> evidence_stamp \<Rightarrow> ('v, 'k, 'en, 'de, 'b, 'be, unit) co_result" where
  "co_invalidate_route rpc dbg w route observed_at completion now evidence =
     (case entry_index (cw_owner w) (cor_key route) of
        None \<Rightarrow> Some (co_notify [NoticeInvalidation completion InvIgnoredStale] w, Inr ())
      | Some index \<Rightarrow>
          (if (case ce_invalidation (entry_at w index) of
                 None \<Rightarrow> False
               | Some v \<Rightarrow> \<not> is_same_target (civ_target v) route)
             then Some (co_notify [NoticeInvalidation completion InvIgnoredStale] w, Inr ())
           else case co_reserve_operation w of
             (w', Inl e) \<Rightarrow> Some (w', Inl e)
           | (w', Inr operation_id) \<Rightarrow>
               (let (w'', transition) = entry_apply w' index (CoInvalidate route observed_at operation_id);
                    disposition = cot_disposition transition
                in if co_waits_for_evidence disposition
                     then co_interpret rpc dbg now evidence index
                            (subscribe_invalidation w'' index route completion) (cot_effects transition)
                   else if disposition = CoIgnoredStale
                     then co_interpret rpc dbg now evidence index
                            (co_notify [NoticeInvalidation completion InvIgnoredStale] w'') (cot_effects transition)
                   else None)))"

text \<open>The caller does not use the disposition that the source returns here.\<close>

definition invalidate_unobserved ::
    "('b, 'be) find_rpc \<Rightarrow> bool \<Rightarrow> ('v, 'k, 'en, 'de, 'b) coordinator_world \<Rightarrow> coordinator_route \<Rightarrow> moment \<Rightarrow>
     evidence_stamp \<Rightarrow> ('v, 'k, 'en, 'de, 'b, 'be, unit) co_result" where
  "invalidate_unobserved rpc dbg w route now evidence =
     (case entry_index (cw_owner w) (cor_key route) of
        None \<Rightarrow> Some (w, Inr ())
      | Some index \<Rightarrow> entry_turn rpc dbg now evidence w index (CoWithdraw route))"

section \<open>Draining\<close>

datatype 'a waiting_outcome = OutcomeEmpty | OutcomeSettled 'a | OutcomeReady "'a room_item" moment

definition room_pop :: "bool \<Rightarrow> 'a scan_room \<Rightarrow> moment \<Rightarrow> ('a scan_room \<times> 'a waiting_outcome) option" where
  "room_pop dbg w now =
     (if sr_scan_remaining w = 0 then Some (w, OutcomeEmpty)
      else case wait_pop_front dbg (sr_calls w) of
        None \<Rightarrow> None
      | Some (calls, None) \<Rightarrow> Some (w\<lparr>sr_calls := calls, sr_scan_remaining := 0\<rparr>, OutcomeEmpty)
      | Some (calls, Some (waiting, deadline)) \<Rightarrow>
          (case room_release dbg (w\<lparr>sr_calls := calls, sr_scan_remaining := sr_scan_remaining w - 1\<rparr>) waiting of
             None \<Rightarrow> None
           | Some w' \<Rightarrow>
               (if deadline \<le> now then Some (w', OutcomeSettled (ri_item waiting))
                else Some (w', OutcomeReady waiting deadline))))"

text \<open>Keeping a call; a call that cannot be kept is handed back to be rejected.\<close>

definition room_retain ::
    "'a scan_room \<Rightarrow> 'a room_item \<Rightarrow> moment \<Rightarrow> ('a scan_room \<times> 'a option) option" where
  "room_retain w waiting deadline =
     (case rotate_back (sr_calls w) waiting deadline of
        None \<Rightarrow> None
      | Some (calls, Inl waiting') \<Rightarrow> Some (w\<lparr>sr_calls := calls\<rparr>, Some (ri_item waiting'))
      | Some (calls, Inr _) \<Rightarrow>
          Some (w\<lparr>sr_calls := calls, sr_retained_bytes := sr_retained_bytes w + ri_bytes waiting\<rparr>, None))"

definition room_refresh_due :: "'a scan_room \<Rightarrow> moment \<Rightarrow> 'a scan_room" where
  "room_refresh_due w now =
     w\<lparr>sr_due_pending := (case wait_next_deadline (sr_calls w) of None \<Rightarrow> False | Some d \<Rightarrow> d \<le> now)\<rparr>"

definition room_expire_due ::
    "bool \<Rightarrow> 'a scan_room \<Rightarrow> moment \<Rightarrow> usize \<Rightarrow> ('a scan_room \<times> 'a list) option" where
  "room_expire_due dbg w now budget =
     (if sr_scan_remaining w \<noteq> 0 then Some (w, [])
      else map_option (\<lambda>(w', due, remaining). (room_refresh_due w' now, due)) (room_due_loop dbg w now budget []))"

definition coordinator_decide ::
    "'v coordinator_owner \<Rightarrow> 'v waiting_coordinator_call \<Rightarrow>
     (coordinator_route, 'k, 'v, 'en, 'de) call_outcome option" where
  "coordinator_decide ow waiting =
     (case owner_current ow (wk_key waiting) of
        Some route \<Rightarrow> Some (Inr route)
      | None \<Rightarrow> (if discovery_pending ow (wk_key waiting) then None else Some (Inl ReqRouteUnavailable)))"

text \<open>\<open>examined\<close> counts the calls that were popped.\<close>

fun drain_loop ::
    "bool \<Rightarrow> ('a \<Rightarrow> 'o option) \<Rightarrow> 'o \<Rightarrow> 'o \<Rightarrow> 'a scan_room \<Rightarrow> moment \<Rightarrow> usize \<Rightarrow> ('a \<times> 'o) list \<Rightarrow> usize \<Rightarrow>
     ('a scan_room \<times> ('a \<times> 'o) list \<times> usize) option" where
  "drain_loop dbg decide expired rejected w now 0 left examined = Some (w, left, examined)"
| "drain_loop dbg decide expired rejected w now (Suc n) left examined =
     (case room_pop dbg w now of
        None \<Rightarrow> None
      | Some (w', OutcomeEmpty) \<Rightarrow> Some (w', left, examined)
      | Some (w', OutcomeSettled x) \<Rightarrow>
          drain_loop dbg decide expired rejected w' now n (left @ [(x, expired)]) (examined + 1)
      | Some (w', OutcomeReady waiting deadline) \<Rightarrow>
          (case decide (ri_item waiting) of
             Some outcome \<Rightarrow>
               drain_loop dbg decide expired rejected w' now n (left @ [(ri_item waiting, outcome)]) (examined + 1)
           | None \<Rightarrow>
               (case room_retain w' waiting deadline of
                  None \<Rightarrow> None
                | Some (w'', None) \<Rightarrow> drain_loop dbg decide expired rejected w'' now n left (examined + 1)
                | Some (w'', Some x) \<Rightarrow>
                    drain_loop dbg decide expired rejected w'' now n (left @ [(x, rejected)]) (examined + 1))))"

definition drain_waiters ::
    "bool \<Rightarrow> ('v, 'k, 'en, 'de, 'b) coordinator_world \<Rightarrow> moment \<Rightarrow>
     (('v, 'k, 'en, 'de, 'b) coordinator_world \<times>
      (coordinator_route, 'v waiting_coordinator_call) wait_progress) option" where
  "drain_waiters dbg w now =
     (let ow = cw_owner w; room = coo_waiters ow; budget = cl_turn_budget (coo_limits ow) in
      case room_expire_due dbg room now budget of
        None \<Rightarrow> None
      | Some (room', due) \<Rightarrow>
          (case drain_loop dbg (coordinator_decide ow) (Inl deadline_exceeded)
                  (Inl (ReqRouteCapacityReached (sr_call_limit room) (sr_byte_limit room))) room' now
                  (budget - length due) [] (length due) of
             None \<Rightarrow> None
           | Some (room'', left, examined) \<Rightarrow>
               (let room3 = room_refresh_due room'' now;
                    notices = map (\<lambda>x. NoticeFailed (er_call_id (wk_request x)) deadline_exceeded) due @
                      concat (map (\<lambda>(x, outcome). outcome_notice (er_call_id (wk_request x)) outcome) left)
                in Some (co_notify notices (upd_coordinator (\<lambda>ow. ow\<lparr>coo_waiters := room3\<rparr>) w),
                     \<lparr>wg_routed = concat (map (\<lambda>(x, outcome). outcome_routed x outcome) left),
                      wg_settled = length notices, wg_examined = examined,
                      wg_more_work = room_has_pending_scan room3\<rparr>))))"

definition co_fail_waiters ::
    "bool \<Rightarrow> ('v, 'k, 'en, 'de, 'b) coordinator_world \<Rightarrow> ('k, 'v, 'en, 'de) request_error \<Rightarrow>
     ('v, 'k, 'en, 'de, 'b) coordinator_world option" where
  "co_fail_waiters dbg w failure =
     (let (room, calls) = room_fail_all (coo_waiters (cw_owner w));
          w' = co_notify (map (\<lambda>x. NoticeFailed (er_call_id (wk_request x)) failure) calls)
                 (upd_coordinator (\<lambda>ow. ow\<lparr>coo_waiters := room\<rparr>) w)
      in fail_invalidations dbg w' [0..<length (coo_entries (cw_owner w'))])"

definition has_local_work :: "'v coordinator_owner \<Rightarrow> bool" where
  "has_local_work ow \<longleftrightarrow> room_has_pending_scan (coo_waiters ow)"

section \<open>The owner as a machine\<close>

datatype 'v coordinator_op =
    CopDrive moment evidence_stamp "(call_id \<times> find_result) list"
  | CopWait bool coordinator_key "'v erased_request" moment evidence_stamp
  | CopInvalidate coordinator_route outcome_stamp completion_id moment evidence_stamp
  | CopWithdraw coordinator_route moment evidence_stamp
  | CopDrain moment
  | CopFailWaiters

datatype ('v, 'be) coordinator_reply =
    CoReplyDone bool
  | CoReplyRouted "(coordinator_route \<times> 'v waiting_coordinator_call) list"
  | CoReplyError "'be coordinator_owner_error"
  | CoReplyPanic

definition co_reply ::
    "('x \<Rightarrow> bool) \<Rightarrow> ('v, 'k, 'en, 'de, 'b) coordinator_world \<Rightarrow> ('v, 'k, 'en, 'de, 'b, 'be, 'x) co_result \<Rightarrow>
     ('v, 'k, 'en, 'de, 'b) coordinator_world \<times> ('v, 'be) coordinator_reply" where
  "co_reply progress w r =
     (case r of
        None \<Rightarrow> (w, CoReplyPanic)
      | Some (w', Inl e) \<Rightarrow> (w', CoReplyError e)
      | Some (w', Inr x) \<Rightarrow> (w', CoReplyDone (progress x)))"

fun coordinator_owner_apply ::
    "('b, 'be) find_rpc \<Rightarrow> bool \<Rightarrow> (coordinator_key \<Rightarrow> usize) \<Rightarrow> ('k, 'v, 'en, 'de) request_error \<Rightarrow>
     ('v, 'k, 'en, 'de, 'b) coordinator_world \<Rightarrow> 'v coordinator_op \<Rightarrow>
     ('v, 'k, 'en, 'de, 'b) coordinator_world \<times> ('v, 'be) coordinator_reply" where
  "coordinator_owner_apply rpc dbg heap failure w (CopDrive now evidence results) =
     co_reply id w (co_drive rpc dbg w now evidence results)"
| "coordinator_owner_apply rpc dbg heap failure w (CopWait has_broker key request now evidence) =
     co_reply (\<lambda>_. True) w (co_wait_for rpc dbg heap has_broker w key request now evidence)"
| "coordinator_owner_apply rpc dbg heap failure w (CopInvalidate route observed_at completion now evidence) =
     co_reply (\<lambda>_. True) w (co_invalidate_route rpc dbg w route observed_at completion now evidence)"
| "coordinator_owner_apply rpc dbg heap failure w (CopWithdraw route now evidence) =
     co_reply (\<lambda>_. True) w (invalidate_unobserved rpc dbg w route now evidence)"
| "coordinator_owner_apply rpc dbg heap failure w (CopDrain now) =
     (case drain_waiters dbg w now of
        None \<Rightarrow> (w, CoReplyPanic)
      | Some (w', p) \<Rightarrow> (w', CoReplyRouted (wg_routed p)))"
| "coordinator_owner_apply rpc dbg heap failure w CopFailWaiters =
     (case co_fail_waiters dbg w failure of None \<Rightarrow> (w, CoReplyPanic) | Some w' \<Rightarrow> (w', CoReplyDone True))"

declare coordinator_owner_apply.simps [simp del]

end
