(* ===== verification/Coordinator_Owner_Safety.thy ===== *)
theory Coordinator_Owner_Safety
  imports Coordinator_Owner Metadata_Owner_Runs
begin

text \<open>
  The invariant of the coordinator owner: every entry has a call in flight exactly while its machine
  discovers, and it is that discovery; an invalidation is held only while its revocation is pending;
  subscribers are counted; and every call that no scan has still to examine waits for a discovery
  that is requested, in flight or about to be retried.
\<close>

section \<open>The machine\<close>

fun find_key :: "coordinator_state \<Rightarrow> (operation_id \<times> coordinator_epoch) option" where
  "find_key (CoDiscovering current operation_id target followup retries) = Some (operation_id, target)"
| "find_key _ = None"

text \<open>Inputs that leave a discovery in flight alone.\<close>

fun co_asks :: "coordinator_state \<Rightarrow> coordinator_input \<Rightarrow> bool" where
  "co_asks s (CoResolve operation_id) \<longleftrightarrow> True"
| "co_asks s (CoInvalidate route observed_at operation_id) \<longleftrightarrow> True"
| "co_asks s (CoWithdraw route operation_id) \<longleftrightarrow> True"
| "co_asks s (CoRetryElapsed operation_id epoch now retry) \<longleftrightarrow>
     (\<exists>current followup retries at. s = CoRetrying current operation_id epoch followup retries at \<and> at \<le> now)"
| "co_asks s _ \<longleftrightarrow> False"

text \<open>Inputs that end the discovery in flight, or the one a retry is waiting for.\<close>

fun co_completes :: "coordinator_state \<Rightarrow> coordinator_input \<Rightarrow> bool" where
  "co_completes s (CoDiscoverySucceeded operation_id epoch broker_id endpoint evidence followup) \<longleftrightarrow>
     find_key s = Some (operation_id, epoch)"
| "co_completes s (CoDiscoveryRejected operation_id epoch now followup) \<longleftrightarrow> find_key s = Some (operation_id, epoch)"
| "co_completes s (CoDiscoveryFailed operation_id epoch followup) \<longleftrightarrow>
     (\<exists>current f. co_in_flight s = Some (current, operation_id, epoch, f))"
| "co_completes s _ \<longleftrightarrow> False"

definition effects_fit :: "coordinator_machine \<Rightarrow> coordinator_effect list \<Rightarrow> bool" where
  "effects_fit m effects \<longleftrightarrow>
     effects = [] \<or> effects = [CoEpochExhausted] \<or>
     (\<exists>operation_id epoch. effects = [CoFind operation_id (com_key m) epoch] \<and>
        find_key (com_state m) = Some (operation_id, epoch)) \<or>
     (\<exists>operation_id epoch at. effects = [CoWaitUntil operation_id epoch at] \<and>
        find_key (com_state m) = None \<and> retry_expected (com_state m) operation_id epoch at)"

lemma find_key_in_flight:
  "find_key s = Some (operation_id, epoch) \<Longrightarrow> \<exists>current f. co_in_flight s = Some (current, operation_id, epoch, f)"
  by (cases s) simp_all

lemma co_asks_step:
  assumes "co_asks (com_state m) i" "coordinator_apply m i = (m', t)"
  shows "com_key m' = com_key m" "effects_fit m' (cot_effects t)"
    "cot_effects t = [] \<Longrightarrow> find_key (com_state m') = find_key (com_state m)"
    "cot_effects t \<noteq> [] \<Longrightarrow> cot_effects t \<noteq> [CoEpochExhausted] \<Longrightarrow> find_key (com_state m) = None"
    "coordinator_current m = None \<Longrightarrow> coordinator_current m' = None"
    "in_discovery (com_state m) \<Longrightarrow> in_discovery (com_state m')"
    "cot_effects t = [CoWaitUntil a b c] \<Longrightarrow> False"
  using assms
  by (cases i; cases "com_state m";
      auto simp: coordinator_handlers coordinator_transitions effects_fit_def coordinator_current_def
        crv_observe_def Let_def split: option.splits if_splits prod.splits)+

lemma co_fail_step:
  assumes "co_in_flight (com_state m) = Some (current, operation_id, epoch, f)" "co_fail m operation_id epoch followup = (m', t)"
  shows "com_key m' = com_key m"
    "cot_effects t = [] \<and> find_key (com_state m') = None \<or>
     f \<noteq> None \<and> cot_effects t = [CoFind followup (com_key m) epoch] \<and>
     (\<exists>current'. com_state m' = CoDiscovering current' followup epoch None 0)"
  using assms
  by (auto simp: co_fail_def co_start_def coordinator_transitions split: option.splits if_splits)

lemma co_completes_step:
  assumes "co_completes (com_state m) i" "coordinator_apply m i = (m', t)"
  shows "com_key m' = com_key m" "effects_fit m' (cot_effects t)"
    "cot_effects t = [] \<Longrightarrow> find_key (com_state m') = None"
proof -
  have fails: "com_key m' = com_key m \<and> effects_fit m' (cot_effects t) \<and>
      (cot_effects t = [] \<longrightarrow> find_key (com_state m') = None)"
    if "co_in_flight (com_state m) = Some (current, operation_id, epoch, f)" "co_fail m operation_id epoch followup = (m', t)"
    for current operation_id epoch f followup m' t
    using co_fail_step [OF that] by (auto simp: effects_fit_def)
  have "com_key m' = com_key m \<and> effects_fit m' (cot_effects t) \<and>
      (cot_effects t = [] \<longrightarrow> find_key (com_state m') = None)"
  proof (cases i)
    case (CoDiscoverySucceeded operation_id epoch broker_id endpoint evidence followup)
    then show ?thesis
      using assms
      by (cases "com_state m")
         (auto simp: co_succeed_def co_established_def co_start_def coordinator_transitions effects_fit_def Let_def
           discovered_state_cases split: option.splits if_splits)
  next
    case (CoDiscoveryFailed operation_id epoch followup)
    then show ?thesis using assms fails by auto
  next
    case (CoDiscoveryRejected operation_id epoch now followup)
    obtain current f retries where s: "com_state m = CoDiscovering current operation_id epoch f retries"
      using assms(1) CoDiscoveryRejected by (cases "com_state m") auto
    have "co_fail m operation_id epoch followup = (m', t) \<or>
        (\<exists>n at. com_state m' = CoRetrying current operation_id epoch f n at \<and> com_key m' = com_key m \<and>
          cot_effects t = [CoWaitUntil operation_id epoch at])"
      using assms(2) CoDiscoveryRejected
      by (auto simp: co_reject_def s coordinator_transitions split: option.splits if_splits)
    then show ?thesis
    proof
      assume "co_fail m operation_id epoch followup = (m', t)"
      then show ?thesis using fails [of current operation_id epoch f followup m' t] s by simp
    qed (auto simp: effects_fit_def retry_expected_def)
  qed (use assms in simp_all)
  then show "com_key m' = com_key m" "effects_fit m' (cot_effects t)"
    "cot_effects t = [] \<Longrightarrow> find_key (com_state m') = None"
    by simp_all
qed

section \<open>The invariant of the owner\<close>

definition entry_key :: "coordinator_entry \<Rightarrow> coordinator_key" where
  "entry_key e = com_key (ce_machine e)"

definition entry_linked :: "coordinator_entry \<Rightarrow> bool" where
  "entry_linked e \<longleftrightarrow>
     coordinator_wf (ce_machine e) \<and>
     map_option (\<lambda>p. (pc_operation_id p, pc_epoch p)) (ce_pending e) = find_key (com_state (ce_machine e))"

definition entry_revoking :: "coordinator_entry \<Rightarrow> bool" where
  "entry_revoking e \<longleftrightarrow>
     (case ce_invalidation e of
        None \<Rightarrow> True
      | Some v \<Rightarrow> co_revocation_pending (ce_machine e) (civ_target v))"

definition entry_demand :: "coordinator_entry \<Rightarrow> bool" where
  "entry_demand e \<longleftrightarrow>
     coordinator_current (ce_machine e) = None \<and>
     (ce_discovery_requested e \<or> in_discovery (com_state (ce_machine e)))"

definition subscribers_of :: "coordinator_entry \<Rightarrow> completion_id list" where
  "subscribers_of e = (case ce_invalidation e of None \<Rightarrow> [] | Some v \<Rightarrow> civ_subscribers v)"

text \<open>What holds at every moment, also in the middle of an operation.\<close>

definition co_base :: "bool \<Rightarrow> 'v coordinator_owner \<Rightarrow> bool" where
  "co_base dbg ow \<longleftrightarrow>
     distinct (map entry_key (coo_entries ow)) \<and> length (coo_entries ow) \<le> cl_keys (coo_limits ow) \<and>
     room_sound dbg (coo_waiters ow) \<and>
     coo_invalidation_subscribers ow = sum_list (map (\<lambda>e. length (subscribers_of e)) (coo_entries ow)) \<and>
     coo_invalidation_subscribers ow \<le> cl_invalidation_waiters (coo_limits ow)"

definition calls_covered :: "'v coordinator_owner \<Rightarrow> bool" where
  "calls_covered ow \<longleftrightarrow>
     (\<forall>x\<in>set (behind_scan (coo_waiters ow)).
        \<exists>e\<in>set (coo_entries ow). entry_key e = wk_key (fst x) \<and> entry_demand e)"

definition co_inv :: "bool \<Rightarrow> 'v coordinator_owner \<Rightarrow> bool" where
  "co_inv dbg ow \<longleftrightarrow>
     co_base dbg ow \<and> calls_covered ow \<and> (\<forall>e\<in>set (coo_entries ow). entry_linked e \<and> entry_revoking e)"

definition call_waiter :: "'v waiting_coordinator_call \<Rightarrow> waiter" where
  "call_waiter x = WaitCall (er_call_id (wk_request x))"

definition co_waiting :: "'v coordinator_owner \<Rightarrow> waiter multiset" where
  "co_waiting ow =
     image_mset call_waiter (room_items (coo_waiters ow)) +
     sum_list (map (\<lambda>e. image_mset WaitInvalidation (mset (subscribers_of e))) (coo_entries ow))"

definition co_balance :: "('v, 'k, 'en, 'de, 'b) coordinator_world \<Rightarrow> waiter multiset" where
  "co_balance w = co_waiting (cw_owner w) + mset (map notice_waiter (cw_notices w))"

lemma co_notify_simps [simp]:
  "cw_owner (co_notify out w) = cw_owner w" "co_balance (co_notify out w) = co_balance w + mset (map notice_waiter out)"
  "entry_at (co_notify out w) index = entry_at w index"
  by (simp_all add: co_notify_def co_balance_def entry_at_def)

lemma sum_list_change:
  fixes g :: "'a \<Rightarrow> 'b :: cancel_comm_monoid_add"
  assumes "i < length xs"
  shows "sum_list (map g (xs[i := y])) + g (xs ! i) = sum_list (map g xs) + g y"
  using assms
proof (induction xs arbitrary: i)
  case (Cons x xs)
  then show ?case
    by (cases i) (auto simp: add.assoc add.commute add.left_commute)
qed simp

lemma upd_entry_simps [simp]:
  "index < length (coo_entries (cw_owner w)) \<Longrightarrow> entry_at (upd_entry index f w) index = f (entry_at w index)"
  "coo_entries (cw_owner (upd_entry index f w)) = (coo_entries (cw_owner w))[index := f (entry_at w index)]"
  "coo_waiters (cw_owner (upd_entry index f w)) = coo_waiters (cw_owner w)"
  "coo_limits (cw_owner (upd_entry index f w)) = coo_limits (cw_owner w)"
  "coo_cursor (cw_owner (upd_entry index f w)) = coo_cursor (cw_owner w)"
  "coo_invalidation_subscribers (cw_owner (upd_entry index f w)) = coo_invalidation_subscribers (cw_owner w)"
  "cw_notices (upd_entry index f w) = cw_notices w" "cw_broker (upd_entry index f w) = cw_broker w"
  by (simp_all add: upd_entry_def upd_coordinator_def entry_at_def)

text \<open>An update of one entry that keeps its key and its subscribers.\<close>

definition same_kept :: "(coordinator_entry \<Rightarrow> coordinator_entry) \<Rightarrow> coordinator_entry \<Rightarrow> bool" where
  "same_kept f e \<longleftrightarrow> entry_key (f e) = entry_key e \<and> subscribers_of (f e) = subscribers_of e"

lemma upd_entry_kept:
  assumes "index < length (coo_entries (cw_owner w))" "same_kept f (entry_at w index)"
  shows "co_base dbg (cw_owner (upd_entry index f w)) = co_base dbg (cw_owner w)"
    "co_balance (upd_entry index f w) = co_balance w"
proof -
  let ?es = "coo_entries (cw_owner w)" and ?e = "f (entry_at w index)"
  have "map entry_key (?es[index := ?e]) = map entry_key ?es"
    "map subscribers_of (?es[index := ?e]) = map subscribers_of ?es"
    using assms by (simp_all add: map_update same_kept_def entry_at_def list_update_same_conv)
  then have keys: "map entry_key (?es[index := ?e]) = map entry_key ?es"
    and subs: "map (\<lambda>e. g (subscribers_of e)) (?es[index := ?e]) = map (\<lambda>e. g (subscribers_of e)) ?es" for g :: "_ \<Rightarrow> 'x"
    by (simp, metis (no_types, lifting) comp_apply map_eq_conv map_map)
  show "co_base dbg (cw_owner (upd_entry index f w)) = co_base dbg (cw_owner w)"
    using keys subs [of length] by (simp add: co_base_def)
  show "co_balance (upd_entry index f w) = co_balance w"
    using subs [of "\<lambda>cs. image_mset WaitInvalidation (mset cs)"] by (simp add: co_balance_def co_waiting_def)
qed

section \<open>In the middle of an operation\<close>

text \<open>While an operation works on the entry at \<open>index\<close>, nothing is known of that entry.\<close>

definition co_mid :: "bool \<Rightarrow> 'v coordinator_owner \<Rightarrow> nat \<Rightarrow> bool" where
  "co_mid dbg ow index \<longleftrightarrow>
     index < length (coo_entries ow) \<and> co_base dbg ow \<and>
     (\<forall>j<length (coo_entries ow). j \<noteq> index \<longrightarrow> entry_linked (coo_entries ow ! j) \<and> entry_revoking (coo_entries ow ! j))"

definition only_entry :: "nat \<Rightarrow> 'v coordinator_owner \<Rightarrow> 'v coordinator_owner \<Rightarrow> bool" where
  "only_entry index ow ow' \<longleftrightarrow>
     coo_waiters ow' = coo_waiters ow \<and>
     (\<exists>e. coo_entries ow' = (coo_entries ow)[index := e] \<and> entry_key e = entry_key (coo_entries ow ! index))"

lemma only_entry_refl [simp]: "only_entry index ow ow"
  by (auto simp: only_entry_def intro: exI [of _ "coo_entries ow ! index"])

lemma only_entry_trans:
  "only_entry index a b \<Longrightarrow> only_entry index b c \<Longrightarrow> only_entry index a c"
  by (cases "index < length (coo_entries a)") (auto simp: only_entry_def list_update_beyond)

lemma only_entry_length: "only_entry index a b \<Longrightarrow> length (coo_entries b) = length (coo_entries a)"
  by (auto simp: only_entry_def)

lemma co_inv_mid: "co_inv dbg ow \<Longrightarrow> index < length (coo_entries ow) \<Longrightarrow> co_mid dbg ow index"
  by (auto simp: co_inv_def co_mid_def)

lemma co_inv_entry:
  "co_inv dbg (cw_owner w) \<Longrightarrow> index < length (coo_entries (cw_owner w)) \<Longrightarrow>
   entry_linked (entry_at w index) \<and> entry_revoking (entry_at w index)"
  by (auto simp: co_inv_def entry_at_def)

lemma mid_entries:
  assumes "co_mid dbg ow index" "entry_linked (coo_entries ow ! index)" "entry_revoking (coo_entries ow ! index)"
  shows "\<forall>e\<in>set (coo_entries ow). entry_linked e \<and> entry_revoking e"
  using assms by (auto simp: co_mid_def in_set_conv_nth)

lemma mid_close_scan:
  assumes "co_mid dbg ow index" "entry_linked (coo_entries ow ! index)" "entry_revoking (coo_entries ow ! index)"
    and "behind_scan (coo_waiters ow) = []"
  shows "co_inv dbg ow"
  using assms mid_entries [OF assms(1-3)] by (simp add: co_inv_def calls_covered_def co_mid_def)

lemma only_entry_covered:
  assumes "only_entry index ow ow'" "calls_covered ow" "index < length (coo_entries ow)"
    and "entry_demand (coo_entries ow ! index) \<Longrightarrow> entry_demand (coo_entries ow' ! index)"
  shows "calls_covered ow'"
proof -
  obtain e where e: "coo_entries ow' = (coo_entries ow)[index := e]" "entry_key e = entry_key (coo_entries ow ! index)"
    "coo_waiters ow' = coo_waiters ow"
    using assms(1) by (auto simp: only_entry_def)
  show ?thesis
    unfolding calls_covered_def e(3)
  proof
    fix x assume "x \<in> set (behind_scan (coo_waiters ow))"
    then obtain e0 where e0: "e0 \<in> set (coo_entries ow)" "entry_key e0 = wk_key (fst x)" "entry_demand e0"
      using assms(2) by (auto simp: calls_covered_def)
    then obtain j where j: "j < length (coo_entries ow)" "entry_key (coo_entries ow ! j) = wk_key (fst x)"
      "entry_demand (coo_entries ow ! j)"
      by (auto simp: in_set_conv_nth)
    then have "entry_key (coo_entries ow' ! j) = wk_key (fst x)" "entry_demand (coo_entries ow' ! j)"
      using assms(3,4) e by (cases "j = index"; simp)+
    then show "\<exists>e\<in>set (coo_entries ow'). entry_key e = wk_key (fst x) \<and> entry_demand e"
      using j(1) e(1) by (auto intro!: bexI [of _ "coo_entries ow' ! j"])
  qed
qed

lemma mid_close_kept:
  assumes "co_mid dbg ow' index" "entry_linked (coo_entries ow' ! index)" "entry_revoking (coo_entries ow' ! index)"
    and "only_entry index ow ow'" "calls_covered ow"
    and "entry_demand (coo_entries ow ! index) \<Longrightarrow> entry_demand (coo_entries ow' ! index)"
  shows "co_inv dbg ow'"
  using assms(1) mid_entries [OF assms(1-3)] only_entry_covered [OF assms(4,5) _ assms(6)] only_entry_length [OF assms(4)]
  by (simp add: co_inv_def co_mid_def)

lemma upd_entry_mid:
  assumes "co_mid dbg (cw_owner w) index" "same_kept f (entry_at w index)"
  shows "co_mid dbg (cw_owner (upd_entry index f w)) index" "co_balance (upd_entry index f w) = co_balance w"
    "only_entry index (cw_owner w) (cw_owner (upd_entry index f w))"
proof -
  have "index < length (coo_entries (cw_owner w))" using assms(1) by (simp add: co_mid_def)
  from upd_entry_kept(1) [OF this assms(2), of dbg] upd_entry_kept(2) [OF this assms(2)]
  show "co_mid dbg (cw_owner (upd_entry index f w)) index" "co_balance (upd_entry index f w) = co_balance w"
    "only_entry index (cw_owner w) (cw_owner (upd_entry index f w))"
    using assms by (auto simp: co_mid_def only_entry_def same_kept_def entry_at_def)
qed

lemma co_begin_scan_simps [simp]:
  "coo_entries (cw_owner (co_begin_scan w)) = coo_entries (cw_owner w)" "entry_at (co_begin_scan w) index = entry_at w index"
  "coo_waiters (cw_owner (co_begin_scan w)) = room_begin_scan (coo_waiters (cw_owner w))"
  "behind_scan (room_begin_scan room) = []" "co_balance (co_begin_scan w) = co_balance w"
  "coo_limits (cw_owner (co_begin_scan w)) = coo_limits (cw_owner w)"
  by (auto simp: co_begin_scan_def upd_coordinator_def entry_at_def behind_scan_def co_balance_def co_waiting_def
      co_base_def room_sound_def)

lemma co_begin_scan_mid: "co_mid dbg (cw_owner w) index \<Longrightarrow> co_mid dbg (cw_owner (co_begin_scan w)) index"
  by (simp add: co_mid_def co_base_def room_sound_def) (simp add: co_begin_scan_def upd_coordinator_def)

lemma co_reserve_result:
  assumes "co_reserve_operation w = (w', r)"
  shows "coo_entries (cw_owner w') = coo_entries (cw_owner w)" "coo_waiters (cw_owner w') = coo_waiters (cw_owner w)"
    "coo_limits (cw_owner w') = coo_limits (cw_owner w)" "co_mid dbg (cw_owner w') index = co_mid dbg (cw_owner w) index"
    "co_balance w' = co_balance w" "entry_at w' index = entry_at w index" "only_entry index (cw_owner w) (cw_owner w')"
    "r \<noteq> Inl CoUnexpectedEffect"
  using assms
  by (auto simp: co_reserve_operation_def upd_coordinator_def co_balance_def co_waiting_def entry_at_def co_mid_def co_base_def
      only_entry_def intro: exI [of _ "coo_entries (cw_owner w) ! index"] split: prod.splits option.splits)

section \<open>Settling invalidations\<close>

lemma subscribers_le:
  assumes "co_base dbg ow" "index < length (coo_entries ow)"
  shows "length (subscribers_of (coo_entries ow ! index)) \<le> coo_invalidation_subscribers ow"
  using assms member_le_sum_list [of "length (subscribers_of (coo_entries ow ! index))"
      "map (\<lambda>e. length (subscribers_of e)) (coo_entries ow)"]
  by (force simp: co_base_def)

lemma entry_key_invalidation [simp]:
  "entry_key (e\<lparr>ce_invalidation := v\<rparr>) = entry_key e" "entry_linked (e\<lparr>ce_invalidation := v\<rparr>) = entry_linked e"
  "entry_demand (e\<lparr>ce_invalidation := v\<rparr>) = entry_demand e"
  by (simp_all add: entry_key_def entry_linked_def entry_demand_def)

text \<open>Completing the invalidation of an entry: the subscribers leave the count and get a notice each.\<close>

lemma complete_invalidation_result:
  assumes "co_mid dbg (cw_owner w) index" "ce_invalidation (entry_at w index) = Some v"
  obtains w' where
    "complete_invalidation dbg (upd_entry index (\<lambda>e. e\<lparr>ce_invalidation := None\<rparr>) w) v disposition = Some w'"
    "co_mid dbg (cw_owner w') index" "co_balance w' = co_balance w"
    "coo_entries (cw_owner w') = (coo_entries (cw_owner w))[index := (entry_at w index)\<lparr>ce_invalidation := None\<rparr>]"
    "coo_waiters (cw_owner w') = coo_waiters (cw_owner w)"
proof -
  let ?ow = "cw_owner w" and ?e = "entry_at w index"
  let ?e' = "?e\<lparr>ce_invalidation := None\<rparr>"
  let ?n = "length (civ_subscribers v)"
  let ?es = "(coo_entries ?ow)[index := ?e']"
  have index: "index < length (coo_entries ?ow)" and base: "co_base dbg ?ow" using assms(1) by (simp_all add: co_mid_def)
  have subs: "subscribers_of ?e = civ_subscribers v" "subscribers_of ?e' = []"
    using assms(2) by (simp_all add: subscribers_of_def)
  have le: "?n \<le> coo_invalidation_subscribers ?ow"
    using subscribers_le [OF base index] subs(1) by (simp add: entry_at_def)
  define ow where "ow = ?ow\<lparr>coo_entries := ?es, coo_invalidation_subscribers := coo_invalidation_subscribers ?ow - ?n\<rparr>"
  let ?out = "map (\<lambda>c. NoticeInvalidation c disposition) (civ_subscribers v)"
  have done_with: "complete_invalidation dbg (upd_entry index (\<lambda>e. e\<lparr>ce_invalidation := None\<rparr>) w) v disposition =
      Some (co_notify ?out (w\<lparr>cw_owner := ow\<rparr>))"
    using le by (simp add: complete_invalidation_def release_subscribers_def upd_entry_def upd_coordinator_def
        entry_at_def ow_def)
  have "sum_list (map (\<lambda>e. length (subscribers_of e)) ?es) + ?n =
      sum_list (map (\<lambda>e. length (subscribers_of e)) (coo_entries ?ow))"
    using sum_list_change [OF index, of "\<lambda>e. length (subscribers_of e)" ?e'] subs by (simp add: entry_at_def)
  moreover have "map entry_key ?es = map entry_key (coo_entries ?ow)"
    using index by (simp add: map_update list_update_same_conv entry_at_def)
  ultimately have "co_base dbg ow" using base by (auto simp: co_base_def ow_def)
  then have mid: "co_mid dbg ow index" using assms(1) by (simp add: co_mid_def ow_def)
  have "sum_list (map (\<lambda>e. image_mset WaitInvalidation (mset (subscribers_of e))) ?es) +
      image_mset WaitInvalidation (mset (civ_subscribers v)) =
      sum_list (map (\<lambda>e. image_mset WaitInvalidation (mset (subscribers_of e))) (coo_entries ?ow))"
    using sum_list_change [OF index, of "\<lambda>e. image_mset WaitInvalidation (mset (subscribers_of e))" ?e'] subs
    by (simp add: entry_at_def)
  then have "co_balance (co_notify ?out (w\<lparr>cw_owner := ow\<rparr>)) = co_balance w"
    by (simp add: co_balance_def co_notify_def co_waiting_def ow_def comp_def image_mset.compositionality ac_simps)
  then show ?thesis
    using that [OF done_with] mid by (simp add: ow_def)
qed

lemma settle_invalidation_result:
  assumes "co_mid dbg (cw_owner w) index"
  obtains w' v where "settle_invalidation dbg w index = Some w'" "co_mid dbg (cw_owner w') index"
    "co_balance w' = co_balance w" "coo_waiters (cw_owner w') = coo_waiters (cw_owner w)"
    "coo_entries (cw_owner w') = (coo_entries (cw_owner w))[index := (entry_at w index)\<lparr>ce_invalidation := v\<rparr>]"
    "entry_revoking ((entry_at w index)\<lparr>ce_invalidation := v\<rparr>)"
proof (cases "ce_invalidation (entry_at w index)")
  case None
  then have "(entry_at w index)\<lparr>ce_invalidation := None\<rparr> = entry_at w index" by simp
  then show ?thesis
    using that [of w None] None assms by (simp add: settle_invalidation_def entry_revoking_def entry_at_def)
next
  case (Some v)
  have index: "index < length (coo_entries (cw_owner w))" using assms by (simp add: co_mid_def)
  let ?w = "upd_entry index (\<lambda>e. e\<lparr>ce_invalidation := None\<rparr>) w"
  show ?thesis
  proof (cases "settled_disposition (entry_at ?w index) v")
    case None
    then have pending: "co_revocation_pending (ce_machine (entry_at w index)) (civ_target v)"
      using index by (simp add: settled_disposition_def split: if_splits coordinator_state.splits)
    have same: "(entry_at w index)\<lparr>ce_invalidation := Some v\<rparr> = entry_at w index" using Some by simp
    have "upd_entry index (\<lambda>e. e\<lparr>ce_invalidation := Some v\<rparr>) ?w = w"
      using index same by (simp add: upd_entry_def upd_coordinator_def entry_at_def)
    then show ?thesis
      using that [of w "Some v"] Some None assms pending same
      by (simp add: settle_invalidation_def entry_revoking_def) (simp add: entry_at_def)
  next
    case (Some disposition)
    from complete_invalidation_result [OF assms \<open>ce_invalidation (entry_at w index) = Some v\<close>, of disposition]
    obtain w' where w': "complete_invalidation dbg ?w v disposition = Some w'"
      "co_mid dbg (cw_owner w') index" "co_balance w' = co_balance w"
      "coo_entries (cw_owner w') = (coo_entries (cw_owner w))[index := (entry_at w index)\<lparr>ce_invalidation := None\<rparr>]"
      "coo_waiters (cw_owner w') = coo_waiters (cw_owner w)"
      by blast
    then show ?thesis
      using that [of w' None] Some \<open>ce_invalidation (entry_at w index) = Some v\<close>
      by (simp add: settle_invalidation_def entry_revoking_def)
  qed
qed

end
