(* ===== verification/Coordinator_Owner_Steps.thy ===== *)
theory Coordinator_Owner_Steps
  imports Coordinator_Owner_Safety
begin

text \<open>
  A discovery that no request can be sent for is failed at once, in a loop that the failed discovery
  may enter again: the loop ends, no assertion fails in it, and it keeps the owner's invariant and
  the balance of waiting and answered callers.
\<close>

section \<open>Results\<close>

definition co_good ::
    "bool \<Rightarrow> ('v, 'k, 'en, 'de, 'b) coordinator_world \<Rightarrow> waiter multiset \<Rightarrow>
     ('v, 'k, 'en, 'de, 'b, 'be, 'x) co_result \<Rightarrow> bool" where
  "co_good dbg w taken res \<longleftrightarrow>
     (\<exists>w' r. res = Some (w', r) \<and> r \<noteq> Inl CoUnexpectedEffect \<and>
        (\<forall>b. r = Inr b \<longrightarrow> co_inv dbg (cw_owner w') \<and> co_balance w + taken = co_balance w' \<and>
           length (coo_entries (cw_owner w)) \<le> length (coo_entries (cw_owner w'))))"

lemma co_good_error [simp]: "co_good dbg w taken (Some (w', Inl e)) \<longleftrightarrow> e \<noteq> CoUnexpectedEffect"
  by (simp add: co_good_def)

lemma co_good_done:
  "co_inv dbg (cw_owner w') \<Longrightarrow> co_balance w + taken = co_balance w' \<Longrightarrow>
   length (coo_entries (cw_owner w)) \<le> length (coo_entries (cw_owner w')) \<Longrightarrow> co_good dbg w taken (Some (w', Inr b))"
  by (simp add: co_good_def)

lemma co_good_turned [simp]: "co_good dbg w taken (turned res) = co_good dbg w taken res"
proof (cases res)
  case (Some x)
  then show ?thesis by (cases x; cases "snd x") (auto simp: co_good_def turned_def)
qed (simp add: co_good_def turned_def)

lemma co_good_start:
  "co_good dbg w' taken res \<Longrightarrow> co_balance w' = co_balance w \<Longrightarrow>
   length (coo_entries (cw_owner w')) = length (coo_entries (cw_owner w)) \<Longrightarrow> co_good dbg w taken res"
  by (simp add: co_good_def)

text \<open>Applying an input to the machine of an entry.\<close>

lemma entry_apply_result:
  assumes "entry_apply w index i = (w', t)" "co_mid dbg (cw_owner w) index"
    and "com_key (fst (coordinator_apply (ce_machine (entry_at w index)) i)) = com_key (ce_machine (entry_at w index))"
  obtains m' where "coordinator_apply (ce_machine (entry_at w index)) i = (m', t)"
    "entry_at w' index = (entry_at w index)\<lparr>ce_machine := m'\<rparr>" "co_mid dbg (cw_owner w') index"
    "co_balance w' = co_balance w" "only_entry index (cw_owner w) (cw_owner w')"
proof -
  obtain m' where m: "coordinator_apply (ce_machine (entry_at w index)) i = (m', t)"
    "w' = upd_entry index (\<lambda>e. e\<lparr>ce_machine := m'\<rparr>) w"
    using assms(1) by (auto simp: entry_apply_def Let_def split: prod.splits)
  have "same_kept (\<lambda>e. e\<lparr>ce_machine := m'\<rparr>) (entry_at w index)"
    using assms(3) m(1) by (simp add: same_kept_def entry_key_def subscribers_of_def)
  from upd_entry_mid [OF assms(2) this] show ?thesis
    using that m assms(2) by (simp add: co_mid_def)
qed

section \<open>Discoveries that cannot be sent\<close>

lemma close_rejected:
  fixes w :: "('v, 'k, 'en, 'de, 'b) coordinator_world"
  assumes "co_mid dbg (cw_owner w) index" "entry_linked (entry_at w index)" "behind_scan (coo_waiters (cw_owner w)) = []"
  shows "co_good dbg w {#} (map_option (\<lambda>w'. (w', Inr b :: 'be coordinator_owner_error + 'x)) (settle_invalidation dbg w index))"
proof -
  obtain w' v where s: "settle_invalidation dbg w index = Some w'" "co_mid dbg (cw_owner w') index"
    "co_balance w' = co_balance w" "coo_waiters (cw_owner w') = coo_waiters (cw_owner w)"
    "coo_entries (cw_owner w') = (coo_entries (cw_owner w))[index := (entry_at w index)\<lparr>ce_invalidation := v\<rparr>]"
    "entry_revoking ((entry_at w index)\<lparr>ce_invalidation := v\<rparr>)"
    by (rule settle_invalidation_result [OF assms(1)])
  have "index < length (coo_entries (cw_owner w))" using assms(1) by (simp add: co_mid_def)
  then have "co_inv dbg (cw_owner w')"
    using s assms(2,3) by (intro mid_close_scan [OF s(2)]) simp_all
  then show ?thesis using s by (auto intro: co_good_done)
qed

lemma reject_step:
  fixes w :: "('v, 'k, 'en, 'de, 'b) coordinator_world"
  assumes "co_mid dbg (cw_owner w) index" "coordinator_wf (ce_machine (entry_at w index))"
    and "ce_pending (entry_at w index) = None"
    and "com_state (ce_machine (entry_at w index)) = CoDiscovering current operation_id epoch f retries"
  shows "co_good dbg w {#} (reject_find dbg w index operation_id epoch :: ('v, 'k, 'en, 'de, 'b, 'be, unit) co_result) \<or>
    f \<noteq> None \<and>
    (\<exists>w' current' operation_id'.
       (reject_find dbg w index operation_id epoch :: ('v, 'k, 'en, 'de, 'b, 'be, unit) co_result) =
         reject_find dbg w' index operation_id' epoch \<and>
       co_mid dbg (cw_owner w') index \<and> co_balance w' = co_balance w \<and>
       length (coo_entries (cw_owner w')) = length (coo_entries (cw_owner w)) \<and>
       coordinator_wf (ce_machine (entry_at w' index)) \<and> ce_pending (entry_at w' index) = None \<and>
       com_state (ce_machine (entry_at w' index)) = CoDiscovering current' operation_id' epoch None 0)"
proof -
  obtain w1 and r :: "'be coordinator_owner_error + operation_id" where res: "co_reserve_operation w = (w1, r)"
    by fastforce
  note res_facts = co_reserve_result [OF res]
  show ?thesis
  proof (cases r)
    case (Inl e)
    then show ?thesis using res res_facts(8) by (subst reject_find.simps) simp
  next
    case (Inr followup)
    let ?m = "ce_machine (entry_at w1 index)"
    obtain w2 t where ap: "entry_apply w1 index (CoDiscoveryFailed operation_id epoch followup) = (w2, t)" by fastforce
    have state: "com_state ?m = CoDiscovering current operation_id epoch f retries" using res_facts(6) assms(4) by simp
    have failed: "coordinator_apply ?m (CoDiscoveryFailed operation_id epoch followup) = co_fail ?m operation_id epoch followup"
      by simp
    have mid1: "co_mid dbg (cw_owner w1) index" using res_facts(4) assms(1) by simp
    have "com_key (fst (coordinator_apply ?m (CoDiscoveryFailed operation_id epoch followup))) = com_key ?m"
      using co_fail_step(1) [of ?m current operation_id epoch f followup] state
      by (metis co_in_flight.simps(1) failed prod.collapse)
    from entry_apply_result [OF ap mid1 this] obtain m' where
      m: "coordinator_apply ?m (CoDiscoveryFailed operation_id epoch followup) = (m', t)"
        "entry_at w2 index = (entry_at w1 index)\<lparr>ce_machine := m'\<rparr>" "co_mid dbg (cw_owner w2) index"
        "co_balance w2 = co_balance w1" "only_entry index (cw_owner w1) (cw_owner w2)"
      by blast
    let ?w = "co_begin_scan w2"
    have wf: "coordinator_wf m'"
      using coordinator_apply_wf [of ?m "CoDiscoveryFailed operation_id epoch followup"] m(1) assms(2) res_facts(6) by simp
    have mid: "co_mid dbg (cw_owner ?w) index" by (rule co_begin_scan_mid [OF m(3)])
    have same: "co_balance ?w = co_balance w" "length (coo_entries (cw_owner ?w)) = length (coo_entries (cw_owner w))"
      "ce_pending (entry_at ?w index) = None" "ce_machine (entry_at ?w index) = m'"
      using m res_facts(1,5,6) only_entry_length [OF m(5)] assms(3) by simp_all
    have unfolded: "reject_find dbg w index operation_id epoch =
        (case cot_effects t of
           [] \<Rightarrow> map_option (\<lambda>w4. (w4, Inr () :: 'be coordinator_owner_error + unit)) (settle_invalidation dbg ?w index)
         | [CoFind next_operation key next_epoch] \<Rightarrow> reject_find dbg ?w index next_operation next_epoch
         | [CoEpochExhausted] \<Rightarrow> Some (?w, Inl CoOwnerEpochExhausted)
         | _ \<Rightarrow> Some (?w, Inl CoUnexpectedEffect))"
      using res Inr ap by (subst reject_find.simps) (simp add: Let_def)
    have "co_fail ?m operation_id epoch followup = (m', t)" using m(1) by simp
    from co_fail_step(2) [OF _ this, of current f] state
    consider (ended) "cot_effects t = []" "find_key (com_state m') = None"
      | (again) current' where "f \<noteq> None" "cot_effects t = [CoFind followup (com_key ?m) epoch]"
          "com_state m' = CoDiscovering current' followup epoch None 0"
      by auto
    then show ?thesis
    proof cases
      case ended
      then have "entry_linked (entry_at ?w index)" using wf same by (simp add: entry_linked_def)
      from close_rejected [OF mid this, of "()"] show ?thesis
        using ended(1) same(1,2) by (auto simp: unfolded intro: co_good_start)
    next
      case again
      then show ?thesis
        using unfolded mid same wf
        by (intro disjI2 conjI exI [of _ ?w] exI [of _ current'] exI [of _ followup]) simp_all
    qed
  qed
qed

text \<open>The loop ends after at most two rounds, because the second discovery has no successor.\<close>

lemma reject_find_good:
  fixes w :: "('v, 'k, 'en, 'de, 'b) coordinator_world"
  assumes "co_mid dbg (cw_owner w) index" "coordinator_wf (ce_machine (entry_at w index))"
    and "ce_pending (entry_at w index) = None" "find_key (com_state (ce_machine (entry_at w index))) = Some (operation_id, epoch)"
  shows "co_good dbg w {#} (reject_find dbg w index operation_id epoch :: ('v, 'k, 'en, 'de, 'b, 'be, unit) co_result)"
proof -
  obtain current f retries where
    state: "com_state (ce_machine (entry_at w index)) = CoDiscovering current operation_id epoch f retries"
    using assms(4) by (cases "com_state (ce_machine (entry_at w index))") auto
  from reject_step [OF assms(1-3) state, where 'be = 'be] show ?thesis
  proof (elim disjE conjE exE)
    fix w' current' operation_id'
    assume loop: "(reject_find dbg w index operation_id epoch :: ('v, 'k, 'en, 'de, 'b, 'be, unit) co_result) =
        reject_find dbg w' index operation_id' epoch"
      and w': "co_mid dbg (cw_owner w') index" "coordinator_wf (ce_machine (entry_at w' index))"
        "ce_pending (entry_at w' index) = None"
        "com_state (ce_machine (entry_at w' index)) = CoDiscovering current' operation_id' epoch None 0"
      and same: "co_balance w' = co_balance w" "length (coo_entries (cw_owner w')) = length (coo_entries (cw_owner w))"
    from reject_step [OF w', where 'be = 'be] show ?thesis
      using co_good_start [OF _ same] by (simp add: loop)
  qed
qed

end
