(* ===== verification/Spec2Isabelle.thy ===== *)
theory Spec2Isabelle
  imports Connection_Timers Bootstrap Broker_Lifecycle Write_Queue Route_Waiting
    Metadata_Owner_Properties Coordinator_Owner_Steps
begin

text \<open>
  A verification library for \<open>kafka-driver\<close>, a Rust driver that owns Kafka connections, broker
  metadata and coordinator routing. The program keeps its policy in deterministic machines without
  I/O (\<open>crates/kafka-driver-core\<close>), its byte-level buffers in \<open>crates/kafka-driver-transport\<close>, and
  joins them to sockets, timers and callers in a reactor (\<open>src/reactor\<close>).

  \<^bold>\<open>The program and its parts.\<close> A connection opens a transport, negotiates API versions, logs in
  (SASL) if it has to, and then carries calls, which are answered in the order they were written. A
  broker machine keeps one such connection alive with backoff, resolving the address of the broker
  again when a connection fails. Bootstrap sweeps the configured endpoints for a first broker. The
  metadata machine decides which metadata query is fetched next and which snapshot is served; the
  metadata owner of the reactor submits the fetches through a broker, turns the responses into
  snapshots and holds the calls, topic views and invalidations that wait for them. The coordinator
  machine does the same for the coordinator of one group or transaction, and the coordinator owner
  keeps one such machine per key. Wait queues hold calls with deadlines; the frame decoder and the write queue cut the byte stream into frames.

  \<^bold>\<open>Conventions.\<close> A machine is a record with a function \<open>apply :: machine \<Rightarrow> input \<Rightarrow> machine \<times> transition\<close>
  that dispatches to one definition per handler, as in the source; \<open>run\<close>, \<open>final\<close>, \<open>outputs\<close>,
  \<open>events\<close> and \<open>open_events\<close> of \<open>Prelude\<close> follow it over a list of inputs. Unsigned integers are words
  of their width, with checked and saturating operations where the source has them; \<open>i32\<close> is \<open>int\<close>;
  \<open>usize\<close> is \<open>nat\<close>; durations and moments are nanoseconds; a \<open>Result\<close> is a sum with the error left; an
  \<open>Option\<close> result of a model function whose source function has none stands for a panic: a failed
  assertion, or an underflow in a debug build (\<open>usize_sub\<close>). Every definition that models code is executable.

  \<^bold>\<open>Foundations.\<close> \<open>Prelude\<close> has the integers, the slice and deque operations and the runs.
  \<open>Contracts\<close> states what components promise as locales: an invariant that every step keeps
  (\<open>machine_invariant\<close>), conservation (\<open>conserving_machine\<close>), identities that are never reused
  (\<open>fenced_machine\<close>), first-in first-out order (\<open>fifo_machine\<close>), release of what was taken
  (\<open>releasing_machine\<close>), simulation of an abstract machine (\<open>simulating_machine\<close>), events recorded in
  the state (\<open>recording_machine\<close>), a measure that decreases (\<open>ranked_machine\<close>), and tables and
  policies; each is interpreted on the machines below and their properties rest on its facts.
  \<open>Ordered_Map\<close> models \<open>BTreeMap\<close>.

  \<^bold>\<open>Identities and requests.\<close> \<open>Identity\<close> models \<open>identity/\<close>, \<open>time.rs\<close>, \<open>endpoint.rs\<close> and \<open>delivery.rs\<close>
  of \<open>kafka-driver-core\<close>; \<open>Capability\<close> models \<open>capability/\<close>; \<open>Request\<close> models the errors, deadlines,
  version selection and policies of \<open>src/request\<close> and \<open>src/response/outcome.rs\<close>.

  \<^bold>\<open>Connections.\<close> \<open>Authentication\<close>, \<open>Session\<close>, \<open>Connection_Parts\<close> and \<open>Connection\<close> model
  \<open>authentication/\<close>, \<open>connection/session/\<close> and \<open>connection/\<close> of \<open>kafka-driver-core\<close>, handler by handler.
  \<open>Connection_Safety\<close> has the invariant of the machine, \<open>Connection_Calls\<close> what it promises about
  calls (settled exactly once, in order and by the response with their correlation, failed with a
  delivery status that says whether the host reported the write, under fresh correlations),
  \<open>Connection_Lifecycle\<close> what it promises about phases, epochs and the login, and
  \<open>Connection_Timers\<close> that no timer is leaked and the trace is faithful.

  \<^bold>\<open>Brokers.\<close> \<open>Directory\<close> and \<open>Resolution\<close> model \<open>directory/\<close>, \<open>resolution/\<close>, \<open>broker_resolution/\<close> and
  \<open>endpoint_dialer/\<close>; \<open>Backoff\<close> and \<open>Broker\<close> model \<open>broker/\<close>; \<open>Bootstrap\<close> models \<open>bootstrap/\<close>.
  \<open>Broker_Lifecycle\<close> shows that the broker machine refines an abstract lifecycle, reconnects only
  after the backoff since the failure of the preceding epoch, uses consecutive epochs and is never stuck; \<open>Resolution\<close> and \<open>Bootstrap\<close> that
  every address and every endpoint is tried once per sweep and that sweeps end.

  \<^bold>\<open>Metadata.\<close> \<open>Snapshot\<close> and \<open>Metadata\<close> model \<open>metadata/\<close> of \<open>kafka-driver-core\<close>, \<open>Metadata_Response\<close>
  models \<open>src/metadata\<close>. \<open>Scan_Room\<close> is the waiting room that three files of
  \<open>src/reactor/metadata\<close> share, \<open>Metadata_Waiting\<close> models \<open>waiting.rs\<close>, \<open>controller_waiting.rs\<close>,
  \<open>topic_waiting.rs\<close> and \<open>invalidation_wait.rs\<close>, and \<open>Metadata_Owner\<close> the owner with \<open>owner.rs\<close>,
  \<open>completion.rs\<close>, the routing files and \<open>invalidation.rs\<close>. \<open>Metadata_Safety\<close> shows that revoked routes
  stay revoked until newer evidence, that the newest answer is served and that queries are fetched in
  order; \<open>Snapshot\<close> which routes a snapshot serves, before and after revocations;
  \<open>Metadata_Response\<close> what an accepted response installs. \<open>Metadata_Owner_Safety\<close> links the
  owner's fetch to the one the machine waits for, gives every waiting call and topic view its query
  and counts the subscribers of invalidations;
  \<open>Metadata_Owner_Runs\<close> proves this for every operation from the contract \<open>owner_room\<close> of the three
  rooms, and \<open>Metadata_Owner_Properties\<close> draws the conclusions for whole runs: nothing is lost or
  answered twice, no call or topic view is stranded, calls leave along live routes, and neither a
  panic nor the error for unexpected effects can occur.

  \<^bold>\<open>Coordinators.\<close> \<open>Coordinator\<close> models \<open>coordinator/\<close> of \<open>kafka-driver-core\<close>; \<open>Coordinator_Safety\<close> shows
  that an invalidated coordinator is served again only on newer evidence, that epochs increase and that
  retries are bounded. \<open>Coordinator_Owner\<close> models \<open>src/reactor/coordinator\<close> and \<open>src/coordinator\<close>: the
  owner of the machines, its waiting calls and invalidations and the requests it sends.
  \<open>Coordinator_Owner_Safety\<close> has the invariant of the owner and \<open>Coordinator_Owner_Steps\<close> shows that
  the loop that fails a discovery no request can be sent for ends after at most two rounds.

  \<^bold>\<open>Queues and buffers.\<close> \<open>Wait_Queue\<close> and \<open>Route_Waiting\<close> model \<open>wait_queue.rs\<close> and \<open>route_waiting.rs\<close> of
  the reactor: a refinement to a plain list, which needs debug assertions, and conservation of calls.
  \<open>Frame\<close> and \<open>Write_Queue\<close> model \<open>kafka-driver-transport\<close>: the decoder does not depend on how the
  stream is cut, the write queue sends frames in order, and what one writes the other decodes.

  \<^bold>\<open>Bounds.\<close> Loops follow the recursion of the source and terminate without fuel, except two: the
  search for a free correlation (\<open>allocate_loop\<close>), which runs once per pending call plus one, as in
  the source, and is shown to succeed; and \<open>reject_find\<close>, a partial function whose result is shown to
  exist. Capacities are arguments; a bound \<open>2 ^ 64\<close> on a capacity is the
  width of \<open>usize\<close>.

  \<^bold>\<open>Parameters.\<close> The version ranges of the wire library, the broker that carries a fetch (trait
  \<open>BrokerRpc\<close>), the entropy of jitter, the heap size of a topic name and the success of an allocation
  are arguments of the definitions that use them. A metadata response is the record of the fields the
  code reads.

  \<^bold>\<open>Not modelled.\<close> The reactor around these parts: the poll loop and command routing of
  \<open>src/reactor/host\<close>, the socket and TLS lanes of \<open>src/reactor/direct_plaintext\<close> with the cluster
  runtime, the adapter to the \<open>bornera\<close> transport, the resolver and SCRAM worker threads and the
  wake-up primitives; they consist of I/O, of threads and of calls into libraries that are not part
  of the sources. The public API, its completion channels, the configuration builders and the
  observation counters; they forward to the parts above. The encoding of requests and the decoding
  of responses, which the wire library does. Debug and Display output. The simulation and probe
  crates, which are test tools.
\<close>

end
